(* ===== verification/Prelude.thy ===== *)
theory Prelude
  imports Main "HOL-Library.Sublist" "HOL-Library.Word" "HOL-Library.Code_Target_Nat"
begin

text \<open>
  The generic part of the library: the collections of rewrite rules the component
  theories fill and use, the result type of fallible Rust functions, and the lemmas
  on lists, options and maps that several components share.
\<close>

section \<open>Collections\<close>

named_theorems text_simps \<open>evaluation of the string functions of the Rust standard library\<close>
named_theorems tok_simps \<open>unfolding of the arms of the shell tokeniser\<close>
named_theorems guard_simps \<open>unfolding of the command guards\<close>
named_theorems lease_simps \<open>unfolding of the pull-request lease steps\<close>
named_theorems crdt_simps \<open>unfolding of the replicated data types\<close>

section \<open>Results\<close>

text \<open>
  \<open>Result<T, E>\<close> is a sum: \<open>Inl\<close> is \<open>Err\<close> and \<open>Inr\<close> is \<open>Ok\<close>.
\<close>

type_synonym ('e, 'a) result = "'e + 'a"

definition is_ok :: "('e, 'a) result \<Rightarrow> bool" where
  "is_ok r = (case r of Inl _ \<Rightarrow> False | Inr _ \<Rightarrow> True)"

lemma is_ok_simps [simp]: "is_ok (Inr x)" "\<not> is_ok (Inl e)"
  by (simp_all add: is_ok_def)

lemma is_ok_iff: "is_ok r \<longleftrightarrow> (\<exists>x. r = Inr x)"
  by (cases r) auto

text \<open>Iteration with \<open>?\<close> in the body, and \<open>collect::<Result<Vec<_>, _>>()\<close>: the first error ends it.\<close>

fun try_fold :: "('s \<Rightarrow> 'a \<Rightarrow> ('e, 's) result) \<Rightarrow> 's \<Rightarrow> 'a list \<Rightarrow> ('e, 's) result" where
  "try_fold f s [] = Inr s"
| "try_fold f s (x # xs) = (case f s x of Inl e \<Rightarrow> Inl e | Inr s' \<Rightarrow> try_fold f s' xs)"

fun try_map :: "('a \<Rightarrow> ('e, 'b) result) \<Rightarrow> 'a list \<Rightarrow> ('e, 'b list) result" where
  "try_map f [] = Inr []"
| "try_map f (x # xs) =
    (case f x of Inl e \<Rightarrow> Inl e | Inr y \<Rightarrow> (case try_map f xs of Inl e \<Rightarrow> Inl e | Inr ys \<Rightarrow> Inr (y # ys)))"

definition and_then :: "('e, 'a) result \<Rightarrow> ('a \<Rightarrow> ('e, 'b) result) \<Rightarrow> ('e, 'b) result" where
  "and_then r f = (case r of Inl e \<Rightarrow> Inl e | Inr x \<Rightarrow> f x)"

lemma and_then_simps [simp]: "and_then (Inl e) f = Inl e" "and_then (Inr x) f = f x"
  by (simp_all add: and_then_def)

lemma try_fold_append:
  "try_fold f s (xs @ ys) = and_then (try_fold f s xs) (\<lambda>s'. try_fold f s' ys)"
  by (induction xs arbitrary: s) (auto split: sum.splits)

lemma try_map_Inr: "try_map f xs = Inr ys \<longleftrightarrow> list_all2 (\<lambda>x y. f x = Inr y) xs ys"
proof (induction xs arbitrary: ys)
  case (Cons x xs)
  then show ?case
    by (cases ys; cases "f x"; cases "try_map f xs") (auto simp flip: Cons.IH)
qed auto

lemma try_fold_invariant:
  assumes "try_fold f s xs = Inr s'" "I s" "\<And>t x t'. I t \<Longrightarrow> f t x = Inr t' \<Longrightarrow> I t'"
  shows "I s'"
  using assms by (induction xs arbitrary: s) (auto split: sum.splits)

section \<open>Lists\<close>

text \<open>\<open>v.last_mut()\<close>: the function is applied to the last element, if there is one.\<close>

definition map_last :: "('a \<Rightarrow> 'a) \<Rightarrow> 'a list \<Rightarrow> 'a list" where
  "map_last f xs = (if xs = [] then [] else butlast xs @ [f (last xs)])"

lemma map_last_Nil [simp]: "map_last f [] = []"
  by (simp add: map_last_def)

lemma map_last_snoc [simp]: "map_last f (xs @ [x]) = xs @ [f x]"
  by (simp add: map_last_def)

lemma map_last_single [simp]: "map_last f [x] = [f x]"
  by (simp add: map_last_def)

lemma map_last_Cons2 [simp]: "map_last f (x # y # zs) = x # map_last f (y # zs)"
  by (simp add: map_last_def)

lemma length_map_last [simp]: "length (map_last f xs) = length xs"
  by (cases xs rule: rev_cases) auto

lemma map_last_eq_Nil [simp]: "map_last f xs = [] \<longleftrightarrow> xs = []"
  by (simp add: map_last_def)

lemma map_map_last_same:
  assumes "\<And>x. g (f x) = g x"
  shows "map g (map_last f xs) = map g xs"
  using assms by (cases xs rule: rev_cases) auto

lemma set_map_last_subset: "set (map_last f xs) \<subseteq> set xs \<union> f ` set xs"
  by (cases xs rule: rev_cases) auto

text \<open>\<open>v.get_mut(i)\<close>: the function is applied to the element at \<open>i\<close>, if it is in range.\<close>

definition map_nth :: "nat \<Rightarrow> ('a \<Rightarrow> 'a) \<Rightarrow> 'a list \<Rightarrow> 'a list" where
  "map_nth i f xs = (if i < length xs then xs[i := f (xs ! i)] else xs)"

lemma length_map_nth [simp]: "length (map_nth i f xs) = length xs"
  by (simp add: map_nth_def)

lemma map_nth_eq_Nil [simp]: "map_nth i f xs = [] \<longleftrightarrow> xs = []"
  by (simp add: map_nth_def)

lemma map_map_nth_same:
  assumes "\<And>x. g (f x) = g x"
  shows "map g (map_nth i f xs) = map g xs"
  using assms
  by (simp add: map_nth_def map_update) (metis list_update_id nth_map)

lemma set_map_nth_subset: "set (map_nth i f xs) \<subseteq> set xs \<union> f ` set xs"
proof (cases "i < length xs")
  case True
  then show ?thesis
    using set_update_subset_insert [of xs i "f (xs ! i)"] by (auto simp: map_nth_def)
qed (simp add: map_nth_def)

lemma list_all_map_nth:
  assumes "list_all P xs" "\<And>x. P x \<Longrightarrow> P (f x)"
  shows "list_all P (map_nth i f xs)"
  using assms set_map_nth_subset [of i f xs] by (fastforce simp: list_all_iff)

lemma list_all_map_last:
  assumes "list_all P xs" "\<And>x. P x \<Longrightarrow> P (f x)"
  shows "list_all P (map_last f xs)"
  using assms set_map_last_subset [of f xs] by (fastforce simp: list_all_iff)

lemma length_dropWhile_tl [simp]: "length (tl (dropWhile P xs)) \<le> length xs"
  by (metis diff_le_self le_trans length_dropWhile_le length_tl)

lemma length_dropWhile_minus [simp]: "length (dropWhile P xs) - Suc 0 \<le> length xs"
  by (metis length_dropWhile_tl length_tl One_nat_def)

lemma length_dropWhile_less:
  assumes "xs \<noteq> []"
  shows "length (tl (dropWhile P xs)) < length xs"
proof -
  have "length (dropWhile P xs) \<le> length xs" "0 < length xs"
    using length_dropWhile_le [of P xs] assms by simp_all
  then have "length (dropWhile P xs) - 1 < length xs" by linarith
  then show ?thesis by simp
qed

lemma takeWhile_append_stop:
  assumes "\<forall>x \<in> set xs. P x" "\<not> P y"
  shows "takeWhile P (xs @ y # ys) = xs" "dropWhile P (xs @ y # ys) = y # ys"
  using assms by (induction xs) auto

lemma list_all_takeWhile: "list_all P (takeWhile P xs)"
  by (metis list_all_iff set_takeWhileD)

text \<open>Looking a suffix up as \<open>chars.get(k)\<close> does.\<close>

definition get :: "'a list \<Rightarrow> nat \<Rightarrow> 'a option" where
  "get xs k = (if k < length xs then Some (xs ! k) else None)"

lemma get_Nil [simp]: "get [] k = None"
  by (simp add: get_def)

lemma get_Cons_0 [simp]: "get (x # xs) 0 = Some x"
  by (simp add: get_def)

lemma get_Cons_Suc [simp]: "get (x # xs) (Suc k) = get xs k"
  by (simp add: get_def)

lemma get_0: "get xs 0 = (case xs of [] \<Rightarrow> None | x # _ \<Rightarrow> Some x)"
  by (cases xs) simp_all

text \<open>The first element of a list that satisfies a predicate is \<open>List.find\<close>.\<close>

lemma find_SomeD:
  assumes "List.find P xs = Some x"
  shows "x \<in> set xs" "P x"
  using assms by (auto simp: find_Some_iff in_set_conv_nth)

end
