(* ===== verification/Rust_Text.thy ===== *)
theory Rust_Text
  imports Prelude
begin

text \<open>
  Strings of the Rust programs and the part of \<open>core::str\<close> and \<open>core::char\<close> they use.
  A \<open>char\<close> is its Unicode scalar value and a \<open>String\<close>, \<open>&str\<close> or \<open>&[char]\<close> the list
  of them.  Byte counts go through \<^term>\<open>utf8_len\<close>-style functions, never through the
  length of the list.  Full Unicode alphanumerics need the Unicode tables, which the
  programs only call: the function is a parameter where the code relies on it.
\<close>

section \<open>Characters\<close>

type_synonym rchar = nat
type_synonym rstring = "rchar list"

definition lit :: "string \<Rightarrow> rstring" where
  "lit s = map of_char s"

lemma lit_Nil [simp]: "lit [] = []"
  and lit_Cons [simp]: "lit (c # cs) = of_char c # lit cs"
  by (simp_all add: lit_def)

abbreviation ch_tab :: rchar where "ch_tab \<equiv> 9"
abbreviation ch_nl :: rchar where "ch_nl \<equiv> 10"
abbreviation ch_cr :: rchar where "ch_cr \<equiv> 13"
abbreviation ch_space :: rchar where "ch_space \<equiv> 32"
abbreviation ch_dquote :: rchar where "ch_dquote \<equiv> 34"
abbreviation ch_hash :: rchar where "ch_hash \<equiv> 35"
abbreviation ch_dollar :: rchar where "ch_dollar \<equiv> 36"
abbreviation ch_amp :: rchar where "ch_amp \<equiv> 38"
abbreviation ch_squote :: rchar where "ch_squote \<equiv> 39"
abbreviation ch_lparen :: rchar where "ch_lparen \<equiv> 40"
abbreviation ch_rparen :: rchar where "ch_rparen \<equiv> 41"
abbreviation ch_plus :: rchar where "ch_plus \<equiv> 43"
abbreviation ch_dash :: rchar where "ch_dash \<equiv> 45"
abbreviation ch_dot :: rchar where "ch_dot \<equiv> 46"
abbreviation ch_slash :: rchar where "ch_slash \<equiv> 47"
abbreviation ch_colon :: rchar where "ch_colon \<equiv> 58"
abbreviation ch_semi :: rchar where "ch_semi \<equiv> 59"
abbreviation ch_lt :: rchar where "ch_lt \<equiv> 60"
abbreviation ch_eq :: rchar where "ch_eq \<equiv> 61"
abbreviation ch_gt :: rchar where "ch_gt \<equiv> 62"
abbreviation ch_at :: rchar where "ch_at \<equiv> 64"
abbreviation ch_backslash :: rchar where "ch_backslash \<equiv> 92"
abbreviation ch_underscore :: rchar where "ch_underscore \<equiv> 95"
abbreviation ch_backtick :: rchar where "ch_backtick \<equiv> 96"
abbreviation ch_lbrace :: rchar where "ch_lbrace \<equiv> 123"
abbreviation ch_pipe :: rchar where "ch_pipe \<equiv> 124"
abbreviation ch_rbrace :: rchar where "ch_rbrace \<equiv> 125"

text \<open>\<open>char::is_whitespace\<close>: the characters with the property \<open>White_Space\<close>.\<close>

definition is_whitespace :: "rchar \<Rightarrow> bool" where
  "is_whitespace c = (9 \<le> c \<and> c \<le> 13 \<or> c = 32 \<or> c = 133 \<or> c = 160 \<or> c = 5760 \<or>
     8192 \<le> c \<and> c \<le> 8202 \<or> c = 8232 \<or> c = 8233 \<or> c = 8239 \<or> c = 8287 \<or> c = 12288)"

definition is_ascii_digit :: "rchar \<Rightarrow> bool" where
  "is_ascii_digit c = (48 \<le> c \<and> c \<le> 57)"

definition is_ascii_uppercase :: "rchar \<Rightarrow> bool" where
  "is_ascii_uppercase c = (65 \<le> c \<and> c \<le> 90)"

definition is_ascii_lowercase :: "rchar \<Rightarrow> bool" where
  "is_ascii_lowercase c = (97 \<le> c \<and> c \<le> 122)"

definition is_ascii_alphabetic :: "rchar \<Rightarrow> bool" where
  "is_ascii_alphabetic c = (is_ascii_uppercase c \<or> is_ascii_lowercase c)"

definition is_ascii_alphanumeric :: "rchar \<Rightarrow> bool" where
  "is_ascii_alphanumeric c = (is_ascii_alphabetic c \<or> is_ascii_digit c)"

definition is_ascii_hexdigit :: "rchar \<Rightarrow> bool" where
  "is_ascii_hexdigit c = (is_ascii_digit c \<or> 65 \<le> c \<and> c \<le> 70 \<or> 97 \<le> c \<and> c \<le> 102)"

definition is_ascii_control :: "rchar \<Rightarrow> bool" where
  "is_ascii_control c = (c < 32 \<or> c = 127)"

definition is_ascii_whitespace :: "rchar \<Rightarrow> bool" where
  "is_ascii_whitespace c = (c = 32 \<or> c = 9 \<or> c = 10 \<or> c = 12 \<or> c = 13)"

definition to_ascii_lower :: "rchar \<Rightarrow> rchar" where
  "to_ascii_lower c = (if is_ascii_uppercase c then c + 32 else c)"

lemmas ascii_defs = is_whitespace_def is_ascii_digit_def is_ascii_uppercase_def
  is_ascii_lowercase_def is_ascii_alphabetic_def is_ascii_alphanumeric_def
  is_ascii_hexdigit_def is_ascii_control_def is_ascii_whitespace_def to_ascii_lower_def

declare ascii_defs [text_simps]

text \<open>\<open>char::to_digit(radix)\<close> for radices up to sixteen.\<close>

definition to_digit :: "nat \<Rightarrow> rchar \<Rightarrow> nat option" where
  "to_digit radix c =
    (let d = (if is_ascii_digit c then c - 48
              else if 97 \<le> c \<and> c \<le> 102 then c - 87
              else if 65 \<le> c \<and> c \<le> 70 then c - 55 else radix)
     in if d < radix then Some d else None)"

text \<open>\<open>char::from_u32\<close>: surrogates and values above U+10FFFF are no characters.\<close>

definition from_u32 :: "nat \<Rightarrow> rchar option" where
  "from_u32 n = (if n < 55296 \<or> 57344 \<le> n \<and> n \<le> 1114111 then Some n else None)"

text \<open>\<open>char::is_alphanumeric\<close>: exact on ASCII, the parameter \<open>u\<close> gives the other planes.\<close>

definition is_alphanumeric :: "(rchar \<Rightarrow> bool) \<Rightarrow> rchar \<Rightarrow> bool" where
  "is_alphanumeric u c = (if c < 128 then is_ascii_alphanumeric c else u c)"

definition utf8_len_char :: "rchar \<Rightarrow> nat" where
  "utf8_len_char c = (if c < 128 then 1 else if c < 2048 then 2 else if c < 65536 then 3 else 4)"

lemma utf8_len_char_bounds: "0 < utf8_len_char c" "utf8_len_char c \<le> 4"
  by (simp_all add: utf8_len_char_def)

section \<open>Strings\<close>

text \<open>\<open>s.len()\<close>, in bytes.\<close>

definition utf8_len :: "rstring \<Rightarrow> nat" where
  "utf8_len s = sum_list (map utf8_len_char s)"

lemma utf8_len_simps [simp]:
  "utf8_len [] = 0"
  "utf8_len (c # s) = utf8_len_char c + utf8_len s"
  "utf8_len (s @ t) = utf8_len s + utf8_len t"
  by (simp_all add: utf8_len_def)

lemma length_le_utf8_len: "length s \<le> utf8_len s"
proof (induction s)
  case (Cons c s)
  then show ?case using utf8_len_char_bounds(1) [of c] by simp
qed simp

lemma utf8_len_eq_0 [simp]: "utf8_len s = 0 \<longleftrightarrow> s = []"
  using length_le_utf8_len [of s] by auto

definition starts_with :: "rstring \<Rightarrow> rstring \<Rightarrow> bool" where
  "starts_with p s = prefix p s"

definition ends_with :: "rstring \<Rightarrow> rstring \<Rightarrow> bool" where
  "ends_with p s = suffix p s"

definition strip_prefix :: "rstring \<Rightarrow> rstring \<Rightarrow> rstring option" where
  "strip_prefix p s = (if prefix p s then Some (drop (length p) s) else None)"

definition strip_suffix :: "rstring \<Rightarrow> rstring \<Rightarrow> rstring option" where
  "strip_suffix p s = (if suffix p s then Some (take (length s - length p) s) else None)"

lemma strip_prefix_Some: "strip_prefix p s = Some r \<longleftrightarrow> s = p @ r"
  by (auto simp: strip_prefix_def prefix_def)

lemma strip_suffix_Some: "strip_suffix p s = Some r \<longleftrightarrow> s = r @ p"
  by (auto simp: strip_suffix_def suffix_def)

text \<open>\<open>s.contains(p)\<close> for a string \<open>p\<close>.\<close>

fun str_contains :: "rstring \<Rightarrow> rstring \<Rightarrow> bool" where
  "str_contains p [] = (p = [])"
| "str_contains p (c # s) = (prefix p (c # s) \<or> str_contains p s)"

lemma str_contains_iff: "str_contains p s \<longleftrightarrow> (\<exists>a b. s = a @ p @ b)"
proof (induction s)
  case (Cons c s)
  show ?case
  proof
    assume "str_contains p (c # s)"
    then show "\<exists>a b. c # s = a @ p @ b"
      using Cons.IH by (auto simp: prefix_def intro: exI [of _ "[]"]) (metis append_Cons)
  next
    assume "\<exists>a b. c # s = a @ p @ b"
    then obtain a b where ab: "c # s = a @ p @ b" by blast
    show "str_contains p (c # s)"
    proof (cases a)
      case Nil
      then have "prefix p (c # s)" using ab by (auto intro: prefixI)
      then show ?thesis by simp
    next
      case (Cons d a')
      then show ?thesis using ab Cons.IH by auto
    qed
  qed
qed auto

text \<open>\<open>s.split_once(c)\<close> and \<open>s.rsplit_once(c)\<close> for a character \<open>c\<close>.\<close>

definition split_once :: "rchar \<Rightarrow> rstring \<Rightarrow> (rstring \<times> rstring) option" where
  "split_once c s =
    (case dropWhile (\<lambda>x. x \<noteq> c) s of [] \<Rightarrow> None
     | _ # r \<Rightarrow> Some (takeWhile (\<lambda>x. x \<noteq> c) s, r))"

definition rsplit_once :: "rchar \<Rightarrow> rstring \<Rightarrow> (rstring \<times> rstring) option" where
  "rsplit_once c s =
    (case dropWhile (\<lambda>x. x \<noteq> c) (rev s) of [] \<Rightarrow> None
     | _ # r \<Rightarrow> Some (rev r, rev (takeWhile (\<lambda>x. x \<noteq> c) (rev s))))"

lemma split_once_Some:
  assumes "split_once c s = Some (a, b)"
  shows "s = a @ c # b" "c \<notin> set a"
proof -
  obtain d where d: "dropWhile (\<lambda>x. x \<noteq> c) s = d # b" and a: "a = takeWhile (\<lambda>x. x \<noteq> c) s"
    using assms by (auto simp: split_once_def split: list.splits)
  then have "d = c"
    using hd_dropWhile [of "\<lambda>x. x \<noteq> c" s] by simp
  then have *: "dropWhile (\<lambda>x. x \<noteq> c) s = c # b" using d by simp
  show "s = a @ c # b" using takeWhile_dropWhile_id [of "\<lambda>x. x \<noteq> c" s] * a by simp
  show "c \<notin> set a" using a set_takeWhileD by fastforce
qed

lemma split_once_None: "split_once c s = None \<longleftrightarrow> c \<notin> set s"
proof -
  have "dropWhile (\<lambda>x. x \<noteq> c) s = [] \<longleftrightarrow> c \<notin> set s"
    by (auto simp: dropWhile_eq_Nil_conv)
  then show ?thesis by (cases "dropWhile (\<lambda>x. x \<noteq> c) s") (auto simp: split_once_def simp del: dropWhile_eq_Nil_conv)
qed

text \<open>\<open>s.split(p)\<close> for a predicate on characters: never empty.\<close>

fun split_on :: "(rchar \<Rightarrow> bool) \<Rightarrow> rstring \<Rightarrow> rstring list" where
  "split_on p [] = [[]]"
| "split_on p (c # s) =
    (if p c then [] # split_on p s
     else (case split_on p s of [] \<Rightarrow> [[c]] | w # ws \<Rightarrow> (c # w) # ws))"

lemma split_on_not_Nil [simp]: "split_on p s \<noteq> []"
  by (induction s) (auto split: list.splits)

text \<open>\<open>s.split_whitespace()\<close>: the non-empty parts.\<close>

definition split_whitespace :: "rstring \<Rightarrow> rstring list" where
  "split_whitespace s = filter (\<lambda>w. w \<noteq> []) (split_on is_whitespace s)"

definition trim_start_matches :: "(rchar \<Rightarrow> bool) \<Rightarrow> rstring \<Rightarrow> rstring" where
  "trim_start_matches p s = dropWhile p s"

definition trim_end_matches :: "(rchar \<Rightarrow> bool) \<Rightarrow> rstring \<Rightarrow> rstring" where
  "trim_end_matches p s = rev (dropWhile p (rev s))"

definition trim :: "rstring \<Rightarrow> rstring" where
  "trim s = trim_end_matches is_whitespace (trim_start_matches is_whitespace s)"

text \<open>\<open>parts.join(sep)\<close>.\<close>

fun join :: "rstring \<Rightarrow> rstring list \<Rightarrow> rstring" where
  "join sep [] = []"
| "join sep [w] = w"
| "join sep (w # v # ws) = w @ sep @ join sep (v # ws)"

definition to_ascii_lowercase :: "rstring \<Rightarrow> rstring" where
  "to_ascii_lowercase s = map to_ascii_lower s"

definition eq_ignore_ascii_case :: "rstring \<Rightarrow> rstring \<Rightarrow> bool" where
  "eq_ignore_ascii_case s t = (to_ascii_lowercase s = to_ascii_lowercase t)"

text \<open>The last part of \<open>s.rsplit(c)\<close>: what follows the last \<open>c\<close>, or all of \<open>s\<close>.\<close>

definition after_last :: "rchar \<Rightarrow> rstring \<Rightarrow> rstring" where
  "after_last c s = rev (takeWhile (\<lambda>x. x \<noteq> c) (rev s))"

lemma after_last_id: "c \<notin> set s \<Longrightarrow> after_last c s = s"
  by (metis (mono_tags, lifting) after_last_def rev_rev_ident set_rev takeWhile_eq_all_conv)

lemma length_split_once:
  assumes "split_once c s = Some (a, b)"
  shows "length a < length s" "length b < length s"
  using split_once_Some(1) [OF assms] by simp_all

declare starts_with_def [text_simps] ends_with_def [text_simps]
  strip_prefix_def [text_simps] strip_suffix_def [text_simps]
  split_once_def [text_simps] rsplit_once_def [text_simps]
  to_ascii_lowercase_def [text_simps] eq_ignore_ascii_case_def [text_simps]
  after_last_def [text_simps] trim_start_matches_def [text_simps]
  trim_end_matches_def [text_simps] trim_def [text_simps]

end
