(* ===== verification/Shell_Words.thy ===== *)
theory Shell_Words
  imports Rust_Text
begin

text \<open>
  The word-level part of \<open>pre_tool_use/shell.rs\<close>: the tables of wrappers, shell tools and
  reserved words, the program word of a command, shell quoting of an argument vector, and
  the scanners for ANSI-C strings, heredoc delimiters, heredoc bodies and command
  substitutions.  Where the code walks an index \<open>i\<close> over \<open>chars\<close>, a definition here takes
  the suffix \<open>chars[i..]\<close> and returns the suffix at the new index, or an offset where the
  code returns an index.
\<close>

section \<open>Tables\<close>

definition wrappers :: "(rstring \<times> rstring list \<times> nat) list" where
  "wrappers =
    [(lit ''env'', [lit ''-u'', lit ''--unset'', lit ''-C'', lit ''--chdir'', lit ''-S'', lit ''--split-string''], 0),
     (lit ''exec'', [lit ''-a''], 0),
     (lit ''command'', [], 0),
     (lit ''nohup'', [], 0),
     (lit ''time'', [], 0),
     (lit ''nice'', [lit ''-n'', lit ''--adjustment''], 0),
     (lit ''timeout'', [lit ''-s'', lit ''--signal'', lit ''-k'', lit ''--kill-after''], 1),
     (lit ''sudo'', [lit ''-u'', lit ''-g'', lit ''-C'', lit ''-D'', lit ''-h'', lit ''-p'', lit ''-r'', lit ''-t'', lit ''-U''], 0)]"

definition shell_tools :: "rstring list" where
  "shell_tools = [lit ''bash'', lit ''powershell'', lit ''monitor'', lit ''shell'',
     lit ''exec_command'', lit ''shell_command'']"

definition is_shell_tool :: "rstring \<Rightarrow> bool" where
  "is_shell_tool tool_name = list_ex (\<lambda>t. eq_ignore_ascii_case t tool_name) shell_tools"

definition reserved :: "rstring list" where
  "reserved = [lit ''!'', lit ''{'', lit ''}'', lit ''if'', lit ''then'', lit ''elif'', lit ''else'',
     lit ''while'', lit ''until'', lit ''do'']"

section \<open>The program word\<close>

definition is_assignment :: "rstring \<Rightarrow> bool" where
  "is_assignment word =
    (case split_once ch_eq word of None \<Rightarrow> False
     | Some (name, _) \<Rightarrow> name \<noteq> [] \<and>
         list_all (\<lambda>c. c = ch_underscore \<or> is_ascii_alphanumeric c) name \<and>
         \<not> is_ascii_digit (hd name))"

definition basename :: "rstring \<Rightarrow> rstring" where
  "basename word = after_last ch_slash word"

text \<open>The inner loop of \<open>program\<close>: the options and positionals of a wrapper.\<close>

fun skip_wrapper :: "rstring list \<Rightarrow> nat \<Rightarrow> rstring list \<Rightarrow> rstring list" where
  "skip_wrapper value_opts skip [] = []"
| "skip_wrapper value_opts skip (w # ws) =
    (if w \<in> set value_opts then skip_wrapper value_opts skip (tl ws)
     else if starts_with (lit ''-'') w \<or> is_assignment w then skip_wrapper value_opts skip ws
     else if 0 < skip then skip_wrapper value_opts (skip - 1) ws
     else w # ws)"

lemma suffix_skip_wrapper: "suffix (skip_wrapper vo k ws) ws"
proof (induction vo k ws rule: skip_wrapper.induct)
  case (2 vo k w ws)
  have "suffix (tl ws) (w # ws)" by (metis suffix_ConsI suffix_tl)
  then show ?case using 2 by (auto intro: suffix_ConsI suffix_order.trans)
qed simp

lemma length_skip_wrapper: "length (skip_wrapper vo k ws) \<le> length ws"
  by (rule suffix_length_le [OF suffix_skip_wrapper])

definition find_wrapper :: "rstring \<Rightarrow> (rstring \<times> rstring list \<times> nat) option" where
  "find_wrapper w = List.find (\<lambda>x. fst x = basename w) wrappers"

function program :: "rstring list \<Rightarrow> rstring list option" where
  "program [] = None"
| "program (w # ws) =
    (if w \<in> set reserved \<or> is_assignment w then program ws
     else (case find_wrapper w of
             None \<Rightarrow> Some (w # ws)
           | Some (_, value_opts, positionals) \<Rightarrow> program (skip_wrapper value_opts positionals ws)))"
  by pat_completeness auto
termination
  by (relation "measure length") (auto simp: less_Suc_eq_le length_skip_wrapper)

text \<open>The program is a suffix of the words, it is not a wrapper and not a reserved word.\<close>

lemma program_suffix: "program ws = Some p \<Longrightarrow> suffix p ws \<and> p \<noteq> []"
proof (induction ws rule: program.induct)
  case (2 w ws)
  show ?case
    using 2 suffix_skip_wrapper
    by (fastforce split: if_splits option.splits intro: suffix_ConsI suffix_order.trans)
qed simp

lemma program_head:
  "program ws = Some (p # ps) \<Longrightarrow>
     p \<notin> set reserved \<and> \<not> is_assignment p \<and> find_wrapper p = None"
proof (induction ws rule: program.induct)
  case (2 w ws)
  show ?case
  proof (cases "w \<in> set reserved \<or> is_assignment w")
    case True
    then show ?thesis using 2 by simp
  next
    case False
    then show ?thesis using 2 by (cases "find_wrapper w") (auto split: prod.splits)
  qed
qed simp

section \<open>Quoting an argument vector\<close>

definition argv_safe :: "rchar \<Rightarrow> bool" where
  "argv_safe c = (is_ascii_alphanumeric c \<or> c \<in> set (lit ''_@%+=:,./-''))"

text \<open>\<open>a.replace('\'', r"'\''")\<close>\<close>

fun escape_squotes :: "rstring \<Rightarrow> rstring" where
  "escape_squotes [] = []"
| "escape_squotes (c # s) =
    (if c = ch_squote then [ch_squote, ch_backslash, ch_squote, ch_squote] @ escape_squotes s
     else c # escape_squotes s)"

definition quote_arg :: "rstring \<Rightarrow> rstring" where
  "quote_arg a =
    (if a \<noteq> [] \<and> list_all argv_safe a then a else ch_squote # escape_squotes a @ [ch_squote])"

definition join_argv :: "rstring list \<Rightarrow> rstring" where
  "join_argv args = join (lit '' '') (map quote_arg args)"

section \<open>ANSI-C strings\<close>

text \<open>The offset of the closing quote in the text after the opening one.\<close>

fun ansi_c_close :: "rstring \<Rightarrow> nat option" where
  "ansi_c_close [] = None"
| "ansi_c_close (c # cs) =
    (if c = ch_backslash then
       (case cs of [] \<Rightarrow> None | _ # cs' \<Rightarrow> map_option (\<lambda>k. k + 2) (ansi_c_close cs'))
     else if c = ch_squote then Some 0
     else map_option Suc (ansi_c_close cs))"

lemma ansi_c_close_bound: "ansi_c_close cs = Some k \<Longrightarrow> k < length cs \<and> cs ! k = ch_squote"
proof (induction cs arbitrary: k rule: ansi_c_close.induct)
  case (2 c cs)
  show ?case
  proof (cases "c = ch_backslash")
    case True
    then show ?thesis using 2 by (cases cs) auto
  next
    case False
    then show ?thesis using 2 by (auto split: if_splits)
  qed
qed simp

text \<open>Digits are read with the saturating 32-bit arithmetic of the source.\<close>

definition u32_max :: nat where "u32_max = 4294967295"

definition sat_u32 :: "nat \<Rightarrow> nat" where "sat_u32 n = min n u32_max"

fun radix_loop :: "nat \<Rightarrow> nat \<Rightarrow> nat option \<Rightarrow> rstring \<Rightarrow> nat option \<times> rstring" where
  "radix_loop radix m v [] = (v, [])"
| "radix_loop radix m v (c # cs) =
    (case (if m = 0 then None else to_digit radix c) of None \<Rightarrow> (v, c # cs)
     | Some d \<Rightarrow> radix_loop radix (m - 1)
         (Some (sat_u32 (sat_u32 ((case v of None \<Rightarrow> 0 | Some x \<Rightarrow> x) * radix) + d))) cs)"

definition radix_digits :: "rstring \<Rightarrow> nat \<Rightarrow> nat \<Rightarrow> nat option \<times> rstring" where
  "radix_digits cs radix mx = radix_loop radix mx None cs"

lemma length_radix_loop: "length (snd (radix_loop r m v cs)) \<le> length cs"
proof (induction r m v cs rule: radix_loop.induct)
  case (2 r m v c cs)
  then show ?case by (cases "to_digit r c") (auto intro: le_SucI)
qed auto

lemma length_radix_digits: "radix_digits cs r m = (v, cs') \<Longrightarrow> length cs' \<le> length cs"
  using length_radix_loop [of r m None cs] by (simp add: radix_digits_def)

definition ansi_simple :: "rchar \<Rightarrow> rchar option" where
  "ansi_simple e =
    (if e = of_char CHR ''a'' then Some 7
     else if e = of_char CHR ''b'' then Some 8
     else if e = of_char CHR ''e'' \<or> e = of_char CHR ''E'' then Some 27
     else if e = of_char CHR ''f'' then Some 12
     else if e = of_char CHR ''n'' then Some ch_nl
     else if e = of_char CHR ''r'' then Some ch_cr
     else if e = of_char CHR ''t'' then Some ch_tab
     else if e = of_char CHR ''v'' then Some 11
     else if e = ch_backslash \<or> e = ch_squote \<or> e = ch_dquote \<or> e = of_char CHR ''?'' then Some e
     else None)"

text \<open>The numeric escapes: the code point and the rest after it.\<close>

definition ansi_code :: "rchar \<Rightarrow> rstring \<Rightarrow> nat option \<times> rstring" where
  "ansi_code e cs =
    (if e = of_char CHR ''x'' then radix_digits cs 16 2
     else if e = of_char CHR ''u'' then radix_digits cs 16 4
     else if e = of_char CHR ''U'' then radix_digits cs 16 8
     else if 48 \<le> e \<and> e \<le> 55 then radix_digits (e # cs) 8 3
     else if e = of_char CHR ''c'' then
       (case cs of [] \<Rightarrow> (None, []) | x # cs' \<Rightarrow> (Some (x mod 32), cs'))
     else (None, cs))"

lemma radix_digits_octal:
  assumes "48 \<le> e" "e \<le> 55"
  shows "length (snd (radix_digits (e # cs) 8 3)) \<le> length cs"
proof -
  have "to_digit 8 e = Some (e - 48)"
    using assms by (simp add: to_digit_def is_ascii_digit_def Let_def)
  then show ?thesis
    using length_radix_loop by (simp add: radix_digits_def)
qed

lemma length_ansi_code: "length (snd (ansi_code e cs)) \<le> length cs"
  using length_radix_loop [of 16 2 None cs] length_radix_loop [of 16 4 None cs]
    length_radix_loop [of 16 8 None cs] radix_digits_octal [of e cs]
  by (auto simp: ansi_code_def radix_digits_def split: list.splits)

lemma ansi_code_decreases: "(v, cs') = ansi_code e cs \<Longrightarrow> length cs' < Suc (Suc (length cs))"
  by (metis length_ansi_code le_imp_less_Suc less_SucI snd_conv)

function ansi_c_decode :: "rstring \<Rightarrow> rstring" where
  "ansi_c_decode [] = []"
| "ansi_c_decode (c # body) =
    (if c \<noteq> ch_backslash then c # ansi_c_decode body
     else (case body of [] \<Rightarrow> [ch_backslash]
           | e # cs \<Rightarrow>
               (case ansi_simple e of Some d \<Rightarrow> d # ansi_c_decode cs
                | None \<Rightarrow>
                    (case ansi_code e cs of
                       (Some code, cs') \<Rightarrow>
                         (case from_u32 code of Some ch \<Rightarrow> ch | None \<Rightarrow> 65533) # ansi_c_decode cs'
                     | (None, cs') \<Rightarrow> ch_backslash # e # ansi_c_decode cs'))))"
  by pat_completeness auto
termination
  by (relation "measure length") (auto dest: ansi_code_decreases)

end
