(* ===== verification/Shell_Scan.thy ===== *)
theory Shell_Scan
  imports Shell_Words
begin

text \<open>
  The scanners of \<open>pre_tool_use/shell.rs\<close> that look past one token: heredoc delimiters and
  bodies, and the explicit-stack search for the parenthesis that closes a command
  substitution.
\<close>

section \<open>Heredocs\<close>

definition delim_end :: "rchar \<Rightarrow> bool" where
  "delim_end d = (is_whitespace d \<or> d \<in> set (lit '';&|()<>''))"

definition delim_quote :: "rchar \<Rightarrow> bool" where
  "delim_quote d = (d = ch_squote \<or> d = ch_dquote \<or> d = ch_backslash)"

text \<open>The text of the delimiter word of the \<open><<\<close> at the head of \<open>cs\<close>, and its strip flag.\<close>

definition delim_start :: "rstring \<Rightarrow> bool \<times> rstring" where
  "delim_start cs =
    (let r = drop 2 cs; strip = (get r 0 = Some ch_dash)
     in (strip, dropWhile (\<lambda>c. c = ch_space \<or> c = ch_tab) (if strip then tl r else r)))"

definition delim_quoted :: "rstring \<Rightarrow> bool" where
  "delim_quoted cs = list_ex delim_quote (takeWhile (\<lambda>d. \<not> delim_end d) (snd (delim_start cs)))"

definition heredoc_delim :: "rstring \<Rightarrow> (rstring \<times> bool) \<times> rstring" where
  "heredoc_delim cs =
    (let (strip, r) = delim_start cs
     in ((filter (\<lambda>d. \<not> delim_quote d) (takeWhile (\<lambda>d. \<not> delim_end d) r), strip),
         dropWhile (\<lambda>d. \<not> delim_end d) r))"

lemma length_delim_start: "length (snd (delim_start cs)) \<le> length cs - 2"
proof -
  have "length (dropWhile P (tl r)) \<le> length r" for P and r :: rstring
    by (rule order_trans [OF length_dropWhile_le]) simp
  from this [of _ "drop 2 cs"] length_dropWhile_le [of _ "drop 2 cs"]
  show ?thesis by (auto simp: delim_start_def Let_def)
qed

lemma length_heredoc_delim:
  assumes "heredoc_delim cs = (d, cs')"
  shows "length cs' \<le> length cs - 2"
proof -
  have "cs' = dropWhile (\<lambda>d. \<not> delim_end d) (snd (delim_start cs))"
    using assms by (auto simp: heredoc_delim_def Let_def split: prod.splits)
  then show ?thesis
    using length_delim_start [of cs] length_dropWhile_le order_trans by metis
qed

text \<open>The line at the head of a suffix and what follows its newline.\<close>

definition next_line :: "rstring \<Rightarrow> rstring \<times> rstring" where
  "next_line cs = (takeWhile (\<lambda>x. x \<noteq> ch_nl) cs, tl (dropWhile (\<lambda>x. x \<noteq> ch_nl) cs))"

lemma length_next_line:
  "length (snd (next_line cs)) \<le> length cs"
  "cs \<noteq> [] \<Longrightarrow> length (snd (next_line cs)) < length cs"
  using length_dropWhile_tl length_dropWhile_less by (simp_all add: next_line_def)

lemma length_next_line_Cons [simp]: "length (snd (next_line (c # cs))) < Suc (length cs)"
  using length_next_line(2) [of "c # cs"] by simp

definition heredoc_line :: "bool \<Rightarrow> rstring \<Rightarrow> rstring" where
  "heredoc_line strip raw = (if strip then trim_start_matches (\<lambda>x. x = ch_tab) raw else raw)"

text \<open>One body: its lines, whether its delimiter line was found, and the text after it.\<close>

function read_body :: "rstring \<Rightarrow> bool \<Rightarrow> rstring \<Rightarrow> rstring list \<times> bool \<times> rstring" where
  "read_body delim strip [] = ([], False, [])"
| "read_body delim strip (c # cs) =
    (let rest = snd (next_line (c # cs));
         line = heredoc_line strip (fst (next_line (c # cs)))
     in if line = delim then ([], True, rest)
        else (let r = read_body delim strip rest in (line # fst r, snd r)))"
  by pat_completeness auto
termination
  by (relation "measure (\<lambda>(d, s, cs). length cs)")
    auto

definition join_lines :: "rstring list \<Rightarrow> rstring" where
  "join_lines ls = join [ch_nl] ls"

fun read_heredoc_bodies :: "(rstring \<times> bool) list \<Rightarrow> rstring \<Rightarrow> rstring list \<times> bool \<times> rstring" where
  "read_heredoc_bodies [] cs = ([], True, cs)"
| "read_heredoc_bodies ((delim, strip) # hs) cs =
    (let (body, found, cs') = read_body delim strip cs;
         (bodies, terminated, cs'') = read_heredoc_bodies hs cs'
     in (join_lines body # bodies, found \<and> terminated, cs''))"

definition skip_heredoc_bodies :: "(rstring \<times> bool) list \<Rightarrow> rstring \<Rightarrow> rstring" where
  "skip_heredoc_bodies hs cs = snd (snd (read_heredoc_bodies hs cs))"

lemma length_read_body: "length (snd (snd (read_body d s cs))) \<le> length cs"
proof (induction d s cs rule: read_body.induct)
  case (2 d s c cs)
  have "length (snd (next_line (c # cs))) \<le> length (c # cs)"
    by (rule length_next_line)
  then show ?case using 2 by (auto simp: Let_def intro: order_trans)
qed simp

lemma length_read_heredoc_bodies: "length (snd (snd (read_heredoc_bodies hs cs))) \<le> length cs"
proof (induction hs cs rule: read_heredoc_bodies.induct)
  case (2 delim strip hs cs)
  obtain body found cs' where b: "read_body delim strip cs = (body, found, cs')"
    by (cases "read_body delim strip cs") auto
  then show ?case
    using length_read_body [of delim strip cs] 2 [OF b [symmetric] refl]
    by (simp add: split_beta)
qed simp

lemma length_skip_heredoc_bodies: "length (skip_heredoc_bodies hs cs) \<le> length cs"
  by (simp add: skip_heredoc_bodies_def length_read_heredoc_bodies)

lemma length_bodies: "length (fst (read_heredoc_bodies hs cs)) = length hs"
  by (induction hs cs rule: read_heredoc_bodies.induct) (auto simp: Let_def split: prod.splits)

text \<open>A body that was terminated is exactly the lines before its delimiter line.\<close>

lemma read_body_no_delim:
  "delim \<notin> set (fst (read_body delim strip cs))"
  by (induction delim strip cs rule: read_body.induct)
    (auto simp: Let_def)

section \<open>The end of a command substitution\<close>

datatype frame = Subst (depth: nat) (pending: "(rstring \<times> bool) list") | Quote

text \<open>
  One turn of the \<open>while\<close> loop of \<open>subst_close\<close> on a non-empty suffix: the stack and the
  suffix of the next turn, the suffix at the closing parenthesis, or no result.
\<close>

datatype subst_turn = Continue "frame list" rstring | Closed rstring | Unclosed

definition subst_quote_turn :: "rchar \<Rightarrow> rstring \<Rightarrow> frame list \<Rightarrow> subst_turn" where
  "subst_quote_turn c cs fs =
    (if c = ch_dquote then Continue fs cs
     else if c = ch_backslash then Continue (Quote # fs) (tl cs)
     else if c = ch_dollar \<and> get cs 0 = Some ch_lparen then Continue (Subst 0 [] # Quote # fs) cs
     else Continue (Quote # fs) cs)"

definition subst_frame_turn :: "rchar \<Rightarrow> rstring \<Rightarrow> nat \<Rightarrow> (rstring \<times> bool) list \<Rightarrow> frame list \<Rightarrow> subst_turn" where
  "subst_frame_turn c cs d hs fs =
    (if c = ch_lparen then Continue (Subst (d + 1) hs # fs) cs
     else if c = ch_rparen then
       (if d - 1 = 0 then (if fs = [] then Closed (c # cs) else Continue fs cs)
        else Continue (Subst (d - 1) hs # fs) cs)
     else if c = ch_backslash then Continue (Subst d hs # fs) (tl cs)
     else if c = ch_dollar \<and> get cs 0 = Some ch_squote then
       (case ansi_c_close (tl cs) of None \<Rightarrow> Unclosed
        | Some k \<Rightarrow> Continue (Subst d hs # fs) (drop (k + 2) cs))
     else if c = ch_squote then Continue (Subst d hs # fs) (tl (dropWhile (\<lambda>x. x \<noteq> ch_squote) cs))
     else if c = ch_dquote then Continue (Quote # Subst d hs # fs) cs
     else if c = ch_lt \<and> get cs 0 = Some ch_lt \<and> get cs 1 = Some ch_lt then
       Continue (Subst d hs # fs) (drop 2 cs)
     else if c = ch_lt \<and> get cs 0 = Some ch_lt then
       (let (h, cs') = heredoc_delim (c # cs) in Continue (Subst d (hs @ [h]) # fs) cs')
     else if c = ch_nl then Continue (Subst d [] # fs) (skip_heredoc_bodies hs cs)
     else Continue (Subst d hs # fs) cs)"

definition subst_turn :: "rchar \<Rightarrow> rstring \<Rightarrow> frame list \<Rightarrow> subst_turn" where
  "subst_turn c cs stack =
    (case stack of [] \<Rightarrow> Unclosed
     | Quote # fs \<Rightarrow> subst_quote_turn c cs fs
     | Subst d hs # fs \<Rightarrow> subst_frame_turn c cs d hs fs)"

lemma subst_turn_decreases:
  assumes "subst_turn c cs stack = Continue stack' cs'"
  shows "length cs' \<le> length cs"
proof -
  have hd: "get cs 0 = Some ch_lt \<Longrightarrow> heredoc_delim (c # cs) = (h, r) \<Longrightarrow> length r \<le> length cs" for h r
    using length_heredoc_delim [of "c # cs" h r] by simp
  show ?thesis
    using assms
    by (auto simp: subst_turn_def subst_quote_turn_def subst_frame_turn_def
          length_skip_heredoc_bodies
        split: list.splits frame.splits if_splits option.splits prod.splits dest: hd)
qed

function subst_loop :: "frame list \<Rightarrow> rstring \<Rightarrow> rstring option" where
  "subst_loop stack [] = None"
| "subst_loop stack (c # cs) =
    (case subst_turn c cs stack of
       Unclosed \<Rightarrow> None
     | Closed r \<Rightarrow> Some r
     | Continue stack' cs' \<Rightarrow> subst_loop stack' cs')"
  by pat_completeness auto
termination
  by (relation "measure (\<lambda>(s, cs). length cs)") (auto simp: less_Suc_eq_le dest: subst_turn_decreases)

text \<open>The offset from \<open>start\<close> of the parenthesis closing the \<open>$(\<close> at the head of \<open>cs\<close>.\<close>

definition subst_close :: "rstring \<Rightarrow> nat option" where
  "subst_close cs = map_option (\<lambda>r. length cs - length r) (subst_loop [Subst 0 []] (tl cs))"

end
