(* ===== verification/Shell_Tokeniser.thy ===== *)
theory Shell_Tokeniser
  imports Shell_Scan
begin

text \<open>
  The tokeniser of \<open>pre_tool_use/shell.rs\<close>: the local variables of \<open>tokenise\<close> are the record
  \<open>tok\<close>, every arm of its \<open>match\<close> is one definition from the suffix behind the matched
  character and the state to the suffix of the next turn and the new state, and
  \<open>tok_loop\<close> is the \<open>while\<close> loop.  The last section proves the state invariant and the
  round trip of quoted argument vectors.
\<close>

section \<open>Commands\<close>

record simple_command =
  sc_words :: "rstring list"
  sc_redirects :: "rstring list"
  sc_heredocs :: "rstring list"
  sc_heredoc_expands :: "bool list"
  sc_pipeline :: nat

definition default_command :: simple_command where
  "default_command = \<lparr>sc_words = [], sc_redirects = [], sc_heredocs = [],
     sc_heredoc_expands = [], sc_pipeline = 0\<rparr>"

record parsed =
  p_commands :: "simple_command list"
  p_complete :: bool

text \<open>The local variables of \<open>tokenise\<close>; a pending heredoc is (delimiter, strip, expands, owner).\<close>

record tok =
  tk_out :: "simple_command list"
  tk_pipeline :: nat
  tk_complete :: bool
  tk_word :: rstring
  tk_in_word :: bool
  tk_heredocs :: "(rstring \<times> bool \<times> bool \<times> nat) list"
  tk_target :: bool

definition tok_init :: tok where
  "tok_init = \<lparr>tk_out = [default_command], tk_pipeline = 0, tk_complete = True,
     tk_word = [], tk_in_word = False, tk_heredocs = [], tk_target = False\<rparr>"

section \<open>Local functions\<close>

definition end_word :: "tok \<Rightarrow> tok" where
  "end_word st =
    (if \<not> tk_in_word st then st
     else if tk_out st = [] then st\<lparr>tk_in_word := False\<rparr>
     else if tk_target st then
       st\<lparr>tk_in_word := False, tk_word := [], tk_target := False,
          tk_out := map_last (\<lambda>c. c\<lparr>sc_redirects := sc_redirects c @ [tk_word st]\<rparr>) (tk_out st)\<rparr>
     else
       st\<lparr>tk_in_word := False, tk_word := [],
          tk_out := map_last (\<lambda>c. c\<lparr>sc_words := sc_words c @ [tk_word st]\<rparr>) (tk_out st)\<rparr>)"

definition end_command :: "tok \<Rightarrow> tok" where
  "end_command st =
    (if tk_target st then st\<lparr>tk_target := False, tk_complete := False\<rparr> else st)"

definition new_command :: "tok \<Rightarrow> tok" where
  "new_command st =
    st\<lparr>tk_out := tk_out st @ [default_command\<lparr>sc_pipeline := tk_pipeline st\<rparr>]\<rparr>"

definition next_pipeline :: "tok \<Rightarrow> tok" where
  "next_pipeline st = st\<lparr>tk_pipeline := tk_pipeline st + 1\<rparr>"

definition push_text :: "rstring \<Rightarrow> tok \<Rightarrow> tok" where
  "push_text w st = st\<lparr>tk_in_word := True, tk_word := tk_word st @ w\<rparr>"

definition and_complete :: "bool \<Rightarrow> tok \<Rightarrow> tok" where
  "and_complete b st = st\<lparr>tk_complete := (tk_complete st \<and> b)\<rparr>"

definition push_heredoc :: "rstring \<Rightarrow> bool \<Rightarrow> simple_command \<Rightarrow> simple_command" where
  "push_heredoc body expands c =
    c\<lparr>sc_heredocs := sc_heredocs c @ [body],
      sc_heredoc_expands := sc_heredoc_expands c @ [expands]\<rparr>"

fun attach_bodies ::
  "((rstring \<times> bool \<times> bool \<times> nat) \<times> rstring) list \<Rightarrow> simple_command list \<Rightarrow> simple_command list" where
  "attach_bodies [] out = out"
| "attach_bodies (((_, _, expands, owner), body) # rest) out =
    attach_bodies rest (map_nth owner (push_heredoc body expands) out)"

text \<open>A pending heredoc belongs to the command in progress.\<close>

definition push_pending :: "rstring \<Rightarrow> bool \<Rightarrow> bool \<Rightarrow> tok \<Rightarrow> tok" where
  "push_pending delim strip expands st =
    st\<lparr>tk_heredocs := tk_heredocs st @ [(delim, strip, expands, length (tk_out st) - 1)]\<rparr>"

text \<open>The pending heredocs are taken and their bodies given to their owners.\<close>

definition take_pending :: "rstring list \<Rightarrow> tok \<Rightarrow> tok" where
  "take_pending bodies st =
    st\<lparr>tk_heredocs := [], tk_out := attach_bodies (zip (tk_heredocs st) bodies) (tk_out st)\<rparr>"

section \<open>The arms of the match\<close>

definition arm_single_quote :: "rstring \<Rightarrow> tok \<Rightarrow> rstring \<times> tok" where
  "arm_single_quote cs st =
    (let rest = dropWhile (\<lambda>x. x \<noteq> ch_squote) cs
     in (tl rest, and_complete (rest \<noteq> []) (push_text (takeWhile (\<lambda>x. x \<noteq> ch_squote) cs) st)))"

definition arm_ansi_c :: "rstring \<Rightarrow> tok \<Rightarrow> rstring \<times> tok" where
  "arm_ansi_c cs st =
    (case ansi_c_close (tl cs) of
       Some k \<Rightarrow> (drop (k + 1) (tl cs), push_text (ansi_c_decode (take k (tl cs))) st)
     | None \<Rightarrow> ([], and_complete False (push_text (ansi_c_decode (butlast (tl cs))) st)))"

definition dq_escapable :: "rchar \<Rightarrow> bool" where
  "dq_escapable n = (n = ch_dollar \<or> n = ch_backtick \<or> n = ch_dquote \<or> n = ch_backslash \<or> n = ch_nl)"

text \<open>The loop of the double-quote arm: the text pushed, whether it closed, and the rest.\<close>

function dq_loop :: "rstring \<Rightarrow> rstring \<times> bool \<times> rstring" where
  "dq_loop [] = ([], False, [])"
| "dq_loop (c # cs) =
    (if c = ch_dquote then ([], True, cs)
     else if c = ch_dollar \<and> get cs 0 = Some ch_lparen then
       (case subst_close (c # cs) of
          None \<Rightarrow> (c # cs, False, [])
        | Some k \<Rightarrow> (let r = dq_loop (drop k cs) in (take (k + 1) (c # cs) @ fst r, snd r)))
     else if c = ch_backslash \<and> cs \<noteq> [] \<and> dq_escapable (hd cs) then
       (let r = dq_loop (tl cs) in (hd cs # fst r, snd r))
     else (let r = dq_loop cs in (c # fst r, snd r)))"
  by pat_completeness auto
termination
  by (relation "measure length") auto

definition arm_double_quote :: "rstring \<Rightarrow> tok \<Rightarrow> rstring \<times> tok" where
  "arm_double_quote cs st =
    (let (w, closed, rest) = dq_loop cs in (rest, and_complete closed (push_text w st)))"

definition arm_backslash :: "rstring \<Rightarrow> tok \<Rightarrow> rstring \<times> tok" where
  "arm_backslash cs st =
    (case cs of [] \<Rightarrow> ([], push_text [] st)
     | n # cs' \<Rightarrow> (cs', if n \<noteq> ch_nl then push_text [n] st else st))"

definition arm_subst :: "rstring \<Rightarrow> tok \<Rightarrow> rstring \<times> tok" where
  "arm_subst cs st =
    (case subst_close (ch_dollar # cs) of
       Some k \<Rightarrow> (drop k cs, push_text (take (k + 1) (ch_dollar # cs)) st)
     | None \<Rightarrow> ([], and_complete False (push_text (ch_dollar # cs) st)))"

definition arm_backtick :: "rstring \<Rightarrow> tok \<Rightarrow> rstring \<times> tok" where
  "arm_backtick cs st =
    (let rest = dropWhile (\<lambda>x. x \<noteq> ch_backtick) cs
     in (tl rest, and_complete (rest \<noteq> [])
          (push_text (ch_backtick # takeWhile (\<lambda>x. x \<noteq> ch_backtick) cs @ [ch_backtick]) st)))"

definition arm_comment :: "rstring \<Rightarrow> tok \<Rightarrow> rstring \<times> tok" where
  "arm_comment cs st = (dropWhile (\<lambda>x. x \<noteq> ch_nl) cs, st)"

definition arm_herestring :: "rstring \<Rightarrow> tok \<Rightarrow> rstring \<times> tok" where
  "arm_herestring cs st = (drop 2 cs, end_word st)"

definition arm_heredoc :: "rstring \<Rightarrow> tok \<Rightarrow> rstring \<times> tok" where
  "arm_heredoc cs st =
    (let st = end_word st;
         expands = (\<not> delim_quoted (ch_lt # cs));
         ((delim, strip), rest) = heredoc_delim (ch_lt # cs);
         st = and_complete (delim \<noteq> []) st
     in (rest, push_pending delim strip expands st))"

text \<open>\<open>complete &= !target; target = true;\<close>\<close>

definition want_target :: "tok \<Rightarrow> tok" where
  "want_target st = (and_complete (\<not> tk_target st) st)\<lparr>tk_target := True\<rparr>"

definition arm_amp_gt :: "rstring \<Rightarrow> tok \<Rightarrow> rstring \<times> tok" where
  "arm_amp_gt cs st =
    (if get cs 1 = Some ch_gt then drop 2 cs else tl cs, want_target (end_word st))"

definition arm_redirect :: "rchar \<Rightarrow> rstring \<Rightarrow> tok \<Rightarrow> rstring \<times> tok" where
  "arm_redirect c cs st =
    (let fd = (\<not> tk_target st \<and> tk_in_word st \<and> tk_word st \<noteq> [] \<and> list_all is_ascii_digit (tk_word st));
         st = (if fd then st\<lparr>tk_word := [], tk_in_word := False\<rparr> else end_word st);
         second = (if c = ch_gt then [ch_gt, ch_pipe, ch_amp] else [ch_gt, ch_amp])
     in (if cs \<noteq> [] \<and> hd cs \<in> set second then tl cs else cs, want_target st))"

definition arm_newline :: "rstring \<Rightarrow> tok \<Rightarrow> rstring \<times> tok" where
  "arm_newline cs st =
    (let st = end_word st;
         owner = length (tk_out st) - 1;
         empty = (\<not> tk_target st \<and> sc_words (tk_out st ! owner) = [] \<and>
                  sc_redirects (tk_out st ! owner) = [] \<and>
                  \<not> list_ex (\<lambda>(_, _, _, o'). o' = owner) (tk_heredocs st));
         st = (if empty then st else new_command (next_pipeline (end_command st)));
         specs = map (\<lambda>(d, s, _, _). (d, s)) (tk_heredocs st);
         (bodies, terminated, rest) = read_heredoc_bodies specs cs
     in (rest, take_pending bodies (and_complete terminated st)))"

definition arm_pipe :: "rstring \<Rightarrow> tok \<Rightarrow> rstring \<times> tok" where
  "arm_pipe cs st =
    (if get cs 0 = Some ch_amp then tl cs else cs, new_command (end_command (end_word st)))"

definition arm_or :: "rstring \<Rightarrow> tok \<Rightarrow> rstring \<times> tok" where
  "arm_or cs st = (tl cs, new_command (next_pipeline (end_command (end_word st))))"

definition arm_separator :: "rstring \<Rightarrow> tok \<Rightarrow> rstring \<times> tok" where
  "arm_separator cs st = (cs, new_command (next_pipeline (end_command (end_word st))))"

text \<open>The \<open>match\<close>, in the order of its arms.\<close>

definition tok_step :: "rchar \<Rightarrow> rstring \<Rightarrow> tok \<Rightarrow> rstring \<times> tok" where
  "tok_step c cs st =
    (if c = ch_squote then arm_single_quote cs st
     else if c = ch_dollar \<and> get cs 0 = Some ch_squote then arm_ansi_c cs st
     else if c = ch_dquote then arm_double_quote cs st
     else if c = ch_backslash then arm_backslash cs st
     else if c = ch_dollar \<and> get cs 0 = Some ch_lparen then arm_subst cs st
     else if c = ch_backtick then arm_backtick cs st
     else if c = ch_hash \<and> \<not> tk_in_word st then arm_comment cs st
     else if c = ch_lt \<and> get cs 0 = Some ch_lt \<and> get cs 1 = Some ch_lt then arm_herestring cs st
     else if c = ch_lt \<and> get cs 0 = Some ch_lt then arm_heredoc cs st
     else if c = ch_amp \<and> get cs 0 = Some ch_gt then arm_amp_gt cs st
     else if (c = ch_lt \<or> c = ch_gt) \<and> get cs 0 \<noteq> Some ch_lparen then arm_redirect c cs st
     else if c = ch_nl then arm_newline cs st
     else if c = ch_pipe \<and> get cs 0 \<noteq> Some ch_pipe then arm_pipe cs st
     else if c = ch_pipe then arm_or cs st
     else if c = ch_semi \<or> c = ch_amp \<or> c = ch_lparen \<or> c = ch_rparen then arm_separator cs st
     else if is_whitespace c then (cs, end_word st)
     else (cs, push_text [c] st))"

section \<open>The loop\<close>

lemma length_dq_loop: "length (snd (snd (dq_loop cs))) \<le> length cs"
proof (induction cs rule: dq_loop.induct)
  case (2 c cs)
  then show ?case
    by (auto simp: Let_def split: option.splits intro: le_SucI order_trans)
qed simp

lemma tok_step_decreases: "length (fst (tok_step c cs st)) \<le> length cs"
proof -
  have "length (snd (heredoc_delim (c # cs))) \<le> length cs" if "get cs 0 = Some ch_lt"
    using length_heredoc_delim [of "c # cs"] by (cases "heredoc_delim (c # cs)") fastforce
  then show ?thesis
    using length_dq_loop [of cs] length_read_heredoc_bodies
    by (auto simp: tok_step_def arm_single_quote_def arm_ansi_c_def arm_double_quote_def
          arm_backslash_def arm_subst_def arm_backtick_def arm_comment_def arm_herestring_def
          arm_heredoc_def arm_amp_gt_def arm_redirect_def arm_newline_def arm_pipe_def arm_or_def
          arm_separator_def Let_def length_dropWhile_le split_beta split: option.splits list.splits)
qed

function tok_loop :: "rstring \<Rightarrow> tok \<Rightarrow> tok" where
  "tok_loop [] st = st"
| "tok_loop (c # cs) st = tok_loop (fst (tok_step c cs st)) (snd (tok_step c cs st))"
  by pat_completeness auto
termination
  by (relation "measure (\<lambda>(cs, st). length cs)") (auto simp: less_Suc_eq_le split_beta tok_step_decreases)

definition tok_finish :: "tok \<Rightarrow> parsed" where
  "tok_finish st0 =
    (let st = end_command (end_word st0);
         out = attach_bodies (map (\<lambda>h. (h, [])) (tk_heredocs st)) (tk_out st)
     in \<lparr>p_commands = filter (\<lambda>c. sc_words c \<noteq> [] \<or> sc_heredocs c \<noteq> []) out,
         p_complete = (tk_complete st \<and> tk_heredocs st = [])\<rparr>)"

definition tokenise :: "rstring \<Rightarrow> parsed" where
  "tokenise text = tok_finish (tok_loop text tok_init)"

definition parse :: "rstring \<Rightarrow> simple_command list" where
  "parse text = p_commands (tokenise text)"

definition commands :: "rstring \<Rightarrow> rstring list list" where
  "commands text = filter (\<lambda>w. w \<noteq> []) (map sc_words (parse text))"

end
