(* ===== verification/Shell_Facts.thy ===== *)
theory Shell_Facts
  imports Shell_Tokeniser
begin

text \<open>
  What the tokeniser guarantees: the invariant of its loop, the shape of its result, the
  position \<open>subst_close\<close> returns, and the round trip that the guards rely on when they
  check a command given as an argument vector (\<open>join_argv\<close> then \<open>tokenise\<close>).
\<close>

section \<open>The loop invariant\<close>

definition command_ok :: "simple_command \<Rightarrow> bool" where
  "command_ok c = (length (sc_heredocs c) = length (sc_heredoc_expands c))"

definition tok_ok :: "tok \<Rightarrow> bool" where
  "tok_ok st =
    (tk_out st \<noteq> [] \<and> list_all command_ok (tk_out st) \<and>
     list_all (\<lambda>(_, _, _, owner). owner < length (tk_out st)) (tk_heredocs st) \<and>
     sorted (map sc_pipeline (tk_out st)) \<and>
     list_all (\<lambda>p. p \<le> tk_pipeline st) (map sc_pipeline (tk_out st)) \<and>
     (\<not> tk_in_word st \<longrightarrow> tk_word st = []))"

lemma command_ok_updates [simp]:
  "command_ok (c\<lparr>sc_words := w\<rparr>) = command_ok c"
  "command_ok (c\<lparr>sc_redirects := w\<rparr>) = command_ok c"
  "command_ok (c\<lparr>sc_pipeline := p\<rparr>) = command_ok c"
  "command_ok (push_heredoc b e c) = command_ok c"
  "command_ok default_command"
  by (simp_all add: command_ok_def push_heredoc_def default_command_def)

lemma sc_pipeline_push_heredoc [simp]: "sc_pipeline (push_heredoc b e c) = sc_pipeline c"
  by (simp add: push_heredoc_def)

lemma attach_bodies_keeps:
  "length (attach_bodies hs out) = length out"
  "map sc_pipeline (attach_bodies hs out) = map sc_pipeline out"
  "map sc_words (attach_bodies hs out) = map sc_words out"
  "map sc_redirects (attach_bodies hs out) = map sc_redirects out"
  by (induction hs out rule: attach_bodies.induct)
    (simp_all add: map_map_nth_same push_heredoc_def)

lemma attach_bodies_ok: "list_all command_ok out \<Longrightarrow> list_all command_ok (attach_bodies hs out)"
  by (induction hs out rule: attach_bodies.induct) (simp_all add: list_all_map_nth)

lemma attach_bodies_Nil_iff [simp]: "attach_bodies hs out = [] \<longleftrightarrow> out = []"
  using attach_bodies_keeps(1) [of hs out] by (metis length_0_conv)

lemma list_all_map_comp: "list_all P (map f xs) = list_all (\<lambda>x. P (f x)) xs"
  by (simp add: list_all_iff)

lemma end_word_ok [intro]: "tok_ok st \<Longrightarrow> tok_ok (end_word st)"
  by (auto simp: tok_ok_def end_word_def map_map_last_same list_all_map_last)

lemma end_command_ok [intro]: "tok_ok st \<Longrightarrow> tok_ok (end_command st)"
  by (simp add: tok_ok_def end_command_def)

lemma next_pipeline_ok [intro]: "tok_ok st \<Longrightarrow> tok_ok (next_pipeline st)"
  by (auto simp: tok_ok_def next_pipeline_def list_all_iff)

lemma new_command_ok [intro]: "tok_ok st \<Longrightarrow> tok_ok (new_command st)"
  by (auto simp: tok_ok_def new_command_def list_all_iff sorted_append)

lemma push_text_ok [intro]: "tok_ok st \<Longrightarrow> tok_ok (push_text w st)"
  by (simp add: tok_ok_def push_text_def)

lemma and_complete_ok [intro]: "tok_ok st \<Longrightarrow> tok_ok (and_complete b st)"
  by (simp add: tok_ok_def and_complete_def)

lemma want_target_ok [intro]: "tok_ok st \<Longrightarrow> tok_ok (want_target st)"
  by (simp add: tok_ok_def want_target_def and_complete_def)

lemma clear_word_ok [intro]: "tok_ok st \<Longrightarrow> tok_ok (st\<lparr>tk_word := [], tk_in_word := False\<rparr>)"
  by (simp add: tok_ok_def)

lemma push_pending_ok [intro]: "tok_ok st \<Longrightarrow> tok_ok (push_pending d s e st)"
  by (simp add: tok_ok_def push_pending_def)

lemma take_pending_ok [intro]: "tok_ok st \<Longrightarrow> tok_ok (take_pending bodies st)"
  by (simp add: tok_ok_def take_pending_def attach_bodies_keeps attach_bodies_ok)

lemmas tok_ok_intros = end_word_ok end_command_ok next_pipeline_ok new_command_ok push_text_ok
  and_complete_ok want_target_ok clear_word_ok push_pending_ok take_pending_ok

lemma arm_quotes_ok:
  assumes "tok_ok st"
  shows "tok_ok (snd (arm_single_quote cs st))" "tok_ok (snd (arm_ansi_c cs st))"
    "tok_ok (snd (arm_double_quote cs st))" "tok_ok (snd (arm_backslash cs st))"
    "tok_ok (snd (arm_subst cs st))" "tok_ok (snd (arm_backtick cs st))"
    "tok_ok (snd (arm_comment cs st))" "tok_ok (snd (arm_herestring cs st))"
  using assms
  by (auto simp: arm_single_quote_def arm_ansi_c_def arm_double_quote_def arm_backslash_def
      arm_subst_def arm_backtick_def arm_comment_def arm_herestring_def Let_def split_beta
      intro!: tok_ok_intros split: option.splits list.splits)

lemma arm_operators_ok:
  assumes "tok_ok st"
  shows "tok_ok (snd (arm_heredoc cs st))" "tok_ok (snd (arm_amp_gt cs st))"
    "tok_ok (snd (arm_redirect c cs st))" "tok_ok (snd (arm_pipe cs st))"
    "tok_ok (snd (arm_or cs st))" "tok_ok (snd (arm_separator cs st))"
    "tok_ok (snd (arm_newline cs st))"
  using assms
  by (simp_all add: arm_heredoc_def arm_amp_gt_def arm_redirect_def arm_pipe_def arm_or_def
      arm_separator_def arm_newline_def Let_def split_beta tok_ok_intros)

lemma tok_step_ok: "tok_ok st \<Longrightarrow> tok_ok (snd (tok_step c cs st))"
  by (simp add: tok_step_def arm_quotes_ok arm_operators_ok tok_ok_intros)

lemma tok_loop_ok: "tok_ok st \<Longrightarrow> tok_ok (tok_loop cs st)"
  by (induction cs st rule: tok_loop.induct) (simp_all add: tok_step_ok)

lemma tok_init_ok [simp]: "tok_ok tok_init"
  by (simp add: tok_ok_def tok_init_def command_ok_def default_command_def)

section \<open>The result\<close>

lemma parse_shape:
  "list_all command_ok (parse text)"
  "list_all (\<lambda>c. \<not> (sc_words c = [] \<and> sc_heredocs c = [])) (parse text)"
  "sorted (map sc_pipeline (parse text))"
proof -
  define st where "st = end_command (end_word (tok_loop text tok_init))"
  define out where "out = attach_bodies (map (\<lambda>h. (h, [])) (tk_heredocs st)) (tk_out st)"
  have "tok_ok st" by (simp add: st_def tok_loop_ok tok_ok_intros)
  then have ok: "list_all command_ok out" "sorted (map sc_pipeline out)"
    by (simp_all add: out_def attach_bodies_ok attach_bodies_keeps tok_ok_def)
  have p: "parse text = filter (\<lambda>c. sc_words c \<noteq> [] \<or> sc_heredocs c \<noteq> []) out"
    by (simp add: parse_def tokenise_def tok_finish_def Let_def st_def out_def)
  show "list_all command_ok (parse text)"
    "list_all (\<lambda>c. \<not> (sc_words c = [] \<and> sc_heredocs c = [])) (parse text)"
    "sorted (map sc_pipeline (parse text))"
    using ok by (auto simp: p list_all_iff sorted_filter)
qed

text \<open>
  C34. Every command that \<open>tokenise\<close> returns has as many expansion flags as heredoc bodies and is
  not empty, and the commands come in the order of their pipelines, so the commands of one
  pipeline are adjacent.  (\<open>line_facts\<close> of the tmux guard depends on that order.)
\<close>

theorem tokenise_wellformed:
  "list_all command_ok (parse text) \<and>
   list_all (\<lambda>c. \<not> (sc_words c = [] \<and> sc_heredocs c = [])) (parse text) \<and>
   sorted (map sc_pipeline (parse text))"
  using parse_shape by blast

section \<open>The closing parenthesis of a substitution\<close>

lemma suffix_tl_Cons: "suffix (tl ws) (w # ws)"
  by (metis suffix_ConsI suffix_tl)

lemma suffix_tl_dropWhile: "suffix (tl (dropWhile P xs)) xs"
  using suffix_dropWhile suffix_tl suffix_order.trans by metis

lemma suffix_read_body: "suffix (snd (snd (read_body d s cs))) cs"
proof (induction d s cs rule: read_body.induct)
  case (2 d s c cs)
  have "suffix (snd (next_line (c # cs))) (c # cs)"
    unfolding next_line_def snd_conv by (rule suffix_tl_dropWhile)
  then show ?case using 2 by (auto simp: Let_def intro: suffix_order.trans)
qed simp

lemma suffix_skip_heredoc_bodies: "suffix (skip_heredoc_bodies hs cs) cs"
  unfolding skip_heredoc_bodies_def
proof (induction hs cs rule: read_heredoc_bodies.induct)
  case (2 delim strip hs cs)
  obtain body found cs' where b: "read_body delim strip cs = (body, found, cs')"
    by (cases "read_body delim strip cs") auto
  then show ?case
    using suffix_read_body [of delim strip cs] 2 [OF b [symmetric] refl] suffix_order.trans
    by (auto simp: split_beta)
qed simp

lemma suffix_heredoc_delim: "suffix (snd (heredoc_delim cs)) cs"
proof -
  have "suffix (snd (delim_start cs)) cs"
    unfolding delim_start_def Let_def snd_conv
    using suffix_dropWhile suffix_tl suffix_drop suffix_order.trans by (smt (verit))
  then show ?thesis
    unfolding heredoc_delim_def Let_def split_beta snd_conv
    using suffix_dropWhile suffix_order.trans by blast
qed

lemma subst_turn_suffix:
  "subst_turn c cs stack = Continue stack' cs' \<Longrightarrow> suffix cs' (c # cs)"
  using suffix_heredoc_delim [of "c # cs"] suffix_skip_heredoc_bodies [of _ cs]
  by (auto simp: subst_turn_def subst_quote_turn_def subst_frame_turn_def Let_def split_beta
      suffix_tl_Cons suffix_drop
      intro: suffix_ConsI suffix_order.trans [OF suffix_tl_dropWhile] split: if_splits list.splits frame.splits option.splits)

lemma subst_turn_closed:
  "subst_turn c cs stack = Closed r \<Longrightarrow> r = c # cs \<and> c = ch_rparen"
  by (auto simp: subst_turn_def subst_quote_turn_def subst_frame_turn_def Let_def split_beta
      split: if_splits list.splits frame.splits option.splits)

lemma subst_loop_closed:
  "subst_loop stack cs = Some r \<Longrightarrow> suffix r cs \<and> r \<noteq> [] \<and> hd r = ch_rparen"
proof (induction stack cs rule: subst_loop.induct)
  case (2 stack c cs)
  show ?case
  proof (cases "subst_turn c cs stack")
    case (Continue stack' cs')
    then show ?thesis
      using 2 subst_turn_suffix [OF Continue] suffix_order.trans by auto
  next
    case (Closed r')
    then show ?thesis using 2 subst_turn_closed [OF Closed] by auto
  next
    case Unclosed
    then show ?thesis using 2 by simp
  qed
qed simp

text \<open>
  The index \<open>subst_close\<close> returns lies behind the \<open>$\<close>, inside the text, and holds a closing
  parenthesis, so the slices \<open>chars[i..=end]\<close> the tokeniser takes with it are in range.
\<close>

lemma subst_close_in_range:
  assumes "subst_close (c # cs) = Some k"
  shows "0 < k \<and> k < length (c # cs) \<and> (c # cs) ! k = ch_rparen"
proof -
  obtain r where r: "subst_loop [Subst 0 []] cs = Some r" and k: "k = length (c # cs) - length r"
    using assms by (auto simp: subst_close_def)
  from subst_loop_closed [OF r] obtain a x where cs: "cs = a @ x" and x: "r = x" "x \<noteq> []" "hd x = ch_rparen"
    by (auto simp: suffix_def)
  then have "k = length (c # a)" using k by simp
  then show ?thesis using cs x by (auto simp: hd_conv_nth nth_append)
qed

lemma subst_close_in_range_witness:
  "0 < (3::nat) \<and> 3 < length (lit ''$(a)'') \<and> lit ''$(a)'' ! 3 = ch_rparen"
proof -
  have "subst_close (lit ''$(a)'') = Some 3" by code_simp
  then show ?thesis
    using subst_close_in_range [of ch_dollar "lit ''(a)''" 3] by simp
qed

text \<open>Balanced text without the characters \<open>subst_close\<close> treats specially.\<close>

fun balanced :: "nat \<Rightarrow> rstring \<Rightarrow> bool" where
  "balanced n [] = (n = 0)"
| "balanced n (c # cs) =
    (if c = ch_lparen then balanced (n + 1) cs
     else if c = ch_rparen then 0 < n \<and> balanced (n - 1) cs
     else balanced n cs)"

definition subst_plain :: "rchar \<Rightarrow> bool" where
  "subst_plain c = (c \<notin> {ch_backslash, ch_dollar, ch_squote, ch_dquote, ch_lt})"

lemma subst_loop_plain:
  "list_all subst_plain body \<Longrightarrow> balanced n body \<Longrightarrow>
   subst_loop (Subst (Suc n) [] # fs) (body @ r) = subst_loop (Subst 1 [] # fs) r"
proof (induction body arbitrary: n)
  case (Cons c body)
  then show ?case
    by (cases n) (auto simp: subst_turn_def subst_frame_turn_def subst_plain_def
        skip_heredoc_bodies_def split: if_splits)
qed simp

text \<open>
  On a balanced body free of quotes, escapes, nested \<open>$\<close> and heredocs, \<open>subst_close\<close> returns
  exactly the parenthesis that matches the opening one.
\<close>

lemma subst_close_matching:
  assumes "list_all subst_plain body" "balanced 0 body"
  shows "subst_close (ch_dollar # ch_lparen # body @ ch_rparen # rest) = Some (length body + 2)"
proof -
  have "subst_loop [Subst 0 []] (ch_lparen # body @ ch_rparen # rest)
      = subst_loop [Subst 1 []] (ch_rparen # rest)"
    using subst_loop_plain [OF assms, of "[]" "ch_rparen # rest"]
    by (simp add: subst_turn_def subst_frame_turn_def)
  also have "\<dots> = Some (ch_rparen # rest)"
    by (simp add: subst_turn_def subst_frame_turn_def)
  finally show ?thesis by (simp add: subst_close_def)
qed

lemma subst_close_matching_witness:
  "subst_close (ch_dollar # ch_lparen # lit ''a (b) c'' @ ch_rparen # lit '' x)'') = Some 9"
proof -
  have "list_all subst_plain (lit ''a (b) c'')" "balanced 0 (lit ''a (b) c'')"
    by code_simp+
  from subst_close_matching [OF this, of "lit '' x)''"] show ?thesis by simp
qed

section \<open>The round trip of an argument vector\<close>

lemma push_text_push_text [simp]: "push_text w (push_text v st) = push_text (v @ w) st"
  by (simp add: push_text_def)

lemma and_complete_True [simp]: "and_complete True st = st"
  by (simp add: and_complete_def)

lemma argv_safe_default:
  assumes "argv_safe c"
  shows "tok_step c cs st = (cs, push_text [c] st)"
proof -
  have "\<not> is_whitespace c"
    and "c \<notin> {ch_squote, ch_dollar, ch_dquote, ch_backslash, ch_backtick, ch_hash, ch_lt, ch_gt,
      ch_amp, ch_nl, ch_pipe, ch_semi, ch_lparen, ch_rparen}"
    using assms by (auto simp: argv_safe_def ascii_defs)
  then show ?thesis by (simp add: tok_step_def)
qed

lemma tok_loop_safe:
  assumes "list_all argv_safe a" "a \<noteq> []"
  shows "tok_loop (a @ rest) st = tok_loop rest (push_text a st)"
  using assms
proof (induction a arbitrary: st)
  case (Cons c a)
  then show ?case by (cases "a = []") (simp_all add: argv_safe_default)
qed simp

lemma escape_squotes_append: "escape_squotes (a @ b) = escape_squotes a @ escape_squotes b"
  by (induction a) auto

lemma escape_squotes_id: "ch_squote \<notin> set a \<Longrightarrow> escape_squotes a = a"
  by (induction a) auto

lemma single_quote_step:
  assumes "ch_squote \<notin> set b"
  shows "tok_loop (ch_squote # b @ ch_squote # rest) st = tok_loop rest (push_text b st)"
proof -
  have "takeWhile (\<lambda>x. x \<noteq> ch_squote) (b @ ch_squote # rest) = b"
    "dropWhile (\<lambda>x. x \<noteq> ch_squote) (b @ ch_squote # rest) = ch_squote # rest"
    by (rule takeWhile_append_stop; use assms in auto)+
  then show ?thesis by (simp add: tok_step_def arm_single_quote_def)
qed

lemma tok_loop_quoted:
  "tok_loop (ch_squote # escape_squotes a @ ch_squote # rest) st = tok_loop rest (push_text a st)"
proof (induction "length a" arbitrary: a st rule: less_induct)
  case less
  show ?case
  proof (cases "ch_squote \<in> set a")
    case False
    then show ?thesis
      using single_quote_step [OF False] by (simp only: escape_squotes_id [OF False])
  next
    case True
    then obtain b c where a: "a = b @ ch_squote # c" and b: "ch_squote \<notin> set b"
      by (meson split_list_first)
    have "tok_loop (ch_squote # escape_squotes a @ ch_squote # rest) st
        = tok_loop (ch_backslash # ch_squote # ch_squote # escape_squotes c @ ch_squote # rest) (push_text b st)"
      using single_quote_step [OF b] by (simp add: a escape_squotes_append escape_squotes_id [OF b])
    also have "\<dots> = tok_loop (ch_squote # escape_squotes c @ ch_squote # rest) (push_text (b @ [ch_squote]) st)"
      by (simp add: tok_step_def arm_backslash_def)
    also have "\<dots> = tok_loop rest (push_text a st)"
      using less [of c] by (simp add: a)
    finally show ?thesis .
  qed
qed

lemma tok_loop_quote_arg: "tok_loop (quote_arg a @ rest) st = tok_loop rest (push_text a st)"
  using tok_loop_safe tok_loop_quoted [of a rest st] by (auto simp: quote_arg_def)

text \<open>The state after the words \<open>ws\<close> of a first command.\<close>

definition argv_state :: "rstring list \<Rightarrow> tok" where
  "argv_state ws = tok_init\<lparr>tk_out := [default_command\<lparr>sc_words := ws\<rparr>]\<rparr>"

lemma end_word_argv: "end_word (push_text a (argv_state ws)) = argv_state (ws @ [a])"
  by (simp add: end_word_def push_text_def argv_state_def tok_init_def)

lemma tok_loop_argv:
  "args \<noteq> [] \<Longrightarrow>
   end_word (tok_loop (join (lit '' '') (map quote_arg args)) (argv_state ws)) = argv_state (ws @ args)"
proof (induction args arbitrary: ws)
  case (Cons a args)
  show ?case
  proof (cases args)
    case Nil
    then show ?thesis
      using tok_loop_quote_arg [of a "[]"] by (simp add: end_word_argv)
  next
    case (Cons b bs)
    have "tok_step ch_space cs st = (cs, end_word st)" for cs st
      by (simp add: tok_step_def is_whitespace_def)
    then show ?thesis
      using Cons Cons.IH [of "ws @ [a]"] by (simp add: tok_loop_quote_arg end_word_argv)
  qed
qed simp

lemma tokenise_join_argv:
  assumes "args \<noteq> []"
  shows "tokenise (join_argv args) = \<lparr>p_commands = [default_command\<lparr>sc_words := args\<rparr>], p_complete = True\<rparr>"
proof -
  have "tok_init = argv_state []"
    by (simp add: argv_state_def tok_init_def default_command_def)
  then have "end_word (tok_loop (join_argv args) tok_init) = argv_state args"
    using tok_loop_argv [OF assms, of "[]"] by (simp add: join_argv_def)
  then show ?thesis
    using assms by (simp add: tokenise_def tok_finish_def argv_state_def tok_init_def end_command_def)
qed

text \<open>
  C21. Quoting an argument vector with \<open>join_argv\<close> and tokenising the result gives back exactly one
  command whose words are the arguments, with no redirection and no heredoc, and the text is
  complete: no argument can break out of its quotes.
\<close>

theorem join_argv_roundtrip:
  assumes "args \<noteq> []"
  shows "tokenise (join_argv args) = \<lparr>p_commands = [default_command\<lparr>sc_words := args\<rparr>], p_complete = True\<rparr>"
  by (rule tokenise_join_argv [OF assms])

lemma join_argv_roundtrip_witness:
  "tokenise (join_argv [lit ''tmux'', [ch_squote, ch_nl, ch_semi], []]) =
   \<lparr>p_commands = [default_command\<lparr>sc_words := [lit ''tmux'', [ch_squote, ch_nl, ch_semi], []]\<rparr>],
     p_complete = True\<rparr>"
  by (rule join_argv_roundtrip) simp

end
