(* ===== verification/Tmux_Words.thy ===== *)
theory Tmux_Words
  imports Shell_Facts
begin

text \<open>
  The text readings of \<open>pre_tool_use/tmux_guard.rs\<close>: its tables, the tokens of a piece of
  text under the three readings of \<open>any_reading\<close>, command substitutions, and the tests for
  words that name tmux or kill a server.  The parameter \<open>u\<close> is \<open>char::is_alphanumeric\<close>
  beyond ASCII.
\<close>

section \<open>Tables\<close>

definition data_programs :: "rstring list" where
  "data_programs = map lit [''git'', ''gh'', ''echo'', ''printf'', ''grep'', ''egrep'', ''fgrep'',
     ''rg'', ''cat'', ''head'', ''tail'', ''wc'', ''jq'', ''test'', ''['', ''true'', '':'']"

definition shell_evaluators :: "rstring list" where
  "shell_evaluators = map lit [''sh'', ''bash'', ''zsh'', ''dash'', ''ksh'', ''fish'', ''eval'',
     ''source'', ''.'', ''xargs'', ''nohup'', ''exec'', ''parallel'', ''watch'', ''script'', ''su'',
     ''sudo'', ''ssh'', ''docker'', ''kubectl'', ''find'', ''tmux'', ''setsid'', ''python'',
     ''python3'', ''node'', ''perl'', ''ruby'']"

definition git_data_subcommands :: "rstring list" where
  "git_data_subcommands = map lit [''add'', ''commit'', ''diff'', ''log'', ''notes'', ''show'',
     ''stash'', ''status'', ''tag'']"

definition git_command_runners :: "rstring list" where
  "git_command_runners = map lit [''config'', ''clone'', ''rebase'', ''bisect'', ''submodule'',
     ''difftool'', ''mergetool'', ''filter-branch'', ''for-each-repo'']"

definition git_value_opts :: "rstring list" where
  "git_value_opts = map lit [''-C'', ''-c'', ''--git-dir'', ''--work-tree'', ''--namespace'',
     ''--config-env'', ''--super-prefix'']"

definition global_flags :: rstring where "global_flags = lit ''2CDlNuVv''"
definition global_value_opts :: rstring where "global_value_opts = lit ''cfLST''"
definition max_depth :: nat where "max_depth = 4"
definition max_input :: nat where "max_input = 64 * 1024"
definition max_reparses :: nat where "max_reparses = 256"
definition max_tmux_per_command :: nat where "max_tmux_per_command = 64"

section \<open>Readings of a text\<close>

definition is_quote_char :: "rchar \<Rightarrow> bool" where
  "is_quote_char c = (c = ch_squote \<or> c = ch_dquote \<or> c = ch_backslash)"

definition text_test :: "rstring \<Rightarrow> bool" where
  "text_test text =
    (let lower = map to_ascii_lower (filter (\<lambda>c. \<not> is_quote_char c) text)
     in str_contains (lit ''tmux'') lower \<and> str_contains (lit ''kill-s'') lower)"

definition token_char :: "(rchar \<Rightarrow> bool) \<Rightarrow> rchar \<Rightarrow> bool" where
  "token_char u c = (is_alphanumeric u c \<or> c \<in> set (lit ''_.-/''))"

definition tokens :: "(rchar \<Rightarrow> bool) \<Rightarrow> rstring \<Rightarrow> rstring list" where
  "tokens u text = filter (\<lambda>t. t \<noteq> []) (split_on (\<lambda>c. \<not> token_char u c) text)"

fun printf_split :: "rstring \<Rightarrow> rstring" where
  "printf_split [] = []"
| "printf_split (c # cs) =
    (if c \<noteq> ch_backslash then c # printf_split cs
     else (case cs of [] \<Rightarrow> [c]
           | e # cs' \<Rightarrow> if e \<in> set (lit ''abefnrtv'') then ch_space # printf_split cs'
                       else c # e # printf_split cs'))"

function unquoted :: "rstring \<Rightarrow> rstring" where
  "unquoted [] = []"
| "unquoted (c # cs) =
    (case (if c = ch_dollar \<and> get cs 0 = Some ch_squote then ansi_c_close (tl cs) else None) of
       Some k \<Rightarrow> ansi_c_decode (take k (tl cs)) @ unquoted (drop (k + 2) cs)
     | None \<Rightarrow> if is_quote_char c then unquoted cs else c # unquoted cs)"
  by pat_completeness auto
termination
  by (relation "measure length") auto

definition any_reading :: "(rchar \<Rightarrow> bool) \<Rightarrow> rstring \<Rightarrow> (rstring list \<Rightarrow> bool) \<Rightarrow> bool" where
  "any_reading u text test =
    (test (tokens u text) \<or>
     (ch_backslash \<in> set text \<and> test (tokens u (printf_split text))) \<or>
     (list_ex is_quote_char text \<and> test (tokens u (unquoted text))))"

section \<open>Words\<close>

definition is_expansion :: "rstring \<Rightarrow> bool" where
  "is_expansion word = (ch_dollar \<in> set word \<or> ch_backtick \<in> set word)"

definition starts_kill_s :: "rstring \<Rightarrow> bool" where
  "starts_kill_s word =
    (6 \<le> length word \<and> eq_ignore_ascii_case (take 6 word) (lit ''kill-s''))"

definition is_tmux :: "rstring \<Rightarrow> bool" where
  "is_tmux word = eq_ignore_ascii_case (basename word) (lit ''tmux'')"

definition is_tmux_token :: "rstring \<Rightarrow> bool" where
  "is_tmux_token token =
    (let last = basename token
     in is_tmux last \<or>
        (case rsplit_once ch_dash last of None \<Rightarrow> False
         | Some (_, tail) \<Rightarrow> eq_ignore_ascii_case tail (lit ''tmux'')))"

definition unknown_program :: "rstring \<Rightarrow> bool" where
  "unknown_program word =
    list_ex (\<lambda>w. starts_with [ch_dollar] w \<or> starts_with [ch_backtick] w) [word, basename word]"

definition has_candidate :: "(rchar \<Rightarrow> bool) \<Rightarrow> rstring \<Rightarrow> bool" where
  "has_candidate u text =
    any_reading u text (\<lambda>t. list_ex is_tmux_token t \<and> list_ex (\<lambda>w. starts_kill_s (basename w)) t)"

definition expands_near_tmux :: "(rchar \<Rightarrow> bool) \<Rightarrow> rstring \<Rightarrow> bool" where
  "expands_near_tmux u text =
    (is_expansion text \<and> any_reading u text (list_ex is_tmux_token))"

definition needs_reparse :: "(rchar \<Rightarrow> bool) \<Rightarrow> rstring \<Rightarrow> bool" where
  "needs_reparse u text = (has_candidate u text \<or> expands_near_tmux u text)"

definition mentions_kill_s :: "(rchar \<Rightarrow> bool) \<Rightarrow> rstring \<Rightarrow> bool" where
  "mentions_kill_s u word = any_reading u word (list_ex starts_kill_s)"

section \<open>Command substitutions\<close>

definition placeholder :: rstring where "placeholder = lit '' $_ ''"

function substitutions :: "rstring \<Rightarrow> rstring list \<times> rstring" where
  "substitutions [] = ([], [])"
| "substitutions (c # cs) =
    (if c = ch_dollar \<and> get cs 0 = Some ch_lparen then
       (case subst_close (c # cs) of
          Some k \<Rightarrow> (let r = substitutions (drop k cs)
                     in (take (k - 2) (tl cs) # fst r, placeholder @ snd r))
        | None \<Rightarrow> ([tl cs], placeholder))
     else if c = ch_backtick then
       (let r = substitutions (tl (dropWhile (\<lambda>x. x \<noteq> ch_backtick) cs))
        in (takeWhile (\<lambda>x. x \<noteq> ch_backtick) cs # fst r, placeholder @ snd r))
     else (let r = substitutions cs in (fst r, c # snd r)))"
  by pat_completeness auto
termination
  by (relation "measure length") (auto simp: less_Suc_eq_le)

text \<open>\<open>word.contains("$(") || word.contains('`')\<close>\<close>

definition holds_substitution :: "rstring \<Rightarrow> bool" where
  "holds_substitution value = (str_contains (lit ''$('') value \<or> ch_backtick \<in> set value)"

definition substitutes_tmux_output :: "(rchar \<Rightarrow> bool) \<Rightarrow> rstring \<Rightarrow> bool" where
  "substitutes_tmux_output u value =
    (holds_substitution value \<and>
     list_ex (\<lambda>body. any_reading u body (list_ex is_tmux_token)) (fst (substitutions value)))"

section \<open>Killing commands\<close>

definition kills_server :: "rstring \<Rightarrow> bool" where
  "kills_server name =
    (let name = to_ascii_lowercase name
     in utf8_len (lit ''kill-s'') \<le> utf8_len name \<and> starts_with name (lit ''kill-server''))"

definition is_kill_session :: "rstring \<Rightarrow> bool" where
  "is_kill_session name =
    (let name = to_ascii_lowercase name
     in utf8_len (lit ''kill-ses'') \<le> utf8_len name \<and> starts_with name (lit ''kill-session''))"

text \<open>
  The inner loop of \<open>session_flags\<close> over one cluster: \<open>None\<close> for an unknown flag, otherwise
  whether \<open>-a\<close> was set and whether \<open>-t\<close> takes the next word.
\<close>

fun session_cluster :: "bool \<Rightarrow> rstring \<Rightarrow> (bool \<times> bool) option" where
  "session_cluster all [] = Some (all, False)"
| "session_cluster all (f # fs) =
    (if f = of_char CHR ''a'' then session_cluster True fs
     else if f = of_char CHR ''C'' then session_cluster all fs
     else if f = of_char CHR ''t'' then Some (all, fs = [])
     else None)"

text \<open>One turn of the outer loop: what the next word does.\<close>

datatype session_turn = Session_stop | Session_unknown | Session_one bool | Session_two bool

definition session_word :: "bool \<Rightarrow> rstring \<Rightarrow> session_turn" where
  "session_word all w =
    (if w = lit ''--'' then Session_stop
     else (case strip_prefix (lit ''-'') w of None \<Rightarrow> Session_stop
       | Some opts \<Rightarrow>
           if opts = [] then Session_stop
           else (case session_cluster all opts of
                   None \<Rightarrow> Session_unknown
                 | Some (all', takes_next) \<Rightarrow>
                     if takes_next then Session_two all' else Session_one all')))"

fun session_flags_loop :: "bool \<Rightarrow> nat \<Rightarrow> rstring list \<Rightarrow> bool \<times> nat" where
  "session_flags_loop all i [] = (all, i)"
| "session_flags_loop all i (w # ws) =
    (case session_word all w of
       Session_stop \<Rightarrow> (all, i)
     | Session_unknown \<Rightarrow> (True, i)
     | Session_one all' \<Rightarrow> session_flags_loop all' (i + 1) ws
     | Session_two all' \<Rightarrow> session_flags_loop all' (i + 2) (tl ws))"

definition session_flags :: "rstring list \<Rightarrow> bool \<times> nat" where
  "session_flags flags =
    (let (all, i) = session_flags_loop False 0 flags in (all, min i (length flags)))"

definition kills_all_sessions :: "rstring list \<Rightarrow> bool" where
  "kills_all_sessions flags = fst (session_flags flags)"

fun kills_in_loop :: "nat \<Rightarrow> nat \<Rightarrow> rstring list \<Rightarrow> bool" where
  "kills_in_loop j read_to [] = False"
| "kills_in_loop j read_to (t # ts) =
    (if kills_server t then True
     else if read_to \<le> j \<and> is_kill_session t then
       (let (all, taken) = session_flags ts
        in if all then True else kills_in_loop (j + 1) (j + 1 + taken) ts)
     else kills_in_loop (j + 1) read_to ts)"

definition kills_in :: "rstring list \<Rightarrow> bool" where
  "kills_in ts = kills_in_loop 0 0 ts"

definition text_kills :: "(rchar \<Rightarrow> bool) \<Rightarrow> rstring \<Rightarrow> bool" where
  "text_kills u text = any_reading u text kills_in"

end
