(* ===== verification/Tmux_Scope.thy ===== *)
theory Tmux_Scope
  imports Tmux_Words
begin

text \<open>
  One tmux invocation of \<open>pre_tool_use/tmux_guard.rs\<close>: tmux's global options, which \<open>-S\<close> and
  \<open>-L\<close> values count as scope, the tmux command sequence after them, git's options, and the
  facts about a whole line that the scan needs.
\<close>

section \<open>Scope\<close>

text \<open>\<open>$NAME\<close> or \<open>${NAME}\<close> at every dollar sign of the value.\<close>

definition var_char :: "rchar \<Rightarrow> bool" where
  "var_char c = (c = ch_underscore \<or> is_ascii_alphanumeric c)"

fun refers_to_any :: "rstring \<Rightarrow> rstring set \<Rightarrow> bool" where
  "refers_to_any [] names = False"
| "refers_to_any (c # after) names =
    (if c = ch_dollar then
       (let body = (case strip_prefix [ch_lbrace] after of None \<Rightarrow> after | Some b \<Rightarrow> b)
        in takeWhile var_char body \<in> names \<or> refers_to_any after names)
     else refers_to_any after names)"

definition scope_value_ok :: "(rchar \<Rightarrow> bool) \<Rightarrow> rstring \<Rightarrow> rstring set \<Rightarrow> bool" where
  "scope_value_ok u value tainted =
    (value \<noteq> [] \<and> \<not> refers_to_any value tainted \<and> \<not> substitutes_tmux_output u value \<and>
     \<not> eq_ignore_ascii_case
        (basename (trim_end_matches (\<lambda>c. c = ch_slash \<or> c = ch_rbrace) value)) (lit ''default''))"

definition taint_word :: "(rchar \<Rightarrow> bool) \<Rightarrow> rstring \<Rightarrow> rstring set \<Rightarrow> rstring set" where
  "taint_word u word tainted =
    (if \<not> is_assignment word then tainted
     else (case split_once ch_eq word of None \<Rightarrow> tainted
           | Some (name, value) \<Rightarrow>
               if \<not> scope_value_ok u value tainted then insert name tainted else tainted))"

definition taint_assignments ::
  "(rchar \<Rightarrow> bool) \<Rightarrow> simple_command list \<Rightarrow> rstring set \<Rightarrow> rstring set" where
  "taint_assignments u cmds tainted = fold (taint_word u) (concat (map sc_words cmds)) tainted"

section \<open>Global options\<close>

text \<open>The inner loop of \<open>global_scope\<close> over one cluster of flags.\<close>

datatype cluster = Flags_only | Unknown_flag | Value_flag rchar rstring

fun global_cluster :: "rstring \<Rightarrow> cluster" where
  "global_cluster [] = Flags_only"
| "global_cluster (f # joined) =
    (if f \<in> set global_flags then global_cluster joined
     else if f \<notin> set global_value_opts then Unknown_flag
     else Value_flag f joined)"

record global =
  gl_scoped :: bool
  gl_rest :: nat
  gl_uncertain :: bool

definition scope_flag :: "rchar \<Rightarrow> bool" where
  "scope_flag f = (f = of_char CHR ''S'' \<or> f = of_char CHR ''L'')"

definition value_is_scope ::
  "(rchar \<Rightarrow> bool) \<Rightarrow> rstring set \<Rightarrow> rstring option \<Rightarrow> bool" where
  "value_is_scope u tainted v = (case v of None \<Rightarrow> False | Some x \<Rightarrow> scope_value_ok u x tainted)"

text \<open>What one word of the options does: end them (taking the word or not), or one cluster.\<close>

datatype global_turn = Global_stop nat | Global_cluster cluster

definition global_word :: "rstring \<Rightarrow> global_turn" where
  "global_word w =
    (if w = lit ''--'' then Global_stop 1
     else (case strip_prefix (lit ''-'') w of None \<Rightarrow> Global_stop 0
           | Some flags \<Rightarrow> if flags = [] then Global_stop 0 else Global_cluster (global_cluster flags)))"

fun global_loop ::
  "(rchar \<Rightarrow> bool) \<Rightarrow> rstring set \<Rightarrow> bool \<Rightarrow> bool \<Rightarrow> nat \<Rightarrow> rstring list \<Rightarrow> global" where
  "global_loop u tainted scoped bad i [] = \<lparr>gl_scoped = scoped \<and> \<not> bad, gl_rest = i, gl_uncertain = False\<rparr>"
| "global_loop u tainted scoped bad i (w # ws) =
    (case global_word w of
       Global_stop n \<Rightarrow> \<lparr>gl_scoped = scoped \<and> \<not> bad, gl_rest = i + n, gl_uncertain = False\<rparr>
     | Global_cluster Flags_only \<Rightarrow> global_loop u tainted scoped bad (i + 1) ws
     | Global_cluster Unknown_flag \<Rightarrow> \<lparr>gl_scoped = False, gl_rest = i, gl_uncertain = True\<rparr>
     | Global_cluster (Value_flag f joined) \<Rightarrow>
         (let ok = value_is_scope u tainted (if joined = [] then get ws 0 else Some joined)
          in global_loop u tainted (scoped \<or> scope_flag f \<and> ok) (bad \<or> scope_flag f \<and> \<not> ok)
               (i + (if joined = [] then 2 else 1)) (if joined = [] then tl ws else ws)))"

definition global_scope :: "(rchar \<Rightarrow> bool) \<Rightarrow> rstring list \<Rightarrow> rstring set \<Rightarrow> global" where
  "global_scope u args tainted =
    (let g = global_loop u tainted False False 0 args
     in g\<lparr>gl_rest := min (gl_rest g) (length args)\<rparr>)"

section \<open>The command sequence of an invocation\<close>

text \<open>The words are split at \<open>;\<close> words and behind words that end in \<open>;\<close>.\<close>

fun split_sequence :: "rstring list \<Rightarrow> rstring list \<Rightarrow> rstring list list" where
  "split_sequence current [] = [current]"
| "split_sequence current (w # ws) =
    (case strip_suffix (lit '';'') w of
       Some head \<Rightarrow> (if head \<noteq> [] then current @ [head] else current) # split_sequence [] ws
     | None \<Rightarrow> split_sequence (current @ [w]) ws)"

definition command_kills :: "rstring list \<Rightarrow> bool" where
  "command_kills cmd =
    (case cmd of [] \<Rightarrow> False
     | name # flags \<Rightarrow> is_expansion name \<or> kills_server name \<or>
         (is_kill_session name \<and> kills_all_sessions flags))"

definition sequence_dangerous :: "rstring list \<Rightarrow> bool" where
  "sequence_dangerous rest = list_ex command_kills (split_sequence [] rest)"

definition loose_dangerous :: "(rchar \<Rightarrow> bool) \<Rightarrow> rstring list \<Rightarrow> bool" where
  "loose_dangerous u rest = (list_ex is_expansion rest \<or> text_kills u (join (lit '' '') rest))"

record invocation =
  inv_scoped :: bool
  inv_dangerous :: bool

definition tmux_invocation :: "(rchar \<Rightarrow> bool) \<Rightarrow> rstring list \<Rightarrow> rstring set \<Rightarrow> invocation" where
  "tmux_invocation u args tainted =
    (let g = global_scope u args tainted;
         rest = drop (gl_rest g) args;
         nested = text_kills u (join (lit '' '') (drop 1 rest));
         dangerous = (\<not> gl_scoped g \<and>
           (if gl_uncertain g then loose_dangerous u rest else sequence_dangerous rest \<or> nested))
     in \<lparr>inv_scoped = gl_scoped g, inv_dangerous = dangerous\<rparr>)"

section \<open>git, amplihack and evaluators\<close>

definition program_start :: "rstring list \<Rightarrow> nat" where
  "program_start words =
    length words - (case program words of None \<Rightarrow> 0 | Some p \<Rightarrow> length p)"

fun git_subcommand :: "rstring list \<Rightarrow> rstring option" where
  "git_subcommand [] = None"
| "git_subcommand (w # ws) =
    (if w \<in> set git_value_opts then git_subcommand (tl ws)
     else if starts_with (lit ''-'') w then git_subcommand ws
     else Some w)"

definition git_runs_commands :: "rstring list \<Rightarrow> bool" where
  "git_runs_commands args =
    (case git_subcommand args of None \<Rightarrow> False | Some s \<Rightarrow> s \<in> set git_command_runners)"

definition is_recipe_run :: "rstring list \<Rightarrow> bool" where
  "is_recipe_run args = (get args 0 = Some (lit ''recipe'') \<and> get args 1 = Some (lit ''run''))"

text \<open>\<open>k.checked_sub(1).and_then(|p| words.get(p))\<close>\<close>

definition previous_word :: "rstring list \<Rightarrow> nat \<Rightarrow> rstring option" where
  "previous_word words k = (if k = 0 then None else get words (k - 1))"

definition is_context_value :: "rstring list \<Rightarrow> nat \<Rightarrow> bool" where
  "is_context_value words k =
    (case get words k of None \<Rightarrow> False
     | Some word \<Rightarrow>
         starts_with (lit ''--context='') word \<or>
         (starts_with (lit ''-c'') word \<and> \<not> starts_with (lit ''--'') word \<and> 2 < utf8_len word) \<or>
         previous_word words k \<in> {Some (lit ''-c''), Some (lit ''--context'')})"

definition git_runs_value :: "rstring list \<Rightarrow> nat \<Rightarrow> bool" where
  "git_runs_value words k =
    (case get words k of None \<Rightarrow> False
     | Some word \<Rightarrow>
         str_contains (lit ''=!'') word \<or>
         (starts_with (lit ''-c'') word \<and> 2 < utf8_len word) \<or>
         previous_word words k = Some (lit ''-c''))"

definition is_evaluator :: "simple_command \<Rightarrow> bool" where
  "is_evaluator cmd =
    (let words = sc_words cmd;
         start = program_start words;
         named = list_ex (\<lambda>w. to_ascii_lowercase (basename w) \<in> set shell_evaluators) (take (start + 1) words);
         env_split = (words \<noteq> [] \<and> basename (hd words) = lit ''env'' \<and>
           list_ex (\<lambda>w. starts_with (lit ''-S'') w \<or> starts_with (lit ''--split-string'') w) words);
         prog = map_option basename (get words start);
         git_runner = (prog = Some (lit ''git'') \<and> git_runs_commands (drop (start + 1) words));
         gh_alias = (prog = Some (lit ''gh'') \<and> get words (start + 1) = Some (lit ''alias''));
         assigned = ((prog = Some (lit ''git'') \<or> prog = Some (lit ''gh'')) \<and>
           list_ex is_assignment (take start words))
     in named \<or> env_split \<or> git_runner \<or> gh_alias \<or> assigned)"

section \<open>Facts about a line\<close>

record line_facts =
  lf_evaluator :: bool
  lf_fed_kill_s :: "bool list"

definition has_kill_s_word :: "(rchar \<Rightarrow> bool) \<Rightarrow> simple_command \<Rightarrow> bool" where
  "has_kill_s_word u cmd = list_ex (mentions_kill_s u) (sc_words cmd)"

definition heredoc_kill_s :: "simple_command \<Rightarrow> bool" where
  "heredoc_kill_s cmd =
    list_ex (\<lambda>b. str_contains (lit ''kill-s'') (to_ascii_lowercase b)) (sc_heredocs cmd)"

text \<open>The second pass, with the running flag \<open>upstream\<close>.\<close>

fun fed_loop ::
  "(rchar \<Rightarrow> bool) \<Rightarrow> nat set \<Rightarrow> (nat \<times> bool) option \<Rightarrow> simple_command list \<Rightarrow> bool list" where
  "fed_loop u hk upstream [] = []"
| "fed_loop u hk upstream (cmd # cmds) =
    (let earlier = (case upstream of None \<Rightarrow> False | Some (p, seen) \<Rightarrow> p = sc_pipeline cmd \<and> seen)
     in (earlier \<or> sc_pipeline cmd \<in> hk)
        # fed_loop u hk (Some (sc_pipeline cmd, earlier \<or> has_kill_s_word u cmd)) cmds)"

definition line_facts_of :: "(rchar \<Rightarrow> bool) \<Rightarrow> simple_command list \<Rightarrow> line_facts" where
  "line_facts_of u cmds =
    \<lparr>lf_evaluator = list_ex is_evaluator cmds,
     lf_fed_kill_s = fed_loop u (set (map sc_pipeline (filter heredoc_kill_s cmds))) None cmds\<rparr>"

end
