(* ===== verification/Json_Value.thy ===== *)
theory Json_Value
  imports Rust_Text
begin

text \<open>
  \<open>serde_json::Value\<close> as the hooks read and build it.  A number is its text.  An object is
  an association list; \<open>get\<close> finds the first entry of a key.
\<close>

datatype json = J_null | J_bool bool | J_num rstring | J_str rstring
  | J_arr "json list" | J_obj "(rstring \<times> json) list"

definition json_get :: "rstring \<Rightarrow> json \<Rightarrow> json option" where
  "json_get key v = (case v of J_obj fields \<Rightarrow> map_of fields key | _ \<Rightarrow> None)"

definition json_as_str :: "json \<Rightarrow> rstring option" where
  "json_as_str v = (case v of J_str s \<Rightarrow> Some s | _ \<Rightarrow> None)"

text \<open>\<open>items.iter().filter_map(Value::as_str)\<close>\<close>

definition json_strings :: "json list \<Rightarrow> rstring list" where
  "json_strings items = List.map_filter json_as_str items"

lemma json_strings_map [simp]: "json_strings (map J_str ss) = ss"
  by (induction ss) (auto simp: json_strings_def json_as_str_def List.map_filter_def)

text \<open>\<open>iter.find_map(f)\<close>: the first result that is not \<open>None\<close>.\<close>

fun find_map :: "('a \<Rightarrow> 'b option) \<Rightarrow> 'a list \<Rightarrow> 'b option" where
  "find_map f [] = None"
| "find_map f (x # xs) = (case f x of None \<Rightarrow> find_map f xs | Some y \<Rightarrow> Some y)"

lemma find_map_None: "find_map f xs = None \<longleftrightarrow> (\<forall>x \<in> set xs. f x = None)"
  by (induction xs) (auto split: option.splits)

end
