(* ===== verification/Tmux_Guard.thy ===== *)
theory Tmux_Guard
  imports Tmux_Scope Json_Value
begin

text \<open>
  The scan of \<open>pre_tool_use/tmux_guard.rs\<close>.  \<open>Scan\<close> and \<open>Ctx\<close> are records; the context is
  passed through and returned.  \<open>scan\<close> and \<open>reparse\<close> call each other with a growing depth,
  so the body of \<open>scan\<close> takes the re-parse as an argument and \<open>scan_at n\<close> ties the knot on
  the \<open>n = MAX_DEPTH - depth\<close> levels that are left.
\<close>

record scan =
  sn_dangerous :: bool
  sn_tmux_seen :: bool
  sn_unscoped :: bool
  sn_data_mention :: bool

definition scan_default :: scan where
  "scan_default = \<lparr>sn_dangerous = False, sn_tmux_seen = False, sn_unscoped = False, sn_data_mention = False\<rparr>"

record ctx =
  cx_budget :: nat
  cx_tainted :: "rstring set"

definition or_dangerous :: "bool \<Rightarrow> scan \<Rightarrow> scan" where
  "or_dangerous b s = s\<lparr>sn_dangerous := (sn_dangerous s \<or> b)\<rparr>"

definition or_seen :: "bool \<Rightarrow> scan \<Rightarrow> scan" where
  "or_seen b s = s\<lparr>sn_tmux_seen := (sn_tmux_seen s \<or> b)\<rparr>"

definition or_unscoped :: "bool \<Rightarrow> scan \<Rightarrow> scan" where
  "or_unscoped b s = s\<lparr>sn_unscoped := (sn_unscoped s \<or> b)\<rparr>"

definition or_data :: "bool \<Rightarrow> scan \<Rightarrow> scan" where
  "or_data b s = s\<lparr>sn_data_mention := (sn_data_mention s \<or> b)\<rparr>"

type_synonym reparse = "rstring \<Rightarrow> ctx \<Rightarrow> scan \<times> ctx"

section \<open>Layer 3: one word\<close>

definition cleared :: "(rchar \<Rightarrow> bool) \<Rightarrow> scan \<Rightarrow> rstring \<Rightarrow> bool" where
  "cleared u inner text =
    (sn_tmux_seen inner \<and> \<not> sn_dangerous inner \<and> (\<not> sn_unscoped inner \<or> \<not> text_kills u text))"

record verdict =
  vd_substitutions_ok :: bool
  vd_plain_ok :: bool
  vd_tmux_seen :: bool
  vd_data_mention :: bool

text \<open>The loop over the substitution bodies; the flag is \<open>any_candidate\<close>.\<close>

fun judge_bodies ::
  "(rchar \<Rightarrow> bool) \<Rightarrow> reparse \<Rightarrow> bool \<Rightarrow> rstring list \<Rightarrow> verdict \<times> bool \<times> ctx \<Rightarrow> verdict \<times> bool \<times> ctx" where
  "judge_bodies u rp data [] acc = acc"
| "judge_bodies u rp data (body # bodies) (v, any, cx) =
    (if \<not> has_candidate u body then judge_bodies u rp data bodies (v, any, cx)
     else
       (let (inner, cx') = rp body cx;
            ok = (\<not> sn_dangerous inner \<and> (data \<or> (cleared u inner body \<and> \<not> sn_data_mention inner)));
            v' = v\<lparr>vd_substitutions_ok := (vd_substitutions_ok v \<and> ok),
                   vd_tmux_seen := (vd_tmux_seen v \<or> sn_tmux_seen inner),
                   vd_data_mention := (vd_data_mention v \<or> sn_data_mention inner)\<rparr>
        in judge_bodies u rp data bodies (v', True, cx')))"

definition judge_word ::
  "(rchar \<Rightarrow> bool) \<Rightarrow> reparse \<Rightarrow> rstring \<Rightarrow> bool \<Rightarrow> ctx \<Rightarrow> verdict \<times> ctx" where
  "judge_word u rp word data cx =
    (let (bodies, rest) = substitutions word;
         v0 = \<lparr>vd_substitutions_ok = True, vd_plain_ok = True, vd_tmux_seen = False, vd_data_mention = False\<rparr>;
         (v, any, cx') = judge_bodies u rp data bodies (v0, False, cx)
     in if has_candidate u rest then
          (let (inner, cx'') = rp rest cx'
           in (v\<lparr>vd_plain_ok := cleared u inner rest,
                 vd_tmux_seen := (vd_tmux_seen v \<or> sn_tmux_seen inner),
                 vd_data_mention := (vd_data_mention v \<or> sn_data_mention inner)\<rparr>, cx''))
        else if \<not> any then (v\<lparr>vd_plain_ok := False\<rparr>, cx')
        else (v, cx'))"

fun expansion_loop ::
  "(rchar \<Rightarrow> bool) \<Rightarrow> reparse \<Rightarrow> rstring \<Rightarrow> rstring list \<Rightarrow> bool \<Rightarrow> ctx \<Rightarrow> bool \<times> ctx" where
  "expansion_loop u rp scanned [] dangerous cx = (dangerous, cx)"
| "expansion_loop u rp scanned (text # texts) dangerous cx =
    (if trim text \<noteq> trim scanned \<and> needs_reparse u text then
       (let (inner, cx') = rp text cx
        in expansion_loop u rp scanned texts (dangerous \<or> sn_dangerous inner) cx')
     else expansion_loop u rp scanned texts dangerous cx)"

definition expansion_dangerous ::
  "(rchar \<Rightarrow> bool) \<Rightarrow> reparse \<Rightarrow> rstring \<Rightarrow> rstring \<Rightarrow> ctx \<Rightarrow> bool \<times> ctx" where
  "expansion_dangerous u rp word scanned cx =
    (let (bodies, rest) = substitutions word
     in expansion_loop u rp scanned (bodies @ [rest]) False cx)"

section \<open>One command\<close>

text \<open>The local values of one turn of the loop of \<open>scan\<close> over the commands.\<close>

definition prog_name :: "rstring list \<Rightarrow> rstring option" where
  "prog_name words = map_option (\<lambda>p. to_ascii_lowercase (basename p)) (get words (program_start words))"

definition is_git :: "rstring list \<Rightarrow> bool" where
  "is_git words = (prog_name words = Some (lit ''git''))"

definition prog_args :: "rstring list \<Rightarrow> rstring list" where
  "prog_args words = drop (program_start words + 1) words"

definition data_only :: "bool \<Rightarrow> rstring list \<Rightarrow> bool" where
  "data_only evaluator words =
    (\<not> evaluator \<and>
     (case prog_name words of None \<Rightarrow> False | Some n \<Rightarrow> n \<in> set data_programs) \<and>
     (\<not> is_git words \<or>
      (case git_subcommand (prog_args words) of None \<Rightarrow> False | Some s \<Rightarrow> s \<in> set git_data_subcommands)))"

definition recipe_run :: "bool \<Rightarrow> rstring list \<Rightarrow> bool" where
  "recipe_run evaluator words =
    (\<not> evaluator \<and> prog_name words = Some (lit ''amplihack'') \<and> is_recipe_run (prog_args words))"

definition context_value :: "bool \<Rightarrow> rstring list \<Rightarrow> nat \<Rightarrow> bool" where
  "context_value evaluator words k = (recipe_run evaluator words \<and> is_context_value words k)"

text \<open>The program word is an expansion and a later word or the input holds \<open>kill-s\<close>.\<close>

definition unknown_program_kills :: "(rchar \<Rightarrow> bool) \<Rightarrow> bool \<Rightarrow> rstring list \<Rightarrow> bool" where
  "unknown_program_kills u fed words =
    ((case get words (program_start words) of None \<Rightarrow> False | Some p \<Rightarrow> unknown_program p) \<and>
     (fed \<or> list_ex (mentions_kill_s u) (drop (program_start words + 1) words)))"

definition names_tmux :: "(rchar \<Rightarrow> bool) \<Rightarrow> bool \<Rightarrow> rstring \<Rightarrow> bool" where
  "names_tmux u first word =
    (is_tmux word \<or> (first \<and> unknown_program word \<and> expands_near_tmux u word))"

text \<open>Layers 1 and 2: \<open>skip k\<close> is \<open>data_only || context_value(k)\<close>.\<close>

fun invocation_loop ::
  "(rchar \<Rightarrow> bool) \<Rightarrow> nat \<Rightarrow> (nat \<Rightarrow> bool) \<Rightarrow> bool \<Rightarrow> rstring set \<Rightarrow> nat \<Rightarrow> nat \<Rightarrow> rstring list \<Rightarrow> scan \<Rightarrow> scan" where
  "invocation_loop u start skip fed tainted k count [] out = out"
| "invocation_loop u start skip fed tainted k count (w # ws) out =
    (if \<not> names_tmux u (k = start) w \<or> (k \<noteq> start \<and> skip k)
     then invocation_loop u start skip fed tainted (k + 1) count ws out
     else
       (let out1 = or_seen True out
        in if max_tmux_per_command < count + 1 then or_dangerous True out1
           else
             (let inv = tmux_invocation u ws tainted;
                  out2 = (if \<not> inv_scoped inv then or_dangerous fed (or_unscoped True out1) else out1)
              in invocation_loop u start skip fed tainted (k + 1) (count + 1) ws
                   (or_dangerous (inv_dangerous inv) out2))))"

text \<open>Layer 3 over the words from index \<open>k\<close> on; \<open>data_at k\<close> is the local \<open>data\<close>.\<close>

fun script_loop ::
  "(rchar \<Rightarrow> bool) \<Rightarrow> reparse \<Rightarrow> rstring \<Rightarrow> (nat \<Rightarrow> bool) \<Rightarrow> nat \<Rightarrow> rstring list \<Rightarrow> scan \<times> ctx \<Rightarrow> scan \<times> ctx" where
  "script_loop u rp text data_at k [] acc = acc"
| "script_loop u rp text data_at k (w # ws) (out, cx) =
    (let exempt = (data_at k \<and> \<not> holds_substitution w)
     in if \<not> has_candidate u w then
          (if \<not> exempt \<and> expands_near_tmux u w then
             (let (d, cx') = expansion_dangerous u rp w text cx
              in script_loop u rp text data_at (k + 1) ws (or_dangerous d out, cx'))
           else script_loop u rp text data_at (k + 1) ws (out, cx))
        else
          (let (v, cx') = judge_word u rp w (data_at k) cx;
               bad = (\<not> vd_substitutions_ok v \<or> (\<not> vd_plain_ok v \<and> \<not> exempt))
           in script_loop u rp text data_at (k + 1) ws
                (or_dangerous bad (or_data (vd_data_mention v) (or_seen (vd_tmux_seen v) out)), cx')))"

text \<open>A git subcommand that runs its arguments.\<close>

definition git_layer ::
  "(rchar \<Rightarrow> bool) \<Rightarrow> reparse \<Rightarrow> rstring list \<Rightarrow> scan \<times> ctx \<Rightarrow> scan \<times> ctx" where
  "git_layer u rp words acc =
    (let (out, cx) = acc; joined = join_argv (prog_args words)
     in if is_git words \<and> git_runs_commands (prog_args words) \<and> needs_reparse u joined then
          (let (inner, cx') = rp joined cx
           in (or_seen (sn_tmux_seen inner) (or_dangerous (sn_dangerous inner) out), cx'))
        else (out, cx))"

text \<open>The substitutions of a heredoc body whose delimiter is not quoted.\<close>

fun heredoc_subs ::
  "(rchar \<Rightarrow> bool) \<Rightarrow> reparse \<Rightarrow> rstring list \<Rightarrow> scan \<times> ctx \<Rightarrow> scan \<times> ctx" where
  "heredoc_subs u rp [] acc = acc"
| "heredoc_subs u rp (sub # subs) (out, cx) =
    (if needs_reparse u sub then
       (let (inner, cx') = rp sub cx
        in heredoc_subs u rp subs (or_seen (sn_tmux_seen inner) (or_dangerous (sn_dangerous inner) out), cx'))
     else heredoc_subs u rp subs (out, cx))"

text \<open>The heredoc bodies with their flags; a missing flag reads as \<open>true\<close>.\<close>

fun heredoc_layer ::
  "(rchar \<Rightarrow> bool) \<Rightarrow> reparse \<Rightarrow> bool \<Rightarrow> rstring list \<Rightarrow> bool list \<Rightarrow> scan \<times> ctx \<Rightarrow> scan \<times> ctx" where
  "heredoc_layer u rp evaluator [] flags acc = acc"
| "heredoc_layer u rp evaluator (body # bodies) flags (out, cx) =
    (let expands = (case flags of [] \<Rightarrow> True | e # _ \<Rightarrow> e)
     in if evaluator then
          (if needs_reparse u body then
             (let (inner, cx') = rp body cx
              in heredoc_layer u rp evaluator bodies (tl flags)
                   (or_unscoped (sn_unscoped inner)
                     (or_seen (sn_tmux_seen inner) (or_dangerous (sn_dangerous inner) out)), cx'))
           else heredoc_layer u rp evaluator bodies (tl flags) (out, cx))
        else if expands then
          heredoc_layer u rp evaluator bodies (tl flags)
            (heredoc_subs u rp (fst (substitutions body)) (out, cx))
        else heredoc_layer u rp evaluator bodies (tl flags) (out, cx))"

text \<open>One turn of the loop over the commands.\<close>

definition data_word :: "bool \<Rightarrow> rstring list \<Rightarrow> nat \<Rightarrow> bool" where
  "data_word evaluator words k =
    ((data_only evaluator words \<and> \<not> (is_git words \<and> git_runs_value words k)) \<or>
     context_value evaluator words k)"

definition layers12 ::
  "(rchar \<Rightarrow> bool) \<Rightarrow> bool \<Rightarrow> bool \<Rightarrow> rstring list \<Rightarrow> rstring set \<Rightarrow> scan \<Rightarrow> scan" where
  "layers12 u evaluator fed words tainted out =
    (let start = program_start words;
         mention = ((data_only evaluator words \<or> recipe_run evaluator words) \<and>
           has_candidate u (join (lit '' '') words));
         out1 = or_dangerous (unknown_program_kills u fed words) (or_data mention out)
     in invocation_loop u start (\<lambda>k. data_only evaluator words \<or> context_value evaluator words k)
          fed tainted start 0 (drop start words) out1)"

definition scan_command ::
  "(rchar \<Rightarrow> bool) \<Rightarrow> reparse \<Rightarrow> bool \<Rightarrow> rstring \<Rightarrow> bool \<Rightarrow> simple_command \<Rightarrow> scan \<times> ctx \<Rightarrow> scan \<times> ctx" where
  "scan_command u rp evaluator text fed cmd acc =
    (let words = sc_words cmd; (out, cx) = acc
     in heredoc_layer u rp evaluator (sc_heredocs cmd) (sc_heredoc_expands cmd)
          (git_layer u rp words
            (script_loop u rp text (data_word evaluator words) 0 words
              (layers12 u evaluator fed words (cx_tainted cx) out, cx))))"

text \<open>The loop over the commands; a missing flag in \<open>fed\<close> reads as \<open>true\<close>.\<close>

fun scan_commands ::
  "(rchar \<Rightarrow> bool) \<Rightarrow> reparse \<Rightarrow> bool \<Rightarrow> rstring \<Rightarrow> bool list \<Rightarrow> simple_command list \<Rightarrow> scan \<times> ctx \<Rightarrow> scan \<times> ctx" where
  "scan_commands u rp evaluator text feds [] acc = acc"
| "scan_commands u rp evaluator text feds (cmd # cmds) acc =
    (let fed = (case feds of [] \<Rightarrow> True | f # _ \<Rightarrow> f)
     in scan_commands u rp evaluator text (tl feds) cmds (scan_command u rp evaluator text fed cmd acc))"

definition scan_body :: "(rchar \<Rightarrow> bool) \<Rightarrow> reparse \<Rightarrow> rstring \<Rightarrow> ctx \<Rightarrow> scan \<times> ctx" where
  "scan_body u rp text cx =
    (let parsed = tokenise text
     in if \<not> p_complete parsed then (scan_default\<lparr>sn_dangerous := text_test text\<rparr>, cx)
        else
          (let cmds = p_commands parsed;
               cx1 = cx\<lparr>cx_tainted := taint_assignments u cmds (cx_tainted cx)\<rparr>;
               facts = line_facts_of u cmds
           in scan_commands u rp (lf_evaluator facts) text (lf_fed_kill_s facts) cmds (scan_default, cx1)))"

section \<open>The recursion\<close>

text \<open>\<open>reparse\<close> at the deepest level, and above it.\<close>

definition reparse_denied :: reparse where
  "reparse_denied text cx = (scan_default\<lparr>sn_dangerous := True\<rparr>, cx)"

definition reparse_with :: "reparse \<Rightarrow> reparse" where
  "reparse_with deeper text cx =
    (if cx_budget cx = 0 then reparse_denied text cx
     else deeper text (cx\<lparr>cx_budget := cx_budget cx - 1\<rparr>))"

primrec scan_at :: "(rchar \<Rightarrow> bool) \<Rightarrow> nat \<Rightarrow> rstring \<Rightarrow> ctx \<Rightarrow> scan \<times> ctx" where
  "scan_at u 0 = scan_body u reparse_denied"
| "scan_at u (Suc n) = scan_body u (reparse_with (scan_at u n))"

definition ctx_init :: ctx where
  "ctx_init = \<lparr>cx_budget = max_reparses, cx_tainted = {lit ''TMUX''}\<rparr>"

definition is_dangerous :: "(rchar \<Rightarrow> bool) \<Rightarrow> rstring \<Rightarrow> bool" where
  "is_dangerous u text =
    (if max_input < utf8_len text then text_test text
     else sn_dangerous (fst (scan_at u max_depth text ctx_init)))"

section \<open>The tool input\<close>

text \<open>
  The deny response, with the reason text as the argument, and \<open>BLOCK_MESSAGE\<close>.
\<close>

definition deny_response :: "rstring \<Rightarrow> json" where
  "deny_response message = J_obj
    [(lit ''block'', J_bool True),
     (lit ''message'', J_str message),
     (lit ''decision'', J_str (lit ''block'')),
     (lit ''reason'', J_str message),
     (lit ''permissionDecision'', J_str (lit ''deny'')),
     (lit ''permissionDecisionReason'', J_str message),
     (lit ''hookSpecificOutput'', J_obj
       [(lit ''hookEventName'', J_str (lit ''PreToolUse'')),
        (lit ''permissionDecision'', J_str (lit ''deny'')),
        (lit ''permissionDecisionReason'', J_str message)])]"

definition tmux_block_message :: rstring where
  "tmux_block_message = concat
     [lit ''Blocked: this command looks like a tmux kill-server or kill-session -a with no -S or -L, '',
      lit ''which acts on the tmux server named in $TMUX (normally the user's own server, with all of '',
      lit ''their sessions). TMUX_TMPDIR alone does not redirect tmux while $TMUX is set. Use `tmux '',
      lit ''-S <private socket> '',
      [8230],
      lit ''`, or `env -u TMUX tmux -S <private socket> '',
      [8230],
      lit ''`, and only for a server you started on that socket; a socket path taken from $TMUX or '',
      lit ''from tmux itself (`#{socket_path}`) is the user's server. A socket file named `default`, '',
      lit ''or `-L default`, also counts as the user's server, even under a sandbox directory: give a '',
      lit ''private server another name (`-S \"$SB/tmux.sock\"`), and end one already running on a '',
      lit ''`default` path with `tmux -S <path> kill-session -t <name>` for each of its sessions, '',
      lit ''since by default a server exits when its last session ends. If the command only mentions '',
      lit ''these words as text, such as a commit message or a task description, pass the text in a '',
      lit ''file (`git commit -F`, `--body-file`, `--context-from-file`) or run that command in its '',
      lit ''own tool call.'']"

definition tmux_check :: "(rchar \<Rightarrow> bool) \<Rightarrow> rstring \<Rightarrow> json option" where
  "tmux_check u command =
    (if is_dangerous u command then Some (deny_response tmux_block_message) else None)"

definition tmux_check_value :: "(rchar \<Rightarrow> bool) \<Rightarrow> json option \<Rightarrow> json option" where
  "tmux_check_value u v =
    (case v of
       Some (J_str text) \<Rightarrow> tmux_check u text
     | Some (J_arr items) \<Rightarrow>
         if items = [] then None
         else
           (let strings = json_strings items
            in if length strings = length items then tmux_check u (join_argv strings)
               else if text_test (join (lit '' '') strings) then Some (deny_response tmux_block_message) else None)
     | _ \<Rightarrow> None)"

definition tmux_check_tool_input :: "(rchar \<Rightarrow> bool) \<Rightarrow> json \<Rightarrow> json option" where
  "tmux_check_tool_input u tool_input =
    find_map (\<lambda>key. tmux_check_value u (json_get key tool_input)) [lit ''command'', lit ''cmd'']"

end
