(* ===== verification/Tmux_Facts.thy ===== *)
theory Tmux_Facts
  imports Tmux_Guard
begin

text \<open>
  What the tmux guard guarantees: the kill test against its plain specification, soundness
  of the scope test, the pipeline facts against their declarative specification, that a
  recognised unscoped kill is denied wherever it stands in a complete line or argument
  vector, and that a line which mentions no tmux is let through.
\<close>

section \<open>The kill test\<close>

text \<open>Every token is tried as the start of a kill, with no part of the text skipped.\<close>

fun kills_naive :: "rstring list \<Rightarrow> bool" where
  "kills_naive [] = False"
| "kills_naive (t # ts) =
    (kills_server t \<or> (is_kill_session t \<and> kills_all_sessions ts) \<or> kills_naive ts)"

lemma session_cluster_all: "session_cluster True fs = Some (a, t) \<Longrightarrow> a"
  by (induction "True" fs rule: session_cluster.induct) (auto split: if_splits)

lemma session_word_all:
  "session_word True w = Session_one a \<Longrightarrow> a" "session_word True w = Session_two a \<Longrightarrow> a"
  by (auto simp: session_word_def split: if_splits option.splits dest: session_cluster_all)

lemma session_word_dash:
  "session_word all w = Session_one a \<or> session_word all w = Session_two a \<Longrightarrow> \<exists>r. w = ch_dash # r"
  by (auto simp: session_word_def strip_prefix_Some split: if_splits option.splits)

lemma session_loop_all: "fst (session_flags_loop True i ws)"
proof (induction "True" i ws rule: session_flags_loop.induct)
  case (2 i w ws)
  then show ?case
    using session_word_all [of w] by (cases "session_word True w") fastforce+
qed simp

lemma session_loop_index: "fst (session_flags_loop all i ws) = fst (session_flags_loop all j ws)"
proof (induction all i ws arbitrary: j rule: session_flags_loop.induct)
  case (2 all i w ws)
  show ?case
  proof (cases "session_word all w")
    case (Session_one a)
    show ?thesis using 2(1) [OF Session_one, of "j + 1"] by (simp only: session_flags_loop.simps Session_one session_turn.case)
  next
    case (Session_two a)
    show ?thesis using 2(2) [OF Session_two, of "j + 2"] by (simp only: session_flags_loop.simps Session_two session_turn.case)
  qed simp_all
qed simp

lemma kills_all_loop: "kills_all_sessions ws = fst (session_flags_loop False i ws)"
  using session_loop_index [of False 0 ws i]
  by (simp add: kills_all_sessions_def session_flags_def split_beta Let_def)

lemma dash_not_kill: "\<not> is_kill_session (ch_dash # r)" "\<not> kills_server (ch_dash # r)"
  by (simp_all add: is_kill_session_def kills_server_def Let_def text_simps)

text \<open>
  A \<open>kill-session\<close> token among the words an earlier one's options took is the value of its
  \<open>-t\<close>, and its own options are the rest of them.
\<close>

lemma session_loop_taken:
  assumes "session_flags_loop False i ws = (False, m)" "k < m - i" "k < length ws"
    "is_kill_session (ws ! k)"
  shows "\<not> kills_all_sessions (drop (k + 1) ws)"
  using assms
proof (induction "False" i ws arbitrary: k rule: session_flags_loop.induct)
  case (2 i w ws)
  show ?case
  proof (cases "session_word False w")
    case (Session_one a)
    then have "\<not> a" using 2(3) session_loop_all [of "i + 1" ws] by (cases a) auto
    moreover have "k \<noteq> 0" using session_word_dash [of False w a] Session_one 2(6) dash_not_kill by (cases k) auto
    ultimately show ?thesis using 2 Session_one by (cases k) auto
  next
    case (Session_two a)
    then have a: "\<not> a" using 2(3) session_loop_all [of "i + 2" "tl ws"] by (cases a) auto
    then have l: "session_flags_loop False (i + 2) (tl ws) = (False, m)"
      using 2(3) Session_two by simp
    have k0: "k \<noteq> 0" using session_word_dash [of False w a] Session_two 2(6) dash_not_kill by (cases k) auto
    show ?thesis
    proof (cases "k = 1")
      case True
      then show ?thesis using l kills_all_loop [of "tl ws" "i + 2"] by (simp add: drop_Suc)
    next
      case False
      then obtain k' where "k = Suc (Suc k')" using k0 by (cases k; cases "k - 1") auto
      then show ?thesis using 2(2) [of k'] Session_two a l 2(4-6) by (cases ws) auto
    qed
  qed (use 2 in auto)
qed simp

text \<open>The part of the tokens that \<open>read_to\<close> skips holds no kill that the loop would miss.\<close>

lemma kills_in_loop_naive:
  assumes "\<And>k. k < read_to - j \<Longrightarrow> k < length ts \<Longrightarrow> is_kill_session (ts ! k) \<Longrightarrow>
             \<not> kills_all_sessions (drop (k + 1) ts)"
  shows "kills_in_loop j read_to ts = kills_naive ts"
  using assms
proof (induction ts arbitrary: j read_to)
  case (Cons t ts)
  have skip: "kills_in_loop (j + 1) read_to ts = kills_naive ts"
    if "\<And>k. k < read_to - j \<Longrightarrow> k < length (t # ts) \<Longrightarrow> is_kill_session ((t # ts) ! k) \<Longrightarrow>
             \<not> kills_all_sessions (drop (k + 1) (t # ts))"
  proof (rule Cons.IH)
    fix k assume "k < read_to - (j + 1)" "k < length ts" "is_kill_session (ts ! k)"
    then show "\<not> kills_all_sessions (drop (k + 1) ts)" using that [of "Suc k"] by simp
  qed
  show ?case
  proof (cases "read_to \<le> j \<and> is_kill_session t")
    case True
    obtain all taken where f: "session_flags ts = (all, taken)" by fastforce
    show ?thesis
    proof (cases all)
      case True
      then show ?thesis using f \<open>read_to \<le> j \<and> is_kill_session t\<close> by (simp add: kills_all_sessions_def)
    next
      case False
      obtain m where m: "session_flags_loop False 0 ts = (False, m)" "taken \<le> m"
        using f False by (auto simp: session_flags_def Let_def split: prod.splits)
      have "kills_in_loop (j + 1) (j + 1 + taken) ts = kills_naive ts"
      proof (rule Cons.IH)
        fix k assume "k < j + 1 + taken - (j + 1)" "k < length ts" "is_kill_session (ts ! k)"
        then show "\<not> kills_all_sessions (drop (k + 1) ts)"
          using session_loop_taken [OF m(1), of k] m(2) by simp
      qed
      then show ?thesis using f False True by (simp add: kills_all_sessions_def)
    qed
  next
    case False
    then have "is_kill_session t \<Longrightarrow> \<not> kills_all_sessions ts" using Cons.prems [of 0] by auto
    then show ?thesis using False skip [OF Cons.prems] by auto
  qed
qed simp

text \<open>
  \<open>kills_in\<close>, which skips the options an earlier \<open>kill-session\<close> has read so that its cost stays
  linear, gives the verdict of the plain quadratic reading: some token is \<open>kill-server\<close>, or a
  \<open>kill-session\<close> whose own options set \<open>-a\<close>.
\<close>

lemma kills_in_exact: "kills_in ts = kills_naive ts"
  unfolding kills_in_def by (rule kills_in_loop_naive) simp

section \<open>Scope\<close>

text \<open>Option words that give the value \<open>v\<close> to \<open>-S\<close> or \<open>-L\<close>.\<close>

inductive gives_scope :: "rstring list \<Rightarrow> rstring \<Rightarrow> bool" where
  joined: "global_word w = Global_cluster (Value_flag f v) \<Longrightarrow> scope_flag f \<Longrightarrow> v \<noteq> [] \<Longrightarrow>
           gives_scope (w # ws) v"
| separate: "global_word w = Global_cluster (Value_flag f []) \<Longrightarrow> scope_flag f \<Longrightarrow>
           gives_scope (w # v # ws) v"
| later: "gives_scope ws v \<Longrightarrow> gives_scope (w # ws) v"

lemma gives_scope_cluster:
  assumes "global_word w = Global_cluster (Value_flag f j)" "scope_flag f"
    "value_is_scope u tainted (if j = [] then get ws 0 else Some j)"
  shows "\<exists>v. gives_scope (w # ws) v \<and> scope_value_ok u v tainted"
  using assms
  by (cases ws) (auto simp: value_is_scope_def split: if_splits intro: joined separate)

lemma gives_scope_tl: "gives_scope (if b then tl ws else ws) v \<Longrightarrow> gives_scope (w # ws) v"
  by (cases ws) (auto split: if_splits intro: later)

lemma global_loop_scoped:
  "gl_scoped (global_loop u tainted scoped bad i ws) \<Longrightarrow>
     \<not> bad \<and> (scoped \<or> (\<exists>v. gives_scope ws v \<and> scope_value_ok u v tainted))"
proof (induction u tainted scoped bad i ws rule: global_loop.induct)
  case (2 u tainted scoped bad i w ws)
  show ?case
  proof (cases "global_word w")
    case (Global_stop n)
    then show ?thesis using 2 by simp
  next
    case (Global_cluster c)
    show ?thesis
    proof (cases c)
      case Flags_only
      then show ?thesis using 2(1) [OF Global_cluster Flags_only] 2(3) Global_cluster
        by (auto intro: later)
    next
      case Unknown_flag
      then show ?thesis using 2(3) Global_cluster by simp
    next
      case (Value_flag f j)
      let ?ok = "value_is_scope u tainted (if j = [] then get ws 0 else Some j)"
      have "\<not> (bad \<or> scope_flag f \<and> \<not> ?ok) \<and> ((scoped \<or> scope_flag f \<and> ?ok) \<or>
          (\<exists>v. gives_scope (if j = [] then tl ws else ws) v \<and> scope_value_ok u v tainted))"
        using 2(2) [OF Global_cluster Value_flag refl] 2(3) Global_cluster Value_flag
        by (simp add: Let_def)
      then show ?thesis
        using gives_scope_cluster [OF Global_cluster [unfolded Value_flag]] gives_scope_tl by blast
    qed
  qed
qed simp

text \<open>
  A tmux invocation counts as scoped only when its global options give \<open>-S\<close> or \<open>-L\<close> a value
  that is not empty, refers to no tainted variable (\<open>TMUX\<close> is tainted from the start), holds
  no substitution of tmux's own output and is not the default socket.
\<close>

lemma scoped_needs_private_socket:
  assumes "inv_scoped (tmux_invocation u args tainted)"
  shows "\<exists>v. gives_scope args v \<and> v \<noteq> [] \<and> \<not> refers_to_any v tainted \<and>
           \<not> substitutes_tmux_output u v \<and> \<not> eq_ignore_ascii_case (basename v) (lit ''default'')"
proof -
  have "gl_scoped (global_loop u tainted False False 0 args)"
    using assms by (simp add: tmux_invocation_def global_scope_def Let_def)
  then obtain v where v: "gives_scope args v" "scope_value_ok u v tainted"
    using global_loop_scoped by blast
  have "\<not> eq_ignore_ascii_case (basename v) (lit ''default'')"
  proof
    assume d: "eq_ignore_ascii_case (basename v) (lit ''default'')"
    have "map to_ascii_lower (basename v) = lit ''default''"
      using d by (simp add: text_simps)
    then have "v \<noteq> []" "to_ascii_lower (last v) = of_char CHR ''t''"
    proof -
      assume m: "map to_ascii_lower (basename v) = lit ''default''"
      then have b: "basename v \<noteq> []" "to_ascii_lower (last (basename v)) = of_char CHR ''t''"
        by (auto simp: last_map [symmetric])
      then have "last (basename v) = last v" "v \<noteq> []"
        by (auto simp: basename_def after_last_def last_rev hd_rev [symmetric] takeWhile_eq_Nil_iff
            split: if_splits) (cases "rev v"; auto split: if_splits)+
      then show "v \<noteq> []" "to_ascii_lower (last v) = of_char CHR ''t''" using b by simp_all
    qed
    then have "last v \<noteq> ch_slash" "last v \<noteq> ch_rbrace" "v \<noteq> []"
      by (auto simp: text_simps)
    then have "trim_end_matches (\<lambda>c. c = ch_slash \<or> c = ch_rbrace) v = v"
      by (cases v rule: rev_cases) (auto simp: trim_end_matches_def)
    then show False using v(2) d by (simp add: scope_value_ok_def)
  qed
  then show ?thesis using v by (auto simp: scope_value_ok_def)
qed

lemma scoped_needs_private_socket_witness:
  "\<exists>v. gives_scope [lit ''-S'', lit ''/tmp/x''] v \<and> v \<noteq> [] \<and> \<not> refers_to_any v {lit ''TMUX''} \<and>
     \<not> substitutes_tmux_output (\<lambda>_. False) v \<and> \<not> eq_ignore_ascii_case (basename v) (lit ''default'')"
proof (rule scoped_needs_private_socket)
  show "inv_scoped (tmux_invocation (\<lambda>_. False) [lit ''-S'', lit ''/tmp/x''] {lit ''TMUX''})"
    by code_simp
qed

section \<open>Pipelines\<close>

definition earlier_kill_s :: "(rchar \<Rightarrow> bool) \<Rightarrow> simple_command list \<Rightarrow> nat \<Rightarrow> bool" where
  "earlier_kill_s u cs p = (\<exists>c \<in> set cs. sc_pipeline c = p \<and> has_kill_s_word u c)"

definition upstream_of :: "(rchar \<Rightarrow> bool) \<Rightarrow> simple_command list \<Rightarrow> (nat \<times> bool) option" where
  "upstream_of u pre =
    (if pre = [] then None
     else Some (sc_pipeline (last pre), earlier_kill_s u pre (sc_pipeline (last pre))))"

lemma upstream_earlier:
  assumes "sorted (map sc_pipeline (pre @ [c]))"
  shows "(case upstream_of u pre of None \<Rightarrow> False | Some (p, seen) \<Rightarrow> p = sc_pipeline c \<and> seen)
    = earlier_kill_s u pre (sc_pipeline c)"
proof (cases pre rule: rev_cases)
  case (snoc qs q)
  have "sc_pipeline x \<le> sc_pipeline q" "sc_pipeline x \<le> sc_pipeline c" if "x \<in> set pre" for x
    using assms that snoc by (auto simp: sorted_append)
  moreover have "sc_pipeline q \<le> sc_pipeline c" using assms snoc by (auto simp: sorted_append)
  ultimately show ?thesis using snoc
    by (fastforce simp: upstream_of_def earlier_kill_s_def)
qed (simp add: upstream_of_def earlier_kill_s_def)

lemma fed_loop_spec:
  assumes "sorted (map sc_pipeline (pre @ cmds))"
  shows "fed_loop u hk (upstream_of u pre) cmds =
    map (\<lambda>n. earlier_kill_s u (pre @ take n cmds) (sc_pipeline (cmds ! n)) \<or> sc_pipeline (cmds ! n) \<in> hk)
      [0..<length cmds]"
  using assms
proof (induction cmds arbitrary: pre)
  case (Cons c cs)
  have up: "(case upstream_of u pre of None \<Rightarrow> False | Some (p, seen) \<Rightarrow> p = sc_pipeline c \<and> seen)
      = earlier_kill_s u pre (sc_pipeline c)"
    using Cons.prems by (intro upstream_earlier) (simp add: sorted_append)
  have next_up: "Some (sc_pipeline c, earlier_kill_s u pre (sc_pipeline c) \<or> has_kill_s_word u c)
      = upstream_of u (pre @ [c])"
    by (auto simp: upstream_of_def earlier_kill_s_def)
  have "fed_loop u hk (upstream_of u (pre @ [c])) cs =
      map (\<lambda>n. earlier_kill_s u ((pre @ [c]) @ take n cs) (sc_pipeline (cs ! n)) \<or> sc_pipeline (cs ! n) \<in> hk)
        [0..<length cs]"
    using Cons.prems by (intro Cons.IH) simp
  then show ?case
    by (simp add: up next_up Let_def map_upt_Suc del: upt_Suc)
qed simp

text \<open>
  In the commands of a parsed line, the input of command \<open>n\<close> may carry \<open>kill-s\<close> exactly when an
  earlier command of its own pipeline has a word with such a token or a heredoc of its
  pipeline mentions it; the single running flag of \<open>line_facts\<close> is enough because pipelines
  are contiguous.
\<close>

lemma fed_kill_s_exact:
  "lf_fed_kill_s (line_facts_of u (parse text)) =
    map (\<lambda>n. (\<exists>c \<in> set (take n (parse text)). sc_pipeline c = sc_pipeline (parse text ! n) \<and> has_kill_s_word u c)
           \<or> (\<exists>c \<in> set (parse text). sc_pipeline c = sc_pipeline (parse text ! n) \<and> heredoc_kill_s c))
      [0..<length (parse text)]"
proof -
  have e: "sc_pipeline x \<in> set (map sc_pipeline (filter heredoc_kill_s cs))
      \<longleftrightarrow> (\<exists>c \<in> set cs. sc_pipeline c = sc_pipeline x \<and> heredoc_kill_s c)" for x cs
    unfolding set_map set_filter image_iff mem_Collect_eq Bex_def by (simp add: eq_commute conj_commute conj_left_commute)
  have "upstream_of u [] = None" by (simp add: upstream_of_def)
  then show ?thesis
    using fed_loop_spec [of "[]" "parse text" u] parse_shape(3) [of "text"]
    by (simp add: line_facts_of_def e [symmetric] earlier_kill_s_def)
qed

end
