(* ===== verification/Tmux_Deny.thy ===== *)
theory Tmux_Deny
  imports Tmux_Facts
begin

text \<open>
  The verdicts of the tmux guard: no layer of the scan ever withdraws a danger found before,
  the taint only grows, so an unscoped kill anywhere in a complete line is denied; the tool
  input given as an argument vector is denied for the same reason; text the tokeniser cannot
  read is denied exactly when its letters spell a kill; and a line of clean commands is let through.
\<close>

section \<open>Dangers are never withdrawn\<close>

lemma or_simps [simp]:
  "sn_dangerous (or_dangerous b s) = (sn_dangerous s \<or> b)"
  "sn_dangerous (or_seen b s) = sn_dangerous s"
  "sn_dangerous (or_unscoped b s) = sn_dangerous s"
  "sn_dangerous (or_data b s) = sn_dangerous s"
  by (simp_all add: or_dangerous_def or_seen_def or_unscoped_def or_data_def)

text \<open>The order in which a context develops: more taint, less budget.\<close>

definition ctx_le :: "ctx \<Rightarrow> ctx \<Rightarrow> bool" where
  "ctx_le c d = (cx_tainted c \<subseteq> cx_tainted d \<and> cx_budget d \<le> cx_budget c)"

lemma ctx_le_refl [simp]: "ctx_le c c"
  by (simp add: ctx_le_def)

lemma ctx_le_trans: "ctx_le a b \<Longrightarrow> ctx_le b c \<Longrightarrow> ctx_le a c"
  by (auto simp: ctx_le_def)

definition acc_le :: "scan \<times> ctx \<Rightarrow> scan \<times> ctx \<Rightarrow> bool" where
  "acc_le a b = ((sn_dangerous (fst a) \<longrightarrow> sn_dangerous (fst b)) \<and> ctx_le (snd a) (snd b))"

lemma acc_le_refl [simp]: "acc_le a a"
  by (simp add: acc_le_def)

lemma acc_le_trans: "acc_le a b \<Longrightarrow> acc_le b c \<Longrightarrow> acc_le a c"
  by (auto simp: acc_le_def intro: ctx_le_trans)

definition growing :: "reparse \<Rightarrow> bool" where
  "growing rp = (\<forall>t c. ctx_le c (snd (rp t c)))"

lemma growingD: "growing rp \<Longrightarrow> rp t c = (s, d) \<Longrightarrow> ctx_le c d"
  by (metis growing_def snd_conv)

lemma judge_bodies_ctx:
  "growing rp \<Longrightarrow> ctx_le (snd (snd acc)) (snd (snd (judge_bodies u rp data bodies acc)))"
proof (induction u rp data bodies acc rule: judge_bodies.induct)
  case (2 u rp data body bodies v any cx)
  obtain inner cx' where r: "rp body cx = (inner, cx')" by fastforce
  show ?case
    using 2 r growingD [OF 2(3) r] by (auto simp: Let_def intro: ctx_le_trans)
qed simp

lemma judge_word_ctx: "growing rp \<Longrightarrow> ctx_le cx (snd (judge_word u rp w data cx))"
proof -
  assume g: "growing rp"
  obtain bodies rest where s: "substitutions w = (bodies, rest)" by fastforce
  let ?v0 = "\<lparr>vd_substitutions_ok = True, vd_plain_ok = True, vd_tmux_seen = False, vd_data_mention = False\<rparr>"
  obtain v any cx' where j: "judge_bodies u rp data bodies (?v0, False, cx) = (v, any, cx')"
    by (metis prod_cases3)
  then have c: "ctx_le cx cx'"
    using judge_bodies_ctx [OF g, of "(?v0, False, cx)" u data bodies] by simp
  obtain inner cx'' where r: "rp rest cx' = (inner, cx'')" by fastforce
  show ?thesis
    using c growingD [OF g r] s j r by (auto simp: judge_word_def Let_def intro: ctx_le_trans)
qed

lemma expansion_loop_ctx:
  "growing rp \<Longrightarrow> ctx_le cx (snd (expansion_loop u rp scanned ts d cx))"
proof (induction u rp scanned ts d cx rule: expansion_loop.induct)
  case (2 u rp scanned t ts d cx)
  obtain inner cx' where r: "rp t cx = (inner, cx')" by fastforce
  show ?case using 2 r growingD [OF 2(3) r] by (auto intro: ctx_le_trans)
qed simp

lemma expansion_dangerous_ctx:
  "growing rp \<Longrightarrow> ctx_le cx (snd (expansion_dangerous u rp w scanned cx))"
  by (simp add: expansion_dangerous_def split_beta expansion_loop_ctx)

lemma invocation_loop_sticky:
  "sn_dangerous out \<Longrightarrow> sn_dangerous (invocation_loop u start skip fed tainted k count ws out)"
  by (induction ws arbitrary: k count out) (simp_all add: Let_def)

lemma script_loop_le: "growing rp \<Longrightarrow> acc_le acc (script_loop u rp tx data_at k ws acc)"
proof (induction ws arbitrary: k acc)
  case (Cons w ws)
  obtain out cx where a: "acc = (out, cx)" by fastforce
  obtain d cx1 where e: "expansion_dangerous u rp w tx cx = (d, cx1)" by fastforce
  obtain v cx2 where j: "judge_word u rp w (data_at k) cx = (v, cx2)" by fastforce
  have "ctx_le cx cx1" using expansion_dangerous_ctx [OF Cons.prems, of cx u w tx] e by simp
  then have 1: "acc_le acc (or_dangerous d out, cx1)" by (simp add: acc_le_def a)
  have "ctx_le cx cx2" using judge_word_ctx [OF Cons.prems, of cx u w "data_at k"] j by simp
  then have 2: "acc_le acc (or_dangerous b (or_data m (or_seen t out)), cx2)" for b m t
    by (simp add: acc_le_def a)
  note IH = Cons.IH [OF Cons.prems]
  show ?case
    using acc_le_trans [OF 1 IH] acc_le_trans [OF 2 IH] IH [of acc] e j by (simp add: a Let_def)
qed simp

lemma git_layer_le: "growing rp \<Longrightarrow> acc_le acc (git_layer u rp words acc)"
proof -
  assume g: "growing rp"
  obtain out cx where a: "acc = (out, cx)" by fastforce
  obtain inner cx' where r: "rp (join_argv (prog_args words)) cx = (inner, cx')" by fastforce
  show ?thesis using growingD [OF g r] a r by (simp add: git_layer_def Let_def acc_le_def)
qed

lemma heredoc_subs_le: "growing rp \<Longrightarrow> acc_le acc (heredoc_subs u rp subs acc)"
proof (induction u rp subs acc rule: heredoc_subs.induct)
  case (2 u rp sub subs out cx)
  obtain inner cx' where r: "rp sub cx = (inner, cx')" by fastforce
  show ?case using 2 r growingD [OF 2(3) r] by (auto simp: acc_le_def intro: ctx_le_trans)
qed simp

lemma heredoc_layer_le: "growing rp \<Longrightarrow> acc_le acc (heredoc_layer u rp ev bodies flags acc)"
proof (induction u rp ev bodies flags acc rule: heredoc_layer.induct)
  case (2 u rp ev body bodies flags out cx)
  obtain inner cx' where r: "rp body cx = (inner, cx')" by fastforce
  have s: "acc_le (out, cx) (heredoc_subs u rp (fst (substitutions body)) (out, cx))"
    by (rule heredoc_subs_le [OF 2(5)])
  show ?case
    using 2 r growingD [OF 2(5) r] s
    by (auto simp: Let_def intro: acc_le_trans) (auto simp: acc_le_def intro: ctx_le_trans)
qed simp

lemma layers12_sticky: "sn_dangerous out \<Longrightarrow> sn_dangerous (layers12 u ev fed words tainted out)"
  by (simp add: layers12_def Let_def invocation_loop_sticky)

lemma later_layers_le:
  assumes "growing rp"
  shows "acc_le acc (heredoc_layer u rp ev bodies flags (git_layer u rp words (script_loop u rp tx d 0 ws acc)))"
  by (meson acc_le_trans assms git_layer_le heredoc_layer_le script_loop_le)

lemma scan_command_le:
  assumes "growing rp"
  shows "acc_le acc (scan_command u rp ev tx fed cmd acc)"
proof -
  obtain out cx where a: "acc = (out, cx)" by fastforce
  have "acc_le (out, cx) (layers12 u ev fed (sc_words cmd) (cx_tainted cx) out, cx)"
    by (simp add: acc_le_def layers12_sticky)
  then show ?thesis
    unfolding scan_command_def Let_def a prod.case by (rule acc_le_trans [OF _ later_layers_le [OF assms]])
qed

lemma scan_commands_le: "growing rp \<Longrightarrow> acc_le acc (scan_commands u rp ev tx feds cmds acc)"
proof (induction cmds arbitrary: feds acc)
  case (Cons cmd cmds)
  then show ?case using scan_command_le acc_le_trans by (simp add: Let_def) blast
qed simp

lemma taint_word_grows: "tainted \<subseteq> taint_word u w tainted"
  by (auto simp: taint_word_def split: option.splits)

lemma taint_assignments_grows: "tainted \<subseteq> taint_assignments u cmds tainted"
proof -
  have "tainted \<subseteq> fold (taint_word u) ws tainted" for ws
  proof (induction ws arbitrary: tainted)
    case (Cons w ws)
    then show ?case using taint_word_grows [of tainted u w] by fastforce
  qed simp
  then show ?thesis by (simp add: taint_assignments_def)
qed

lemma scan_body_ctx: "growing rp \<Longrightarrow> ctx_le cx (snd (scan_body u rp tx cx))"
proof -
  assume g: "growing rp"
  let ?cmds = "p_commands (tokenise tx)"
  let ?cx = "cx\<lparr>cx_tainted := taint_assignments u ?cmds (cx_tainted cx)\<rparr>"
  have "ctx_le cx ?cx" using taint_assignments_grows by (simp add: ctx_le_def)
  moreover have "ctx_le ?cx (snd (scan_commands u rp ev tx feds ?cmds (scan_default, ?cx)))" for ev feds
    using scan_commands_le [OF g, of "(scan_default, ?cx)"] by (simp add: acc_le_def)
  ultimately show ?thesis
    by (auto simp: scan_body_def Let_def intro: ctx_le_trans)
qed

lemma growing_denied: "growing reparse_denied"
  by (simp add: growing_def reparse_denied_def)

lemma growing_reparse_with:
  assumes "growing rp"
  shows "growing (reparse_with rp)"
  unfolding growing_def
proof (intro allI)
  fix t and c :: ctx
  let ?c = "c\<lparr>cx_budget := cx_budget c - 1\<rparr>"
  have "ctx_le c ?c" by (simp add: ctx_le_def)
  moreover have "ctx_le ?c (snd (rp t ?c))" using assms by (simp add: growing_def)
  ultimately have "ctx_le c (snd (rp t ?c))" by (rule ctx_le_trans)
  then show "ctx_le c (snd (reparse_with rp t c))"
    by (simp add: reparse_with_def reparse_denied_def)
qed

lemma growing_scan_at: "growing (scan_at u n)"
proof (induction n)
  case 0
  then show ?case using scan_body_ctx [OF growing_denied] by (simp add: growing_def)
next
  case (Suc n)
  then show ?case
    using scan_body_ctx [OF growing_reparse_with] by (simp add: growing_def)
qed

section \<open>More taint only denies more\<close>

lemma refers_mono: "A \<subseteq> B \<Longrightarrow> refers_to_any v A \<Longrightarrow> refers_to_any v B"
  by (induction v A rule: refers_to_any.induct) (auto simp: Let_def split: if_splits)

lemma scope_value_ok_anti: "A \<subseteq> B \<Longrightarrow> scope_value_ok u v B \<Longrightarrow> scope_value_ok u v A"
  using refers_mono by (auto simp: scope_value_ok_def)

lemma value_is_scope_anti: "A \<subseteq> B \<Longrightarrow> value_is_scope u B v \<Longrightarrow> value_is_scope u A v"
  using scope_value_ok_anti by (auto simp: value_is_scope_def split: option.splits)

lemma global_loop_mono:
  assumes "A \<subseteq> B" "s' \<longrightarrow> s" "b \<longrightarrow> b'"
  shows "gl_rest (global_loop u A s b i ws) = gl_rest (global_loop u B s' b' i ws) \<and>
    gl_uncertain (global_loop u A s b i ws) = gl_uncertain (global_loop u B s' b' i ws) \<and>
    (gl_scoped (global_loop u B s' b' i ws) \<longrightarrow> gl_scoped (global_loop u A s b i ws))"
  using assms
proof (induction u A s b i ws arbitrary: s' b' rule: global_loop.induct)
  case (2 u A s b i w ws)
  show ?case
  proof (cases "global_word w")
    case (Global_cluster c)
    show ?thesis
    proof (cases c)
      case Flags_only
      then show ?thesis using 2(1) [OF Global_cluster Flags_only, of s' b'] 2(3-5) Global_cluster by simp
    next
      case (Value_flag f j)
      let ?v = "if j = [] then get ws 0 else Some j"
      have "value_is_scope u B ?v \<longrightarrow> value_is_scope u A ?v"
        using value_is_scope_anti [OF 2(3)] by blast
      then have "s' \<or> scope_flag f \<and> value_is_scope u B ?v \<longrightarrow> s \<or> scope_flag f \<and> value_is_scope u A ?v"
        "b \<or> scope_flag f \<and> \<not> value_is_scope u A ?v \<longrightarrow> b' \<or> scope_flag f \<and> \<not> value_is_scope u B ?v"
        using 2(4,5) by blast+
      note IH = 2(2) [OF Global_cluster Value_flag refl 2(3) this]
      show ?thesis
        unfolding global_loop.simps Global_cluster Value_flag global_turn.case cluster.case Let_def
        by (rule IH)
    qed (use Global_cluster in simp)
  qed (use 2 in auto)
qed auto

lemma invocation_mono:
  assumes "A \<subseteq> B" "inv_dangerous (tmux_invocation u args A)"
  shows "inv_dangerous (tmux_invocation u args B)"
  using assms(2) global_loop_mono [OF assms(1), of False False False False u 0 args]
  by (auto simp: tmux_invocation_def global_scope_def Let_def split: if_splits)

section \<open>An unscoped kill is denied\<close>

lemma invocation_loop_denies:
  assumes "m < length ws" "is_tmux (ws ! m)" "k + m = start \<or> \<not> skip (k + m)"
    "inv_dangerous (tmux_invocation u (drop (m + 1) ws) tainted)"
  shows "sn_dangerous (invocation_loop u start skip fed tainted k count ws out)"
  using assms
proof (induction ws arbitrary: m k count out)
  case (Cons w ws)
  show ?case
  proof (cases m)
    case 0
    then have "names_tmux u (k = start) w" "k = start \<or> \<not> skip k"
      using Cons.prems by (simp_all add: names_tmux_def)
    then show ?thesis
      using Cons.prems 0 by (auto simp: Let_def intro: invocation_loop_sticky)
  next
    case (Suc m')
    then have "sn_dangerous (invocation_loop u start skip fed tainted (k + 1) c ws o')" for c o'
      using Cons.prems by (intro Cons.IH [of m']) simp_all
    then show ?thesis by (simp add: Let_def)
  qed
qed simp

text \<open>The word at \<open>k\<close> of a command starts a tmux invocation the scan reads and finds dangerous.\<close>

definition kills_at :: "(rchar \<Rightarrow> bool) \<Rightarrow> bool \<Rightarrow> rstring list \<Rightarrow> nat \<Rightarrow> bool" where
  "kills_at u ev words k =
    (program_start words \<le> k \<and> k < length words \<and> is_tmux (words ! k) \<and>
     (k = program_start words \<or> \<not> (data_only ev words \<or> context_value ev words k)) \<and>
     inv_dangerous (tmux_invocation u (drop (k + 1) words) {lit ''TMUX''}))"

lemma scan_command_denies:
  assumes g: "growing rp" and k: "kills_at u ev (sc_words cmd) k"
    and t: "lit ''TMUX'' \<in> cx_tainted (snd acc)"
  shows "sn_dangerous (fst (scan_command u rp ev tx fed cmd acc))"
proof -
  obtain out cx where a: "acc = (out, cx)" by fastforce
  let ?ws = "sc_words cmd" and ?s = "program_start (sc_words cmd)"
  have "sn_dangerous (layers12 u ev fed ?ws (cx_tainted cx) out)"
    unfolding layers12_def Let_def
  proof (rule invocation_loop_denies)
    show "k - ?s < length (drop ?s ?ws)" "is_tmux (drop ?s ?ws ! (k - ?s))"
      "?s + (k - ?s) = ?s \<or> \<not> (data_only ev ?ws \<or> context_value ev ?ws (?s + (k - ?s)))"
      using k by (auto simp: kills_at_def)
    have "drop (k - ?s + 1) (drop ?s ?ws) = drop (k + 1) ?ws" using k by (simp add: kills_at_def)
    moreover have "{lit ''TMUX''} \<subseteq> cx_tainted cx" using t a by simp
    ultimately show "inv_dangerous (tmux_invocation u (drop (k - ?s + 1) (drop ?s ?ws)) (cx_tainted cx))"
      using k invocation_mono by (simp only: kills_at_def)
  qed
  then show ?thesis
    using later_layers_le [OF g, of "(layers12 u ev fed ?ws (cx_tainted cx) out, cx)"]
    by (simp add: scan_command_def a acc_le_def Let_def)
qed

lemma scan_commands_deny:
  assumes g: "growing rp" and "cmd \<in> set cmds" "kills_at u ev (sc_words cmd) k"
    and "lit ''TMUX'' \<in> cx_tainted (snd acc)"
  shows "sn_dangerous (fst (scan_commands u rp ev tx feds cmds acc))"
  using assms(2-4)
proof (induction cmds arbitrary: feds acc)
  case (Cons c cmds)
  let ?fed = "case feds of [] \<Rightarrow> True | f # _ \<Rightarrow> f"
  let ?acc = "scan_command u rp ev tx ?fed c acc"
  have le: "acc_le acc ?acc" by (rule scan_command_le [OF g])
  show ?case
  proof (cases "cmd = c")
    case True
    then have "sn_dangerous (fst ?acc)"
      using Cons.prems by (intro scan_command_denies [OF g]) simp_all
    then show ?thesis
      using scan_commands_le [OF g, of ?acc] by (simp add: acc_le_def Let_def)
  next
    case False
    have "lit ''TMUX'' \<in> cx_tainted (snd ?acc)"
      using le Cons.prems(3) by (auto simp: acc_le_def ctx_le_def)
    then show ?thesis using Cons False by (simp add: Let_def)
  qed
qed simp

lemma scan_at_body: "\<exists>rp. growing rp \<and> scan_at u n = scan_body u rp"
  using growing_denied growing_reparse_with [OF growing_scan_at] by (cases n) auto

lemma line_denied:
  assumes "utf8_len tx \<le> max_input" "p_complete (tokenise tx)" "cmd \<in> set (parse tx)"
    "kills_at u (list_ex is_evaluator (parse tx)) (sc_words cmd) k"
  shows "is_dangerous u tx"
proof -
  obtain rp where g: "growing rp" and s: "scan_at u max_depth = scan_body u rp"
    using scan_at_body by blast
  have "lit ''TMUX'' \<in> cx_tainted (ctx_init\<lparr>cx_tainted := taint_assignments u (parse tx) (cx_tainted ctx_init)\<rparr>)"
    using taint_assignments_grows [of "cx_tainted ctx_init" u "parse tx"] by (auto simp: ctx_init_def)
  then show ?thesis
    using assms s scan_commands_deny [OF g assms(3,4)]
    by (simp add: is_dangerous_def scan_body_def Let_def parse_def line_facts_of_def)
qed

text \<open>
  C3. In a line of at most 64 KiB that the tokeniser reads completely, a tmux word at or behind
  the program word of any command (not an argument of a data-only command, nor a recipe
  context value) whose arguments kill without a private socket makes the whole line
  dangerous, whatever stands before, after or around it.
\<close>

theorem unscoped_kill_denied:
  assumes "utf8_len tx \<le> max_input" "p_complete (tokenise tx)" "cmd \<in> set (parse tx)"
    "kills_at u (list_ex is_evaluator (parse tx)) (sc_words cmd) k"
  shows "tmux_check u tx = Some (deny_response tmux_block_message)"
  using line_denied [OF assms] by (simp add: tmux_check_def)

lemma unscoped_kill_denied_witness:
  "tmux_check (\<lambda>_. False) (lit ''cd x && tmux kill-server'') = Some (deny_response tmux_block_message)"
proof (rule unscoped_kill_denied [where cmd = "last (parse (lit ''cd x && tmux kill-server''))" and k = 0])
  show "utf8_len (lit ''cd x && tmux kill-server'') \<le> max_input" by code_simp
  show "p_complete (tokenise (lit ''cd x && tmux kill-server''))" by code_simp
  show "last (parse (lit ''cd x && tmux kill-server'')) \<in> set (parse (lit ''cd x && tmux kill-server''))"
    by code_simp
  show "kills_at (\<lambda>_. False) (list_ex is_evaluator (parse (lit ''cd x && tmux kill-server'')))
      (sc_words (last (parse (lit ''cd x && tmux kill-server'')))) 0"
    by code_simp
qed

section \<open>Argument vectors\<close>

lemma tmux_not_special:
  assumes "is_tmux w" "ch_eq \<notin> set w"
  shows "program (w # args) = Some (w # args)"
proof -
  have "list_all (\<lambda>r. \<not> is_tmux r) reserved" by code_simp
  then have r: "w \<notin> set reserved" using assms(1) by (auto simp: list_all_iff)
  have "list_all (\<lambda>x. to_ascii_lowercase (fst x) \<noteq> to_ascii_lowercase (lit ''tmux'')) wrappers" by code_simp
  then have "\<not> list_ex (\<lambda>x. fst x = basename w) wrappers"
    using assms(1) by (auto simp: list_all_iff list_ex_iff is_tmux_def eq_ignore_ascii_case_def)
  then have f: "find_wrapper w = None"
    by (auto simp: find_wrapper_def find_None_iff list_ex_iff)
  have "\<not> is_assignment w"
    using assms(2) by (simp add: is_assignment_def split_once_None [THEN iffD2])
  then show ?thesis using r f by simp
qed

lemma kills_at_argv:
  assumes "is_tmux w" "ch_eq \<notin> set w" "inv_dangerous (tmux_invocation u args {lit ''TMUX''})"
  shows "kills_at u ev (w # args) 0"
  using assms tmux_not_special [OF assms(1,2), of args] by (simp add: kills_at_def program_start_def)

text \<open>
  C2. A command given as an argument vector whose program is tmux (by any path, in any case) and
  whose arguments kill without a private socket is denied, whatever characters the
  arguments hold: quoting and tokenising the vector cannot hide the kill.
\<close>

theorem argv_kill_denied:
  assumes "is_tmux w" "ch_eq \<notin> set w" "inv_dangerous (tmux_invocation u args {lit ''TMUX''})"
    "utf8_len (join_argv (w # args)) \<le> max_input"
  shows "tmux_check_tool_input u (J_obj [(lit ''command'', J_arr (map J_str (w # args)))])
    = Some (deny_response tmux_block_message)"
proof -
  define tx where "tx = join_argv (w # args)"
  have t: "tokenise tx = \<lparr>p_commands = [default_command\<lparr>sc_words := w # args\<rparr>], p_complete = True\<rparr>"
    unfolding tx_def by (rule tokenise_join_argv) simp
  have "utf8_len tx \<le> max_input" using assms(4) by (simp only: tx_def)
  then have "is_dangerous u tx"
    using kills_at_argv [OF assms(1-3)]
    by (intro line_denied [of tx "default_command\<lparr>sc_words := w # args\<rparr>" u 0]) (simp_all add: t parse_def)
  then show ?thesis
    using json_strings_map [of "w # args"]
    by (simp add: tmux_check_tool_input_def json_get_def tmux_check_value_def tmux_check_def tx_def)
qed

lemma argv_kill_denied_witness:
  "tmux_check_tool_input (\<lambda>_. False)
     (J_obj [(lit ''command'', J_arr (map J_str [lit ''/usr/bin/TMUX'', lit ''-f'', [ch_squote], lit ''kill-ser'']))])
    = Some (deny_response tmux_block_message)"
proof (rule argv_kill_denied)
  show "is_tmux (lit ''/usr/bin/TMUX'')" by code_simp
  show "ch_eq \<notin> set (lit ''/usr/bin/TMUX'')" by code_simp
  show "inv_dangerous (tmux_invocation (\<lambda>_. False) [lit ''-f'', [ch_squote], lit ''kill-ser''] {lit ''TMUX''})"
    by code_simp
  show "utf8_len (join_argv [lit ''/usr/bin/TMUX'', lit ''-f'', [ch_squote], lit ''kill-ser'']) \<le> max_input"
    by code_simp
qed

section \<open>Text the tokeniser cannot read\<close>

text \<open>
  A spelling of a lower-case word: its letters in either case, with quotes and backslashes anywhere.
\<close>

fun spells :: "rstring \<Rightarrow> rstring \<Rightarrow> bool" where
  "spells w [] = (w = [])"
| "spells w (c # t) =
    ((c = ch_squote \<or> c = ch_dquote \<or> c = ch_backslash) \<and> spells w t \<or>
     w \<noteq> [] \<and> (c = hd w \<or> is_ascii_uppercase c \<and> c + 32 = hd w) \<and> spells (tl w) t)"

definition spelled_in :: "rstring \<Rightarrow> rstring \<Rightarrow> bool" where
  "spelled_in w text = (\<exists>a t b. text = a @ t @ b \<and> spells w t)"

abbreviation bare :: "rstring \<Rightarrow> rstring" where
  "bare t \<equiv> map to_ascii_lower (filter (\<lambda>c. \<not> is_quote_char c) t)"

lemma spells_letter:
  "\<not> is_ascii_uppercase k \<Longrightarrow> (c = k \<or> is_ascii_uppercase c \<and> c + 32 = k) \<longleftrightarrow> to_ascii_lower c = k"
  by (auto simp: to_ascii_lower_def)

lemma spells_iff:
  "list_all (\<lambda>c. \<not> is_quote_char c \<and> \<not> is_ascii_uppercase c) w \<Longrightarrow> spells w t \<longleftrightarrow> bare t = w"
proof (induction t arbitrary: w)
  case (Cons c t)
  show ?case
  proof (cases "is_quote_char c")
    case True
    then have "\<not> is_ascii_uppercase c" by (auto simp: is_quote_char_def is_ascii_uppercase_def)
    moreover have "c \<noteq> hd w" if "w \<noteq> []" using True that Cons.prems by (cases w) auto
    ultimately show ?thesis
      using True Cons.IH [OF Cons.prems] by (auto simp: is_quote_char_def)
  next
    case False
    show ?thesis
    proof (cases w)
      case (Cons k ks)
      then show ?thesis
        using False Cons.prems Cons.IH [of ks] spells_letter [of k c] by (simp add: is_quote_char_def)
    qed (use False in \<open>simp add: is_quote_char_def\<close>)
  qed
qed auto

lemma filter_split:
  "filter P xs = us @ vs \<Longrightarrow> \<exists>as bs. xs = as @ bs \<and> filter P as = us \<and> filter P bs = vs"
proof (induction us arbitrary: xs)
  case (Cons u us)
  then obtain as bs where "xs = as @ u # bs" "filter P bs = us @ vs" "\<forall>a\<in>set as. \<not> P a" "P u"
    by (auto simp: filter_eq_Cons_iff)
  moreover then obtain cs ds where "bs = cs @ ds" "filter P cs = us" "filter P ds = vs" using Cons.IH by blast
  ultimately have "xs = (as @ u # cs) @ ds \<and> filter P (as @ u # cs) = u # us \<and> filter P ds = vs" by simp
  then show ?case by blast
qed (auto intro: exI [of _ "[]"])

lemma spelled_in_iff:
  assumes "list_all (\<lambda>c. \<not> is_quote_char c \<and> \<not> is_ascii_uppercase c) w"
  shows "spelled_in w t \<longleftrightarrow> str_contains w (bare t)"
proof
  assume "spelled_in w t"
  then obtain a k b where t: "t = a @ k @ b" and "spells w k" by (auto simp: spelled_in_def)
  then have "bare k = w" by (simp only: spells_iff [OF assms])
  then have "bare t = bare a @ w @ bare b" by (simp add: t)
  then show "str_contains w (bare t)" unfolding str_contains_iff by blast
next
  assume "str_contains w (bare t)"
  then obtain x y where "bare t = x @ w @ y" by (auto simp: str_contains_iff)
  then obtain xs r where f: "filter (\<lambda>c. \<not> is_quote_char c) t = xs @ r" and m: "w @ y = map to_ascii_lower r"
    unfolding map_eq_append_conv by blast
  obtain ws ys where r: "r = ws @ ys" and w: "w = map to_ascii_lower ws"
    using m [symmetric] unfolding map_eq_append_conv by blast
  obtain a q where t: "t = a @ q" and "filter (\<lambda>c. \<not> is_quote_char c) q = ws @ ys"
    using filter_split [OF f] unfolding r by blast
  then obtain k b where q: "q = k @ b" and "filter (\<lambda>c. \<not> is_quote_char c) k = ws"
    using filter_split by blast
  then have "spells w k" using spells_iff [OF assms] w by simp
  then show "spelled_in w t" unfolding spelled_in_def t q by blast
qed

text \<open>
  C4. What the tokeniser cannot read is judged by its letters alone: a command that is too long or has
  an unclosed quote is denied exactly when it spells \<open>tmux\<close> and \<open>kill-s\<close> somewhere, in either case and
  with quotes and backslashes anywhere inside the words.
\<close>

theorem unreadable_kill_denied:
  assumes "max_input < utf8_len tx \<or> \<not> p_complete (tokenise tx)"
  shows "tmux_check u tx =
    (if spelled_in (lit ''tmux'') tx \<and> spelled_in (lit ''kill-s'') tx
     then Some (deny_response tmux_block_message) else None)"
proof -
  obtain rp where "scan_at u max_depth = scan_body u rp"
    using scan_at_body by blast
  then have d: "is_dangerous u tx = text_test tx"
    using assms by (auto simp: is_dangerous_def scan_body_def Let_def)
  have w: "list_all (\<lambda>c. \<not> is_quote_char c \<and> \<not> is_ascii_uppercase c) (lit ''tmux'')"
    "list_all (\<lambda>c. \<not> is_quote_char c \<and> \<not> is_ascii_uppercase c) (lit ''kill-s'')"
    by code_simp+
  show ?thesis
    unfolding tmux_check_def d text_test_def Let_def spelled_in_iff [OF w(1)] spelled_in_iff [OF w(2)] ..
qed

lemma unreadable_kill_denied_witness:
  "tmux_check (\<lambda>_. False) (lit ''T\"m'' @ [ch_backslash] @ lit ''ux kill-server'') = Some (deny_response tmux_block_message)"
proof -
  let ?t = "lit ''T\"m'' @ [ch_backslash] @ lit ''ux kill-server''"
  have "\<not> p_complete (tokenise ?t)" by code_simp
  moreover have "spells (lit ''tmux'') (take 6 ?t)" "spells (lit ''kill-s'') (take 6 (drop 7 ?t))" by code_simp+
  moreover have "spelled_in w t" if "spells w (take n (drop k t))" for w t n k
    using that append_take_drop_id [of k t] append_take_drop_id [of n "drop k t"]
    unfolding spelled_in_def by metis
  moreover have "take 6 ?t = take 6 (drop 0 ?t)" by simp
  ultimately show ?thesis using unreadable_kill_denied [of ?t] by (metis (no_types, lifting))
qed

section \<open>Lines that mention no tmux\<close>

text \<open>No word names tmux or expands, nothing needs a second parse, and git runs no command.\<close>

definition clean_command :: "(rchar \<Rightarrow> bool) \<Rightarrow> simple_command \<Rightarrow> bool" where
  "clean_command u cmd =
    (list_all (\<lambda>w. \<not> is_tmux w \<and> \<not> is_expansion w \<and> \<not> has_candidate u w) (sc_words cmd) \<and>
     list_all (\<lambda>b. \<not> is_expansion b \<and> \<not> has_candidate u b) (sc_heredocs cmd) \<and>
     \<not> (is_git (sc_words cmd) \<and> git_runs_commands (prog_args (sc_words cmd))))"

lemma set_basename: "set (basename w) \<subseteq> set w"
  using set_takeWhileD by (fastforce simp: basename_def after_last_def)

lemma unknown_program_expansion: "unknown_program w \<Longrightarrow> is_expansion w"
  using set_basename [of w]
  by (auto simp: unknown_program_def is_expansion_def starts_with_def prefix_def)

lemma substitutions_plain: "\<not> is_expansion b \<Longrightarrow> substitutions b = ([], b)"
  by (induction b rule: substitutions.induct) (auto simp: is_expansion_def)

lemma invocation_loop_clean:
  assumes "list_all (\<lambda>w. \<not> is_tmux w \<and> \<not> is_expansion w) ws"
  shows "invocation_loop u start skip fed tainted k count ws out = out"
  using assms unknown_program_expansion by (induction ws arbitrary: k) (auto simp: names_tmux_def)

lemma script_loop_clean:
  assumes "list_all (\<lambda>w. \<not> is_expansion w \<and> \<not> has_candidate u w) ws"
  shows "script_loop u rp tx d k ws acc = acc"
  using assms by (induction ws arbitrary: k acc) (auto simp: expands_near_tmux_def Let_def)

lemma heredoc_layer_clean:
  assumes "list_all (\<lambda>b. \<not> is_expansion b \<and> \<not> has_candidate u b) bodies"
  shows "heredoc_layer u rp ev bodies flags acc = acc"
  using assms
proof (induction bodies arbitrary: flags acc)
  case (Cons b bodies)
  then have "\<not> needs_reparse u b" "substitutions b = ([], b)"
    by (simp_all add: needs_reparse_def expands_near_tmux_def substitutions_plain)
  moreover have "heredoc_layer u rp ev bodies (tl flags) acc = acc"
    using Cons by simp
  ultimately show ?case by (cases acc; cases ev) (simp_all add: Let_def)
qed simp

lemma scan_command_clean:
  assumes "clean_command u cmd"
  shows "sn_dangerous (fst (scan_command u rp ev tx fed cmd acc)) = sn_dangerous (fst acc)"
proof -
  obtain out cx where a: "acc = (out, cx)" by fastforce
  let ?ws = "sc_words cmd"
  have w: "list_all (\<lambda>w. \<not> is_tmux w \<and> \<not> is_expansion w) ?ws" "list_all (\<lambda>w. \<not> is_expansion w \<and> \<not> has_candidate u w) ?ws"
    using assms by (auto simp: clean_command_def list_all_iff)
  have "\<not> unknown_program_kills u fed ?ws"
    using w(1) unknown_program_expansion
    by (auto simp: unknown_program_kills_def get_def list_all_length split: if_splits)
  moreover have "list_all (\<lambda>w. \<not> is_tmux w \<and> \<not> is_expansion w) (drop n ?ws)" for n
    using w(1) by (auto simp: list_all_iff dest: in_set_dropD)
  ultimately have "sn_dangerous (layers12 u ev fed ?ws (cx_tainted cx) out) = sn_dangerous out"
    by (simp add: layers12_def Let_def invocation_loop_clean)
  then show ?thesis
    using assms script_loop_clean [OF w(2)]
    by (auto simp: scan_command_def Let_def a git_layer_def clean_command_def heredoc_layer_clean)
qed

lemma scan_commands_clean:
  "list_all (clean_command u) cmds \<Longrightarrow>
   sn_dangerous (fst (scan_commands u rp ev tx feds cmds acc)) = sn_dangerous (fst acc)"
  by (induction cmds arbitrary: feds acc) (simp_all add: Let_def scan_command_clean)

text \<open>
  C9. The guard lets ordinary work through: a line of at most the scanned length that the tokeniser reads completely is
  let through when in each of its commands no word names tmux, nothing is expanded, no script is embedded or handed to
  an interpreter, and git runs none of its arguments.
\<close>

theorem clean_line_allowed:
  assumes "utf8_len tx \<le> max_input" "p_complete (tokenise tx)" "list_all (clean_command u) (parse tx)"
  shows "tmux_check u tx = None"
proof -
  obtain rp where s: "scan_at u max_depth = scan_body u rp"
    using scan_at_body by blast
  have "\<not> is_dangerous u tx"
    using assms s
    by (simp add: is_dangerous_def scan_body_def Let_def scan_commands_clean parse_def scan_default_def)
  then show ?thesis by (simp add: tmux_check_def)
qed

lemma clean_line_allowed_witness: "tmux_check (\<lambda>_. False) (lit ''cargo test -p a; ls | wc -l'') = None"
proof (rule clean_line_allowed)
  show "utf8_len (lit ''cargo test -p a; ls | wc -l'') \<le> max_input" by code_simp
  show "p_complete (tokenise (lit ''cargo test -p a; ls | wc -l''))" by code_simp
  show "list_all (clean_command (\<lambda>_. False)) (parse (lit ''cargo test -p a; ls | wc -l''))" by code_simp
qed

end
