(* ===== verification/Tail_Guard.thy ===== *)
theory Tail_Guard
  imports Shell_Facts Json_Value Tmux_Guard
begin

text \<open>
  The tail-follow guard of \<open>pre_tool_use/tail_follow_guard.rs\<close>, which denies a \<open>tail\<close> that
  follows a device that never ends.  It shares the tokeniser with the tmux guard, but fails
  open: what it cannot read, or has no budget left to read, is allowed.
\<close>

section \<open>Tables\<close>

definition tail_devices :: "rstring list" where
  "tail_devices = map lit [''/dev/null'', ''/dev/zero'', ''/dev/random'', ''/dev/urandom'', ''/dev/full'',
     ''/dev/stdin'', ''/dev/tty'', ''/dev/fd/0'', ''/proc/self/fd/0'']"

definition tail_shells :: "rstring list" where
  "tail_shells = map lit [''sh'', ''bash'', ''zsh'', ''dash'', ''ksh'']"

definition tail_long_value_opts :: "rstring list" where
  "tail_long_value_opts = map lit [''lines'', ''bytes'', ''pid'', ''sleep-interval'', ''max-unchanged-stats'']"

definition tail_short_value_opts :: "rchar list" where
  "tail_short_value_opts = lit ''ncs''"

definition tail_max_depth :: nat where "tail_max_depth = 4"
definition tail_max_input :: nat where "tail_max_input = 64 * 1024"
definition tail_max_reparses :: nat where "tail_max_reparses = 256"
definition max_unwrap :: nat where "max_unwrap = 8"

section \<open>The arguments of tail\<close>

definition normalise :: "rstring \<Rightarrow> rstring option" where
  "normalise word =
    (if \<not> starts_with (lit ''/'') word then None
     else Some (concat (map (\<lambda>s. ch_slash # s)
       (filter (\<lambda>s. s \<noteq> [] \<and> s \<noteq> lit ''.'') (split_on (\<lambda>c. c = ch_slash) word)))))"

definition is_device :: "rstring \<Rightarrow> bool" where
  "is_device word = (case normalise word of None \<Rightarrow> False | Some path \<Rightarrow> path \<in> set tail_devices)"

text \<open>The loop of \<open>short_cluster\<close> over a cluster that does not start with a digit.\<close>

fun cluster_loop :: "bool \<Rightarrow> rstring \<Rightarrow> bool \<times> bool" where
  "cluster_loop follow [] = (follow, False)"
| "cluster_loop follow (c # cs) =
    (if c = of_char CHR ''f'' \<or> c = of_char CHR ''F'' then cluster_loop True cs
     else if c \<in> set tail_short_value_opts then (follow, cs = [])
     else cluster_loop follow cs)"

definition short_cluster :: "rstring \<Rightarrow> bool \<times> bool" where
  "short_cluster cluster =
    (if cluster \<noteq> [] \<and> is_ascii_digit (hd cluster)
     then (of_char CHR ''f'' \<in> set (dropWhile is_ascii_digit cluster), False)
     else cluster_loop False cluster)"

text \<open>A long option's name, and whether its value is joined with \<open>=\<close>.\<close>

definition long_name :: "rstring \<Rightarrow> rstring \<times> bool" where
  "long_name long = (case split_once ch_eq long of Some (name, _) \<Rightarrow> (name, True) | None \<Rightarrow> (long, False))"

text \<open>What one word of \<open>tail\<close>'s arguments is.\<close>

datatype tail_word = Options_end | Long_follow | Long_value | Long_other | Short "bool \<times> bool" | Operand

definition tail_word_kind :: "rstring \<Rightarrow> tail_word" where
  "tail_word_kind w =
    (if w = lit ''--'' then Options_end
     else (case strip_prefix (lit ''--'') w of
             Some long \<Rightarrow>
               (let (name, joined) = long_name long
                in if name \<noteq> [] \<and> starts_with name (lit ''follow'') then Long_follow
                   else if \<not> joined \<and> name \<in> set tail_long_value_opts then Long_value
                   else Long_other)
           | None \<Rightarrow>
               (case strip_prefix (lit ''-'') w of
                  Some cluster \<Rightarrow> if cluster \<noteq> [] then Short (short_cluster cluster) else Operand
                | None \<Rightarrow> Operand)))"

fun tail_loop :: "bool \<Rightarrow> bool \<Rightarrow> bool \<Rightarrow> rstring list \<Rightarrow> bool" where
  "tail_loop follow device fin [] = (follow \<and> device)"
| "tail_loop follow device fin (w # ws) =
    (if fin then tail_loop follow (device \<or> is_device w) True ws
     else (case tail_word_kind w of
             Options_end \<Rightarrow> tail_loop follow device True ws
           | Long_follow \<Rightarrow> tail_loop True device False ws
           | Long_value \<Rightarrow> tail_loop follow device False (tl ws)
           | Long_other \<Rightarrow> tail_loop follow device False ws
           | Short (f, value_next) \<Rightarrow> tail_loop (follow \<or> f) device False (if value_next then tl ws else ws)
           | Operand \<Rightarrow> tail_loop follow (device \<or> is_device w) False ws))"

definition tail_follows_device :: "rstring list \<Rightarrow> bool" where
  "tail_follows_device args = tail_loop False False False args"

section \<open>Launch wrappers\<close>

definition dash_word :: "rstring \<Rightarrow> bool" where
  "dash_word w = starts_with (lit ''-'') w"

definition skip_setsid_options :: "rstring list \<Rightarrow> rstring list" where
  "skip_setsid_options args = dropWhile dash_word args"

text \<open>
  What an option loop does at a word: stop before it, stop behind it, return nothing, or skip it
  alone or with the next word.
\<close>

datatype skip_turn = Here | Behind | Nothing | One | Two

fun skip_loop :: "(rstring \<Rightarrow> skip_turn) \<Rightarrow> rstring list \<Rightarrow> rstring list option" where
  "skip_loop turn [] = Some []"
| "skip_loop turn (w # ws) =
    (case turn w of Here \<Rightarrow> Some (w # ws) | Behind \<Rightarrow> Some ws | Nothing \<Rightarrow> None
     | One \<Rightarrow> skip_loop turn ws | Two \<Rightarrow> skip_loop turn (tl ws))"

text \<open>The words left, none when the tool acts on running processes.\<close>

definition words_left :: "rstring list option \<Rightarrow> rstring list" where
  "words_left r = (case r of None \<Rightarrow> [] | Some ws \<Rightarrow> ws)"

definition stdbuf_turn :: "rstring \<Rightarrow> skip_turn" where
  "stdbuf_turn w =
    (if \<not> dash_word w then Here
     else if w \<in> set (map lit [''-i'', ''-o'', ''-e'', ''--input'', ''--output'', ''--error'']) then Two
     else One)"

definition skip_stdbuf_options :: "rstring list \<Rightarrow> rstring list" where
  "skip_stdbuf_options args = words_left (skip_loop stdbuf_turn args)"

text \<open>The option of \<open>ionice\<close> that a word names, and whether its value is joined.\<close>

definition ionice_option :: "rstring \<Rightarrow> rstring \<times> bool" where
  "ionice_option w =
    (case strip_prefix (lit ''--'') w of
       Some long \<Rightarrow> long_name long
     | None \<Rightarrow>
         (let c = w ! 1; joined = (2 < length w)
          in (if c = of_char CHR ''c'' then lit ''class'' else if c = of_char CHR ''n'' then lit ''classdata''
              else if c = of_char CHR ''p'' then lit ''pid'' else if c = of_char CHR ''P'' then lit ''pgid''
              else if c = of_char CHR ''u'' then lit ''uid'' else [], joined)))"

definition ionice_turn :: "rstring \<Rightarrow> skip_turn" where
  "ionice_turn w =
    (if \<not> dash_word w \<or> w = lit ''-'' then Here
     else if w = lit ''--'' then Behind
     else (let (name, joined) = ionice_option w
           in if name \<in> set (map lit [''pid'', ''pgid'', ''uid'']) then Nothing
              else if \<not> joined \<and> (name = lit ''class'' \<or> name = lit ''classdata'') then Two
              else One))"

definition skip_ionice_options :: "rstring list \<Rightarrow> rstring list" where
  "skip_ionice_options args = words_left (skip_loop ionice_turn args)"

definition names_pid :: "rstring \<Rightarrow> bool" where
  "names_pid w = (w = lit ''--pid'' \<or> (\<not> starts_with (lit ''--'') w \<and> of_char CHR ''p'' \<in> set w))"

definition chrt_turn :: "rstring \<Rightarrow> skip_turn" where
  "chrt_turn w =
    (if \<not> dash_word w \<or> w = lit ''-'' then Here
     else if w = lit ''--'' then Behind
     else if names_pid w then Nothing
     else if w \<in> set (map lit [''-T'', ''-P'', ''-D'', ''--sched-runtime'', ''--sched-period'', ''--sched-deadline''])
     then Two else One)"

definition skip_chrt_options :: "rstring list \<Rightarrow> rstring list" where
  "skip_chrt_options args =
    (let ws = words_left (skip_loop chrt_turn args)
     in if ws \<noteq> [] \<and> hd ws \<noteq> [] \<and> list_all is_ascii_digit (hd ws) then tl ws else ws)"

definition taskset_turn :: "rstring \<Rightarrow> skip_turn" where
  "taskset_turn w =
    (if \<not> dash_word w \<or> w = lit ''-'' then Here
     else if w = lit ''--'' then Behind
     else if names_pid w then Nothing else One)"

definition skip_taskset_options :: "rstring list \<Rightarrow> rstring list" where
  "skip_taskset_options args = tl (words_left (skip_loop taskset_turn args))"

definition skip_unbuffer_options :: "rstring list \<Rightarrow> rstring list" where
  "skip_unbuffer_options args = dropWhile (\<lambda>w. w = lit ''-p'') args"

section \<open>Substitutions the shell runs\<close>

text \<open>The offset of the closing backtick in the text after the opening one.\<close>

fun backtick_close :: "rstring \<Rightarrow> nat option" where
  "backtick_close [] = None"
| "backtick_close (c # cs) =
    (if c = ch_backtick then Some 0
     else if c = ch_backslash then
       (case cs of [] \<Rightarrow> None | _ # cs' \<Rightarrow> map_option (\<lambda>k. k + 2) (backtick_close cs'))
     else map_option Suc (backtick_close cs))"

text \<open>
  One turn of the loop: \<open>Stop\<close> is \<open>return bodies\<close>, \<open>Go\<close> gives the body found, if any, the new
  \<open>in_double\<close> and \<open>heredocs\<close>, and the suffix of the next turn.
\<close>

datatype bodies_turn = Stop | Go "rstring option" bool "(rstring \<times> bool) list" rstring

definition bodies_step ::
  "bool \<Rightarrow> bool \<Rightarrow> (rstring \<times> bool) list \<Rightarrow> rchar \<Rightarrow> rstring \<Rightarrow> bodies_turn" where
  "bodies_step word_start dbl hs c cs =
    (if c = ch_backslash then Go None dbl hs (tl cs)
     else if c = ch_dquote then Go None (\<not> dbl) hs cs
     else if c = ch_dollar \<and> get cs 0 = Some ch_lparen then
       (case subst_close (c # cs) of None \<Rightarrow> Stop
        | Some k \<Rightarrow> Go (Some (take (k - 2) (tl cs))) dbl hs (drop k cs))
     else if c = ch_backtick then
       (case backtick_close cs of None \<Rightarrow> Stop
        | Some k \<Rightarrow> Go (Some (take k cs)) dbl hs (drop (k + 1) cs))
     else if dbl then Go None dbl hs cs
     else if c = ch_dollar \<and> get cs 0 = Some ch_squote then
       (case ansi_c_close (tl cs) of None \<Rightarrow> Stop | Some k \<Rightarrow> Go None dbl hs (drop (k + 2) cs))
     else if c = ch_squote then Go None dbl hs (tl (dropWhile (\<lambda>x. x \<noteq> ch_squote) cs))
     else if c = ch_hash \<and> word_start then Go None dbl hs (dropWhile (\<lambda>x. x \<noteq> ch_nl) cs)
     else if c = ch_lt \<and> get cs 0 = Some ch_lt \<and> get cs 1 = Some ch_lt then Go None dbl hs (drop 2 cs)
     else if c = ch_lt \<and> get cs 0 = Some ch_lt then
       (let (h, cs') = heredoc_delim (c # cs) in Go None dbl (hs @ [h]) cs')
     else if c = ch_nl then Go None dbl [] (skip_heredoc_bodies hs cs)
     else Go None dbl hs cs)"

lemma bodies_step_decreases:
  assumes "bodies_step ws dbl hs c cs = Go b dbl' hs' cs'"
  shows "length cs' \<le> length cs"
proof -
  have hd: "get cs 0 = Some ch_lt \<Longrightarrow> heredoc_delim (c # cs) = (h, r) \<Longrightarrow> length r \<le> length cs" for h r
    using length_heredoc_delim [of "c # cs" h r] by simp
  show ?thesis
    using assms
    by (auto simp: bodies_step_def length_skip_heredoc_bodies length_dropWhile_le
        split: if_splits option.splits prod.splits dest: hd)
qed

text \<open>\<open>prev\<close> is \<open>chars[i - 1]\<close>; after a turn it is the last character consumed.\<close>

definition word_start_after :: "rchar option \<Rightarrow> bool" where
  "word_start_after prev = (case prev of None \<Rightarrow> True | Some p \<Rightarrow> is_whitespace p \<or> p \<in> set (lit '';&|(''))"

function bodies_loop :: "rchar option \<Rightarrow> bool \<Rightarrow> (rstring \<times> bool) list \<Rightarrow> rstring \<Rightarrow> rstring list" where
  "bodies_loop prev dbl hs [] = []"
| "bodies_loop prev dbl hs (c # cs) =
    (case bodies_step (word_start_after prev) dbl hs c cs of
       Stop \<Rightarrow> []
     | Go b dbl' hs' cs' \<Rightarrow>
         (case b of None \<Rightarrow> [] | Some body \<Rightarrow> [body]) @
         bodies_loop (get (c # cs) (length cs - length cs')) dbl' hs' cs')"
  by pat_completeness auto
termination
  by (relation "measure (\<lambda>(p, d, h, cs). length cs)") (auto simp: less_Suc_eq_le dest: bodies_step_decreases)

definition substitution_bodies :: "rstring \<Rightarrow> rstring list" where
  "substitution_bodies tx = bodies_loop None False [] tx"

section \<open>The scan\<close>

text \<open>A test of an embedded script that spends the re-parse budget.\<close>

type_synonym probe = "rstring \<Rightarrow> nat \<Rightarrow> bool \<times> nat"

text \<open>\<open>iter().any(\<dots>)\<close> with the budget passed along; it stops at the first hit.\<close>

fun any_probe :: "('a \<Rightarrow> nat \<Rightarrow> bool \<times> nat) \<Rightarrow> 'a list \<Rightarrow> nat \<Rightarrow> bool \<times> nat" where
  "any_probe f [] b = (False, b)"
| "any_probe f (x # xs) b = (let (r, b') = f x b in if r then (True, b') else any_probe f xs b')"

definition char_count_gt1 :: "rstring \<Rightarrow> bool" where
  "char_count_gt1 w = (1 < length w)"

text \<open>The option loop of \<open>scan_shell\<close>.\<close>

fun scan_shell :: "probe \<Rightarrow> rstring list \<Rightarrow> bool \<Rightarrow> bool \<Rightarrow> rstring list \<Rightarrow> nat \<Rightarrow> bool \<times> nat" where
  "scan_shell rp heredocs has_c has_s [] b = (if has_c then (False, b) else any_probe rp heredocs b)"
| "scan_shell rp heredocs has_c has_s (w # ws) b =
    (if w = lit ''--rcfile'' \<or> w = lit ''--init-file'' then scan_shell rp heredocs has_c has_s (tl ws) b
     else if starts_with (lit ''--'') w then scan_shell rp heredocs has_c has_s ws b
     else if (dash_word w \<or> starts_with (lit ''+'') w) \<and> char_count_gt1 w then
       scan_shell rp heredocs
         (has_c \<or> (dash_word w \<and> of_char CHR ''c'' \<in> set (tl w)))
         (has_s \<or> (dash_word w \<and> of_char CHR ''s'' \<in> set (tl w)))
         (if last w = of_char CHR ''o'' \<or> last w = of_char CHR ''O'' then tl ws else ws) b
     else if has_c then rp w b
     else if \<not> has_s then (False, b)
     else any_probe rp heredocs b)"

text \<open>The rounds of \<open>scan_command\<close>; \<open>n\<close> are left.\<close>

fun unwrap_loop :: "probe \<Rightarrow> rstring list \<Rightarrow> nat \<Rightarrow> rstring list \<Rightarrow> nat \<Rightarrow> bool \<times> nat" where
  "unwrap_loop rp heredocs n rest b =
    (if n = 0 then (False, b)
     else (case program rest of
             None \<Rightarrow> (False, b)
           | Some [] \<Rightarrow> (False, b)
           | Some (first # args) \<Rightarrow>
               (let name = basename first
                in if name = lit ''setsid'' then unwrap_loop rp heredocs (n - 1) (skip_setsid_options args) b
                   else if name = lit ''stdbuf'' then unwrap_loop rp heredocs (n - 1) (skip_stdbuf_options args) b
                   else if name = lit ''ionice'' then unwrap_loop rp heredocs (n - 1) (skip_ionice_options args) b
                   else if name = lit ''chrt'' then unwrap_loop rp heredocs (n - 1) (skip_chrt_options args) b
                   else if name = lit ''taskset'' then unwrap_loop rp heredocs (n - 1) (skip_taskset_options args) b
                   else if name = lit ''unbuffer'' then unwrap_loop rp heredocs (n - 1) (skip_unbuffer_options args) b
                   else if name = lit ''function'' then unwrap_loop rp heredocs (n - 1) (drop 1 args) b
                   else if name = lit ''tail'' then (tail_follows_device args, b)
                   else if name \<in> set tail_shells then scan_shell rp heredocs False False args b
                   else (False, b))))"

declare unwrap_loop.simps [simp del]

definition tail_scan_command :: "probe \<Rightarrow> simple_command \<Rightarrow> nat \<Rightarrow> bool \<times> nat" where
  "tail_scan_command rp cmd b = unwrap_loop rp (sc_heredocs cmd) (max_unwrap + 1) (sc_words cmd) b"

definition tail_scan_body :: "probe \<Rightarrow> rstring \<Rightarrow> nat \<Rightarrow> bool \<times> nat" where
  "tail_scan_body rp tx b =
    (let parsed = tokenise tx
     in if \<not> p_complete parsed then (False, b)
        else
          (let (r, b') = any_probe (tail_scan_command rp) (p_commands parsed) b
           in if r then (True, b') else any_probe rp (substitution_bodies tx) b'))"

definition tail_reparse :: "probe \<Rightarrow> probe" where
  "tail_reparse deeper script b = (if b = 0 then (False, b) else deeper script (b - 1))"

text \<open>\<open>scan\<close> with \<open>n = MAX_DEPTH - depth\<close> levels left.\<close>

primrec tail_scan :: "nat \<Rightarrow> rstring \<Rightarrow> nat \<Rightarrow> bool \<times> nat" where
  "tail_scan 0 = (\<lambda>tx b. (False, b))"
| "tail_scan (Suc n) = tail_scan_body (tail_reparse (tail_scan n))"

definition tail_block_message :: rstring where
  "tail_block_message = concat
     [lit ''Blocked: `tail` following a device that never ends '',
      lit ''(such as `tail -f /dev/null`) must not be used as a way to wait. The tail outlives '',
      lit ''the tool call and is left running as an orphan process (#1794). To wait for a fixed '',
      lit ''time, run `amplihack wait --seconds N`. To wait for work to finish, run it in the '',
      lit ''background and wait on its PID: `cmd & pid=$!; wait $pid`. Do not use '',
      lit ''`tail -f /dev/null` or `timeout N tail -f /dev/null` as a sleep.'']"

definition tail_check :: "rstring \<Rightarrow> json option" where
  "tail_check command =
    (if tail_max_input < utf8_len command then None
     else if fst (tail_scan tail_max_depth command tail_max_reparses)
     then Some (deny_response tail_block_message) else None)"

definition tail_check_value :: "json option \<Rightarrow> json option" where
  "tail_check_value v =
    (case v of
       Some (J_str tx) \<Rightarrow> tail_check tx
     | Some (J_arr items) \<Rightarrow>
         if items = [] then None
         else (let strings = json_strings items
               in if length strings \<noteq> length items then None else tail_check (join_argv strings))
     | _ \<Rightarrow> None)"

definition tail_check_tool_input :: "json \<Rightarrow> json option" where
  "tail_check_tool_input tool_input =
    find_map (\<lambda>key. tail_check_value (json_get key tool_input)) [lit ''command'', lit ''cmd'']"

end
