(* ===== verification/Tail_Facts.thy ===== *)
theory Tail_Facts
  imports Tail_Guard
begin

text \<open>
  What the tail-follow guard guarantees: it denies an argument vector that follows a device,
  also behind launch wrappers, it denies only when \<open>tail\<close> is told to follow and names a
  device, and it fails open on text it cannot read.
\<close>

section \<open>The argument reading\<close>

definition follow_word :: "rstring \<Rightarrow> bool" where
  "follow_word w = (tail_word_kind w = Long_follow \<or> (\<exists>v. tail_word_kind w = Short (True, v)))"

lemma tail_loop_needs:
  "tail_loop follow device fin ws \<Longrightarrow>
     (follow \<or> list_ex follow_word ws) \<and> (device \<or> list_ex is_device ws)"
proof (induction follow device fin ws rule: tail_loop.induct)
  case (2 follow device fin w ws)
  have tl: "list_ex P (tl ws) \<Longrightarrow> list_ex P ws" for P by (cases ws) auto
  show ?case
  proof (cases fin)
    case True
    then show ?thesis using 2 by auto
  next
    case False
    show ?thesis
    proof (cases "tail_word_kind w")
      case (Short fv)
      obtain f v where fv: "fv = (f, v)" by fastforce
      have "follow_word w" if f using that Short fv by (simp add: follow_word_def)
      moreover have "(follow \<or> f \<or> list_ex follow_word (if v then tl ws else ws)) \<and>
          (device \<or> list_ex is_device (if v then tl ws else ws))"
        using 2(6) [OF False Short fv [symmetric]] 2(8) False Short fv by simp
      ultimately show ?thesis using tl by (cases v) auto
    qed (use 2 False tl in \<open>auto simp: follow_word_def\<close>)
  qed
qed simp

lemma device_not_option: "is_device w \<Longrightarrow> tail_word_kind w = Operand"
proof -
  assume "is_device w"
  then obtain r where "w = ch_slash # r"
    by (cases w) (auto simp: is_device_def normalise_def starts_with_def split: if_splits option.splits)
  then show ?thesis by (simp add: tail_word_kind_def strip_prefix_def)
qed

text \<open>
  The guard finds a following tail only when some argument asks to follow (\<open>--follow\<close> or a
  prefix of it, or a short cluster with the flag) and some argument names a device that never
  ends, so a tail of ordinary files is never the reason for a denial.
\<close>

lemma tail_follow_needs_flag_and_device:
  assumes "tail_follows_device args"
  shows "list_ex follow_word args \<and> list_ex is_device args"
  using tail_loop_needs [of False False False args] assms by (simp add: tail_follows_device_def)

lemma tail_follow_needs_flag_and_device_witness:
  "list_ex follow_word [lit ''-n'', lit ''5'', lit ''-qf'', lit ''//dev/./null''] \<and>
   list_ex is_device [lit ''-n'', lit ''5'', lit ''-qf'', lit ''//dev/./null'']"
proof (rule tail_follow_needs_flag_and_device)
  show "tail_follows_device [lit ''-n'', lit ''5'', lit ''-qf'', lit ''//dev/./null'']" by code_simp
qed

section \<open>Programs\<close>

definition plain_program :: "rstring \<Rightarrow> bool" where
  "plain_program w = (w \<notin> set reserved \<and> ch_eq \<notin> set w \<and> find_wrapper w = None)"

lemma plain_program_head: "plain_program w \<Longrightarrow> program (w # args) = Some (w # args)"
  by (simp add: plain_program_def is_assignment_def split_once_None [THEN iffD2])

lemma tail_plain: "basename w = lit ''tail'' \<Longrightarrow> ch_eq \<notin> set w \<Longrightarrow> plain_program w"
proof -
  assume w: "basename w = lit ''tail''" "ch_eq \<notin> set w"
  have "list_all (\<lambda>r. basename r \<noteq> lit ''tail'') reserved" by code_simp
  then have "w \<notin> set reserved" using w(1) by (auto simp: list_all_iff)
  moreover have none: "list_all (\<lambda>x. fst x \<noteq> lit ''tail'') wrappers" by code_simp
  then have "find_wrapper w = None"
    unfolding find_wrapper_def find_None_iff list_all_iff w(1) by auto
  ultimately show ?thesis using w(2) by (simp add: plain_program_def)
qed

section \<open>Launch wrappers\<close>

text \<open>Wrappers that need no argument of their own.\<close>

definition bare_wrapper :: "rstring \<Rightarrow> bool" where
  "bare_wrapper w = (w \<in> set (map lit [''setsid'', ''stdbuf'', ''ionice'', ''unbuffer'']))"

lemma bare_wrapper_plain: "bare_wrapper w \<Longrightarrow> plain_program w \<and> basename w = w \<and> \<not> dash_word w \<and> w \<noteq> []"
proof -
  assume "bare_wrapper w"
  moreover have "list_all (\<lambda>w. plain_program w \<and> basename w = w \<and> \<not> dash_word w \<and> w \<noteq> [])
      (map lit [''setsid'', ''stdbuf'', ''ionice'', ''unbuffer''])" by code_simp
  ultimately show ?thesis unfolding bare_wrapper_def list_all_iff by blast
qed

lemma skip_at_word:
  assumes "\<not> dash_word w"
  shows "skip_setsid_options (w # ws) = w # ws" "skip_stdbuf_options (w # ws) = w # ws"
    "skip_ionice_options (w # ws) = w # ws" "skip_unbuffer_options (w # ws) = w # ws"
proof -
  have "w \<noteq> lit ''-p''" using assms by (auto simp: dash_word_def starts_with_def)
  then show "skip_setsid_options (w # ws) = w # ws" "skip_stdbuf_options (w # ws) = w # ws"
    "skip_ionice_options (w # ws) = w # ws" "skip_unbuffer_options (w # ws) = w # ws"
    using assms
    by (simp_all add: skip_setsid_options_def skip_stdbuf_options_def skip_ionice_options_def
        skip_unbuffer_options_def words_left_def stdbuf_turn_def ionice_turn_def)
qed

lemma tail_scan_top: "tail_scan tail_max_depth = tail_scan_body (tail_reparse (tail_scan 3))"
proof -
  have "tail_max_depth = Suc 3" by (simp add: tail_max_depth_def)
  then show ?thesis using tail_scan.simps(2) [of 3] by metis
qed

lemma unwrap_wrapper:
  assumes "bare_wrapper w" "\<not> dash_word v"
  shows "unwrap_loop rp h (Suc n) (w # v # ws) b = unwrap_loop rp h n (v # ws) b"
proof -
  note bw = bare_wrapper_plain [OF assms(1)]
  have p: "program (w # v # ws) = Some (w # v # ws)" using bw by (blast intro: plain_program_head)
  have base: "basename w = w" using bw by blast
  have d: "w = lit ''setsid'' \<or> w = lit ''stdbuf'' \<or> w = lit ''ionice'' \<or> w = lit ''unbuffer''"
    using assms(1) by (auto simp: bare_wrapper_def)
  show ?thesis
    apply (subst unwrap_loop.simps)
    apply (simp only: p base option.case list.case nat.simps if_False Let_def)
    apply (rule disjE [OF d]; (elim disjE)?; simp add: skip_at_word [OF assms(2)])
    done
qed

lemma unwrap_tail:
  assumes "basename w = lit ''tail''" "ch_eq \<notin> set w" "tail_follows_device args"
  shows "unwrap_loop rp h (Suc n) (w # args) b = (True, b)"
  using assms plain_program_head [OF tail_plain [OF assms(1,2)], of args]
  by (subst unwrap_loop.simps) simp

lemma unwrap_wrappers:
  assumes "list_all bare_wrapper ps" "length ps \<le> n" "\<not> dash_word w"
    "basename w = lit ''tail''" "ch_eq \<notin> set w" "tail_follows_device args"
  shows "unwrap_loop rp h (Suc n) (ps @ w # args) b = (True, b)"
  using assms(1,2)
proof (induction ps arbitrary: n)
  case Nil
  then show ?case using unwrap_tail [OF assms(4-6)] by simp
next
  case (Cons p ps)
  obtain m where n: "n = Suc m" using Cons.prems by (cases n) auto
  obtain v vs where v: "ps @ w # args = v # vs" "\<not> dash_word v"
    using Cons.prems assms(3) bare_wrapper_plain by (cases ps) auto
  have "unwrap_loop rp h (Suc n) (p # v # vs) b = unwrap_loop rp h n (v # vs) b"
    using Cons.prems v(2) by (intro unwrap_wrapper) simp_all
  then show ?case using Cons v(1) n by simp
qed

text \<open>
  C24. An argument vector that runs \<open>tail\<close> (by any path) to follow a device is denied, also behind
  up to eight of the launch wrappers that take no argument and whatever the other arguments hold, exactly as long as its
  quoted text has at most 64 KiB: a longer one passes, since the guard fails open.
\<close>

theorem tail_argv_denied:
  assumes "list_all bare_wrapper ps" "length ps \<le> 8" "\<not> dash_word w" "basename w = lit ''tail''"
    "ch_eq \<notin> set w" "tail_follows_device args"
  shows "tail_check_tool_input (J_obj [(lit ''command'', J_arr (map J_str (ps @ w # args)))])
    = (if utf8_len (join_argv (ps @ w # args)) \<le> 65536 then Some (deny_response tail_block_message) else None)"
proof -
  define tx where "tx = join_argv (ps @ w # args)"
  have t: "tokenise tx = \<lparr>p_commands = [default_command\<lparr>sc_words := ps @ w # args\<rparr>], p_complete = True\<rparr>"
    unfolding tx_def by (rule tokenise_join_argv) simp
  have "unwrap_loop rp h (Suc max_unwrap) (ps @ w # args) b = (True, b)" for rp h b
    using assms(1-6) by (intro unwrap_wrappers) (simp_all add: max_unwrap_def)
  then have "fst (tail_scan tail_max_depth tx b)" for b
    by (simp add: tail_scan_top tail_scan_body_def t tail_scan_command_def)
  then have "tail_check tx = (if utf8_len tx \<le> 65536 then Some (deny_response tail_block_message) else None)"
    by (simp add: tail_check_def tail_max_input_def)
  then show ?thesis
    using json_strings_map [of "ps @ w # args"]
    by (simp add: tail_check_tool_input_def json_get_def tail_check_value_def tx_def)
qed

lemma tail_argv_denied_witness:
  "tail_check_tool_input (J_obj [(lit ''command'',
      J_arr (map J_str ([lit ''setsid'', lit ''stdbuf''] @ lit ''/usr/bin/tail'' # [lit ''-F'', lit ''/dev/null''])))])
    = Some (deny_response tail_block_message)"
proof -
  have "utf8_len (join_argv ([lit ''setsid'', lit ''stdbuf''] @ lit ''/usr/bin/tail'' # [lit ''-F'', lit ''/dev/null''])) \<le> 65536"
    by code_simp
  moreover have "list_all bare_wrapper [lit ''setsid'', lit ''stdbuf'']" "length [lit ''setsid'', lit ''stdbuf''] \<le> 8"
    "\<not> dash_word (lit ''/usr/bin/tail'')" "basename (lit ''/usr/bin/tail'') = lit ''tail''" "ch_eq \<notin> set (lit ''/usr/bin/tail'')"
    "tail_follows_device [lit ''-F'', lit ''/dev/null'']" by code_simp+
  note tail_argv_denied [OF this]
  ultimately show ?thesis by (simp only: if_True)
qed

text \<open>
  Unlike the tmux guard this guard fails open: text that is too long or that the tokeniser
  cannot read completely is never denied.
\<close>

lemma tail_guard_fails_open:
  assumes "tail_max_input < utf8_len tx \<or> \<not> p_complete (tokenise tx)"
  shows "tail_check tx = None"
  using assms by (auto simp: tail_check_def tail_scan_top tail_scan_body_def)

lemma tail_guard_fails_open_witness:
  "tail_check (lit ''tail -f /dev/null '' @ [ch_dquote]) = None"
proof (rule tail_guard_fails_open)
  have "\<not> p_complete (tokenise (lit ''tail -f /dev/null '' @ [ch_dquote]))" by code_simp
  then show "tail_max_input < utf8_len (lit ''tail -f /dev/null '' @ [ch_dquote]) \<or>
    \<not> p_complete (tokenise (lit ''tail -f /dev/null '' @ [ch_dquote]))" by blast
qed

end
