(* ===== verification/Pr_Lease.thy ===== *)
theory Pr_Lease
  imports Rust_Text
begin

text \<open>
  The PR-ownership lease of \<open>amplihack-orchestration/src/pr_lease\<close>: keys and records, expiry,
  the two stores with the contract they share (locale \<open>lease_store\<close>, interpreted on both),
  and the operations of \<open>PrLease\<close> over a store.  An instant is a number of nanoseconds;
  \<open>mx\<close> is chrono's \<open>MAX_UTC\<close>.  What other sessions do to the store between a load and the
  compare-and-set of an attempt is an argument.
\<close>

section \<open>Keys, records, errors\<close>

definition schema_version :: nat where "schema_version = 1"
definition max_ttl_secs :: nat where "max_ttl_secs = 86400"
definition acquire_attempts :: nat where "acquire_attempts = 5"

datatype lease_error = Already_held rstring | Not_owner | Expired | Io_error | Corrupt | Unsupported_version

record lease_key =
  lk_repo :: rstring
  lk_pr_number :: nat

text \<open>The decimal digits of a number, as \<open>format!\<close> prints it.\<close>

function decimal :: "nat \<Rightarrow> rstring" where
  "decimal n = (if n < 10 then [48 + n] else decimal (n div 10) @ [48 + n mod 10])"
  by pat_completeness auto
termination
  by (relation "measure id") auto

declare decimal.simps [simp del]

definition slug_char :: "rchar \<Rightarrow> rchar" where
  "slug_char c = (if is_ascii_alphanumeric c \<or> c = ch_dash \<or> c = ch_underscore then c else ch_underscore)"

definition file_slug :: "lease_key \<Rightarrow> rstring" where
  "file_slug k = map slug_char (lk_repo k) @ lit ''__pr-'' @ decimal (lk_pr_number k) @ lit ''.json''"

record lease_record =
  lr_schema_version :: nat
  lr_key :: lease_key
  lr_owner :: rstring
  lr_acquired_at :: int
  lr_ttl_secs :: nat

definition expires_at :: "int \<Rightarrow> lease_record \<Rightarrow> int" where
  "expires_at mx r =
    (let t = lr_acquired_at r + int (min (lr_ttl_secs r) max_ttl_secs) * 1000000000
     in if t \<le> mx then t else mx)"

definition is_expired :: "int \<Rightarrow> lease_record \<Rightarrow> int \<Rightarrow> bool" where
  "is_expired mx r now = (expires_at mx r \<le> now)"

lemma is_expired_mono: "is_expired mx r t \<Longrightarrow> t \<le> t' \<Longrightarrow> is_expired mx r t'"
  by (simp add: is_expired_def)

section \<open>The stores\<close>

text \<open>The trait \<open>LeaseStore\<close> as the operations on a store state \<open>'s\<close>.\<close>

record 's lease_ops =
  op_load :: "lease_key \<Rightarrow> 's \<Rightarrow> (lease_error, lease_record option) result"
  op_store :: "lease_record \<Rightarrow> 's \<Rightarrow> (lease_error, 's) result"
  op_remove :: "lease_key \<Rightarrow> 's \<Rightarrow> (lease_error, 's) result"
  op_cas :: "lease_key \<Rightarrow> lease_record option \<Rightarrow> lease_record option \<Rightarrow> 's \<Rightarrow> (lease_error, bool \<times> 's) result"

text \<open>The in-memory store: a map from keys.\<close>

type_synonym mem_store = "lease_key \<Rightarrow> lease_record option"

definition mem_load :: "lease_key \<Rightarrow> mem_store \<Rightarrow> (lease_error, lease_record option) result" where
  "mem_load k s = Inr (s k)"

definition mem_save :: "lease_record \<Rightarrow> mem_store \<Rightarrow> (lease_error, mem_store) result" where
  "mem_save r s = Inr (s(lr_key r \<mapsto> r))"

definition mem_remove :: "lease_key \<Rightarrow> mem_store \<Rightarrow> (lease_error, mem_store) result" where
  "mem_remove k s = Inr (s(k := None))"

definition mem_cas ::
  "lease_key \<Rightarrow> lease_record option \<Rightarrow> lease_record option \<Rightarrow> mem_store \<Rightarrow> (lease_error, bool \<times> mem_store) result" where
  "mem_cas k expected new s =
    (if s k \<noteq> expected then Inr (False, s) else Inr (True, s(k := new)))"

definition mem_ops :: "mem_store lease_ops" where
  "mem_ops = \<lparr>op_load = mem_load, op_store = mem_save, op_remove = mem_remove, op_cas = mem_cas\<rparr>"

text \<open>
  The file store: one JSON file per slug.  A file is absent, does not parse, or holds a
  \<open>LeaseFile\<close>.  Reading, writing and updating a file are \<open>AtomicJsonFile\<close>'s operations; other
  I/O failures of the file system are not modelled.
\<close>

datatype lease_file = No_file | Garbled | Lease_file (file_record: "lease_record option")

type_synonym file_store = "rstring \<Rightarrow> lease_file"

definition fs_load :: "lease_key \<Rightarrow> file_store \<Rightarrow> (lease_error, lease_record option) result" where
  "fs_load k s =
    (case s (file_slug k) of
       No_file \<Rightarrow> Inr None
     | Garbled \<Rightarrow> Inl Corrupt
     | Lease_file (Some r) \<Rightarrow> if lr_schema_version r \<noteq> schema_version then Inl Unsupported_version else Inr (Some r)
     | Lease_file None \<Rightarrow> Inr None)"

definition fs_save :: "lease_record \<Rightarrow> file_store \<Rightarrow> (lease_error, file_store) result" where
  "fs_save r s = Inr (s(file_slug (lr_key r) := Lease_file (Some r)))"

definition fs_remove :: "lease_key \<Rightarrow> file_store \<Rightarrow> (lease_error, file_store) result" where
  "fs_remove k s = Inr (s(file_slug k := Lease_file None))"

text \<open>\<open>AtomicJsonFile::update\<close> reads the default for an absent file and writes the result back.\<close>

definition fs_cas ::
  "lease_key \<Rightarrow> lease_record option \<Rightarrow> lease_record option \<Rightarrow> file_store \<Rightarrow> (lease_error, bool \<times> file_store) result" where
  "fs_cas k expected new s =
    (let slug = file_slug k; update = (\<lambda>current.
        if current = expected then Inr (True, s(slug := Lease_file new))
        else Inr (False, s(slug := Lease_file current)))
     in (case s slug of No_file \<Rightarrow> update None | Garbled \<Rightarrow> Inl Corrupt | Lease_file r \<Rightarrow> update r))"

definition fs_ops :: "file_store lease_ops" where
  "fs_ops = \<lparr>op_load = fs_load, op_store = fs_save, op_remove = fs_remove, op_cas = fs_cas\<rparr>"

section \<open>The contract of a store\<close>

text \<open>
  A key has a slot; \<open>current_record\<close> is the record of a slot of a readable store.  Loading, storing
  and comparing speak about the slot only, and other slots are left alone.
\<close>

locale lease_store =
  fixes ops :: "'s lease_ops" and slot :: "lease_key \<Rightarrow> 'slot" and usable :: "'s \<Rightarrow> bool"
    and cell :: "'s \<Rightarrow> 'slot \<Rightarrow> lease_record option"
  assumes load: "usable s \<Longrightarrow> op_load ops k s = Inr (cell s (slot k))"
    and store_cell: "usable s \<Longrightarrow> lr_schema_version r = schema_version \<Longrightarrow>
      \<exists>s'. op_store ops r s = Inr s' \<and> usable s' \<and> cell s' = (cell s)(slot (lr_key r) \<mapsto> r)"
    and cas_cell: "usable s \<Longrightarrow> (\<forall>r. new = Some r \<longrightarrow> lr_schema_version r = schema_version) \<Longrightarrow>
      \<exists>s'. usable s' \<and>
        op_cas ops k expected new s = Inr (cell s (slot k) = expected, s') \<and>
        cell s' = (if cell s (slot k) = expected then (cell s)(slot k := new) else cell s)"
begin

lemma cas_success:
  assumes "usable s" "cell s (slot k) = expected" "\<forall>r. new = Some r \<longrightarrow> lr_schema_version r = schema_version"
  shows "\<exists>s'. op_cas ops k expected new s = Inr (True, s') \<and> usable s' \<and> cell s' = (cell s)(slot k := new)"
  using cas_cell [OF assms(1,3), of k expected] assms(2) by auto

lemma cas_failure:
  assumes "usable s" "cell s (slot k) \<noteq> expected" "\<forall>r. new = Some r \<longrightarrow> lr_schema_version r = schema_version"
  shows "\<exists>s'. op_cas ops k expected new s = Inr (False, s') \<and> usable s' \<and> cell s' = cell s"
  using cas_cell [OF assms(1,3), of k expected] assms(2) by auto

end

interpretation mem: lease_store mem_ops id "\<lambda>_. True" "\<lambda>s. s"
  by unfold_locales (auto simp: mem_ops_def mem_load_def mem_save_def mem_cas_def)

text \<open>Every file parses and holds a record of the supported version, if any.\<close>

definition fs_usable :: "file_store \<Rightarrow> bool" where
  "fs_usable s = (\<forall>slug. s slug \<noteq> Garbled \<and>
     (\<forall>r. s slug = Lease_file (Some r) \<longrightarrow> lr_schema_version r = schema_version))"

definition fs_cell :: "file_store \<Rightarrow> rstring \<Rightarrow> lease_record option" where
  "fs_cell s slug = (case s slug of Lease_file r \<Rightarrow> r | _ \<Rightarrow> None)"

lemma fs_usable_update:
  "fs_usable s \<Longrightarrow> (\<forall>r. rec = Some r \<longrightarrow> lr_schema_version r = schema_version) \<Longrightarrow>
     fs_usable (s(slug := Lease_file rec))"
  by (simp add: fs_usable_def)

lemma fs_cell_update: "fs_cell (s(slug := Lease_file rec)) = (fs_cell s)(slug := rec)"
  by (simp add: fs_cell_def fun_eq_iff)

lemma fs_cas_eq:
  assumes "fs_usable s"
  shows "fs_cas k expected new s =
    (let current = fs_cell s (file_slug k)
     in if current = expected then Inr (True, s(file_slug k := Lease_file new))
        else Inr (False, s(file_slug k := Lease_file current)))"
  using assms by (cases "s (file_slug k)") (auto simp: fs_cas_def fs_cell_def fs_usable_def)

lemma fs_cell_version:
  "fs_usable s \<Longrightarrow> fs_cell s slug = Some r \<Longrightarrow> lr_schema_version r = schema_version"
  by (auto simp: fs_cell_def fs_usable_def split: lease_file.splits)

interpretation fs: lease_store fs_ops file_slug fs_usable fs_cell
proof
  fix s :: file_store and k expected new and r :: lease_record
  assume u: "fs_usable s"
  have c: "s x \<noteq> Garbled" for x using u by (simp add: fs_usable_def)
  show "op_load fs_ops k s = Inr (fs_cell s (file_slug k))"
    using u c [of "file_slug k"]
    by (auto simp: fs_ops_def fs_load_def fs_cell_def fs_usable_def split: lease_file.splits option.splits)
  show "\<exists>s'. op_store fs_ops r s = Inr s' \<and> fs_usable s' \<and> fs_cell s' = (fs_cell s)(file_slug (lr_key r) \<mapsto> r)"
    if "lr_schema_version r = schema_version"
    using fs_usable_update [OF u, of "Some r"] that fs_cell_update
    by (auto simp: fs_ops_def fs_save_def)
  show "\<exists>s'. fs_usable s' \<and> op_cas fs_ops k expected new s = Inr (fs_cell s (file_slug k) = expected, s') \<and>
      fs_cell s' = (if fs_cell s (file_slug k) = expected then (fs_cell s)(file_slug k := new) else fs_cell s)"
    if "\<forall>r. new = Some r \<longrightarrow> lr_schema_version r = schema_version"
  proof (cases "fs_cell s (file_slug k) = expected")
    case True
    then show ?thesis
      using fs_usable_update [OF u that] fs_cell_update by (auto simp: fs_ops_def fs_cas_eq [OF u])
  next
    case False
    have "fs_usable (s(file_slug k := Lease_file (fs_cell s (file_slug k))))"
      by (rule fs_usable_update [OF u]) (use fs_cell_version [OF u] in blast)
    then show ?thesis
      using False by (auto simp: fs_ops_def fs_cas_eq [OF u] fs_cell_update)
  qed
qed

section \<open>The operations of PrLease\<close>

definition build_record :: "lease_key \<Rightarrow> rstring \<Rightarrow> int \<Rightarrow> nat \<Rightarrow> lease_record" where
  "build_record k owner now ttl =
    \<lparr>lr_schema_version = schema_version, lr_key = k, lr_owner = owner, lr_acquired_at = now, lr_ttl_secs = ttl\<rparr>"

definition clamp_ttl :: "nat \<Rightarrow> nat" where
  "clamp_ttl secs = max 1 (min secs max_ttl_secs)"

record pr_lease =
  pl_key :: lease_key
  pl_owner :: rstring
  pl_ttl_secs :: nat
  pl_released :: bool

definition lease_handle :: "lease_key \<Rightarrow> rstring \<Rightarrow> nat \<Rightarrow> pr_lease" where
  "lease_handle k owner ttl = \<lparr>pl_key = k, pl_owner = owner, pl_ttl_secs = ttl, pl_released = False\<rparr>"

text \<open>What an attempt of \<open>acquire\<close> does with the result of its load.\<close>

datatype attempt = Overwrite lease_record | Swap "lease_record option" lease_record | Refuse lease_error

definition acquire_decide ::
  "int \<Rightarrow> lease_key \<Rightarrow> rstring \<Rightarrow> nat \<Rightarrow> int \<Rightarrow> (lease_error, lease_record option) result \<Rightarrow> attempt" where
  "acquire_decide mx k owner ttl now loaded =
    (let record' = build_record k owner now ttl
     in (case loaded of
           Inl e \<Rightarrow> if e = Corrupt \<or> e = Unsupported_version then Overwrite record' else Refuse e
         | Inr None \<Rightarrow> Swap None record'
         | Inr (Some existing) \<Rightarrow>
             if \<not> is_expired mx existing now \<and> lr_owner existing \<noteq> owner
             then Refuse (Already_held (lr_owner existing))
             else Swap (Some existing) record'))"

text \<open>
  The loop of \<open>acquire\<close>: \<open>n\<close> attempts are left, \<open>clock i\<close> is the reading of attempt \<open>i\<close> (and of the
  final check), and \<open>env i\<close> is what other sessions do between its load and its swap.
\<close>

fun acquire_loop ::
  "'s lease_ops \<Rightarrow> int \<Rightarrow> (nat \<Rightarrow> int) \<Rightarrow> (nat \<Rightarrow> 's \<Rightarrow> 's) \<Rightarrow> lease_key \<Rightarrow> rstring \<Rightarrow> nat \<Rightarrow> nat \<Rightarrow> nat \<Rightarrow> 's \<Rightarrow>
   (lease_error, pr_lease) result \<times> 's" where
  "acquire_loop ops mx clock env k owner ttl n i s =
    (if n = 0 then
       ((case op_load ops k s of
           Inl e \<Rightarrow> Inl e
         | Inr (Some existing) \<Rightarrow>
             Inl (Already_held (if \<not> is_expired mx existing (clock i) then lr_owner existing else lit ''unknown''))
         | Inr None \<Rightarrow> Inl (Already_held (lit ''unknown''))), s)
     else
       (case acquire_decide mx k owner ttl (clock i) (op_load ops k s) of
          Refuse e \<Rightarrow> (Inl e, s)
        | Overwrite r \<Rightarrow>
            (case op_store ops r (env i s) of Inl e \<Rightarrow> (Inl e, env i s)
             | Inr s' \<Rightarrow> (Inr (lease_handle k owner ttl), s'))
        | Swap current r \<Rightarrow>
            (case op_cas ops k current (Some r) (env i s) of
               Inl e \<Rightarrow> (Inl e, env i s)
             | Inr (True, s') \<Rightarrow> (Inr (lease_handle k owner ttl), s')
             | Inr (False, s') \<Rightarrow> acquire_loop ops mx clock env k owner ttl (n - 1) (i + 1) s')))"

declare acquire_loop.simps [simp del]

definition acquire ::
  "'s lease_ops \<Rightarrow> int \<Rightarrow> (nat \<Rightarrow> int) \<Rightarrow> (nat \<Rightarrow> 's \<Rightarrow> 's) \<Rightarrow> lease_key \<Rightarrow> rstring \<Rightarrow> nat \<Rightarrow> 's \<Rightarrow>
   (lease_error, pr_lease) result \<times> 's" where
  "acquire ops mx clock env k owner secs s =
    acquire_loop ops mx clock env k owner (clamp_ttl secs) acquire_attempts 0 s"

definition assert_owned :: "'s lease_ops \<Rightarrow> int \<Rightarrow> int \<Rightarrow> pr_lease \<Rightarrow> 's \<Rightarrow> (lease_error, unit) result" where
  "assert_owned ops mx now h s =
    (case op_load ops (pl_key h) s of
       Inl e \<Rightarrow> Inl e
     | Inr (Some r) \<Rightarrow>
         if lr_owner r = pl_owner h then (if is_expired mx r now then Inl Expired else Inr ()) else Inl Not_owner
     | Inr None \<Rightarrow> Inl Not_owner)"

text \<open>The first half of \<open>renew\<close>: the record to swap out, or the error.\<close>

definition renew_check ::
  "int \<Rightarrow> int \<Rightarrow> pr_lease \<Rightarrow> (lease_error, lease_record option) result \<Rightarrow> (lease_error, lease_record) result" where
  "renew_check mx now h loaded =
    (case loaded of
       Inl e \<Rightarrow> Inl e
     | Inr (Some r) \<Rightarrow>
         if lr_owner r = pl_owner h then (if is_expired mx r now then Inl Expired else Inr r) else Inl Not_owner
     | Inr None \<Rightarrow> Inl Not_owner)"

definition renew ::
  "'s lease_ops \<Rightarrow> int \<Rightarrow> int \<Rightarrow> ('s \<Rightarrow> 's) \<Rightarrow> pr_lease \<Rightarrow> 's \<Rightarrow> (lease_error, unit) result \<times> 's" where
  "renew ops mx now env h s =
    (case renew_check mx now h (op_load ops (pl_key h) s) of
       Inl e \<Rightarrow> (Inl e, s)
     | Inr r \<Rightarrow>
         (case op_cas ops (pl_key h) (Some r) (Some (build_record (pl_key h) (pl_owner h) now (pl_ttl_secs h))) (env s) of
            Inl e \<Rightarrow> (Inl e, env s)
          | Inr (True, s') \<Rightarrow> (Inr (), s')
          | Inr (False, s') \<Rightarrow> (Inl Not_owner, s')))"

definition release ::
  "'s lease_ops \<Rightarrow> ('s \<Rightarrow> 's) \<Rightarrow> pr_lease \<Rightarrow> 's \<Rightarrow> (lease_error, unit) result \<times> pr_lease \<times> 's" where
  "release ops env h s =
    (if pl_released h then (Inr (), h, s)
     else (case op_load ops (pl_key h) s of
             Inl e \<Rightarrow> (Inl e, h, s)
           | Inr current \<Rightarrow>
               (case current of
                  Some r \<Rightarrow>
                    if lr_owner r = pl_owner h then
                      (case op_cas ops (pl_key h) current None (env s) of
                         Inl e \<Rightarrow> (Inl e, h, env s)
                       | Inr (_, s') \<Rightarrow> (Inr (), h\<lparr>pl_released := True\<rparr>, s'))
                    else (Inr (), h\<lparr>pl_released := True\<rparr>, env s)
                | None \<Rightarrow> (Inr (), h\<lparr>pl_released := True\<rparr>, env s))))"

text \<open>\<open>Drop\<close>: release without an error.\<close>

definition lease_drop :: "'s lease_ops \<Rightarrow> ('s \<Rightarrow> 's) \<Rightarrow> pr_lease \<Rightarrow> 's \<Rightarrow> 's" where
  "lease_drop ops env h s = (if pl_released h then s else snd (snd (release ops env h s)))"

end
