(* ===== verification/Pr_Lease_Race.thy ===== *)
theory Pr_Lease_Race
  imports Pr_Lease
begin

text \<open>
  The lease under concurrency.  The operations of \<open>PrLease\<close> are cut at their accesses to the
  store: each load and each compare-and-set of a session is one step, and steps of all
  sessions and of the clock interleave freely.  \<open>held\<close> remembers the record a session last
  wrote for its handle.  The invariant and mutual exclusion are proved once for every store
  that meets the contract \<open>lease_store\<close>.
\<close>

section \<open>Steps\<close>

text \<open>Where a session stands: between operations, or between the load and the swap of one.\<close>

datatype lease_pc = Idle
  | Acquiring nat
  | Deciding nat int "(lease_error, lease_record option) result"
  | Renewing int lease_record
  | Releasing lease_record

record 's world =
  w_store :: 's
  w_now :: int
  w_pc :: "rstring \<Rightarrow> lease_pc"
  w_held :: "rstring \<Rightarrow> lease_record option"

definition set_pc :: "rstring \<Rightarrow> lease_pc \<Rightarrow> 's world \<Rightarrow> 's world" where
  "set_pc a p w = w\<lparr>w_pc := (w_pc w)(a := p)\<rparr>"

definition set_held :: "rstring \<Rightarrow> lease_record option \<Rightarrow> 's world \<Rightarrow> 's world" where
  "set_held a h w = w\<lparr>w_held := (w_held w)(a := h)\<rparr>"

definition set_store :: "'s \<Rightarrow> 's world \<Rightarrow> 's world" where
  "set_store s w = w\<lparr>w_store := s\<rparr>"

text \<open>The result of a session's swap: the new record is its handle's, or the operation ends.\<close>

definition swapped ::
  "rstring \<Rightarrow> lease_pc \<Rightarrow> lease_record option \<Rightarrow> (lease_error, bool \<times> 's) result \<Rightarrow> 's world \<Rightarrow> 's world" where
  "swapped a retry new result w =
    (case result of
       Inl e \<Rightarrow> set_pc a Idle w
     | Inr (True, s) \<Rightarrow> set_pc a Idle (set_held a new (set_store s w))
     | Inr (False, s) \<Rightarrow> set_pc a retry (set_store s w))"

text \<open>The second half of an attempt of \<open>acquire\<close>.\<close>

definition decide_step ::
  "'s lease_ops \<Rightarrow> int \<Rightarrow> lease_key \<Rightarrow> nat \<Rightarrow> rstring \<Rightarrow> nat \<Rightarrow> int \<Rightarrow> (lease_error, lease_record option) result \<Rightarrow>
   's world \<Rightarrow> 's world" where
  "decide_step ops mx k ttl a n t loaded w =
    (case acquire_decide mx k a ttl t loaded of
       Refuse e \<Rightarrow> set_pc a Idle w
     | Overwrite r \<Rightarrow>
         (case op_store ops r (w_store w) of Inl e \<Rightarrow> set_pc a Idle w
          | Inr s \<Rightarrow> set_pc a Idle (set_held a (Some r) (set_store s w)))
     | Swap current r \<Rightarrow>
         swapped a (Acquiring (n + 1)) (Some r) (op_cas ops k current (Some r) (w_store w)) w)"

text \<open>
  The first half of \<open>renew\<close> and \<open>release\<close>, and their swaps.  After a failed swap \<open>renew\<close> keeps its
  handle and \<open>release\<close> drops it.
\<close>

definition renew_load :: "'s lease_ops \<Rightarrow> int \<Rightarrow> lease_key \<Rightarrow> nat \<Rightarrow> rstring \<Rightarrow> 's world \<Rightarrow> 's world" where
  "renew_load ops mx k ttl a w =
    (case renew_check mx (w_now w) (lease_handle k a ttl) (op_load ops k (w_store w)) of
       Inl e \<Rightarrow> w
     | Inr r \<Rightarrow> set_pc a (Renewing (w_now w) r) w)"

definition release_load :: "'s lease_ops \<Rightarrow> lease_key \<Rightarrow> rstring \<Rightarrow> 's world \<Rightarrow> 's world" where
  "release_load ops k a w =
    (case op_load ops k (w_store w) of
       Inl e \<Rightarrow> w
     | Inr (Some r) \<Rightarrow> if lr_owner r = a then set_pc a (Releasing r) w else set_held a None w
     | Inr None \<Rightarrow> set_held a None w)"

inductive lease_step ::
  "'s lease_ops \<Rightarrow> int \<Rightarrow> lease_key \<Rightarrow> nat \<Rightarrow> 's world \<Rightarrow> 's world \<Rightarrow> bool"
  for ops mx k ttl where
  tick: "w_now w \<le> t \<Longrightarrow> lease_step ops mx k ttl w (w\<lparr>w_now := t\<rparr>)"
| start: "w_pc w a = Idle \<Longrightarrow> lease_step ops mx k ttl w (set_pc a (Acquiring 0) w)"
| load: "w_pc w a = Acquiring n \<Longrightarrow> n < acquire_attempts \<Longrightarrow>
    lease_step ops mx k ttl w (set_pc a (Deciding n (w_now w) (op_load ops k (w_store w))) w)"
| give_up: "w_pc w a = Acquiring n \<Longrightarrow> acquire_attempts \<le> n \<Longrightarrow> lease_step ops mx k ttl w (set_pc a Idle w)"
| decide: "w_pc w a = Deciding n t loaded \<Longrightarrow>
    lease_step ops mx k ttl w (decide_step ops mx k ttl a n t loaded w)"
| renew1: "w_pc w a = Idle \<Longrightarrow> w_held w a \<noteq> None \<Longrightarrow> lease_step ops mx k ttl w (renew_load ops mx k ttl a w)"
| renew2: "w_pc w a = Renewing t r \<Longrightarrow>
    lease_step ops mx k ttl w
      (swapped a Idle (Some (build_record k a t ttl))
        (op_cas ops k (Some r) (Some (build_record k a t ttl)) (w_store w)) w)"
| release1: "w_pc w a = Idle \<Longrightarrow> w_held w a \<noteq> None \<Longrightarrow> lease_step ops mx k ttl w (release_load ops k a w)"
| release2: "w_pc w a = Releasing r \<Longrightarrow>
    lease_step ops mx k ttl w
      (set_held a None (swapped a Idle None (op_cas ops k (Some r) None (w_store w)) w))"
| crash: "lease_step ops mx k ttl w (set_pc a Idle (set_held a None w))"

abbreviation lease_steps :: "'s lease_ops \<Rightarrow> int \<Rightarrow> lease_key \<Rightarrow> nat \<Rightarrow> 's world \<Rightarrow> 's world \<Rightarrow> bool" where
  "lease_steps ops mx k ttl \<equiv> (lease_step ops mx k ttl)\<^sup>*\<^sup>*"

definition world_init :: "'s \<Rightarrow> int \<Rightarrow> 's world" where
  "world_init s t = \<lparr>w_store = s, w_now = t, w_pc = (\<lambda>_. Idle), w_held = (\<lambda>_. None)\<rparr>"

lemmas world_defs = set_pc_def set_held_def set_store_def

lemma set_simps [simp]:
  "w_store (set_pc a p w) = w_store w" "w_now (set_pc a p w) = w_now w" "w_held (set_pc a p w) = w_held w"
  "w_pc (set_pc a p w) = (w_pc w)(a := p)"
  "w_store (set_held a h w) = w_store w" "w_now (set_held a h w) = w_now w" "w_pc (set_held a h w) = w_pc w"
  "w_held (set_held a h w) = (w_held w)(a := h)"
  "w_store (set_store s w) = s" "w_now (set_store s w) = w_now w" "w_pc (set_store s w) = w_pc w"
  "w_held (set_store s w) = w_held w"
  by (simp_all add: world_defs)

text \<open>A session holds a live lease: its handle's record has not expired.\<close>

definition holds_live :: "int \<Rightarrow> 's world \<Rightarrow> rstring \<Rightarrow> bool" where
  "holds_live mx w a = (case w_held w a of None \<Rightarrow> False | Some r \<Rightarrow> \<not> is_expired mx r (w_now w))"

section \<open>The invariant\<close>

text \<open>What a session in the middle of an operation knows.\<close>

fun pc_good :: "int \<Rightarrow> rstring \<Rightarrow> lease_pc \<Rightarrow> bool" where
  "pc_good now a Idle = True"
| "pc_good now a (Acquiring n) = True"
| "pc_good now a (Deciding n t loaded) = (t \<le> now \<and> is_ok loaded)"
| "pc_good now a (Renewing t r) = (t \<le> now \<and> lr_owner r = a)"
| "pc_good now a (Releasing r) = (lr_owner r = a)"

lemma pc_good_later: "pc_good t a p \<Longrightarrow> t \<le> t' \<Longrightarrow> pc_good t' a p"
  by (cases p) auto

context lease_store
begin

definition pc_ok :: "'s world \<Rightarrow> rstring \<Rightarrow> bool" where
  "pc_ok w a = pc_good (w_now w) a (w_pc w a)"

definition lease_inv :: "int \<Rightarrow> lease_key \<Rightarrow> 's world \<Rightarrow> bool" where
  "lease_inv mx k w =
    (usable (w_store w) \<and> (\<forall>a. pc_ok w a) \<and>
     (\<forall>a r. w_held w a = Some r \<longrightarrow> lr_owner r = a \<and>
        (\<not> is_expired mx r (w_now w) \<longrightarrow> cell (w_store w) (slot k) = Some r)))"

lemma lease_inv_init: "usable s \<Longrightarrow> lease_inv mx k (world_init s t)"
  by (simp add: lease_inv_def world_init_def pc_ok_def)

lemma pc_ok_other: "b \<noteq> a \<Longrightarrow> pc_ok (set_pc a p w) b = pc_ok w b"
  by (simp add: pc_ok_def)

lemma lease_inv_pc:
  assumes "lease_inv mx k w" "pc_ok (set_pc a p w) a"
  shows "lease_inv mx k (set_pc a p w)"
proof -
  have "pc_ok (set_pc a p w) b" for b
    using assms pc_ok_other [of b a p w] by (cases "b = a") (simp_all add: lease_inv_def)
  then show ?thesis using assms(1) by (simp add: lease_inv_def)
qed

lemma lease_inv_drop: "lease_inv mx k w \<Longrightarrow> lease_inv mx k (set_held a None w)"
  by (auto simp: lease_inv_def pc_ok_def)

lemma lease_inv_same_cell:
  "lease_inv mx k w \<Longrightarrow> usable s \<Longrightarrow> cell s = cell (w_store w) \<Longrightarrow> lease_inv mx k (set_store s w)"
  by (auto simp: lease_inv_def pc_ok_def)

text \<open>
  A successful swap by \<open>a\<close> of a record that is its own, or expired, or absent, leaves every other
  session's live lease alone, because there is none.
\<close>

lemma lease_inv_swap:
  assumes inv: "lease_inv mx k w" and u: "usable s"
    and c: "cell s = (cell (w_store w))(slot k := new)"
    and old: "\<And>r. cell (w_store w) (slot k) = Some r \<Longrightarrow> lr_owner r = a \<or> is_expired mx r (w_now w)"
    and new: "\<And>r. new = Some r \<Longrightarrow> lr_owner r = a"
  shows "lease_inv mx k (set_held a new (set_store s w))"
proof -
  have "is_expired mx r (w_now w)" if "w_held w b = Some r" "b \<noteq> a" for b r
    using inv that old by (fastforce simp: lease_inv_def)
  then show ?thesis
    using inv u c new by (auto simp: lease_inv_def pc_ok_def)
qed

lemma lease_inv_swapped:
  assumes inv: "lease_inv mx k w" and v: "\<forall>r. new = Some r \<longrightarrow> lr_schema_version r = schema_version"
    and old: "\<And>r. current = Some r \<Longrightarrow> lr_owner r = a \<or> is_expired mx r (w_now w)"
    and new: "\<And>r. new = Some r \<Longrightarrow> lr_owner r = a"
    and retry: "retry = Idle \<or> (\<exists>n. retry = Acquiring n)"
  shows "lease_inv mx k (swapped a retry new (op_cas ops k current new (w_store w)) w)"
proof -
  have u: "usable (w_store w)" using inv by (simp add: lease_inv_def)
  show ?thesis
  proof (cases "cell (w_store w) (slot k) = current")
    case True
    obtain s where s: "op_cas ops k current new (w_store w) = Inr (True, s)" "usable s"
      "cell s = (cell (w_store w))(slot k := new)"
      using cas_success [OF u True v] by blast
    have "lease_inv mx k (set_held a new (set_store s w))"
      using lease_inv_swap [OF inv s(2,3), of a] old new True by blast
    then show ?thesis
      using lease_inv_pc [of mx k _ a Idle] s(1) by (simp add: swapped_def pc_ok_def)
  next
    case False
    obtain s where s: "op_cas ops k current new (w_store w) = Inr (False, s)" "usable s" "cell s = cell (w_store w)"
      using cas_failure [OF u False v] by blast
    have "lease_inv mx k (set_store s w)" by (rule lease_inv_same_cell [OF inv s(2,3)])
    then have "lease_inv mx k (set_pc a retry (set_store s w))"
      by (rule lease_inv_pc) (use retry in \<open>auto simp: pc_ok_def\<close>)
    then show ?thesis using s(1) by (simp add: swapped_def)
  qed
qed

lemma lease_inv_decide:
  assumes inv: "lease_inv mx k w" and pc: "w_pc w a = Deciding n t loaded"
  shows "lease_inv mx k (decide_step ops mx k ttl a n t loaded w)"
proof -
  have "pc_ok w a" using inv by (simp add: lease_inv_def)
  then obtain c where t: "t \<le> w_now w" and l: "loaded = Inr c" using pc by (auto simp: pc_ok_def is_ok_iff)
  have idle: "lease_inv mx k (set_pc a Idle w)" by (rule lease_inv_pc [OF inv]) (simp add: pc_ok_def)
  have swap: "lease_inv mx k (swapped a (Acquiring (n + 1)) (Some (build_record k a t ttl))
      (op_cas ops k c (Some (build_record k a t ttl)) (w_store w)) w)"
    if "\<And>r. c = Some r \<Longrightarrow> is_expired mx r t \<or> lr_owner r = a"
    using that t is_expired_mono
    by (intro lease_inv_swapped [OF inv]) (auto simp: build_record_def)
  show ?thesis
    using idle swap
    by (cases c) (auto simp: decide_step_def acquire_decide_def l Let_def)
qed

lemma lease_inv_step: "lease_step ops mx k ttl w w' \<Longrightarrow> lease_inv mx k w \<Longrightarrow> lease_inv mx k w'"
proof (induction rule: lease_step.cases)
  case (tick w t)
  then show ?case
    using is_expired_mono [of mx _ "w_now w" t]
    pc_good_later [of "w_now w" _ _ t]
    by (simp add: lease_inv_def pc_ok_def) blast
next
  case (start w a)
  then show ?case by (auto intro!: lease_inv_pc simp: pc_ok_def)
next
  case (load w a n)
  then have "\<exists>c. op_load ops k (w_store w) = Inr c"
    using lease_store.load [OF lease_store_axioms] by (auto simp: lease_inv_def)
  then show ?case using load by (auto intro!: lease_inv_pc simp: pc_ok_def is_ok_iff)
next
  case (give_up w a n)
  then show ?case by (auto intro!: lease_inv_pc simp: pc_ok_def)
next
  case (decide w a n t loaded)
  then show ?case using lease_inv_decide by blast
next
  case (renew1 w a)
  then show ?case
    by (auto simp: renew_load_def renew_check_def lease_handle_def pc_ok_def
        split: sum.splits option.splits if_splits intro!: lease_inv_pc)
next
  case (renew2 w a t r)
  then have "pc_ok w a" by (simp add: lease_inv_def)
  then have "lr_owner r = a" using renew2 by (simp add: pc_ok_def)
  then show ?case using renew2
    by (auto intro!: lease_inv_swapped simp: build_record_def)
next
  case (release1 w a)
  then show ?case
    by (auto simp: release_load_def pc_ok_def split: sum.splits option.splits
        intro!: lease_inv_pc lease_inv_drop)
next
  case (release2 w a r)
  then have "pc_ok w a" by (simp add: lease_inv_def)
  then have "lr_owner r = a" using release2 by (simp add: pc_ok_def)
  then show ?case using release2
    by (auto intro!: lease_inv_drop lease_inv_swapped)
next
  case (crash w a)
  then show ?case by (auto intro!: lease_inv_pc lease_inv_drop simp: pc_ok_def)
qed

lemma lease_inv_steps: "lease_steps ops mx k ttl w w' \<Longrightarrow> lease_inv mx k w \<Longrightarrow> lease_inv mx k w'"
  by (induction rule: rtranclp_induct) (auto intro: lease_inv_step)

lemma exclusion:
  assumes "usable s" "lease_steps ops mx k ttl (world_init s t) w" "holds_live mx w a" "holds_live mx w b"
  shows "a = b"
proof -
  have "lease_inv mx k w" using assms(1,2) lease_inv_init lease_inv_steps by blast
  moreover obtain r q where "w_held w a = Some r" "\<not> is_expired mx r (w_now w)"
    "w_held w b = Some q" "\<not> is_expired mx q (w_now w)"
    using assms(3,4) by (auto simp: holds_live_def split: option.splits)
  ultimately have "lr_owner r = a" "lr_owner q = b" "cell (w_store w) (slot k) = Some r"
    "cell (w_store w) (slot k) = Some q"
    unfolding lease_inv_def by blast+
  then show ?thesis by simp
qed

lemma live_asserts:
  assumes "usable s" "lease_steps ops mx k ttl (world_init s t) w" "holds_live mx w a"
  shows "assert_owned ops mx (w_now w) (lease_handle k a ttl) (w_store w) = Inr ()"
proof -
  have inv: "lease_inv mx k w" using assms(1,2) lease_inv_init lease_inv_steps by blast
  then obtain r where "w_held w a = Some r" "\<not> is_expired mx r (w_now w)" "lr_owner r = a"
    "cell (w_store w) (slot k) = Some r" "usable (w_store w)"
    using assms(3) by (auto simp: lease_inv_def holds_live_def split: option.splits)
  then show ?thesis using load by (simp add: assert_owned_def lease_handle_def)
qed

end

section \<open>Properties\<close>

text \<open>A run for the witnesses: one session acquires a free lease.\<close>

definition sample_key :: lease_key where
  "sample_key = \<lparr>lk_repo = lit ''a/b'', lk_pr_number = 7\<rparr>"

lemma sample_run:
  "\<exists>w. lease_steps fs_ops 10000000000 sample_key 1 (world_init (\<lambda>_. No_file) 0) w \<and> holds_live 10000000000 w [65]"
proof -
  let ?m = "10000000000 :: int" and ?k = sample_key and ?a = "[65] :: rstring"
  let ?w0 = "world_init (\<lambda>_. No_file) 0 :: file_store world"
  let ?w1 = "set_pc ?a (Acquiring 0) ?w0"
  let ?w2 = "set_pc ?a (Deciding 0 (w_now ?w1) (op_load fs_ops ?k (w_store ?w1))) ?w1"
  let ?w3 = "decide_step fs_ops ?m ?k 1 ?a 0 (w_now ?w1) (op_load fs_ops ?k (w_store ?w1)) ?w2"
  have s1: "lease_step fs_ops ?m ?k 1 ?w0 ?w1" by (rule lease_step.start) (simp add: world_init_def)
  have s2: "lease_step fs_ops ?m ?k 1 ?w1 ?w2" by (rule lease_step.load) (simp_all add: acquire_attempts_def)
  have s3: "lease_step fs_ops ?m ?k 1 ?w2 ?w3" by (rule lease_step.decide) simp
  have "lease_steps fs_ops ?m ?k 1 ?w0 ?w3"
    using s1 s2 s3 by (meson converse_rtranclp_into_rtranclp rtranclp.rtrancl_refl)
  moreover have "holds_live ?m ?w3 ?a"
    by (simp add: holds_live_def decide_step_def acquire_decide_def swapped_def fs_ops_def fs_load_def fs_cas_def
        world_init_def build_record_def is_expired_def expires_at_def max_ttl_secs_def Let_def)
  ultimately show ?thesis by blast
qed

text \<open>
  C1. Mutual exclusion: from a readable file store, however loads, swaps, renewals, releases,
  crashes and the clock interleave, two sessions never hold a live lease for the same key at
  the same time.
\<close>

theorem lease_mutual_exclusion:
  assumes "fs_usable s" "lease_steps fs_ops mx k ttl (world_init s t) w" "holds_live mx w a" "holds_live mx w b"
  shows "a = b"
  by (rule fs.exclusion [OF assms])

lemma lease_mutual_exclusion_witness:
  "\<exists>w :: file_store world. holds_live 10000000000 w [65] \<and>
     (\<forall>b. holds_live 10000000000 w b = (b = [65]))"
proof -
  obtain w where w: "lease_steps fs_ops 10000000000 sample_key 1 (world_init (\<lambda>_. No_file) 0) w"
    and l: "holds_live 10000000000 w [65]"
    using sample_run by blast
  have "b = [65]" if "holds_live 10000000000 w b" for b
    by (rule lease_mutual_exclusion [OF _ w that l]) (simp add: fs_usable_def)
  then show ?thesis using l by blast
qed



text \<open>
  The unconditional overwrite of an unreadable record is outside the swap: the shared steps of two
  sessions that both load a garbled file.
\<close>

definition two_deciding :: "file_store world" where
  "two_deciding =
    \<lparr>w_store = (\<lambda>_. Garbled), w_now = 0,
     w_pc = (\<lambda>_. Idle)([65] := Deciding 0 0 (Inl Corrupt), [66] := Deciding 0 0 (Inl Corrupt)),
     w_held = (\<lambda>_. None)\<rparr>"

lemma two_deciding_reachable:
  "lease_steps fs_ops mx sample_key ttl (world_init (\<lambda>_. Garbled) 0) two_deciding"
proof -
  let ?w0 = "world_init (\<lambda>_. Garbled) 0 :: file_store world"
  let ?w1 = "set_pc [65] (Acquiring 0) ?w0"
  let ?w2 = "set_pc [66] (Acquiring 0) ?w1"
  let ?w3 = "set_pc [65] (Deciding 0 (w_now ?w2) (op_load fs_ops sample_key (w_store ?w2))) ?w2"
  let ?w4 = "set_pc [66] (Deciding 0 (w_now ?w3) (op_load fs_ops sample_key (w_store ?w3))) ?w3"
  have "lease_step fs_ops mx sample_key ttl ?w0 ?w1" by (rule lease_step.start) (simp add: world_init_def)
  moreover have "lease_step fs_ops mx sample_key ttl ?w1 ?w2" by (rule lease_step.start) (simp add: world_init_def)
  moreover have "lease_step fs_ops mx sample_key ttl ?w2 ?w3"
    by (rule lease_step.load) (simp_all add: acquire_attempts_def)
  moreover have "lease_step fs_ops mx sample_key ttl ?w3 ?w4"
    by (rule lease_step.load) (simp_all add: acquire_attempts_def)
  ultimately have "lease_steps fs_ops mx sample_key ttl ?w0 ?w4"
    by (meson converse_rtranclp_into_rtranclp rtranclp.rtrancl_refl)
  moreover have "?w4 = two_deciding"
    by (auto simp: two_deciding_def world_init_def world_defs fs_ops_def fs_load_def fun_eq_iff)
  ultimately show ?thesis by simp
qed

text \<open>
  Readability of the store is needed: from a garbled lease file there is a run in which two
  different sessions both acquire the lease of one key and both hold it live at the same
  time, because each overwrites the unreadable record without a compare-and-set.
\<close>

lemma corrupt_record_breaks_exclusion:
  "\<exists>w a b. lease_steps fs_ops 10000000000 sample_key 1 (world_init (\<lambda>_. Garbled) 0) w \<and>
     holds_live 10000000000 w a \<and> holds_live 10000000000 w b \<and> a \<noteq> b"
proof -
  let ?m = "10000000000 :: int"
  let ?w1 = "decide_step fs_ops ?m sample_key 1 [65] 0 0 (Inl Corrupt) two_deciding"
  let ?w2 = "decide_step fs_ops ?m sample_key 1 [66] 0 0 (Inl Corrupt) ?w1"
  have "lease_step fs_ops ?m sample_key 1 two_deciding ?w1"
    by (rule lease_step.decide) (simp add: two_deciding_def)
  moreover have "lease_step fs_ops ?m sample_key 1 ?w1 ?w2"
    by (rule lease_step.decide)
      (simp add: two_deciding_def decide_step_def acquire_decide_def fs_ops_def fs_save_def Let_def)
  ultimately have "lease_steps fs_ops ?m sample_key 1 (world_init (\<lambda>_. Garbled) 0) ?w2"
    using two_deciding_reachable by (meson rtranclp.rtrancl_into_rtrancl)
  moreover have "holds_live ?m ?w2 [65]" "holds_live ?m ?w2 [66]"
    by (simp_all add: holds_live_def two_deciding_def decide_step_def acquire_decide_def fs_ops_def fs_save_def
        Let_def build_record_def is_expired_def expires_at_def max_ttl_secs_def)
  moreover have "[65] \<noteq> ([66] :: rstring)" by simp
  ultimately show ?thesis by blast
qed

end
