(* ===== verification/Pr_Lease_Facts.thy ===== *)
theory Pr_Lease_Facts
  imports Pr_Lease_Race
begin

text \<open>
  The functional behaviour of one \<open>acquire\<close> for every store that meets the contract, with
  arbitrary interference of other sessions between its loads and swaps; expiry bounds; and
  the file names of leases.
\<close>

section \<open>acquire\<close>

context lease_store
begin

text \<open>Interference keeps the store readable.\<close>

definition fair :: "(nat \<Rightarrow> 's \<Rightarrow> 's) \<Rightarrow> bool" where
  "fair env = (\<forall>i s. usable s \<longrightarrow> usable (env i s))"

lemma acquire_loop_result:
  assumes "usable s" "fair env" "acquire_loop ops mx clock env k owner ttl n i s = (res, s')"
  shows "usable s' \<and>
    (case res of
       Inr h \<Rightarrow> h = lease_handle k owner ttl \<and>
         (\<exists>j. i \<le> j \<and> j < i + n \<and> cell s' (slot k) = Some (build_record k owner (clock j) ttl))
     | Inl e \<Rightarrow> \<exists>who. e = Already_held who)"
  using assms
proof (induction n arbitrary: i s)
  case 0
  then show ?case
    using load [of s k] by (auto simp: acquire_loop.simps [of _ _ _ _ _ _ _ 0] split: option.splits)
next
  case (Suc n)
  obtain c where l: "op_load ops k s = Inr c" using load Suc.prems(1) by blast
  have ue: "usable (env i s)" using Suc.prems by (simp add: fair_def)
  show ?case
  proof (cases "acquire_decide mx k owner ttl (clock i) (Inr c)")
    case (Overwrite r)
    then show ?thesis by (auto simp: acquire_decide_def Let_def split: option.splits if_splits)
  next
    case (Refuse e)
    then show ?thesis
      using Suc.prems by (auto simp: acquire_loop.simps [of _ _ _ _ _ _ _ "Suc n"] l acquire_decide_def Let_def
          split: option.splits if_splits)
  next
    case (Swap cur r)
    have r: "r = build_record k owner (clock i) ttl"
      using Swap by (auto simp: acquire_decide_def Let_def split: option.splits if_splits)
    then have v: "\<forall>q. Some r = Some q \<longrightarrow> lr_schema_version q = schema_version"
      by (simp add: build_record_def)
    show ?thesis
    proof (cases "cell (env i s) (slot k) = cur")
      case True
      obtain t where t: "op_cas ops k cur (Some r) (env i s) = Inr (True, t)" "usable t"
        "cell t = (cell (env i s))(slot k \<mapsto> r)"
        using cas_success [OF ue True v] by blast
      then show ?thesis
        using Suc.prems(3) Swap r
        by (auto simp: acquire_loop.simps [of _ _ _ _ _ _ _ "Suc n"] l intro!: exI [of _ i])
    next
      case False
      obtain t where t: "op_cas ops k cur (Some r) (env i s) = Inr (False, t)" "usable t"
        using cas_failure [OF ue False v] by blast
      then have "acquire_loop ops mx clock env k owner ttl n (i + 1) t = (res, s')"
        using Suc.prems(3) Swap by (simp add: acquire_loop.simps [of _ _ _ _ _ _ _ "Suc n"] l)
      from Suc.IH [OF t(2) Suc.prems(2) this] show ?thesis
        by (cases res) (auto dest: Suc_leD)
    qed
  qed
qed

lemma acquire_refused:
  assumes "usable s" "cell s (slot k) = Some r" "\<not> is_expired mx r (clock 0)" "lr_owner r \<noteq> owner"
  shows "acquire ops mx clock env k owner secs s = (Inl (Already_held (lr_owner r)), s)"
  using assms load [of s k]
  by (simp add: acquire_def acquire_attempts_def acquire_loop.simps [of _ _ _ _ _ _ _ 5] acquire_decide_def Let_def)

lemma acquire_granted:
  assumes "usable s" "env 0 s = s"
    "\<And>r. cell s (slot k) = Some r \<Longrightarrow> is_expired mx r (clock 0) \<or> lr_owner r = owner"
  shows "\<exists>s'. acquire ops mx clock env k owner secs s = (Inr (lease_handle k owner (clamp_ttl secs)), s') \<and>
    cell s' = (cell s)(slot k \<mapsto> build_record k owner (clock 0) (clamp_ttl secs))"
proof -
  let ?r = "build_record k owner (clock 0) (clamp_ttl secs)"
  have d: "acquire_decide mx k owner (clamp_ttl secs) (clock 0) (Inr (cell s (slot k))) = Swap (cell s (slot k)) ?r"
    using assms(3) by (auto simp: acquire_decide_def Let_def split: option.splits)
  have "\<forall>q. Some ?r = Some q \<longrightarrow> lr_schema_version q = schema_version" by (simp add: build_record_def)
  from cas_success [OF assms(1) refl this] obtain t
    where "op_cas ops k (cell s (slot k)) (Some ?r) s = Inr (True, t)" "cell t = (cell s)(slot k \<mapsto> ?r)"
    by blast
  then show ?thesis
    using d load [OF assms(1), of k] assms(2)
    by (simp add: acquire_def acquire_attempts_def acquire_loop.simps [of _ _ _ _ _ _ _ 5])
qed

end

text \<open>
  Standing down: while another session's live record is stored, \<open>acquire\<close> returns
  \<open>AlreadyHeld\<close> with that owner and leaves the file store exactly as it was, whatever the
  others do meanwhile.
\<close>

lemma acquire_stands_down:
  assumes "fs_usable s" "fs_cell s (file_slug k) = Some r" "\<not> is_expired mx r (clock 0)" "lr_owner r \<noteq> owner"
  shows "acquire fs_ops mx clock env k owner secs s = (Inl (Already_held (lr_owner r)), s)"
  using assms by (rule fs.acquire_refused)

definition sample_store :: file_store where
  "sample_store = (\<lambda>_. No_file)(file_slug sample_key := Lease_file (Some (build_record sample_key [65] 0 60)))"

text \<open>
  A free, expired or own lease is granted at the first attempt when nobody interferes, and the
  file then holds this session's record stamped with the clock and the clamped TTL; leases in
  other files are untouched.
\<close>

lemma acquire_grants:
  assumes "fs_usable s" "env 0 s = s"
    "\<And>r. fs_cell s (file_slug k) = Some r \<Longrightarrow> is_expired mx r (clock 0) \<or> lr_owner r = owner"
  shows "\<exists>s'. acquire fs_ops mx clock env k owner secs s = (Inr (lease_handle k owner (clamp_ttl secs)), s') \<and>
    fs_cell s' = (fs_cell s)(file_slug k \<mapsto> build_record k owner (clock 0) (clamp_ttl secs))"
  using assms by (rule fs.acquire_granted)

text \<open>
  What one \<open>acquire\<close> without interference does: while another session's live record is stored
  it stands down with that owner and changes nothing; a free, expired or own lease is granted, the
  file then holds this session's record stamped with the clock and the clamped TTL, and leases in
  other files are untouched.
\<close>

lemma acquire_alone:
  assumes "fs_usable s" "env 0 s = s"
  shows "case fs_cell s (file_slug k) of
      Some r \<Rightarrow>
        if \<not> is_expired mx r (clock 0) \<and> lr_owner r \<noteq> owner
        then acquire fs_ops mx clock env k owner secs s = (Inl (Already_held (lr_owner r)), s)
        else \<exists>s'. acquire fs_ops mx clock env k owner secs s = (Inr (lease_handle k owner (clamp_ttl secs)), s') \<and>
          fs_cell s' = (fs_cell s)(file_slug k \<mapsto> build_record k owner (clock 0) (clamp_ttl secs))
    | None \<Rightarrow>
        \<exists>s'. acquire fs_ops mx clock env k owner secs s = (Inr (lease_handle k owner (clamp_ttl secs)), s') \<and>
          fs_cell s' = (fs_cell s)(file_slug k \<mapsto> build_record k owner (clock 0) (clamp_ttl secs))"
proof (cases "fs_cell s (file_slug k)")
  case None
  then show ?thesis using acquire_grants [where s = s and env = env and k = k, OF assms] by simp
next
  case (Some r)
  then show ?thesis
    using acquire_grants [where s = s and env = env and k = k, OF assms] acquire_stands_down [OF assms(1) Some] by auto
qed

lemma sample_usable: "fs_usable sample_store"
  by (auto simp: sample_store_def fs_usable_def build_record_def schema_version_def)

lemma sample_cell: "fs_cell sample_store (file_slug sample_key) = Some (build_record sample_key [65] 0 60)"
  by (simp add: sample_store_def fs_cell_def)

lemma acquire_alone_witness:
  "acquire fs_ops (10 ^ 18) (\<lambda>_. 5) (\<lambda>_ s. s) sample_key [66] 60 sample_store = (Inl (Already_held [65]), sample_store) \<and>
   (\<exists>s'. acquire fs_ops (10 ^ 18) (\<lambda>_. 10 ^ 12) (\<lambda>_ s. s) sample_key [66] 60 sample_store
      = (Inr (lease_handle sample_key [66] (clamp_ttl 60)), s'))"
  using acquire_alone [where env = "\<lambda>_ s. s" and k = sample_key and mx = "10 ^ 18"
      and clock = "\<lambda>_. 5" and owner = "[66]" and secs = 60, OF sample_usable refl]
    acquire_alone [where env = "\<lambda>_ s. s" and k = sample_key and mx = "10 ^ 18"
      and clock = "\<lambda>_. 10 ^ 12" and owner = "[66]" and secs = 60, OF sample_usable refl]
  by (auto simp: sample_cell build_record_def is_expired_def expires_at_def max_ttl_secs_def Let_def)

text \<open>
  Under any interference that keeps the files readable, \<open>acquire\<close> ends after at most five
  attempts either with \<open>AlreadyHeld\<close> or with a handle, and a handle means that the file holds
  its record, stamped with the clock of one of the attempts.
\<close>

lemma acquire_outcomes:
  assumes "fs_usable s" "\<And>i t. fs_usable t \<Longrightarrow> fs_usable (env i t)"
    "acquire fs_ops mx clock env k owner secs s = (res, s')"
  shows "(\<exists>who. res = Inl (Already_held who)) \<or>
    (res = Inr (lease_handle k owner (clamp_ttl secs)) \<and>
     (\<exists>j < acquire_attempts. fs_cell s' (file_slug k) = Some (build_record k owner (clock j) (clamp_ttl secs))))"
  using fs.acquire_loop_result [of s env mx clock k owner "clamp_ttl secs" acquire_attempts 0 res s'] assms
  by (auto simp: acquire_def fs.fair_def split: sum.splits)

lemma acquire_outcomes_witness:
  "(\<exists>who. fst (acquire fs_ops (10 ^ 18) (\<lambda>_. 5) (\<lambda>_ s. s) sample_key [66] 60 sample_store) = Inl (Already_held who)) \<or>
   (fst (acquire fs_ops (10 ^ 18) (\<lambda>_. 5) (\<lambda>_ s. s) sample_key [66] 60 sample_store)
      = Inr (lease_handle sample_key [66] (clamp_ttl 60)) \<and>
    (\<exists>j < acquire_attempts. fs_cell (snd (acquire fs_ops (10 ^ 18) (\<lambda>_. 5) (\<lambda>_ s. s) sample_key [66] 60 sample_store))
      (file_slug sample_key) = Some (build_record sample_key [66] 5 (clamp_ttl 60))))"
  by (rule acquire_outcomes [where env = "\<lambda>_ s. s" and s = sample_store and clock = "\<lambda>_. 5" and mx = "10 ^ 18"])
    (auto simp: sample_store_def fs_usable_def build_record_def schema_version_def)

section \<open>Expiry\<close>

text \<open>
  Whatever TTL a stored record claims, it expires within 24 hours of its acquisition, never
  before it (for instants chrono can represent), and expiry is inclusive.
\<close>

lemma lease_expiry_bounds:
  assumes "lr_acquired_at r \<le> mx"
  shows "lr_acquired_at r \<le> expires_at mx r \<and>
    expires_at mx r \<le> lr_acquired_at r + 86400 * 1000000000 \<and> is_expired mx r (expires_at mx r)"
  using assms by (auto simp: expires_at_def is_expired_def Let_def max_ttl_secs_def)

lemma lease_expiry_bounds_witness:
  "0 \<le> expires_at 100 (build_record sample_key [65] 0 99999999) \<and>
   expires_at 100 (build_record sample_key [65] 0 99999999) \<le> 86400 * 1000000000 \<and>
   is_expired 100 (build_record sample_key [65] 0 99999999) (expires_at 100 (build_record sample_key [65] 0 99999999))"
  using lease_expiry_bounds [of "build_record sample_key [65] 0 99999999" 100] by (simp add: build_record_def)

section \<open>File names\<close>

lemma decimal_digits: "list_all is_ascii_digit (decimal n)"
proof (induction n rule: decimal.induct)
  case (1 n)
  have "is_ascii_digit (48 + m)" if "m < 10" for m
    using that by (simp add: is_ascii_digit_def)
  then show ?case using 1 by (subst decimal.simps) simp
qed

lemma slug_char_safe: "slug_char c \<notin> {ch_slash, ch_backslash, ch_dot, 0}"
  by (auto simp: slug_char_def ascii_defs)

text \<open>
  The slug of any key is one harmless path component: it contains no separator and no NUL, its
  only dot is the one of the \<open>.json\<close> suffix, and so it never contains \<open>..\<close>.
\<close>

lemma file_slug_traversal_safe:
  "ch_slash \<notin> set (file_slug k) \<and> ch_backslash \<notin> set (file_slug k) \<and> 0 \<notin> set (file_slug k) \<and>
   \<not> str_contains (lit ''..'') (file_slug k)"
proof -
  define stem where "stem = map slug_char (lk_repo k) @ lit ''__pr-'' @ decimal (lk_pr_number k)"
  have d: "is_ascii_digit c" if "c \<in> set (decimal n)" for c n
    using that decimal_digits [of n] by (simp add: list_all_iff)
  have "x \<noteq> ch_slash \<and> x \<noteq> ch_backslash \<and> x \<noteq> ch_dot \<and> x \<noteq> 0" if "x \<in> set stem" for x
    using that slug_char_safe d [of x "lk_pr_number k"] by (auto simp: stem_def is_ascii_digit_def)
  then have s: "ch_slash \<notin> set stem" "ch_backslash \<notin> set stem" "ch_dot \<notin> set stem" "0 \<notin> set stem"
    by blast+
  have f: "file_slug k = stem @ lit ''.json''" by (simp add: file_slug_def stem_def)
  have "\<not> str_contains (lit ''..'') (stem @ lit ''.json'')"
  proof
    assume "str_contains (lit ''..'') (stem @ lit ''.json'')"
    then obtain a b where "stem @ lit ''.json'' = a @ lit ''..'' @ b" by (auto simp: str_contains_iff)
    then have "count_list (stem @ lit ''.json'') ch_dot = count_list (a @ lit ''..'' @ b) ch_dot" by simp
    moreover have "count_list stem ch_dot = 0" using s(3) by (simp add: count_list_0_iff)
    ultimately show False by simp
  qed
  then show ?thesis using s by (simp add: f)
qed

text \<open>
  The slug does not tell every two keys apart: the pull requests with the same number of
  \<open>o/a.b\<close> and of \<open>o/a_b\<close> share a lease file, so a live lease of the one refuses the other.
\<close>

lemma file_slug_collision:
  "\<exists>k k'. k \<noteq> k' \<and> file_slug k = file_slug k' \<and>
     acquire fs_ops (10 ^ 18) (\<lambda>_. 5) (\<lambda>_ s. s) k' [66] 60
       ((\<lambda>_. No_file)(file_slug k := Lease_file (Some (build_record k [65] 0 60))))
     = (Inl (Already_held [65]), (\<lambda>_. No_file)(file_slug k := Lease_file (Some (build_record k [65] 0 60))))"
proof -
  have "\<exists>k k'. k \<noteq> k' \<and> file_slug k = file_slug k'"
  proof (intro exI conjI)
    show "\<lparr>lk_repo = lit ''o/a.b'', lk_pr_number = 7\<rparr> \<noteq> \<lparr>lk_repo = lit ''o/a_b'', lk_pr_number = 7\<rparr>" by simp
    show "file_slug \<lparr>lk_repo = lit ''o/a.b'', lk_pr_number = 7\<rparr> = file_slug \<lparr>lk_repo = lit ''o/a_b'', lk_pr_number = 7\<rparr>"
      by code_simp
  qed
  then obtain k k' :: lease_key where k: "k \<noteq> k'" "file_slug k = file_slug k'" by blast
  let ?s = "(\<lambda>_. No_file)(file_slug k := Lease_file (Some (build_record k [65] 0 60)))"
  have "acquire fs_ops (10 ^ 18) (\<lambda>_. 5) (\<lambda>_ s. s) k' [66] 60 ?s
      = (Inl (Already_held (lr_owner (build_record k [65] 0 60))), ?s)"
    by (rule fs.acquire_refused)
      (auto simp: k(2) fs_usable_def fs_cell_def build_record_def is_expired_def expires_at_def
        max_ttl_secs_def schema_version_def Let_def)
  moreover have "lr_owner (build_record k [65] 0 60) = [65]" by (simp add: build_record_def)
  ultimately show ?thesis using k by (intro exI [of _ k] exI [of _ k'] conjI) simp_all
qed

end
