(* ===== verification/Remote_Pool.thy ===== *)
theory Remote_Pool
  imports Rust_Text "HOL-Library.Multiset"
begin

text \<open>
  The VM pool and the session manager of \<open>amplihack-remote\<close> (\<open>vm_pool.rs\<close>, \<open>session.rs\<close> and the
  reuse decision of \<open>orchestrator.rs\<close>).  The pool is its \<open>HashMap\<close> in an iteration order: a list
  of entries with distinct names.  What \<open>azlin\<close> lists, whether it provisions, whether the
  state file could be written, the time and the random suffixes are arguments.
\<close>

section \<open>Machines\<close>

datatype vm_size = Size_S | Size_M | Size_L | Size_XL

definition vm_capacity :: "vm_size \<Rightarrow> nat" where
  "vm_capacity s = (case s of Size_S \<Rightarrow> 1 | Size_M \<Rightarrow> 2 | Size_L \<Rightarrow> 4 | Size_XL \<Rightarrow> 8)"

definition azure_size :: "vm_size \<Rightarrow> rstring" where
  "azure_size s = (case s of Size_S \<Rightarrow> lit ''Standard_D8s_v3'' | Size_M \<Rightarrow> lit ''Standard_E8s_v5''
     | Size_L \<Rightarrow> lit ''Standard_E16s_v5'' | Size_XL \<Rightarrow> lit ''Standard_E32s_v5'')"

definition vm_size_name :: "vm_size \<Rightarrow> rstring" where
  "vm_size_name s = (case s of Size_S \<Rightarrow> lit ''s'' | Size_M \<Rightarrow> lit ''m'' | Size_L \<Rightarrow> lit ''l'' | Size_XL \<Rightarrow> lit ''xl'')"

definition vm_size_from_str :: "rstring \<Rightarrow> vm_size option" where
  "vm_size_from_str raw =
    (if raw = lit ''s'' \<or> raw = lit ''S'' then Some Size_S
     else if raw = lit ''m'' \<or> raw = lit ''M'' then Some Size_M
     else if raw = lit ''l'' \<or> raw = lit ''L'' then Some Size_L
     else if raw = lit ''xl'' \<or> raw = lit ''XL'' then Some Size_XL
     else None)"

lemma vm_size_roundtrip: "vm_size_from_str (vm_size_name s) = Some s"
  by (cases s) (simp_all add: vm_size_from_str_def vm_size_name_def)

text \<open>A machine as azlin lists it; the age is the seconds since its creation, if it is known.\<close>

record vm =
  vm_name :: rstring
  vm_azure :: rstring
  vm_region :: rstring
  vm_age_secs :: "int option"

definition vm_too_old :: "vm \<Rightarrow> bool" where
  "vm_too_old m = (case vm_age_secs m of None \<Rightarrow> False | Some a \<Rightarrow> 24 * 3600 < a)"

record vm_options =
  vo_size :: rstring
  vo_region :: "rstring option"
  vo_vm_name :: "rstring option"
  vo_no_reuse :: bool

text \<open>\<open>find_reusable_vm\<close> on the list azlin returned.\<close>

definition find_reusable_vm :: "vm list \<Rightarrow> vm_options \<Rightarrow> vm option" where
  "find_reusable_vm vms options =
    List.find (\<lambda>m. starts_with (lit ''amplihack-'') (vm_name m) \<and> vm_azure m = vo_size options \<and> \<not> vm_too_old m) vms"

text \<open>\<open>by_name\<close> and \<open>provision\<close> are the azlin calls for a named and for a new machine.\<close>

definition provision_or_reuse ::
  "(rstring \<Rightarrow> 'e + vm) \<Rightarrow> (vm_options \<Rightarrow> 'e + vm) \<Rightarrow> vm list \<Rightarrow> vm_options \<Rightarrow> 'e + vm" where
  "provision_or_reuse by_name provision vms options =
    (case vo_vm_name options of
       Some name \<Rightarrow> by_name name
     | None \<Rightarrow>
         (case (if vo_no_reuse options then None else find_reusable_vm vms options) of
            Some m \<Rightarrow> Inr m
          | None \<Rightarrow> provision options))"

section \<open>The pool\<close>

record pool_entry =
  pe_vm :: vm
  pe_capacity :: nat
  pe_active :: "rstring list"
  pe_region :: rstring

definition available_capacity :: "pool_entry \<Rightarrow> nat" where
  "available_capacity e = pe_capacity e - length (pe_active e)"

type_synonym pool = "(rstring \<times> pool_entry) list"

text \<open>The loop over \<open>values_mut()\<close>: the first entry of the region with room takes the session.\<close>

fun reuse_entry :: "rstring \<Rightarrow> rstring \<Rightarrow> pool \<Rightarrow> (vm \<times> pool) option" where
  "reuse_entry session region [] = None"
| "reuse_entry session region ((n, e) # es) =
    (if pe_region e = region \<and> available_capacity e \<noteq> 0
     then Some (pe_vm e, (n, e\<lparr>pe_active := pe_active e @ [session]\<rparr>) # es)
     else map_option (\<lambda>(m, es'). (m, (n, e) # es')) (reuse_entry session region es))"

text \<open>\<open>pool.insert(name, entry)\<close>\<close>

fun pool_insert :: "rstring \<Rightarrow> pool_entry \<Rightarrow> pool \<Rightarrow> pool" where
  "pool_insert n e [] = [(n, e)]"
| "pool_insert n e ((n', e') # es) = (if n' = n then (n, e) # es else (n', e') # pool_insert n e es)"

datatype 'e pool_error = Empty_session | Provisioning 'e | Save_failed

definition pool_options :: "vm_size \<Rightarrow> rstring \<Rightarrow> vm_options" where
  "pool_options sz region =
    \<lparr>vo_size = azure_size sz, vo_region = Some region, vo_vm_name = None, vo_no_reuse = False\<rparr>"

text \<open>\<open>orchestrate\<close> is \<open>orchestrator.provision_or_reuse\<close> and \<open>saved\<close> whether \<open>save_state\<close> succeeds.\<close>

definition allocate_vm ::
  "(vm_options \<Rightarrow> 'e + vm) \<Rightarrow> bool \<Rightarrow> rstring \<Rightarrow> vm_size \<Rightarrow> rstring \<Rightarrow> pool \<Rightarrow> ('e pool_error, vm) result \<times> pool" where
  "allocate_vm orchestrate saved session sz region p =
    (if trim session = [] then (Inl Empty_session, p)
     else (case reuse_entry session region p of
             Some (m, p') \<Rightarrow> (if saved then Inr m else Inl Save_failed, p')
           | None \<Rightarrow>
               (case orchestrate (pool_options sz region) of
                  Inl e \<Rightarrow> (Inl (Provisioning e), p)
                | Inr m \<Rightarrow>
                    (let p' = pool_insert (vm_name m)
                       \<lparr>pe_vm = m, pe_capacity = vm_capacity sz, pe_active = [session], pe_region = region\<rparr> p
                     in (if saved then Inr m else Inl Save_failed, p')))))"

fun release_session :: "rstring \<Rightarrow> pool \<Rightarrow> pool" where
  "release_session session [] = []"
| "release_session session ((n, e) # es) =
    (if session \<in> set (pe_active e) then (n, e\<lparr>pe_active := remove1 session (pe_active e)\<rparr>) # es
     else (n, e) # release_session session es)"

subsection \<open>Bookkeeping\<close>

definition entry_ok :: "pool_entry \<Rightarrow> bool" where
  "entry_ok e = (length (pe_active e) \<le> pe_capacity e)"

text \<open>All sessions the pool books, with their multiplicity.\<close>

definition pool_sessions :: "pool \<Rightarrow> rstring multiset" where
  "pool_sessions p = sum_list (map (\<lambda>(n, e). mset (pe_active e)) p)"

lemma pool_sessions_simps [simp]:
  "pool_sessions [] = {#}"
  "pool_sessions ((n, e) # es) = mset (pe_active e) + pool_sessions es"
  by (simp_all add: pool_sessions_def)

lemma reuse_entry_ok:
  "reuse_entry s r p = Some (m, p') \<Longrightarrow> map fst p' = map fst p \<and>
     (list_all (\<lambda>(n, e). entry_ok e) p \<longrightarrow> list_all (\<lambda>(n, e). entry_ok e) p') \<and>
     pool_sessions p' = add_mset s (pool_sessions p)"
proof (induction p arbitrary: p')
  case (Cons x p)
  obtain n e where x: "x = (n, e)" by fastforce
  show ?case
    using Cons by (auto simp: x entry_ok_def available_capacity_def split: if_splits)
qed simp

lemma pool_insert_names:
  "map fst (pool_insert n e p) = (if n \<in> set (map fst p) then map fst p else map fst p @ [n])"
  by (induction p) (auto simp: rev_image_eqI)

lemma pool_insert_new: "n \<notin> set (map fst p) \<Longrightarrow> pool_insert n e p = p @ [(n, e)]"
  by (induction p) auto

lemma pool_sessions_append [simp]: "pool_sessions (p @ q) = pool_sessions p + pool_sessions q"
  by (simp add: pool_sessions_def)

lemma release_names: "map fst (release_session s p) = map fst p"
  by (induction p) auto

lemma release_sessions: "pool_sessions (release_session s p) = pool_sessions p - {#s#}"
proof (induction p)
  case (Cons x p)
  obtain n e where x: "x = (n, e)" by fastforce
  show ?case
  proof (cases "s \<in> set (pe_active e)")
    case True
    then have "mset (remove1 s (pe_active e)) + pool_sessions p = mset (pe_active e) + pool_sessions p - {#s#}"
      using diff_union_single_conv [of s "mset (pe_active e)" "pool_sessions p"] by (simp add: add.commute)
    then show ?thesis using True by (simp add: x)
  next
    case False
    then have n: "s \<notin># mset (pe_active e)" by simp
    have "mset (pe_active e) + (pool_sessions p - {#s#}) = mset (pe_active e) + pool_sessions p - {#s#}"
    proof (cases "s \<in># pool_sessions p")
      case True
      then show ?thesis by (simp only: diff_union_single_conv)
    next
      case False
      then show ?thesis using n by (simp add: diff_single_trivial)
    qed
    then show ?thesis using False Cons by (simp add: x)
  qed
qed simp

section \<open>Runs\<close>

text \<open>The capacity a machine has by its Azure size, whatever entry lists it.\<close>

definition sku_capacity :: "rstring \<Rightarrow> nat" where
  "sku_capacity a =
    (case List.find (\<lambda>z. azure_size z = a) [Size_S, Size_M, Size_L, Size_XL] of Some z \<Rightarrow> vm_capacity z | None \<Rightarrow> 0)"

lemma sku_capacity_azure [simp]: "sku_capacity (azure_size z) = vm_capacity z"
proof -
  have "sku_capacity (azure_size Size_S) = vm_capacity Size_S" "sku_capacity (azure_size Size_M) = vm_capacity Size_M"
    "sku_capacity (azure_size Size_L) = vm_capacity Size_L" "sku_capacity (azure_size Size_XL) = vm_capacity Size_XL" by code_simp+
  then show ?thesis by (cases z) simp_all
qed

text \<open>The sessions that run on a machine, and those its entry lists.\<close>

definition on_machine :: "rstring \<Rightarrow> (vm \<times> rstring) multiset \<Rightarrow> rstring multiset" where
  "on_machine n R = image_mset snd (filter_mset (\<lambda>x. vm_name (fst x) = n) R)"

definition booked :: "rstring \<Rightarrow> pool \<Rightarrow> rstring multiset" where
  "booked n p = (case map_of p n of Some e \<Rightarrow> mset (pe_active e) | None \<Rightarrow> {#})"

text \<open>
  The pool with the sessions that really run and where.  An allocation that succeeds starts a session on the machine it
  returned, one that fails starts none, also when it failed at the state file; the map may be walked in any order.  When
  the pool has no room and the orchestrator is asked, its machine has the size asked for and the pool books nothing on it.
\<close>

inductive pool_run :: "pool \<Rightarrow> (vm \<times> rstring) multiset \<Rightarrow> bool" where
  start: "pool_run [] {#}"
| reorder: "pool_run p R \<Longrightarrow> mset p' = mset p \<Longrightarrow> pool_run p' R"
| allocate: "pool_run p R \<Longrightarrow> allocate_vm (orchestrate :: vm_options \<Rightarrow> rstring + vm) saved session sz region p = (r, p') \<Longrightarrow>
    (\<And>m. reuse_entry session region p = None \<Longrightarrow> orchestrate (pool_options sz region) = Inr m \<Longrightarrow>
       vm_azure m = azure_size sz \<and> booked (vm_name m) p = {#}) \<Longrightarrow>
    pool_run p' (case r of Inr m \<Rightarrow> add_mset (m, session) R | Inl _ \<Rightarrow> R)"
| release: "pool_run p R \<Longrightarrow> pool_run (release_session session p) (filter_mset (\<lambda>x. snd x \<noteq> session) R)"

definition entry_of :: "rstring \<times> pool_entry \<Rightarrow> bool" where
  "entry_of = (\<lambda>(n, e). vm_name (pe_vm e) = n \<and> entry_ok e \<and> pe_capacity e = sku_capacity (vm_azure (pe_vm e)))"

definition pool_inv :: "pool \<Rightarrow> (vm \<times> rstring) multiset \<Rightarrow> bool" where
  "pool_inv p R \<longleftrightarrow> distinct (map fst p) \<and> list_all entry_of p \<and> (\<forall>n. on_machine n R \<subseteq># booked n p) \<and>
    (\<forall>(m, s) \<in># R. \<exists>e. map_of p (vm_name m) = Some e \<and> vm_azure (pe_vm e) = vm_azure m)"

lemma on_machine_add: "on_machine n (add_mset (m, s) R) = (if vm_name m = n then add_mset s (on_machine n R) else on_machine n R)"
  by (simp add: on_machine_def)

text \<open>The entry that takes a session.\<close>

lemma reuse_entry_books:
  assumes "reuse_entry s r p = Some (m, p')" "distinct (map fst p)" "list_all entry_of p"
  shows "list_all entry_of p'" "booked n p' = (if n = vm_name m then add_mset s (booked n p) else booked n p)"
    "\<exists>e. map_of p' (vm_name m) = Some e \<and> pe_vm e = m" "map_option pe_vm (map_of p' n) = map_option pe_vm (map_of p n)"
proof -
  have "list_all entry_of p' \<and> booked n p' = (if n = vm_name m then add_mset s (booked n p) else booked n p) \<and>
      (\<exists>e. map_of p' (vm_name m) = Some e \<and> pe_vm e = m) \<and> map_option pe_vm (map_of p' n) = map_option pe_vm (map_of p n)"
    using assms
  proof (induction p arbitrary: p')
    case (Cons x p)
    obtain k e where x: "x = (k, e)" by fastforce
    show ?case
    proof (cases "pe_region e = r \<and> available_capacity e \<noteq> 0")
      case True
      then show ?thesis using Cons.prems by (auto simp: x entry_of_def entry_ok_def available_capacity_def booked_def)
    next
      case False
      then obtain p1 where r: "reuse_entry s r p = Some (m, p1)" "p' = (k, e) # p1" using Cons.prems(1) by (auto simp: x)
      have n: "map fst p1 = map fst p" using reuse_entry_ok [OF r(1)] by blast
      note ih = Cons.IH [OF r(1)]
      have "vm_name m \<noteq> k"
      proof
        assume k: "vm_name m = k"
        have "k \<in> set (map fst p1)" using ih Cons.prems(2,3) k by (force dest: map_of_SomeD simp: x)
        then show False using n Cons.prems(2) by (simp add: x)
      qed
      then show ?thesis using ih Cons.prems(2,3) by (auto simp: x r(2) booked_def)
    qed
  qed simp
  then show "list_all entry_of p'" "booked n p' = (if n = vm_name m then add_mset s (booked n p) else booked n p)"
    "\<exists>e. map_of p' (vm_name m) = Some e \<and> pe_vm e = m" "map_option pe_vm (map_of p' n) = map_option pe_vm (map_of p n)" by auto
qed

lemma map_of_insert: "map_of (pool_insert n e p) k = (if k = n then Some e else map_of p k)"
  by (induction p) auto

lemma insert_entries: "list_all entry_of p \<Longrightarrow> entry_of (n, e) \<Longrightarrow> list_all entry_of (pool_insert n e p)"
  by (induction p) auto

lemma booked_Cons: "booked n ((k, e) # p) = (if k = n then mset (pe_active e) else booked n p)"
  by (simp add: booked_def)

lemma release_books:
  "list_all entry_of p \<Longrightarrow> list_all entry_of (release_session s p)"
  "booked n p \<subseteq># add_mset s (booked n (release_session s p))"
  "map_option pe_vm (map_of (release_session s p) n) = map_option pe_vm (map_of p n)"
proof -
  show "booked n p \<subseteq># add_mset s (booked n (release_session s p))"
    by (induction p) (auto simp: booked_Cons)
qed (induction p, auto simp: entry_of_def entry_ok_def length_remove1)+

text \<open>What keeps the invariant: a session on an entry with room, one on a machine that had none, a release.\<close>

lemma inv_reuse:
  assumes "pool_inv p R" "reuse_entry s r p = Some (m, p')"
  shows "pool_inv p' R" "pool_inv p' (add_mset (m, s) R)"
proof -
  note i = assms(1) [unfolded pool_inv_def]
  note b = reuse_entry_books [OF assms(2)]
  have b1: "list_all entry_of p'" "\<And>n. booked n p' = (if n = vm_name m then add_mset s (booked n p) else booked n p)"
    "\<exists>e. map_of p' (vm_name m) = Some e \<and> pe_vm e = m"
    "\<And>n. map_option pe_vm (map_of p' n) = map_option pe_vm (map_of p n)"
    using b i by blast+
  have d: "distinct (map fst p')" using reuse_entry_ok [OF assms(2)] i by simp
  have k: "\<exists>e. map_of p' (vm_name v) = Some e \<and> vm_azure (pe_vm e) = vm_azure v" if "(v, t) \<in># R" for v t
    using i that b1(4) [of "vm_name v"] by (fastforce simp: map_option_case split: option.splits)
  have "on_machine n R \<subseteq># booked n p" for n using i by blast
  then have o: "on_machine n (add_mset (m, s) R) \<subseteq># booked n p'" "on_machine n R \<subseteq># booked n p'" for n
    unfolding on_machine_add b1(2) using subset_mset.trans [of "on_machine n R" "booked n p" "add_mset s (booked n p)"] by auto
  show "pool_inv p' R" unfolding pool_inv_def using d b1(1) o(2) k by blast
  show "pool_inv p' (add_mset (m, s) R)" unfolding pool_inv_def using d b1(1,3) o(1) k by auto
qed

lemma inv_insert:
  fixes s r :: rstring
  assumes "pool_inv p R" "booked (vm_name m) p = {#}" "vm_azure m = azure_size sz"
  defines "p' \<equiv> pool_insert (vm_name m) \<lparr>pe_vm = m, pe_capacity = vm_capacity sz, pe_active = [s], pe_region = r\<rparr> p"
  shows "pool_inv p' R" "pool_inv p' (add_mset (m, s) R)"
proof -
  note i = assms(1) [unfolded pool_inv_def]
  have "1 \<le> vm_capacity sz" by (cases sz) (simp_all add: vm_capacity_def)
  then have e: "list_all entry_of p'" "distinct (map fst p')"
    using i assms(3) insert_entries [of p "vm_name m" "\<lparr>pe_vm = m, pe_capacity = vm_capacity sz, pe_active = [s], pe_region = r\<rparr>"]
    by (simp_all add: p'_def pool_insert_names entry_of_def entry_ok_def)
  have b: "booked n p' = (if n = vm_name m then {#s#} else booked n p)" for n
    by (simp add: p'_def booked_def map_of_insert)
  have sub: "on_machine n R \<subseteq># booked n p" for n using i by blast
  have z: "on_machine (vm_name m) R = {#}" using sub [of "vm_name m"] assms(2) by simp
  have k: "\<exists>e. map_of p' (vm_name v) = Some e \<and> vm_azure (pe_vm e) = vm_azure v" if "(v, t) \<in># R" for v t
  proof -
    have "vm_name v \<noteq> vm_name m" using z that unfolding on_machine_def by (fastforce dest: filter_mset_eq_conv [THEN iffD1])
    then show ?thesis using i that by (fastforce simp: p'_def map_of_insert)
  qed
  have o: "on_machine n (add_mset (m, s) R) \<subseteq># booked n p'" "on_machine n R \<subseteq># booked n p'" for n
    unfolding on_machine_add b using sub [of n] z by auto
  show "pool_inv p' R" unfolding pool_inv_def using e o(2) k by blast
  have "map_of p' (vm_name m) = Some \<lparr>pe_vm = m, pe_capacity = vm_capacity sz, pe_active = [s], pe_region = r\<rparr>"
    by (simp add: p'_def map_of_insert)
  then show "pool_inv p' (add_mset (m, s) R)" unfolding pool_inv_def using e o(1) k by auto
qed

lemma inv_release:
  assumes "pool_inv p R" shows "pool_inv (release_session s p) (filter_mset (\<lambda>x. snd x \<noteq> s) R)"
proof -
  note i = assms [unfolded pool_inv_def]
  have "on_machine n (filter_mset (\<lambda>x. snd x \<noteq> s) R) \<subseteq># booked n (release_session s p)" for n
  proof (rule mset_subset_eqI)
    fix a
    have c: "on_machine n (filter_mset (\<lambda>x. snd x \<noteq> s) R) = filter_mset (\<lambda>t. t \<noteq> s) (on_machine n R)"
      by (simp add: on_machine_def filter_mset_image_mset filter_filter_mset conj_commute)
    have "on_machine n R \<subseteq># add_mset s (booked n (release_session s p))"
      using i release_books(2) [of n p s] subset_mset.trans by blast
    then show "count (on_machine n (filter_mset (\<lambda>x. snd x \<noteq> s) R)) a \<le> count (booked n (release_session s p)) a"
      using mset_subset_eq_count [of "on_machine n R" _ a] unfolding c by fastforce
  qed
  moreover have "\<exists>e. map_of (release_session s p) (vm_name v) = Some e \<and> vm_azure (pe_vm e) = vm_azure v" if "(v, t) \<in># R" for v t
    using i that release_books(3) [of s p "vm_name v"] by (fastforce simp: map_option_case split: option.splits)
  ultimately show ?thesis using i release_books(1) unfolding pool_inv_def by (auto simp: release_names)
qed

lemma pool_run_inv: "pool_run p R \<Longrightarrow> pool_inv p R"
proof (induction rule: pool_run.induct)
  case start
  then show ?case by (simp add: pool_inv_def on_machine_def)
next
  case (reorder p R p')
  have d: "distinct (map fst p')" using reorder.IH reorder.hyps(2) unfolding pool_inv_def by (metis mset_eq_imp_distinct_iff mset_map)
  moreover have "map_of p' = map_of p"
    using map_of_inject_set [OF d, of p] reorder.IH reorder.hyps(2) unfolding pool_inv_def by (metis mset_eq_setD)
  ultimately show ?case using reorder.IH mset_eq_setD [OF reorder.hyps(2)] unfolding pool_inv_def booked_def list_all_iff
    by (simp del: map_of_eq_Some_iff)
next
  case (allocate p R orchestrate saved session sz region r p')
  show ?case
  proof (cases "reuse_entry session region p")
    case None
    then show ?thesis using allocate inv_insert [OF allocate.IH]
      by (auto simp: allocate_vm_def Let_def split: if_splits sum.splits)
  next
    case (Some x)
    obtain m p1 where "x = (m, p1)" by fastforce
    then show ?thesis using Some allocate inv_reuse [OF allocate.IH]
      by (auto simp: allocate_vm_def split: if_splits)
  qed
qed (rule inv_release)


text \<open>
  A session is booked once and nothing else changes hands: when the machine that
  \<open>provision_or_reuse\<close> returns is not in the pool, a successful allocation adds exactly this
  session to the books and a release takes exactly one booking of it away.
\<close>

lemma allocation_books_session:
  assumes "allocate_vm orchestrate saved session sz region p = (Inr m, p')"
    "\<And>m. orchestrate (pool_options sz region) = Inr m \<Longrightarrow> vm_name m \<notin> set (map fst p)"
  shows "pool_sessions p' = add_mset session (pool_sessions p) \<and>
    pool_sessions (release_session session p') = pool_sessions p"
proof -
  have "pool_sessions p' = add_mset session (pool_sessions p)"
    using assms reuse_entry_ok [of session region p] pool_insert_new [of _ p]
    by (auto simp: allocate_vm_def Let_def split: if_splits option.splits sum.splits)
  then show ?thesis by (simp add: release_sessions)
qed

definition sample_vm :: vm where
  "sample_vm = \<lparr>vm_name = lit ''amplihack-u-1'', vm_azure = azure_size Size_S, vm_region = lit ''r'', vm_age_secs = Some 60\<rparr>"

lemma allocation_books_session_witness:
  "\<exists>p'. pool_sessions p' = add_mset (lit ''s1'') (pool_sessions []) \<and>
     pool_sessions (release_session (lit ''s1'') p') = pool_sessions []"
proof -
  have *: "allocate_vm (\<lambda>_. Inr sample_vm :: unit + vm) True (lit ''s1'') Size_S (lit ''r'') [] =
    (Inr sample_vm, [(vm_name sample_vm, \<lparr>pe_vm = sample_vm, pe_capacity = 1, pe_active = [lit ''s1''], pe_region = lit ''r''\<rparr>)])"
    by (simp add: allocate_vm_def Let_def vm_capacity_def text_simps is_whitespace_def)
  show ?thesis by (rule exI, rule allocation_books_session [OF *]) simp
qed

lemma sample_pool_run:
  "pool_run [(vm_name sample_vm, \<lparr>pe_vm = sample_vm, pe_capacity = 1, pe_active = [lit ''s1''], pe_region = lit ''r''\<rparr>)]
    {#(sample_vm, lit ''s1'')#}"
proof -
  have a: "allocate_vm (\<lambda>_. Inr sample_vm :: rstring + vm) True (lit ''s1'') Size_S (lit ''r'') [] =
    (Inr sample_vm, [(vm_name sample_vm, \<lparr>pe_vm = sample_vm, pe_capacity = 1, pe_active = [lit ''s1''], pe_region = lit ''r''\<rparr>)])"
    by (simp add: allocate_vm_def Let_def vm_capacity_def text_simps is_whitespace_def)
  show ?thesis using pool_run.allocate [OF pool_run.start a] by (simp add: sample_vm_def booked_def)
qed


text \<open>
  The condition on the orchestrator is needed, and it does not meet it: it offers the first young machine of the right size that
  azlin lists, also one the pool has already filled.  Its entry is then replaced, and the session running on it vanishes from the
  books without a release, so the machine runs more sessions than it has capacity for.
\<close>

lemma reuse_overwrites_entry:
  "\<exists>p R p'. pool_run p R \<and>
     allocate_vm (provision_or_reuse (\<lambda>_. Inl ()) (\<lambda>_. Inl ()) [sample_vm]) True (lit ''s2'') Size_S (lit ''r'') p = (Inr sample_vm, p') \<and>
     lit ''s1'' \<in># booked (vm_name sample_vm) p \<and> booked (vm_name sample_vm) p' = {#lit ''s2''#} \<and>
     sku_capacity (vm_azure sample_vm) < size (on_machine (vm_name sample_vm) (add_mset (sample_vm, lit ''s2'') R))"
proof -
  let ?p = "[(vm_name sample_vm, \<lparr>pe_vm = sample_vm, pe_capacity = 1, pe_active = [lit ''s1''], pe_region = lit ''r''\<rparr>)]"
  have "allocate_vm (provision_or_reuse (\<lambda>_. Inl ()) (\<lambda>_. Inl ()) [sample_vm]) True (lit ''s2'') Size_S (lit ''r'') ?p
    = (Inr sample_vm, [(vm_name sample_vm, \<lparr>pe_vm = sample_vm, pe_capacity = 1, pe_active = [lit ''s2''], pe_region = lit ''r''\<rparr>)])"
    by (simp add: allocate_vm_def Let_def vm_capacity_def text_simps is_whitespace_def available_capacity_def
        provision_or_reuse_def find_reusable_vm_def pool_options_def sample_vm_def vm_too_old_def prefix_def)
  moreover have "sku_capacity (vm_azure sample_vm) = 1" by code_simp
  ultimately show ?thesis using sample_pool_run
    by (intro exI [of _ ?p] exI [of _ "{#(sample_vm, lit ''s1'')#}"] exI conjI) (assumption | simp add: booked_def on_machine_def)+
qed

end
