(* ===== verification/Remote_Session.thy ===== *)
theory Remote_Session
  imports Rust_Text
begin

text \<open>
  The session manager of \<open>amplihack-remote/src/session.rs\<close>: creation with validated input and
  a generated id, the lifecycle operations, and lookups.  Times, the random suffixes and
  whether the state file could be written are arguments.  \<open>capture_output\<close> and the SSH call
  behind it are not modelled.
\<close>

datatype session_status = Pending | Running | Completed | Failed | Killed

definition status_name :: "session_status \<Rightarrow> rstring" where
  "status_name s = (case s of Pending \<Rightarrow> lit ''pending'' | Running \<Rightarrow> lit ''running''
     | Completed \<Rightarrow> lit ''completed'' | Failed \<Rightarrow> lit ''failed'' | Killed \<Rightarrow> lit ''killed'')"

definition status_from_str :: "rstring \<Rightarrow> session_status option" where
  "status_from_str raw =
    (if raw = lit ''pending'' then Some Pending else if raw = lit ''running'' then Some Running
     else if raw = lit ''completed'' then Some Completed else if raw = lit ''failed'' then Some Failed
     else if raw = lit ''killed'' then Some Killed else None)"

lemma status_roundtrip: "status_from_str (status_name s) = Some s"
  by (cases s) (simp_all add: status_from_str_def status_name_def)

record session =
  se_session_id :: rstring
  se_vm_name :: rstring
  se_workspace :: rstring
  se_tmux_session :: rstring
  se_prompt :: rstring
  se_command :: rstring
  se_max_turns :: nat
  se_status :: session_status
  se_memory_mb :: nat
  se_created_at :: int
  se_started_at :: "int option"
  se_completed_at :: "int option"
  se_exit_code :: "int option"

record manager =
  sm_sessions :: "rstring \<Rightarrow> session option"
  sm_used_ids :: "rstring set"

definition default_memory_mb :: nat where "default_memory_mb = 32768"
definition default_command_name :: rstring where "default_command_name = lit ''auto''"
definition default_max_turns :: nat where "default_max_turns = 10"

datatype session_error = Vm_name_empty | Prompt_empty | Max_turns_zero | Memory_zero
  | Save_error | Not_found | Not_pending session_status

definition or_default :: "'a \<Rightarrow> 'a option \<Rightarrow> 'a" where
  "or_default d x = (case x of None \<Rightarrow> d | Some v \<Rightarrow> v)"

section \<open>Ids\<close>

definition hex_digit :: "nat \<Rightarrow> rchar" where
  "hex_digit n = (if n < 10 then 48 + n else 87 + n)"

text \<open>\<open>format!("{:04x}", n)\<close> for a 16-bit number.\<close>

definition hex4 :: "nat \<Rightarrow> rstring" where
  "hex4 n = [hex_digit (n div 4096 mod 16), hex_digit (n div 256 mod 16), hex_digit (n div 16 mod 16), hex_digit (n mod 16)]"

definition session_id_of :: "rstring \<Rightarrow> rstring \<Rightarrow> rstring \<Rightarrow> rstring" where
  "session_id_of date time sfx = lit ''sess-'' @ date @ lit ''-'' @ time @ lit ''-'' @ sfx"

text \<open>The loop of at most a hundred draws.\<close>

fun draw_id :: "manager \<Rightarrow> rstring \<Rightarrow> rstring \<Rightarrow> nat list \<Rightarrow> rstring option" where
  "draw_id m date time [] = None"
| "draw_id m date time (r # rs) =
    (let i = session_id_of date time (hex4 r)
     in if i \<notin> sm_used_ids m \<and> sm_sessions m i = None then Some i else draw_id m date time rs)"

text \<open>\<open>nanos\<close> is the nanosecond field \<open>%f\<close>; its first four digits are the fallback suffix.\<close>

definition generate_session_id :: "rstring \<Rightarrow> rstring \<Rightarrow> rstring \<Rightarrow> nat list \<Rightarrow> manager \<Rightarrow> rstring \<times> manager" where
  "generate_session_id date time nanos draws m =
    (case draw_id m date time (take 100 draws) of
       Some i \<Rightarrow> (i, m\<lparr>sm_used_ids := insert i (sm_used_ids m)\<rparr>)
     | None \<Rightarrow> (session_id_of date time (take 4 nanos), m))"

section \<open>Operations\<close>

record clock_reading =
  cr_now :: int
  cr_date :: rstring
  cr_time :: rstring
  cr_nanos :: rstring

definition create_session ::
  "clock_reading \<Rightarrow> nat list \<Rightarrow> bool \<Rightarrow> rstring \<Rightarrow> rstring \<Rightarrow> rstring option \<Rightarrow> nat option \<Rightarrow> nat option \<Rightarrow> manager \<Rightarrow>
   (session_error, session) result \<times> manager" where
  "create_session cr draws saved vm_name prompt command max_turns memory_mb m =
    (if trim vm_name = [] then (Inl Vm_name_empty, m)
     else if trim prompt = [] then (Inl Prompt_empty, m)
     else
       (let turns = or_default default_max_turns max_turns; mem = or_default default_memory_mb memory_mb
        in if turns = 0 then (Inl Max_turns_zero, m)
           else if mem = 0 then (Inl Memory_zero, m)
           else
             (let (i, m1) = generate_session_id (cr_date cr) (cr_time cr) (cr_nanos cr) draws m;
                  s = \<lparr>se_session_id = i, se_vm_name = vm_name, se_workspace = lit ''/workspace/'' @ i,
                       se_tmux_session = i, se_prompt = prompt,
                       se_command = or_default default_command_name command, se_max_turns = turns,
                       se_status = Pending, se_memory_mb = mem, se_created_at = cr_now cr,
                       se_started_at = None, se_completed_at = None, se_exit_code = None\<rparr>;
                  m2 = m1\<lparr>sm_sessions := (sm_sessions m1)(i \<mapsto> s)\<rparr>
              in (if saved then Inr s else Inl Save_error, m2))))"

text \<open>A session in the map is replaced by its updated form.\<close>

definition put_session :: "rstring \<Rightarrow> session \<Rightarrow> manager \<Rightarrow> manager" where
  "put_session i s m = m\<lparr>sm_sessions := (sm_sessions m)(i \<mapsto> s)\<rparr>"

definition start_session :: "int \<Rightarrow> bool \<Rightarrow> rstring \<Rightarrow> manager \<Rightarrow> (session_error, session) result \<times> manager" where
  "start_session now saved i m =
    (case sm_sessions m i of None \<Rightarrow> (Inl Not_found, m)
     | Some s \<Rightarrow>
         if se_status s \<noteq> Pending then (Inl (Not_pending (se_status s)), m)
         else (let s' = s\<lparr>se_status := Running, se_started_at := Some now\<rparr>
               in (if saved then Inr s' else Inl Save_error, put_session i s' m)))"

definition update_session_vm :: "bool \<Rightarrow> rstring \<Rightarrow> rstring \<Rightarrow> manager \<Rightarrow> (session_error, session) result \<times> manager" where
  "update_session_vm saved i vm_name m =
    (case sm_sessions m i of None \<Rightarrow> (Inl Not_found, m)
     | Some s \<Rightarrow>
         if trim vm_name = [] then (Inl Vm_name_empty, m)
         else (let s' = s\<lparr>se_vm_name := vm_name\<rparr>
               in (if saved then Inr s' else Inl Save_error, put_session i s' m)))"

definition get_session :: "manager \<Rightarrow> rstring \<Rightarrow> session option" where
  "get_session m i = sm_sessions m i"

text \<open>The keys are the map's iteration order.\<close>

definition list_sessions :: "rstring list \<Rightarrow> session_status option \<Rightarrow> manager \<Rightarrow> session list" where
  "list_sessions keys status m =
    filter (\<lambda>s. status = None \<or> Some (se_status s) = status) (List.map_filter (sm_sessions m) keys)"

definition kill_session :: "int \<Rightarrow> bool \<Rightarrow> rstring \<Rightarrow> manager \<Rightarrow> bool \<times> manager" where
  "kill_session now saved i m =
    (case sm_sessions m i of None \<Rightarrow> (False, m)
     | Some s \<Rightarrow> (saved, put_session i (s\<lparr>se_status := Killed, se_completed_at := Some now\<rparr>) m))"

section \<open>Properties\<close>

text \<open>The books: a session is stored under its id, which is its tmux name and workspace.\<close>

definition manager_ok :: "manager \<Rightarrow> bool" where
  "manager_ok m = (\<forall>i s. sm_sessions m i = Some s \<longrightarrow>
     se_session_id s = i \<and> se_tmux_session s = i \<and> se_workspace s = lit ''/workspace/'' @ i \<and>
     0 < se_max_turns s \<and> 0 < se_memory_mb s \<and>
     (se_status s = Running \<longrightarrow> se_started_at s \<noteq> None) \<and> (se_status s = Killed \<longrightarrow> se_completed_at s \<noteq> None))"

text \<open>
  Every operation keeps the session books: a session is stored under its own id, with
  positive limits, a start time once it runs and an end time once it is killed.
\<close>

lemma session_operations_keep_books:
  assumes "manager_ok m"
  shows "manager_ok (snd (create_session cr draws saved vm_name prompt command turns mem m)) \<and>
    manager_ok (snd (start_session now saved i m)) \<and> manager_ok (snd (update_session_vm saved i vm_name m)) \<and>
    manager_ok (snd (kill_session now saved i m))"
  using assms
  by (auto simp: manager_ok_def create_session_def start_session_def update_session_vm_def kill_session_def
      put_session_def generate_session_id_def Let_def split: option.splits prod.splits)

definition empty_manager :: manager where
  "empty_manager = \<lparr>sm_sessions = (\<lambda>_. None), sm_used_ids = {}\<rparr>"

lemma session_operations_keep_books_witness:
  "manager_ok (snd (create_session \<lparr>cr_now = 0, cr_date = [], cr_time = [], cr_nanos = []\<rparr> [1] True [65] [66] None None None empty_manager)) \<and>
   manager_ok (snd (start_session 0 True [65] empty_manager)) \<and>
   manager_ok (snd (update_session_vm True [65] [65] empty_manager)) \<and>
   manager_ok (snd (kill_session 0 True [65] empty_manager))"
  by (rule session_operations_keep_books) (simp add: manager_ok_def empty_manager_def)

lemma draw_id_fresh:
  "draw_id m date time rs = Some i \<Longrightarrow> i \<notin> sm_used_ids m \<and> sm_sessions m i = None"
  by (induction rs) (auto simp: Let_def split: if_splits)

lemma draw_id_finds:
  "r \<in> set rs \<Longrightarrow> session_id_of date time (hex4 r) \<notin> sm_used_ids m \<Longrightarrow>
   sm_sessions m (session_id_of date time (hex4 r)) = None \<Longrightarrow> draw_id m date time rs \<noteq> None"
  by (induction rs) (auto simp: Let_def)

text \<open>
  If one of the first hundred random suffixes is unused, a new session gets an id that no
  session has or had, starts pending, and no existing session is touched.
\<close>

lemma created_session_is_fresh:
  assumes "create_session cr draws saved vm_name prompt command turns mem m = (Inr s, m')"
    "r \<in> set (take 100 draws)"
    "session_id_of (cr_date cr) (cr_time cr) (hex4 r) \<notin> sm_used_ids m"
    "sm_sessions m (session_id_of (cr_date cr) (cr_time cr) (hex4 r)) = None"
  shows "sm_sessions m (se_session_id s) = None \<and> se_session_id s \<notin> sm_used_ids m \<and> se_status s = Pending \<and>
    sm_sessions m' = (sm_sessions m)(se_session_id s \<mapsto> s) \<and> se_session_id s \<in> sm_used_ids m'"
proof -
  obtain i where i: "draw_id m (cr_date cr) (cr_time cr) (take 100 draws) = Some i"
    using draw_id_finds [OF assms(2-4)] by blast
  then show ?thesis
    using assms(1) draw_id_fresh [OF i]
    by (auto simp: create_session_def generate_session_id_def Let_def split: if_splits)
qed

lemma created_session_is_fresh_witness:
  "\<exists>(s :: session) (m' :: manager). sm_sessions empty_manager (se_session_id s) = None \<and> se_session_id s \<notin> sm_used_ids empty_manager \<and>
    se_status s = Pending \<and> sm_sessions m' = (sm_sessions empty_manager)(se_session_id s \<mapsto> s) \<and>
    se_session_id s \<in> sm_used_ids m'"
proof -
  let ?r = "create_session \<lparr>cr_now = 0, cr_date = [], cr_time = [], cr_nanos = []\<rparr> [1] True [65] [66] None None None empty_manager"
  have e: "?r = (Inr (case fst ?r of Inr s \<Rightarrow> s), snd ?r)"
    by (simp add: create_session_def generate_session_id_def empty_manager_def Let_def or_default_def
        default_max_turns_def default_memory_mb_def text_simps is_whitespace_def)
  show ?thesis
    by (intro exI, rule created_session_is_fresh [OF e, of 1]) (simp_all add: empty_manager_def)
qed

section \<open>The lifecycle\<close>

text \<open>One operation on an existing session.\<close>

inductive lifecycle_step :: "manager \<Rightarrow> manager \<Rightarrow> bool" where
  start: "lifecycle_step m (snd (start_session now saved i m))"
| move: "lifecycle_step m (snd (update_session_vm saved i vm_name m))"
| kill: "lifecycle_step m (snd (kill_session now saved i m))"

inductive_cases lifecycle_stepE: "lifecycle_step m m'"

text \<open>The statuses that one operation can lead to from \<open>st\<close>.\<close>

definition next_statuses :: "rstring \<Rightarrow> session_status \<Rightarrow> session_status set" where
  "next_statuses i st = {t. \<exists>m m' s s'. lifecycle_step m m' \<and> sm_sessions m i = Some s \<and> se_status s = st \<and>
     sm_sessions m' i = Some s' \<and> se_status s' = t}"

lemma step_status:
  assumes "lifecycle_step m m'" "sm_sessions m i = Some s"
  shows "\<exists>s'. sm_sessions m' i = Some s' \<and>
    (se_status s' = se_status s \<or> se_status s' = Killed \<or> se_status s = Pending \<and> se_status s' = Running)"
  using assms
  by (elim lifecycle_stepE) (auto simp: start_session_def update_session_vm_def kill_session_def put_session_def
      Let_def split: option.splits)

definition sample_session :: "rstring \<Rightarrow> session_status \<Rightarrow> session" where
  "sample_session i st = \<lparr>se_session_id = i, se_vm_name = [66], se_workspace = [], se_tmux_session = i, se_prompt = [66],
    se_command = [], se_max_turns = 1, se_status = st, se_memory_mb = 1, se_created_at = 0,
    se_started_at = None, se_completed_at = None, se_exit_code = None\<rparr>"

lemma next_statusI:
  "lifecycle_step (put_session i (sample_session i st) empty_manager) m' \<Longrightarrow> sm_sessions m' i = Some s' \<Longrightarrow>
   se_status s' \<in> next_statuses i st"
  by (force simp: next_statuses_def put_session_def sample_session_def)

lemma next_status_examples:
  "Killed \<in> next_statuses i st" "st \<in> next_statuses i st" "Running \<in> next_statuses i Pending"
proof -
  let ?m = "\<lambda>st. put_session i (sample_session i st) empty_manager"
  have "sm_sessions (snd (kill_session 0 True i (?m st))) i =
      Some ((sample_session i st)\<lparr>se_status := Killed, se_completed_at := Some 0\<rparr>)"
    by (simp add: kill_session_def put_session_def)
  from next_statusI [OF lifecycle_step.kill this] show "Killed \<in> next_statuses i st" by simp
  have "sm_sessions (snd (update_session_vm True i [] (?m st))) i = Some (sample_session i st)"
    by (simp add: update_session_vm_def put_session_def trim_def trim_end_matches_def trim_start_matches_def)
  from next_statusI [OF lifecycle_step.move this] show "st \<in> next_statuses i st" by (simp add: sample_session_def)
  have "sm_sessions (snd (start_session 0 True i (?m Pending))) i =
      Some ((sample_session i Pending)\<lparr>se_status := Running, se_started_at := Some 0\<rparr>)"
    by (simp add: start_session_def put_session_def sample_session_def Let_def)
  from next_statusI [OF lifecycle_step.start this] show "Running \<in> next_statuses i Pending" by simp
qed

text \<open>
  The lifecycle has exactly these moves: one operation leaves the status of a session as it
  is, starts it if it is pending, or kills it; no operation completes or fails a session, and
  killing is possible from every status, also from one that is final.
\<close>

lemma session_status_moves:
  "next_statuses i st = {st, Killed} \<union> (if st = Pending then {Running} else {})"
proof
  show "next_statuses i st \<subseteq> {st, Killed} \<union> (if st = Pending then {Running} else {})"
    using step_status by (fastforce simp: next_statuses_def)
  show "{st, Killed} \<union> (if st = Pending then {Running} else {}) \<subseteq> next_statuses i st"
    using next_status_examples by auto
qed

end
