(* ===== verification/Delegation.thy ===== *)
theory Delegation
  imports Rust_Text
begin

text \<open>
  The subprocess state machine of \<open>amplihack-delegation/src/state_machine.rs\<close>.  The clock reading
  of an operation is an argument, in nanoseconds, and may go back.  Durations are the whole
  milliseconds the code divides by 1000.0 at the end.
\<close>

section \<open>States\<close>

datatype process_state = Created | Starting | Running | Completing | Completed | Failed

definition state_display :: "process_state \<Rightarrow> rstring" where
  "state_display s = (case s of Created \<Rightarrow> lit ''created'' | Starting \<Rightarrow> lit ''starting''
     | Running \<Rightarrow> lit ''running'' | Completing \<Rightarrow> lit ''completing'' | Completed \<Rightarrow> lit ''completed''
     | Failed \<Rightarrow> lit ''failed'')"

definition valid_targets :: "process_state \<Rightarrow> process_state list" where
  "valid_targets s = (case s of Created \<Rightarrow> [Starting, Failed] | Starting \<Rightarrow> [Running, Failed]
     | Running \<Rightarrow> [Completing, Failed] | Completing \<Rightarrow> [Completed, Failed] | Completed \<Rightarrow> [] | Failed \<Rightarrow> [])"

definition is_terminal :: "process_state \<Rightarrow> bool" where
  "is_terminal s = (s = Completed \<or> s = Failed)"

lemma terminal_iff: "is_terminal s \<longleftrightarrow> valid_targets s = []"
  by (cases s) (simp_all add: is_terminal_def valid_targets_def)

record history_entry =
  he_state :: process_state
  he_timestamp :: int

record machine =
  pm_current_state :: process_state
  pm_timeout_seconds :: "64 word"
  pm_start_time :: "int option"
  pm_end_time :: "int option"
  pm_failure_reason :: "rstring option"
  pm_history :: "history_entry list"

datatype delegation_error = Invalid_transition process_state process_state

definition machine_new :: "int \<Rightarrow> 64 word \<Rightarrow> machine" where
  "machine_new now timeout =
    \<lparr>pm_current_state = Created, pm_timeout_seconds = timeout, pm_start_time = None, pm_end_time = None,
     pm_failure_reason = None, pm_history = [\<lparr>he_state = Created, he_timestamp = now\<rparr>]\<rparr>"

definition default_timeout :: "64 word" where "default_timeout = 1800"

definition transition_to ::
  "int \<Rightarrow> process_state \<Rightarrow> rstring option \<Rightarrow> machine \<Rightarrow> (delegation_error, machine) result" where
  "transition_to now new_state error m =
    (if new_state \<notin> set (valid_targets (pm_current_state m))
     then Inl (Invalid_transition (pm_current_state m) new_state)
     else Inr (m\<lparr>pm_start_time := (if new_state = Running \<and> pm_start_time m = None then Some now else pm_start_time m),
                 pm_end_time := (if is_terminal new_state then Some now else pm_end_time m),
                 pm_failure_reason := (if new_state = Failed then error else pm_failure_reason m),
                 pm_current_state := new_state,
                 pm_history := pm_history m @ [\<lparr>he_state = new_state, he_timestamp = now\<rparr>]\<rparr>))"

definition is_running :: "machine \<Rightarrow> bool" where
  "is_running m = (pm_current_state m = Running)"

definition is_complete :: "machine \<Rightarrow> bool" where
  "is_complete m = is_terminal (pm_current_state m)"

definition has_failed :: "machine \<Rightarrow> bool" where
  "has_failed m = (pm_current_state m = Failed)"

section \<open>Time\<close>

text \<open>\<open>num_seconds\<close> and \<open>num_milliseconds\<close> drop the fraction towards zero.\<close>

definition trunc_div :: "int \<Rightarrow> int \<Rightarrow> int" where
  "trunc_div a b = (if 0 \<le> a then a div b else - (- a div b))"

definition num_seconds :: "int \<Rightarrow> int" where "num_seconds d = trunc_div d 1000000000"
definition num_milliseconds :: "int \<Rightarrow> int" where "num_milliseconds d = trunc_div d 1000000"

text \<open>\<open>as u64\<close> wraps a negative number.\<close>

definition check_timeout :: "int \<Rightarrow> machine \<Rightarrow> bool" where
  "check_timeout now m =
    (case pm_start_time m of
       Some start \<Rightarrow> pm_timeout_seconds m \<le> word_of_int (num_seconds (now - start))
     | None \<Rightarrow> False)"

definition elapsed_millis :: "int \<Rightarrow> machine \<Rightarrow> int" where
  "elapsed_millis now m =
    (case pm_start_time m of
       Some start \<Rightarrow> num_milliseconds ((case pm_end_time m of Some e \<Rightarrow> e | None \<Rightarrow> now) - start)
     | None \<Rightarrow> 0)"

fun state_durations :: "int \<Rightarrow> history_entry list \<Rightarrow> (process_state \<times> int) list" where
  "state_durations until [] = []"
| "state_durations until [e] = [(he_state e, num_milliseconds (until - he_timestamp e))]"
| "state_durations until (e # f # es) =
    (he_state e, num_milliseconds (he_timestamp f - he_timestamp e)) # state_durations until (f # es)"

definition get_state_durations :: "int \<Rightarrow> machine \<Rightarrow> (process_state \<times> int) list" where
  "get_state_durations now m =
    state_durations (case pm_end_time m of Some e \<Rightarrow> e | None \<Rightarrow> now) (pm_history m)"

section \<open>Reachable machines\<close>

inductive machine_step :: "machine \<Rightarrow> machine \<Rightarrow> bool" where
  "transition_to now s error m = Inr m' \<Longrightarrow> machine_step m m'"

inductive reachable_machine :: "nat \<Rightarrow> machine \<Rightarrow> bool" where
  start: "reachable_machine 0 (machine_new now timeout)"
| move: "reachable_machine n m \<Longrightarrow> machine_step m m' \<Longrightarrow> reachable_machine (Suc n) m'"

inductive_cases machine_stepE: "machine_step m m'"

text \<open>The history follows the edges of \<open>valid_targets\<close>.\<close>

definition follows_edges :: "process_state list \<Rightarrow> bool" where
  "follows_edges ss = successively (\<lambda>s t. t \<in> set (valid_targets s)) ss"

definition machine_ok :: "machine \<Rightarrow> bool" where
  "machine_ok m \<longleftrightarrow>
     (let ss = map he_state (pm_history m)
      in ss \<noteq> [] \<and> hd ss = Created \<and> last ss = pm_current_state m \<and> follows_edges ss \<and>
         (pm_start_time m \<noteq> None) = (Running \<in> set ss) \<and>
         (pm_end_time m \<noteq> None) = is_terminal (pm_current_state m) \<and>
         (pm_failure_reason m \<noteq> None \<longrightarrow> pm_current_state m = Failed))"

text \<open>How many moves are left before a terminal state.\<close>

definition moves_left :: "process_state \<Rightarrow> nat" where
  "moves_left s = (case s of Created \<Rightarrow> 4 | Starting \<Rightarrow> 3 | Running \<Rightarrow> 2 | Completing \<Rightarrow> 1 | _ \<Rightarrow> 0)"

lemma target_decreases: "t \<in> set (valid_targets s) \<Longrightarrow> moves_left t < moves_left s"
  by (cases s) (auto simp: valid_targets_def moves_left_def)

lemma target_not_from_terminal: "t \<in> set (valid_targets s) \<Longrightarrow> \<not> is_terminal s"
  by (auto simp: terminal_iff)

lemma successively_snoc: "successively P (xs @ [x]) \<longleftrightarrow> successively P xs \<and> (xs = [] \<or> P (last xs) x)"
  by (auto simp: successively_append_iff)

lemma machine_ok_new: "machine_ok (machine_new now timeout)"
  by (simp add: machine_ok_def machine_new_def follows_edges_def is_terminal_def)

lemma machine_ok_step:
  assumes "machine_ok m" "transition_to now s error m = Inr m'"
  shows "machine_ok m' \<and> moves_left (pm_current_state m') < moves_left (pm_current_state m)"
proof -
  have t: "s \<in> set (valid_targets (pm_current_state m))"
    using assms(2) by (auto simp: transition_to_def split: if_splits)
  then have "\<not> is_terminal (pm_current_state m)" by (rule target_not_from_terminal)
  then show ?thesis
    using assms t target_decreases [OF t]
    by (auto simp: machine_ok_def transition_to_def Let_def follows_edges_def successively_snoc
        hd_append is_terminal_def split: if_splits)
qed

lemma reachable_machine_ok:
  "reachable_machine n m \<Longrightarrow> machine_ok m \<and> n + moves_left (pm_current_state m) \<le> 4"
proof (induction rule: reachable_machine.induct)
  case (start now timeout)
  show ?case using machine_ok_new by (simp add: machine_new_def moves_left_def)
next
  case (move n m m')
  from move.hyps(2) obtain now s error where "transition_to now s error m = Inr m'"
    by (rule machine_stepE)
  then show ?case using machine_ok_step move.IH by fastforce
qed

text \<open>
  C31. Whatever sequence of transitions a subprocess machine makes, its history starts at Created,
  follows the allowed edges and ends at the current state; it has a start time exactly when it
  ran, an end time exactly when it is in a terminal state, and a failure reason only when it
  failed.
\<close>

theorem lifecycle_recorded:
  assumes "reachable_machine n m"
  shows "machine_ok m"
  using reachable_machine_ok [OF assms] by blast

lemma failed_run: "\<exists>m. reachable_machine 2 m \<and> pm_current_state m = Failed"
proof -
  let ?m0 = "machine_new 0 60"
  let ?m1 = "case transition_to 5 Starting None ?m0 of Inr m \<Rightarrow> m | Inl _ \<Rightarrow> ?m0"
  let ?m2 = "case transition_to 9 Failed (Some (lit ''x'')) ?m1 of Inr m \<Rightarrow> m | Inl _ \<Rightarrow> ?m0"
  have "machine_step ?m0 ?m1" "machine_step ?m1 ?m2"
    by (auto intro!: machine_step.intros simp: transition_to_def machine_new_def valid_targets_def)
  then have "reachable_machine (Suc (Suc 0)) ?m2" by (blast intro: reachable_machine.intros)
  moreover have "pm_current_state ?m2 = Failed"
    by (simp add: transition_to_def machine_new_def valid_targets_def)
  ultimately show ?thesis by (metis Suc_1 One_nat_def)
qed

lemma lifecycle_recorded_witness:
  "\<exists>m. machine_ok m \<and> pm_current_state m = Failed"
  using failed_run lifecycle_recorded by blast

text \<open>
  Every run ends: no machine makes more than four transitions, one that has made four is in a
  terminal state, a terminal machine refuses every transition and is unchanged, and a machine
  that is not terminal can always be moved to Failed.
\<close>

lemma lifecycle_terminates:
  assumes "reachable_machine n m"
  shows "n \<le> 4 \<and> (n = 4 \<longrightarrow> is_complete m) \<and>
    (if is_complete m then \<forall>now s error. transition_to now s error m = Inl (Invalid_transition (pm_current_state m) s)
     else \<forall>now error. \<exists>m'. transition_to now Failed error m = Inr m' \<and> has_failed m')"
proof -
  have b: "n + moves_left (pm_current_state m) \<le> 4" using reachable_machine_ok [OF assms] by blast
  have z: "moves_left s = 0 \<longleftrightarrow> is_terminal s" for s
    by (cases s) (simp_all add: moves_left_def is_terminal_def)
  have f: "\<not> is_terminal s \<Longrightarrow> Failed \<in> set (valid_targets s)" for s
    by (cases s) (simp_all add: valid_targets_def is_terminal_def)
  show ?thesis
    using b z [of "pm_current_state m"] f [of "pm_current_state m"]
    by (auto simp: is_complete_def terminal_iff transition_to_def has_failed_def)
qed

lemma lifecycle_terminates_witness:
  "\<exists>m. is_complete m \<and> (\<forall>now s error. transition_to now s error m = Inl (Invalid_transition Failed s))"
proof -
  obtain m where m: "reachable_machine 2 m" "pm_current_state m = Failed" using failed_run by blast
  then have "is_complete m" by (simp add: is_complete_def is_terminal_def)
  then show ?thesis using lifecycle_terminates [OF m(1)] m(2) by auto
qed

section \<open>Timeouts\<close>

lemma num_seconds_nonneg: "0 \<le> d \<Longrightarrow> num_seconds d = d div 1000000000"
  by (simp add: num_seconds_def trunc_div_def)

lemma num_seconds_neg: "d \<le> - 1000000000 \<Longrightarrow> num_seconds d \<le> - 1 \<and> d \<le> num_seconds d"
proof -
  assume "d \<le> - 1000000000"
  then have "num_seconds d = - (- d div 1000000000)" "1 \<le> - d div 1000000000" "- d div 1000000000 \<le> - d"
    by (auto simp: num_seconds_def trunc_div_def intro: div_le_dividend)
  then show ?thesis by simp
qed

text \<open>
  For a machine that ran, with the clock not behind its start and less than a hundred years
  on, the timeout fires exactly when at least the configured whole seconds have passed.  When the
  clock has gone back by a second or more (and at most a hundred years) it fires too, for every
  timeout up to two to the sixty-third.
\<close>

lemma timeout_fires:
  assumes "pm_start_time m = Some start" "\<bar>now - start\<bar> \<le> 3155760000 * 1000000000"
  shows "(start \<le> now \<longrightarrow> check_timeout now m = (uint (pm_timeout_seconds m) * 1000000000 \<le> now - start)) \<and>
    (now \<le> start - 1000000000 \<and> pm_timeout_seconds m \<le> 9223372036854775808 \<longrightarrow> check_timeout now m)"
proof (intro conjI impI)
  assume "start \<le> now"
  then have s: "num_seconds (now - start) = (now - start) div 1000000000" "0 \<le> (now - start) div 1000000000"
    by (simp_all add: num_seconds_nonneg)
  moreover have "(now - start) div 1000000000 < 2 ^ 64" using assms(2) by simp
  ultimately have "uint (word_of_int (num_seconds (now - start)) :: 64 word) = (now - start) div 1000000000"
    by (simp add: uint_word_of_int)
  then show "check_timeout now m = (uint (pm_timeout_seconds m) * 1000000000 \<le> now - start)"
    using assms(1) by (auto simp: check_timeout_def word_le_def)
next
  assume a: "now \<le> start - 1000000000 \<and> pm_timeout_seconds m \<le> 9223372036854775808"
  let ?n = "num_seconds (now - start)"
  have n: "?n \<le> - 1" "- 3155760000000000000 \<le> ?n" using num_seconds_neg [of "now - start"] a assms(2) by auto
  then have "0 \<le> ?n + 2 ^ 64" "?n + 2 ^ 64 < 2 ^ 64" by simp_all
  then have "(?n + 2 ^ 64) mod 2 ^ 64 = ?n + 2 ^ 64" by (rule mod_pos_pos_trivial)
  then have "?n mod 2 ^ 64 = ?n + 2 ^ 64" by (simp only: mod_add_self2)
  then have "uint (word_of_int ?n :: 64 word) = ?n + 2 ^ 64"
    by (simp add: uint_word_of_int)
  moreover have "uint (pm_timeout_seconds m) \<le> 9223372036854775808"
    using a by (simp add: word_le_def)
  ultimately show "check_timeout now m"
    using assms(1) n by (simp add: check_timeout_def word_le_def)
qed

lemma timeout_fires_witness:
  "\<exists>m. pm_timeout_seconds m = 60 \<and> pm_start_time m = Some 1000000000 \<and> check_timeout 0 m \<and>
     \<not> check_timeout 2000000000 m"
proof -
  let ?m = "(machine_new 0 60)\<lparr>pm_start_time := Some 1000000000\<rparr>"
  have s: "pm_start_time ?m = Some 1000000000" by simp
  have t: "pm_timeout_seconds ?m = 60" by (simp add: machine_new_def)
  have "check_timeout 0 ?m" using timeout_fires [OF s, of 0] t by simp
  moreover have "\<not> check_timeout 2000000000 ?m" using timeout_fires [OF s, of 2000000000] t by simp
  ultimately show ?thesis using s t by blast
qed

end
