(* ===== verification/Hive_Crdt.thy ===== *)
theory Hive_Crdt
  imports Rust_Text "HOL-Library.List_Lexorder"
begin

text \<open>
  The replicated data types of \<open>amplihack-hive/src/crdt\<close>.  A \<open>HashMap\<close> or \<open>BTreeMap\<close> is a
  partial function; where the code folds over a map in its own iteration order, the order is
  an argument and the result is proved independent of it.  The contract that every type has
  to meet, convergence of its replicas, is the locale \<open>crdt\<close>, which is interpreted on each of
  the five types.  Strings are compared as code point lists, the order of UTF-8 bytes.
\<close>

section \<open>The contract\<close>

locale crdt =
  fixes merge :: "'s \<Rightarrow> 's \<Rightarrow> 's" and valid :: "'s \<Rightarrow> bool"
  assumes valid_merge: "valid a \<Longrightarrow> valid b \<Longrightarrow> valid (merge a b)"
    and merge_comm: "valid a \<Longrightarrow> valid b \<Longrightarrow> merge a b = merge b a"
    and merge_assoc: "valid a \<Longrightarrow> valid b \<Longrightarrow> valid c \<Longrightarrow> merge (merge a b) c = merge a (merge b c)"
    and merge_idem: "valid a \<Longrightarrow> merge a a = a"
begin

text \<open>A replica that receives the states \<open>xs\<close> one after the other.\<close>

definition receive :: "'s \<Rightarrow> 's list \<Rightarrow> 's" where
  "receive s xs = foldl merge s xs"

lemma valid_receive: "valid s \<Longrightarrow> list_all valid xs \<Longrightarrow> valid (receive s xs)"
  unfolding receive_def by (induction xs arbitrary: s) (simp_all add: valid_merge)

lemma receive_merge:
  "valid s \<Longrightarrow> valid t \<Longrightarrow> list_all valid xs \<Longrightarrow> receive (merge s t) xs = merge s (receive t xs)"
  unfolding receive_def by (induction xs arbitrary: t) (simp_all add: merge_assoc valid_merge)

lemma receive_absorbs:
  assumes "valid s" "list_all valid xs" "x \<in> set xs"
  shows "merge x (receive s xs) = receive s xs"
  using assms
proof (induction xs arbitrary: s)
  case (Cons y ys)
  have v: "valid x" using Cons.prems by (auto simp: list_all_iff)
  show ?case
  proof (cases "x \<in> set ys")
    case True
    then show ?thesis using Cons by (simp add: receive_def valid_merge)
  next
    case False
    then have "x = y" using Cons.prems by simp
    moreover have "merge y (merge s y) = merge s y"
      using Cons.prems v \<open>x = y\<close> merge_assoc [of s y y] merge_comm [of y "merge s y"] merge_idem [of y]
      by (simp add: valid_merge)
    ultimately show ?thesis
      using Cons.prems receive_merge [of y "merge s y" ys] v
      by (simp add: receive_def valid_merge)
  qed
qed simp

lemma receive_snoc [simp]: "receive s (xs @ [x]) = merge (receive s xs) x"
  by (simp add: receive_def)

lemma receive_more:
  assumes "valid s" "list_all valid xs" "list_all valid ys" "set ys \<subseteq> set xs"
  shows "receive (receive s xs) ys = receive s xs"
  using assms
proof (induction ys rule: rev_induct)
  case (snoc y ys)
  then have "receive (receive s xs) (ys @ [y]) = merge (receive s xs) y" by (simp add: list_all_append)
  also have "\<dots> = merge y (receive s xs)"
    using snoc.prems by (intro merge_comm valid_receive) (auto simp: list_all_iff)
  also have "\<dots> = receive s xs"
    using snoc.prems by (intro receive_absorbs) auto
  finally show ?case .
qed (simp add: receive_def)

lemma receive_append: "receive s (xs @ ys) = receive (receive s xs) ys"
  by (simp add: receive_def)

lemma receive_swap:
  assumes "valid s" "list_all valid xs" "list_all valid ys"
  shows "receive (receive s xs) ys = receive (receive s ys) xs"
  using assms
proof (induction ys arbitrary: s)
  case (Cons y ys)
  have vy: "valid y" using Cons.prems by simp
  have "receive (receive s xs) (y # ys) = receive (merge (receive s xs) y) ys"
    by (simp add: receive_def)
  also have "merge (receive s xs) y = receive (merge s y) xs"
    using Cons.prems vy receive_merge [of y s xs] merge_comm [of "receive s xs" y] merge_comm [of s y]
    by (simp add: valid_receive)
  also have "receive (receive (merge s y) xs) ys = receive (receive (merge s y) ys) xs"
    using Cons by (simp add: valid_merge)
  finally show ?case by (simp add: receive_def)
qed (simp add: receive_def)

text \<open>Replicas that have received the same states agree, in whatever order and number.\<close>

lemma convergence:
  assumes "valid s" "list_all valid xs" "set xs = set ys"
  shows "receive s xs = receive s ys"
proof -
  have vy: "list_all valid ys" using assms by (simp add: list_all_iff)
  have "receive s xs = receive (receive s xs) ys"
    using receive_more [of s xs ys] assms vy by simp
  also have "\<dots> = receive (receive s ys) xs" by (rule receive_swap [OF assms(1,2) vy])
  also have "\<dots> = receive s ys" using receive_more [of s ys xs] assms vy by simp
  finally show ?thesis .
qed

end

section \<open>GSet\<close>

record gset = gs_items :: "rstring set"

definition gset_new :: gset where "gset_new = \<lparr>gs_items = {}\<rparr>"

definition gset_add :: "rstring \<Rightarrow> gset \<Rightarrow> gset" where
  "gset_add item s = s\<lparr>gs_items := insert item (gs_items s)\<rparr>"

definition gset_contains :: "gset \<Rightarrow> rstring \<Rightarrow> bool" where
  "gset_contains s item = (item \<in> gs_items s)"

definition gset_merge :: "gset \<Rightarrow> gset \<Rightarrow> gset" where
  "gset_merge s other = s\<lparr>gs_items := gs_items s \<union> gs_items other\<rparr>"

interpretation gset: crdt gset_merge "\<lambda>_. True"
  by unfold_locales (auto intro!: gset.equality simp: gset_merge_def)

section \<open>GCounter\<close>

definition u64_max :: nat where "u64_max = 18446744073709551615"

definition sat_u64 :: "nat \<Rightarrow> nat" where "sat_u64 n = min n u64_max"

record gcounter = gc_counts :: "rstring \<Rightarrow> nat option"

definition gcounter_new :: gcounter where "gcounter_new = \<lparr>gc_counts = (\<lambda>_. None)\<rparr>"

definition gcounter_get :: "gcounter \<Rightarrow> rstring \<Rightarrow> nat" where
  "gcounter_get c node = (case gc_counts c node of None \<Rightarrow> 0 | Some n \<Rightarrow> n)"

definition gcounter_increment :: "rstring \<Rightarrow> gcounter \<Rightarrow> nat \<times> gcounter" where
  "gcounter_increment node c =
    (let count = sat_u64 (gcounter_get c node + 1)
     in (count, c\<lparr>gc_counts := (gc_counts c)(node \<mapsto> count)\<rparr>))"

text \<open>The fold of \<open>value\<close>, with the nodes in the iteration order of the map.\<close>

definition gcounter_value :: "rstring list \<Rightarrow> gcounter \<Rightarrow> nat" where
  "gcounter_value order c = foldl (\<lambda>acc node. sat_u64 (acc + gcounter_get c node)) 0 order"

text \<open>One turn of the loop of \<open>merge\<close>, and the loop over the other map's entries.\<close>

definition gcounter_merge_entry :: "rstring \<Rightarrow> nat \<Rightarrow> gcounter \<Rightarrow> gcounter" where
  "gcounter_merge_entry node count c =
    c\<lparr>gc_counts := (gc_counts c)(node \<mapsto> max (gcounter_get c node) count)\<rparr>"

definition gcounter_merge_loop :: "rstring list \<Rightarrow> gcounter \<Rightarrow> gcounter \<Rightarrow> gcounter" where
  "gcounter_merge_loop order c other =
    fold (\<lambda>node. gcounter_merge_entry node (gcounter_get other node)) order c"

definition gcounter_merge :: "gcounter \<Rightarrow> gcounter \<Rightarrow> gcounter" where
  "gcounter_merge c other =
    c\<lparr>gc_counts := (\<lambda>node. case gc_counts other node of None \<Rightarrow> gc_counts c node
      | Some count \<Rightarrow> Some (max (gcounter_get c node) count))\<rparr>"

text \<open>An iteration order lists every key of the map once.\<close>

definition enumerates :: "'a list \<Rightarrow> ('a \<Rightarrow> 'b option) \<Rightarrow> bool" where
  "enumerates order m = (distinct order \<and> set order = dom m)"

lemma merge_loop_counts:
  assumes "distinct order"
  shows "gc_counts (gcounter_merge_loop order c other) =
    (\<lambda>node. if node \<in> set order then Some (max (gcounter_get c node) (gcounter_get other node))
            else gc_counts c node)"
  using assms
proof (induction order arbitrary: c)
  case (Cons x xs)
  let ?c = "gcounter_merge_entry x (gcounter_get other x) c"
  have "gcounter_get ?c n = gcounter_get c n" if "n \<in> set xs" for n
    using that Cons.prems by (auto simp: gcounter_get_def gcounter_merge_entry_def)
  moreover have "gc_counts ?c = (gc_counts c)(x \<mapsto> max (gcounter_get c x) (gcounter_get other x))"
    by (simp add: gcounter_merge_entry_def)
  moreover have "gcounter_merge_loop (x # xs) c other = gcounter_merge_loop xs ?c other"
    by (simp add: gcounter_merge_loop_def)
  ultimately show ?case
    using Cons.IH [of ?c] Cons.prems by (auto simp: fun_eq_iff)
qed (simp add: gcounter_merge_loop_def)

text \<open>The loop computes the pointwise merge in every iteration order.\<close>

lemma gcounter_merge_loop_eq:
  assumes "enumerates order (gc_counts other)"
  shows "gcounter_merge_loop order c other = gcounter_merge c other"
proof -
  have "gc_counts (gcounter_merge_loop order c other) = gc_counts (gcounter_merge c other)"
    using assms merge_loop_counts [of order c other]
    by (auto simp: enumerates_def gcounter_merge_def fun_eq_iff gcounter_get_def dom_def split: option.splits)
  then show ?thesis by simp
qed

interpretation gcounter: crdt gcounter_merge "\<lambda>_. True"
  by unfold_locales
    (auto intro!: gcounter.equality simp: gcounter_merge_def gcounter_get_def fun_eq_iff max.assoc max.commute
      split: option.splits)

lemma sat_fold:
  "a \<le> u64_max \<Longrightarrow> foldl (\<lambda>acc x. sat_u64 (acc + f x)) a xs = sat_u64 (a + sum_list (map f xs))"
proof (induction xs arbitrary: a)
  case (Cons x xs)
  then show ?case by (simp add: sat_u64_def min_def)
qed (simp add: sat_u64_def)

text \<open>The value does not depend on the iteration order: it is the sum, saturated once.\<close>

lemma gcounter_value_eq:
  assumes "enumerates order (gc_counts c)"
  shows "gcounter_value order c = sat_u64 (\<Sum>node \<in> dom (gc_counts c). gcounter_get c node)"
  using assms sat_fold [of 0 "gcounter_get c" order]
  by (simp add: gcounter_value_def enumerates_def sum_list_distinct_conv_sum_set)

text \<open>Every count fits in 64 bits.\<close>

definition gcounter_ok :: "gcounter \<Rightarrow> bool" where
  "gcounter_ok c = (\<forall>node. gcounter_get c node \<le> u64_max)"

lemma gcounter_ok_steps:
  "gcounter_ok gcounter_new"
  "gcounter_ok c \<Longrightarrow> gcounter_ok (snd (gcounter_increment node c))"
  "gcounter_ok c \<Longrightarrow> gcounter_ok d \<Longrightarrow> gcounter_ok (gcounter_merge c d)"
  by (auto simp: gcounter_ok_def gcounter_new_def gcounter_get_def gcounter_increment_def
      gcounter_merge_def sat_u64_def Let_def split: option.splits)

section \<open>PNCounter\<close>

record pncounter =
  pn_positive :: gcounter
  pn_negative :: gcounter

definition pncounter_new :: pncounter where
  "pncounter_new = \<lparr>pn_positive = gcounter_new, pn_negative = gcounter_new\<rparr>"

definition pncounter_increment :: "rstring \<Rightarrow> pncounter \<Rightarrow> pncounter" where
  "pncounter_increment node c = c\<lparr>pn_positive := snd (gcounter_increment node (pn_positive c))\<rparr>"

definition pncounter_decrement :: "rstring \<Rightarrow> pncounter \<Rightarrow> pncounter" where
  "pncounter_decrement node c = c\<lparr>pn_negative := snd (gcounter_increment node (pn_negative c))\<rparr>"

definition pncounter_value :: "rstring list \<Rightarrow> rstring list \<Rightarrow> pncounter \<Rightarrow> int" where
  "pncounter_value porder norder c =
    int (gcounter_value porder (pn_positive c)) - int (gcounter_value norder (pn_negative c))"

definition pncounter_merge :: "pncounter \<Rightarrow> pncounter \<Rightarrow> pncounter" where
  "pncounter_merge c other =
    c\<lparr>pn_positive := gcounter_merge (pn_positive c) (pn_positive other),
      pn_negative := gcounter_merge (pn_negative c) (pn_negative other)\<rparr>"

interpretation pncounter: crdt pncounter_merge "\<lambda>_. True"
  by unfold_locales
    (auto intro!: pncounter.equality intro: gcounter.merge_comm
      simp: pncounter_merge_def gcounter.merge_assoc gcounter.merge_idem)

section \<open>LWWRegister\<close>

record 'v lww =
  lw_value :: "'v option"
  lw_timestamp :: nat
  lw_node_id :: rstring

definition lww_new :: "rstring \<Rightarrow> 'v lww" where
  "lww_new node_id = \<lparr>lw_value = None, lw_timestamp = 0, lw_node_id = node_id\<rparr>"

definition lww_set :: "'v \<Rightarrow> nat \<Rightarrow> rstring \<Rightarrow> 'v lww \<Rightarrow> 'v lww" where
  "lww_set v timestamp node_id r =
    (if lw_timestamp r < timestamp
     then \<lparr>lw_value = Some v, lw_timestamp = timestamp, lw_node_id = node_id\<rparr> else r)"

definition lww_merge :: "'v lww \<Rightarrow> 'v lww \<Rightarrow> 'v lww" where
  "lww_merge r other =
    (if lw_timestamp r < lw_timestamp other \<or>
        (lw_timestamp other = lw_timestamp r \<and> lw_node_id r < lw_node_id other)
     then \<lparr>lw_value = lw_value other, lw_timestamp = lw_timestamp other, lw_node_id = lw_node_id other\<rparr>
     else r)"

text \<open>
  The registers of one history of writes: \<open>w\<close> gives the value written by a node at a time, so no
  two registers of the history hold different values under the same stamp.  Without that,
  merge keeps its own side on a full tie and does not commute.
\<close>

definition lww_valid :: "(nat \<Rightarrow> rstring \<Rightarrow> 'v option) \<Rightarrow> 'v lww \<Rightarrow> bool" where
  "lww_valid w r = (lw_value r = w (lw_timestamp r) (lw_node_id r))"

lemma lww_eqI:
  "lww_valid w r \<Longrightarrow> lww_valid w s \<Longrightarrow> lw_timestamp r = lw_timestamp s \<Longrightarrow> lw_node_id r = lw_node_id s \<Longrightarrow> r = s"
  by (auto simp: lww_valid_def intro: lww.equality)

interpretation lww: crdt lww_merge "lww_valid w" for w :: "nat \<Rightarrow> rstring \<Rightarrow> 'v option"
proof
  fix a b c :: "'v lww"
  show "lww_valid w a \<Longrightarrow> lww_valid w b \<Longrightarrow> lww_valid w (lww_merge a b)"
    by (simp add: lww_merge_def lww_valid_def)
  show "lww_valid w a \<Longrightarrow> lww_valid w b \<Longrightarrow> lww_merge a b = lww_merge b a"
    by (rule lww_eqI [of w]) (auto simp: lww_merge_def lww_valid_def)
  show "lww_valid w a \<Longrightarrow> lww_valid w b \<Longrightarrow> lww_valid w c \<Longrightarrow>
      lww_merge (lww_merge a b) c = lww_merge a (lww_merge b c)"
    by (rule lww_eqI [of w]) (auto simp: lww_merge_def lww_valid_def)
  show "lww_valid w a \<Longrightarrow> lww_merge a a = a" by (simp add: lww_merge_def)
qed

section \<open>ORSet\<close>

record orset =
  or_elements :: "rstring \<Rightarrow> rstring set option"
  or_tombstones :: "rstring \<Rightarrow> rstring set option"

definition orset_new :: orset where
  "orset_new = \<lparr>or_elements = (\<lambda>_. None), or_tombstones = (\<lambda>_. None)\<rparr>"

text \<open>\<open>entry(item).or_default().extend(tags)\<close>\<close>

definition entry_extend ::
  "rstring \<Rightarrow> rstring set \<Rightarrow> (rstring \<Rightarrow> rstring set option) \<Rightarrow> (rstring \<Rightarrow> rstring set option)" where
  "entry_extend item tags m = m(item \<mapsto> (case m item of None \<Rightarrow> {} | Some s \<Rightarrow> s) \<union> tags)"

lemma entry_extend_apply:
  "entry_extend i t m j = (if j = i then Some ((case m i of None \<Rightarrow> {} | Some s \<Rightarrow> s) \<union> t) else m j)"
  by (simp add: entry_extend_def)

text \<open>The tag is the fresh UUID.\<close>

definition orset_add :: "rstring \<Rightarrow> rstring \<Rightarrow> orset \<Rightarrow> orset" where
  "orset_add tag item s = s\<lparr>or_elements := entry_extend item {tag} (or_elements s)\<rparr>"

definition orset_remove :: "rstring \<Rightarrow> orset \<Rightarrow> orset" where
  "orset_remove item s =
    (case or_elements s item of None \<Rightarrow> s
     | Some tags \<Rightarrow> s\<lparr>or_tombstones := entry_extend item tags (or_tombstones s)\<rparr>)"

definition orset_contains :: "orset \<Rightarrow> rstring \<Rightarrow> bool" where
  "orset_contains s item =
    (case or_elements s item of None \<Rightarrow> False
     | Some tags \<Rightarrow>
         (case or_tombstones s item of Some dead \<Rightarrow> \<not> tags \<subseteq> dead | None \<Rightarrow> tags \<noteq> {}))"

text \<open>The union of two tag maps, entry by entry.\<close>

definition tags_merge ::
  "(rstring \<Rightarrow> rstring set option) \<Rightarrow> (rstring \<Rightarrow> rstring set option) \<Rightarrow> (rstring \<Rightarrow> rstring set option)" where
  "tags_merge m other =
    (\<lambda>item. case other item of None \<Rightarrow> m item
      | Some tags \<Rightarrow> Some ((case m item of None \<Rightarrow> {} | Some s \<Rightarrow> s) \<union> tags))"

definition orset_merge :: "orset \<Rightarrow> orset \<Rightarrow> orset" where
  "orset_merge s other =
    s\<lparr>or_elements := tags_merge (or_elements s) (or_elements other),
      or_tombstones := tags_merge (or_tombstones s) (or_tombstones other)\<rparr>"

definition orset_items :: "orset \<Rightarrow> rstring set" where
  "orset_items s = {item. orset_contains s item}"

text \<open>The loop of \<open>merge\<close> over a tag map in an iteration order, and that it is the union.\<close>

lemma tags_merge_loop:
  assumes "distinct order" "set order = dom other"
  shows "fold (\<lambda>item. entry_extend item (the (other item))) order m = tags_merge m other"
proof -
  have *: "fold (\<lambda>item. entry_extend item (the (other item))) order m =
      (\<lambda>item. if item \<in> set order then Some ((case m item of None \<Rightarrow> {} | Some s \<Rightarrow> s) \<union> the (other item))
              else m item)"
    using assms(1)
  proof (induction order arbitrary: m)
    case (Cons x xs)
    have "fold (\<lambda>item. entry_extend item (the (other item))) xs (entry_extend x (the (other x)) m) =
        (\<lambda>item. if item \<in> set xs
           then Some ((case entry_extend x (the (other x)) m item of None \<Rightarrow> {} | Some s \<Rightarrow> s) \<union> the (other item))
           else entry_extend x (the (other x)) m item)"
      using Cons by simp
    also have "\<dots> = (\<lambda>item. if item \<in> set (x # xs)
        then Some ((case m item of None \<Rightarrow> {} | Some s \<Rightarrow> s) \<union> the (other item)) else m item)"
      using Cons.prems by (intro ext) (auto simp: entry_extend_apply)
    finally show ?case by simp
  qed simp
  show ?thesis unfolding * using assms(2) by (auto simp: tags_merge_def fun_eq_iff dom_def split: option.splits)
qed

lemma tags_merge_laws:
  "tags_merge a b = tags_merge b a"
  "tags_merge (tags_merge a b) c = tags_merge a (tags_merge b c)"
  "tags_merge a a = a"
  by (auto simp: tags_merge_def fun_eq_iff split: option.splits)

interpretation orset: crdt orset_merge "\<lambda>_. True"
  by unfold_locales
    (auto intro!: orset.equality intro: tags_merge_laws(1) simp: orset_merge_def tags_merge_laws(2,3))

text \<open>The live tags of an item.\<close>

definition live :: "orset \<Rightarrow> rstring \<Rightarrow> rstring set" where
  "live s item = (case or_elements s item of None \<Rightarrow> {} | Some t \<Rightarrow> t) -
     (case or_tombstones s item of None \<Rightarrow> {} | Some t \<Rightarrow> t)"

lemma contains_live: "orset_contains s item \<longleftrightarrow> live s item \<noteq> {}"
  by (auto simp: orset_contains_def live_def split: option.splits)

section \<open>Properties\<close>

text \<open>
  What the replicas of an observed-remove set do: a replica adds an item under a tag, removes an item,
  or merges the state another replica had at some time.  Next to each state stands what the replica has
  seen: the additions, and the removals with the tags they observed.
\<close>

datatype or_event = Added rstring rstring | Removed rstring "rstring set"

definition observed :: "or_event set \<Rightarrow> rstring \<Rightarrow> rstring set" where
  "observed E item = {tag. Added item tag \<in> E}"

definition retired :: "or_event set \<Rightarrow> rstring \<Rightarrow> rstring set" where
  "retired E item = \<Union> {tags. Removed item tags \<in> E}"

inductive replica :: "orset \<Rightarrow> or_event set \<Rightarrow> bool" where
  Fresh: "replica orset_new {}"
| Add: "replica s E \<Longrightarrow> replica (orset_add tag item s) (insert (Added item tag) E)"
| Remove: "replica s E \<Longrightarrow> replica (orset_remove item s) (insert (Removed item (observed E item)) E)"
| Merge: "replica s E \<Longrightarrow> replica t F \<Longrightarrow> replica (orset_merge s t) (E \<union> F)"

text \<open>A map entry with a set of tags, which is there only when the set is not empty.\<close>

definition tag_entry :: "rstring set \<Rightarrow> rstring set option" where
  "tag_entry tags = (if tags = {} then None else Some tags)"

lemma tag_entry_cases [simp]:
  "tag_entry {} = None" "tag_entry t = None \<longleftrightarrow> t = {}" "tag_entry t = Some u \<longleftrightarrow> t = u \<and> u \<noteq> {}"
  "(case tag_entry t of None \<Rightarrow> {} | Some u \<Rightarrow> u) = t"
  by (auto simp: tag_entry_def)

lemma observed_simps [simp]:
  "observed {} i = {}"
  "observed (insert (Added j tag) E) i = (if i = j then insert tag (observed E i) else observed E i)"
  "observed (insert (Removed j tags) E) i = observed E i"
  "observed (E \<union> F) i = observed E i \<union> observed F i"
  by (auto simp: observed_def)

lemma retired_simps [simp]:
  "retired {} i = {}"
  "retired (insert (Added j tag) E) i = retired E i"
  "retired (insert (Removed j tags) E) i = (if i = j then tags \<union> retired E i else retired E i)"
  "retired (E \<union> F) i = retired E i \<union> retired F i"
  by (auto simp: retired_def)

text \<open>A replica's state is a function of what it has seen.\<close>

lemma replica_state:
  "replica s E \<Longrightarrow> s = \<lparr>or_elements = (\<lambda>i. tag_entry (observed E i)), or_tombstones = (\<lambda>i. tag_entry (retired E i))\<rparr>"
proof (induction rule: replica.induct)
  case Fresh
  then show ?case by (simp add: orset_new_def)
next
  case (Add s E tag item)
  then show ?case
    by (auto simp: orset_add_def entry_extend_def tag_entry_def fun_eq_iff)
next
  case (Remove s E item)
  let ?r = "\<lambda>i. retired (insert (Removed item (observed E item)) E) i"
  show ?case
  proof (cases "observed E item = {}")
    case True
    then show ?thesis using Remove.IH by (auto simp: orset_remove_def fun_eq_iff)
  next
    case False
    then have "orset_remove item s =
        s\<lparr>or_tombstones := entry_extend item (observed E item) (or_tombstones s)\<rparr>"
      using Remove.IH by (simp add: orset_remove_def tag_entry_def)
    then show ?thesis using False Remove.IH by (auto simp: entry_extend_def tag_entry_def fun_eq_iff)
  qed
next
  case (Merge s E t F)
  then show ?case
    by (auto simp: orset_merge_def tags_merge_def tag_entry_def fun_eq_iff split: option.splits)
qed

text \<open>
  C39. The observed-remove set refines its history.  Whatever replicas add, remove and merge, in any
  order and however stale the merged states are, a replica contains an item exactly when it has seen
  an addition whose tag no removal it has seen had observed; and two replicas that have seen the same
  additions and removals hold the same elements and tombstones, however they came to see them.
\<close>

theorem orset_refines_history:
  assumes "replica s E" "replica t F"
  shows "(orset_contains s item \<longleftrightarrow> (\<exists>tag. Added item tag \<in> E \<and> (\<forall>tags. Removed item tags \<in> E \<longrightarrow> tag \<notin> tags))) \<and>
    (E = F \<longrightarrow> s = t)"
proof -
  have "live s item = observed E item - retired E item"
    using replica_state [OF assms(1)] by (simp add: live_def)
  then have "orset_contains s item \<longleftrightarrow> observed E item - retired E item \<noteq> {}"
    by (simp add: contains_live)
  also have "\<dots> \<longleftrightarrow> (\<exists>tag. Added item tag \<in> E \<and> (\<forall>tags. Removed item tags \<in> E \<longrightarrow> tag \<notin> tags))"
    by (auto simp: observed_def retired_def)
  finally show ?thesis using replica_state [OF assms(1)] replica_state [OF assms(2)] by auto
qed

text \<open>A removal and a concurrent addition, merged both ways round.\<close>

lemma orset_refines_history_witness:
  "orset_contains (orset_merge (orset_remove [7] (orset_add [1] [7] orset_new)) (orset_add [2] [7] orset_new)) [7] \<and>
   orset_merge (orset_remove [7] (orset_add [1] [7] orset_new)) (orset_add [2] [7] orset_new) =
   orset_merge (orset_add [2] [7] orset_new) (orset_remove [7] (orset_add [1] [7] orset_new))"
proof -
  let ?a = "orset_remove [7] (orset_add [1] [7] orset_new)" and ?b = "orset_add [2] [7] orset_new"
  let ?E = "insert (Removed [7] (observed {Added [7] [1]} [7])) {Added [7] [1]}" and ?F = "{Added [7] [2]}"
  have a: "replica ?a ?E" by (rule Remove [OF Add [OF Fresh]])
  have b: "replica ?b ?F" by (rule Add [OF Fresh])
  note p = orset_refines_history [OF Merge [OF a b] Merge [OF b a], of "[7]"]
  have "Added [7] [2] \<in> ?E \<union> ?F" by simp
  moreover have "[2] \<notin> tags" if "Removed [7] tags \<in> ?E \<union> ?F" for tags using that by auto
  ultimately have "orset_contains (orset_merge ?a ?b) [7]" using p by blast
  moreover have "orset_merge ?a ?b = orset_merge ?b ?a" using p Un_commute [of ?E ?F] by simp
  ultimately show ?thesis by simp
qed

text \<open>
  The same for the registers of one write history, where \<open>w\<close> gives the value each node wrote
  at each time: all replicas end with the same value, stamp and owner.
\<close>

lemma lww_convergence:
  assumes "lww_valid w s" "list_all (lww_valid w) xs" "set xs = set ys"
  shows "foldl lww_merge s xs = foldl lww_merge s ys"
  using lww.convergence [OF assms] by (simp add: lww.receive_def)

lemma lww_convergence_witness:
  "foldl lww_merge (lww_new [1]) [lww_set 5 2 [1] (lww_new [1]), lww_set (6 :: nat) 2 [2] (lww_new [1])]
   = foldl lww_merge (lww_new [1]) [lww_set 6 2 [2] (lww_new [1]), lww_set 5 2 [1] (lww_new [1])]"
proof -
  let ?w = "\<lambda>t n. if t = 2 \<and> n = [1] then Some 5 else if t = 2 \<and> n = [2] then Some (6 :: nat) else None"
  show ?thesis
    by (rule lww_convergence [of ?w]) (auto simp: lww_valid_def lww_new_def lww_set_def)
qed

text \<open>
  Add wins: an item added with a tag that no replica has tombstoned is contained after merging
  with any replica, also one that removed the item concurrently.
\<close>

lemma orset_add_wins:
  assumes "\<And>dead. or_tombstones a item = Some dead \<Longrightarrow> tag \<notin> dead"
    and "\<And>dead. or_tombstones b item = Some dead \<Longrightarrow> tag \<notin> dead"
    and "\<And>tags. or_elements b item = Some tags \<Longrightarrow> tag \<notin> tags"
  shows "orset_contains (orset_merge (orset_add tag item a) (orset_remove item b)) item \<and>
    orset_contains (orset_merge (orset_remove item b) (orset_add tag item a)) item"
proof -
  have "tag \<in> live (orset_merge (orset_add tag item a) (orset_remove item b)) item"
    using assms
    by (auto simp: live_def orset_merge_def orset_add_def orset_remove_def entry_extend_def tags_merge_def
        split: option.splits)
  then show ?thesis using orset.merge_comm by (metis contains_live emptyE)
qed

lemma orset_add_wins_witness:
  "orset_contains (orset_merge (orset_add [2] [7] (orset_add [1] [7] orset_new))
      (orset_remove [7] (orset_add [1] [7] orset_new))) [7] \<and>
   orset_contains (orset_merge (orset_remove [7] (orset_add [1] [7] orset_new))
      (orset_add [2] [7] (orset_add [1] [7] orset_new))) [7]"
  by (rule orset_add_wins) (auto simp: orset_add_def orset_new_def entry_extend_def)

text \<open>
  A removed item stays removed through merges with replicas that hold no tag of it beyond
  those the remover saw.
\<close>

lemma orset_remove_sticks:
  assumes "\<And>tags. or_elements b item = Some tags \<Longrightarrow>
      tags \<subseteq> (case or_elements a item of None \<Rightarrow> {} | Some t \<Rightarrow> t)"
  shows "\<not> orset_contains (orset_merge (orset_remove item a) b) item"
  using assms
  by (auto simp: contains_live live_def orset_merge_def orset_remove_def entry_extend_def tags_merge_def
      split: option.splits)

lemma orset_remove_sticks_witness:
  "\<not> orset_contains (orset_merge (orset_remove [7] (orset_add [1] [7] orset_new)) (orset_add [1] [7] orset_new)) [7]"
  by (rule orset_remove_sticks) (auto simp: orset_add_def orset_new_def entry_extend_def)

text \<open>
  A merged counter reads at least as much as either side, in every iteration order of the
  maps, and merging a replica's own increment again does not count it twice.
\<close>

lemma gcounter_merge_monotone:
  assumes "enumerates co (gc_counts c)" "enumerates mo (gc_counts (gcounter_merge c d))"
  shows "gcounter_value co c \<le> gcounter_value mo (gcounter_merge c d) \<and>
    gcounter_merge (gcounter_merge c d) d = gcounter_merge c d"
proof -
  have sub: "dom (gc_counts c) \<subseteq> dom (gc_counts (gcounter_merge c d))"
    by (auto simp: gcounter_merge_def split: option.splits)
  have fin: "finite (dom (gc_counts (gcounter_merge c d)))"
    using assms(2) by (metis enumerates_def finite_set)
  have "(\<Sum>n \<in> dom (gc_counts c). gcounter_get c n)
      \<le> (\<Sum>n \<in> dom (gc_counts c). gcounter_get (gcounter_merge c d) n)"
    by (rule sum_mono) (auto simp: gcounter_get_def gcounter_merge_def split: option.splits)
  also have "\<dots> \<le> (\<Sum>n \<in> dom (gc_counts (gcounter_merge c d)). gcounter_get (gcounter_merge c d) n)"
    by (rule sum_mono2 [OF fin sub]) simp
  finally have "gcounter_value co c \<le> gcounter_value mo (gcounter_merge c d)"
    using gcounter_value_eq [OF assms(1)] gcounter_value_eq [OF assms(2)] by (simp add: sat_u64_def)
  then show ?thesis using gcounter.merge_assoc gcounter.merge_idem by simp
qed

lemma gcounter_merge_monotone_witness:
  "gcounter_value [[1]] (snd (gcounter_increment [1] gcounter_new))
     \<le> gcounter_value [[1], [2]] (gcounter_merge (snd (gcounter_increment [1] gcounter_new)) (snd (gcounter_increment [2] gcounter_new)))
   \<and> gcounter_merge (gcounter_merge (snd (gcounter_increment [1] gcounter_new)) (snd (gcounter_increment [2] gcounter_new)))
       (snd (gcounter_increment [2] gcounter_new))
     = gcounter_merge (snd (gcounter_increment [1] gcounter_new)) (snd (gcounter_increment [2] gcounter_new))"
  by (rule gcounter_merge_monotone)
    (auto simp: gcounter_increment_def gcounter_new_def enumerates_def gcounter_merge_def Let_def dom_def
      split: option.splits if_splits)

end
