(* ===== verification/Rust_Num.thy ===== *)
theory Rust_Num
  imports Rust_Text "HOL-Library.AList"
begin

text \<open>
  UTF-8 bytes and the printing of numbers, as \<open>str::as_bytes\<close>, \<open>format!("{}")\<close> and
  \<open>format!("{:x}")\<close> give them, and the index range \<open>s[..n]\<close>, which panics off a character
  boundary.
\<close>

section \<open>Bytes\<close>

definition utf8_char :: "rchar \<Rightarrow> nat list" where
  "utf8_char c =
    (if c < 128 then [c]
     else if c < 2048 then [192 + c div 64, 128 + c mod 64]
     else if c < 65536 then [224 + c div 4096, 128 + c div 64 mod 64, 128 + c mod 64]
     else [240 + c div 262144, 128 + c div 4096 mod 64, 128 + c div 64 mod 64, 128 + c mod 64])"

definition utf8_bytes :: "rstring \<Rightarrow> nat list" where
  "utf8_bytes s = concat (map utf8_char s)"

lemma length_utf8_bytes: "length (utf8_bytes s) = utf8_len s"
  by (induction s) (simp_all add: utf8_bytes_def utf8_char_def utf8_len_char_def)

text \<open>\<open>str::from_utf8\<close>: overlong forms, surrogates and values past the last character are refused.\<close>

definition is_cont :: "nat \<Rightarrow> bool" where
  "is_cont b = (128 \<le> b \<and> b < 192)"

fun from_utf8 :: "nat list \<Rightarrow> rstring option" where
  "from_utf8 [] = Some []"
| "from_utf8 (a # r) =
    (if a < 128 then map_option (\<lambda>s. a # s) (from_utf8 r)
     else (case r of
        b # r2 \<Rightarrow>
          if 194 \<le> a \<and> a < 224
          then (if is_cont b then map_option (\<lambda>s. ((a - 192) * 64 + (b - 128)) # s) (from_utf8 r2) else None)
          else (case r2 of
            c # r3 \<Rightarrow>
              if 224 \<le> a \<and> a < 240
              then (if is_cont b \<and> is_cont c \<and> (a = 224 \<longrightarrow> 160 \<le> b) \<and> (a = 237 \<longrightarrow> b < 160)
                    then map_option (\<lambda>s. ((a - 224) * 4096 + (b - 128) * 64 + (c - 128)) # s) (from_utf8 r3)
                    else None)
              else (case r3 of
                d # r4 \<Rightarrow>
                  if 240 \<le> a \<and> a < 245 \<and> is_cont b \<and> is_cont c \<and> is_cont d \<and>
                     (a = 240 \<longrightarrow> 144 \<le> b) \<and> (a = 244 \<longrightarrow> b < 144)
                  then map_option (\<lambda>s. ((a - 240) * 262144 + (b - 128) * 4096 + (c - 128) * 64 + (d - 128)) # s) (from_utf8 r4)
                  else None
              | [] \<Rightarrow> None)
          | [] \<Rightarrow> None)
      | [] \<Rightarrow> None))"

lemma from_utf8_ascii: "list_all (\<lambda>b. b < 128) s \<Longrightarrow> from_utf8 s = Some s"
  by (induction s) auto

lemma utf8_bytes_ascii: "list_all (\<lambda>b. b < 128) s \<Longrightarrow> utf8_bytes s = s"
  by (induction s) (auto simp: utf8_bytes_def utf8_char_def)

lemma utf8_len_ascii: "list_all (\<lambda>b. b < 128) s \<Longrightarrow> utf8_len s = length s"
  by (metis length_utf8_bytes utf8_bytes_ascii)

text \<open>\<open>s[..n]\<close>: \<open>None\<close> is the panic when \<open>n\<close> is past the end or inside a character.\<close>

fun slice_to :: "nat \<Rightarrow> rstring \<Rightarrow> rstring option" where
  "slice_to n [] = (if n = 0 then Some [] else None)"
| "slice_to n (c # s) =
    (if n = 0 then Some []
     else if n < utf8_len_char c then None
     else map_option (\<lambda>r. c # r) (slice_to (n - utf8_len_char c) s))"

lemma slice_to_Some: "slice_to n s = Some r \<Longrightarrow> prefix r s \<and> utf8_len r = n"
  by (induction n s arbitrary: r rule: slice_to.induct) (auto split: if_splits)

lemma slice_to_all: "slice_to (utf8_len s) s = Some s"
proof (induction s)
  case (Cons c s)
  then show ?case using utf8_len_char_bounds(1) [of c] by auto
qed simp

section \<open>Numbers\<close>

definition digit_char :: "nat \<Rightarrow> rchar" where
  "digit_char d = (if d < 10 then 48 + d else 87 + d)"

text \<open>The digits of \<open>n\<close> in a radix between two and sixteen.\<close>

fun show_radix :: "nat \<Rightarrow> nat \<Rightarrow> rstring" where
  "show_radix r n =
    (if r < 2 \<or> n < r then [digit_char n] else show_radix r (n div r) @ [digit_char (n mod r)])"

declare show_radix.simps [simp del]

definition read_radix :: "nat \<Rightarrow> rstring \<Rightarrow> nat" where
  "read_radix r s = foldl (\<lambda>a c. a * r + (if c < 58 then c - 48 else c - 87)) 0 s"

lemma read_show_radix: "2 \<le> r \<Longrightarrow> r \<le> 16 \<Longrightarrow> read_radix r (show_radix r n) = n"
proof (induction n rule: less_induct)
  case (less n)
  have d: "(if digit_char k < 58 then digit_char k - 48 else digit_char k - 87) = k" if "k < 16" for k
    using that by (simp add: digit_char_def)
  show ?case
  proof (cases "n < r")
    case True
    then show ?thesis
      using less.prems d [of n] by (subst show_radix.simps) (simp add: read_radix_def)
  next
    case False
    then have "n div r < n" using less.prems by auto
    moreover have "n mod r < 16"
      using less.prems mod_less_divisor [of r n] by linarith
    ultimately show ?thesis
      using False less.IH [of "n div r"] less.prems d [of "n mod r"]
      by (subst show_radix.simps) (simp add: read_radix_def)
  qed
qed

lemma show_radix_inject: "2 \<le> r \<Longrightarrow> r \<le> 16 \<Longrightarrow> show_radix r m = show_radix r n \<longleftrightarrow> m = n"
  by (metis read_show_radix)

text \<open>\<open>raw.parse::<usize>()\<close>: an optional plus and digits, up to the 64-bit range.\<close>

definition parse_usize :: "rstring \<Rightarrow> nat option" where
  "parse_usize s =
    (let ds = (if starts_with (lit ''+'') s then tl s else s)
     in if ds \<noteq> [] \<and> list_all is_ascii_digit ds \<and> foldl (\<lambda>a c. a * 10 + (c - 48)) 0 ds < 2 ^ 64
        then Some (foldl (\<lambda>a c. a * 10 + (c - 48)) 0 ds) else None)"

text \<open>Parsing into an unsigned type of \<open>w\<close> bits, for texts without a sign.\<close>

definition dec_value :: "rstring \<Rightarrow> nat" where
  "dec_value ds = foldl (\<lambda>a c. a * 10 + (c - 48)) 0 ds"

definition parse_digits :: "nat \<Rightarrow> rstring \<Rightarrow> nat option" where
  "parse_digits w ds =
    (if ds \<noteq> [] \<and> list_all is_ascii_digit ds \<and> dec_value ds < 2 ^ w then Some (dec_value ds) else None)"

lemma show_radix_digits: "list_all is_ascii_digit (show_radix 10 n)" "show_radix 10 n \<noteq> []"
proof -
  have "list_all is_ascii_digit (show_radix 10 n) \<and> show_radix 10 n \<noteq> []"
  proof (induction n rule: less_induct)
    case (less n)
    have d: "is_ascii_digit (digit_char k)" if "k < 10" for k
      using that by (simp add: digit_char_def is_ascii_digit_def)
    show ?case
    proof (cases "n < 10")
      case True
      then show ?thesis using d by (subst (1 2) show_radix.simps) simp
    next
      case False
      then have "n div 10 < n" by auto
      from less.IH [OF this] False show ?thesis using d [of "n mod 10"]
        by (subst (1 2) show_radix.simps) simp
    qed
  qed
  then show "list_all is_ascii_digit (show_radix 10 n)" "show_radix 10 n \<noteq> []" by auto
qed

lemma dec_value_read: "list_all is_ascii_digit s \<Longrightarrow> dec_value s = read_radix 10 s"
proof -
  have "list_all is_ascii_digit s \<Longrightarrow>
      foldl (\<lambda>a c. a * 10 + (c - 48)) a s = foldl (\<lambda>a c. a * 10 + (if c < 58 then c - 48 else c - 87)) a s" for a
    by (induction s arbitrary: a) (auto simp: is_ascii_digit_def)
  then show "list_all is_ascii_digit s \<Longrightarrow> dec_value s = read_radix 10 s" by (simp add: dec_value_def read_radix_def)
qed

lemma parse_show_digits: "n < 2 ^ w \<Longrightarrow> parse_digits w (show_radix 10 n) = Some n"
  using show_radix_digits [of n] dec_value_read [OF show_radix_digits(1), of n] read_show_radix [of 10 n]
  by (simp add: parse_digits_def)

section \<open>Hash maps kept as association lists\<close>

lemma map_of_updates:
  "map_of (fold (\<lambda>k. AList.update k v) ks al) x = (if x \<in> set ks then Some v else map_of al x)"
  by (induction ks arbitrary: al) (auto simp: update_conv')

lemma map_of_deletes:
  "map_of (fold AList.delete ks al) x = (if x \<in> set ks then None else map_of al x)"
  by (induction ks arbitrary: al) (auto simp: delete_conv')

lemma distinct_updates: "distinct (map fst al) \<Longrightarrow> distinct (map fst (fold (\<lambda>k. AList.update k v) ks al))"
  by (induction ks arbitrary: al) (simp_all add: distinct_update)

lemma distinct_deletes: "distinct (map fst al) \<Longrightarrow> distinct (map fst (fold AList.delete ks al))"
  by (induction ks arbitrary: al) (simp_all add: distinct_delete)

section \<open>First occurrences\<close>

text \<open>A list without the later repetitions, in the order of the first occurrences.\<close>

fun dedup :: "'a list \<Rightarrow> 'a list" where
  "dedup [] = []"
| "dedup (x # xs) = x # filter (\<lambda>y. y \<noteq> x) (dedup xs)"

lemma set_dedup [simp]: "set (dedup xs) = set xs"
  by (induction xs) auto

lemma distinct_dedup [simp]: "distinct (dedup xs)"
  by (induction xs) auto

lemma filter_dedup: "filter P (dedup xs) = dedup (filter P xs)"
proof (induction xs)
  case (Cons x xs)
  have "filter P (filter (\<lambda>y. y \<noteq> x) (dedup xs)) = filter (\<lambda>y. y \<noteq> x) (filter P (dedup xs))"
    by (simp add: conj_commute)
  moreover have "filter (\<lambda>y. y \<noteq> x) (dedup (filter P xs)) = dedup (filter P xs)" if "\<not> P x"
    using that by (auto simp: filter_id_conv)
  ultimately show ?case using Cons.IH by auto
qed simp

end
