(* ===== verification/Hive_Ring.thy ===== *)
theory Hive_Ring
  imports Rust_Num
begin

text \<open>
  The consistent hash ring of \<open>amplihack-hive/src/dht\<close> (\<open>mod.rs\<close> and \<open>ring.rs\<close>): the FNV-1a
  hash at its 32 bits, the routing key of a content, and the ring with its virtual nodes.  The
  hash maps are association lists: where the code reads their keys it sorts them, or gives them
  in an order it does not promise.
\<close>

section \<open>Keys\<close>

definition virtual_nodes_per_agent :: nat where "virtual_nodes_per_agent = 64"
definition default_replication_factor :: nat where "default_replication_factor = 3"

definition hash_key :: "rstring \<Rightarrow> 32 word" where
  "hash_key key = foldl (\<lambda>h b. Bit_Operations.xor h (of_nat b) * 16777619) 2166136261 (utf8_bytes key)"

definition stop_words :: "rstring list" where
  "stop_words = map lit [''the'', ''and'', ''for'', ''that'', ''with'', ''this'', ''from'', ''are'',
     ''was'', ''were'', ''has'', ''have'', ''had'', ''not'', ''but'']"

text \<open>
  \<open>lower\<close> is \<open>str::to_lowercase\<close>, which follows the Unicode tables.  \<open>None\<close> is the panic of
  \<open>content[..end]\<close>.
\<close>

definition significant :: "(rstring \<Rightarrow> rstring) \<Rightarrow> rstring \<Rightarrow> bool" where
  "significant lower w = (2 < utf8_len w \<and> lower w \<notin> set stop_words)"

definition content_key :: "(rstring \<Rightarrow> rstring) \<Rightarrow> rstring \<Rightarrow> rstring option" where
  "content_key lower content =
    (let words = take 5 (filter (significant lower) (split_whitespace content))
     in if words = [] then slice_to (min (utf8_len content) 20) content
        else Some (join [ch_space] (map lower words)))"

section \<open>The ring\<close>

record hash_ring =
  hr_ring :: "32 word list"
  hr_owner :: "(32 word \<times> rstring) list"
  hr_positions :: "(rstring \<times> 32 word list) list"
  hr_factor :: nat

definition ring_new :: "nat \<Rightarrow> hash_ring" where
  "ring_new replication_factor =
    \<lparr>hr_ring = [], hr_owner = [], hr_positions = [], hr_factor = replication_factor\<rparr>"

definition vnode_key :: "rstring \<Rightarrow> nat \<Rightarrow> rstring" where
  "vnode_key agent i = agent @ lit '':vnode:'' @ show_radix 10 i"

definition vnode_positions :: "rstring \<Rightarrow> 32 word list" where
  "vnode_positions agent = map (\<lambda>i. hash_key (vnode_key agent i)) [0..<virtual_nodes_per_agent]"

definition ring_add :: "rstring \<Rightarrow> hash_ring \<Rightarrow> hash_ring" where
  "ring_add agent r =
    (if map_of (hr_positions r) agent \<noteq> None then r
     else (let positions = vnode_positions agent;
               owner = fold (\<lambda>p. AList.update p agent) positions (hr_owner r)
           in r\<lparr>hr_owner := owner, hr_positions := AList.update agent positions (hr_positions r),
                hr_ring := sort (map fst owner)\<rparr>))"

definition ring_remove :: "rstring \<Rightarrow> hash_ring \<Rightarrow> hash_ring" where
  "ring_remove agent r =
    (case map_of (hr_positions r) agent of
       None \<Rightarrow> r
     | Some positions \<Rightarrow>
         (let owner = fold AList.delete positions (hr_owner r)
          in r\<lparr>hr_owner := owner, hr_positions := AList.delete agent (hr_positions r),
               hr_ring := sort (map fst owner)\<rparr>))"

text \<open>\<open>slice::binary_search\<close> on a sorted list without repetitions: \<open>Inr\<close> is \<open>Ok\<close>.\<close>

definition binary_search :: "'a::linorder list \<Rightarrow> 'a \<Rightarrow> nat + nat" where
  "binary_search xs x =
    (let i = length (takeWhile (\<lambda>y. y < x) xs)
     in if i < length xs \<and> xs ! i = x then Inr i else Inl i)"

text \<open>The walk over the ring positions of \<open>get_agents\<close>; \<open>seen\<close> is \<open>agents_seen\<close>.\<close>

fun owners_loop :: "(32 word \<Rightarrow> rstring option) \<Rightarrow> nat \<Rightarrow> rstring list \<Rightarrow> 32 word list \<Rightarrow> rstring list" where
  "owners_loop owner n seen [] = seen"
| "owners_loop owner n seen (p # ps) =
    (case owner p of
       Some agent \<Rightarrow>
         if agent \<notin> set seen then
           (if n \<le> length (seen @ [agent]) then seen @ [agent] else owners_loop owner n (seen @ [agent]) ps)
         else owners_loop owner n seen ps
     | None \<Rightarrow> owners_loop owner n seen ps)"

definition get_agents :: "rstring \<Rightarrow> nat option \<Rightarrow> hash_ring \<Rightarrow> rstring list" where
  "get_agents key n r =
    (let n = (case n of None \<Rightarrow> hr_factor r | Some k \<Rightarrow> k)
     in if hr_ring r = [] then []
        else (let pos = hash_key key;
                  idx = (case binary_search (hr_ring r) pos of Inr i \<Rightarrow> i + 1 | Inl i \<Rightarrow> i);
                  ring_len = length (hr_ring r)
              in owners_loop (map_of (hr_owner r)) n []
                   (map (\<lambda>offset. hr_ring r ! ((idx + offset) mod ring_len)) [0..<ring_len])))"

definition get_primary_agent :: "rstring \<Rightarrow> hash_ring \<Rightarrow> rstring option" where
  "get_primary_agent key r = get (get_agents key (Some 1) r) 0"

definition agent_count :: "hash_ring \<Rightarrow> nat" where
  "agent_count r = length (hr_positions r)"

definition agent_ids :: "hash_ring \<Rightarrow> rstring list" where
  "agent_ids r = map fst (hr_positions r)"

section \<open>The invariant\<close>

definition ring_ok :: "hash_ring \<Rightarrow> bool" where
  "ring_ok r \<longleftrightarrow>
     hr_ring r = sort (map fst (hr_owner r)) \<and>
     distinct (map fst (hr_owner r)) \<and> distinct (map fst (hr_positions r)) \<and>
     (\<forall>a ps. map_of (hr_positions r) a = Some ps \<longrightarrow> ps = vnode_positions a) \<and>
     (\<forall>p a. map_of (hr_owner r) p = Some a \<longrightarrow>
       map_of (hr_positions r) a \<noteq> None \<and> p \<in> set (vnode_positions a))"

text \<open>No two agents of the ring have a virtual node at the same position.\<close>

definition collision_free :: "hash_ring \<Rightarrow> bool" where
  "collision_free r \<longleftrightarrow>
     (\<forall>a \<in> set (agent_ids r). \<forall>b \<in> set (agent_ids r).
        a \<noteq> b \<longrightarrow> set (vnode_positions a) \<inter> set (vnode_positions b) = {})"

lemma ring_okD:
  assumes "ring_ok r"
  shows "hr_ring r = sort (map fst (hr_owner r))" "distinct (map fst (hr_owner r))"
    "distinct (map fst (hr_positions r))"
    "map_of (hr_positions r) a = Some ps \<Longrightarrow> ps = vnode_positions a"
    "map_of (hr_owner r) p = Some a \<Longrightarrow> map_of (hr_positions r) a \<noteq> None \<and> p \<in> set (vnode_positions a)"
  using assms unfolding ring_ok_def by blast+

lemma ring_ok_new: "ring_ok (ring_new k)"
  by (simp add: ring_ok_def ring_new_def)

lemma ring_ok_sorted:
  assumes "ring_ok r"
  shows "sorted (hr_ring r)" "distinct (hr_ring r)" "set (hr_ring r) = dom (map_of (hr_owner r))"
  using ring_okD(1,2) [OF assms] by (simp_all add: dom_map_of_conv_image_fst)

lemma ring_ok_add:
  assumes "ring_ok r"
  shows "ring_ok (ring_add agent r)"
proof (cases "map_of (hr_positions r) agent")
  case None
  note ok = ring_okD [OF assms]
  show ?thesis
    unfolding ring_ok_def ring_add_def Let_def
    using None ok(2,3) by (auto simp: map_of_updates distinct_updates distinct_update update_conv' simp del: map_of_eq_Some_iff Some_eq_map_of_iff dest: ok(4,5) split: if_splits)
qed (simp add: ring_add_def assms)

lemma ring_ok_remove:
  assumes "ring_ok r"
  shows "ring_ok (ring_remove agent r)"
proof (cases "map_of (hr_positions r) agent")
  case (Some ps)
  note ok = ring_okD [OF assms]
  have ps: "ps = vnode_positions agent" using ok(4) Some by blast
  show ?thesis
    unfolding ring_ok_def ring_remove_def Let_def
    using Some ok(2,3) by (auto simp: map_of_deletes distinct_deletes distinct_delete delete_conv' ps simp del: map_of_eq_Some_iff Some_eq_map_of_iff dest: ok(4,5) split: if_splits)
qed (simp add: ring_remove_def assms)

end
