(* ===== verification/Hive_Ring_Sample.thy ===== *)
theory Hive_Ring_Sample
  imports Hive_Ring
begin

text \<open>
  A ring of two agents whose virtual nodes do not collide, for the concrete instances.
\<close>

lemma vnode_positions_a: "map unat (vnode_positions (lit ''a'')) =
    [3072470882, 3089248501, 3038915644, 3055693263, 3005360406, 3022138025, 2971805168, 2988582787,
     3206691834, 3223469453, 2731722271, 2714944652, 2765277509, 2748499890, 2664611795, 2647834176,
     2698167033, 2681389414, 2865943223, 2849165604, 818632420, 835410039, 852187658, 868965277,
     751521944, 768299563, 785077182, 801854801, 684411468, 701189087, 3066980461, 3050202842,
     3033425223, 3016647604, 2999869985, 2983092366, 2966314747, 2949537128, 2932759509, 2915981890,
     617006802, 633784421, 583451564, 600229183, 549896326, 566673945, 516341088, 533118707,
     751227754, 768005373, 717819611, 701041992, 751374849, 734597230, 784930087, 768152468,
     818485325, 801707706, 583598659, 566821040, 2562813248, 2579590867, 2596368486, 2613146105]"
  by code_simp

lemma vnode_positions_b: "map unat (vnode_positions (lit ''b'')) =
    [3006040187, 2989262568, 3039595425, 3022817806, 3073150663, 3056373044, 3106705901, 3089928282,
     2871819235, 2855041616, 1410876936, 1427654555, 1444432174, 1461209793, 1477987412, 1494765031,
     1511542650, 1528320269, 1276655984, 1293433603, 3323966787, 3307189168, 3357522025, 3340744406,
     3391077263, 3374299644, 3424632501, 3407854882, 3458187739, 3441410120, 3760037786, 3776815405,
     3726482548, 3743260167, 3692927310, 3709704929, 3659372072, 3676149691, 3625816834, 3642594453,
     1378160341, 1361382722, 1344605103, 1327827484, 1311049865, 1294272246, 1277494627, 1260717008,
     1512381293, 1495603674, 3424779596, 3441557215, 3458334834, 3475112453, 3357669120, 3374446739,
     3391224358, 3408001977, 3559000548, 3575778167, 1579785959, 1563008340, 1613341197, 1596563578]"
  by code_simp

definition ring_ab :: hash_ring where
  "ring_ab = ring_add (lit ''b'') (ring_add (lit ''a'') (ring_new 3))"

lemma ring_ok_ab: "ring_ok ring_ab"
  by (simp only: ring_ab_def ring_ok_add ring_ok_new)

lemma agent_ids_ab: "agent_ids ring_ab = [lit ''a'', lit ''b'']"
  by (simp add: ring_ab_def agent_ids_def ring_add_def ring_new_def Let_def)

lemma positions_ab_disjoint: "set (vnode_positions (lit ''a'')) \<inter> set (vnode_positions (lit ''b'')) = {}"
proof -
  have "set (map unat (vnode_positions (lit ''a''))) \<inter> set (map unat (vnode_positions (lit ''b''))) = {}"
    unfolding vnode_positions_a vnode_positions_b by simp
  then show ?thesis by auto
qed

lemma collision_free_ab: "collision_free ring_ab"
  unfolding collision_free_def agent_ids_ab using positions_ab_disjoint by (simp only: list.set) blast

end
