(* ===== verification/Hive_Ring_Facts.thy ===== *)
theory Hive_Ring_Facts
  imports Hive_Ring_Sample
begin

text \<open>
  What the hash ring guarantees: \<open>get_agents\<close> gives the first distinct agents clockwise from the
  key, and removing an agent moves only the keys that agent had.
\<close>

section \<open>The clockwise order\<close>

definition clockwise :: "32 word \<Rightarrow> hash_ring \<Rightarrow> 32 word list" where
  "clockwise pos r = filter (\<lambda>p. pos < p) (hr_ring r) @ filter (\<lambda>p. p \<le> pos) (hr_ring r)"

text \<open>The agents of the ring in the order a walk from the key meets them.\<close>

definition owners_in_order :: "rstring \<Rightarrow> hash_ring \<Rightarrow> rstring list" where
  "owners_in_order key r = dedup (List.map_filter (map_of (hr_owner r)) (clockwise (hash_key key) r))"

lemma binary_search_next:
  assumes "sorted xs" "distinct xs"
  shows "(case binary_search xs x of Inr i \<Rightarrow> i + 1 | Inl i \<Rightarrow> i) = length (filter (\<lambda>y. y \<le> x) xs)"
  using assms
proof (induction xs)
  case (Cons y ys)
  have none: "filter (\<lambda>z. z \<le> x) ys = []" if "x \<le> y" "y \<notin> set ys"
    using that Cons.prems by (auto simp: filter_empty_conv) (metis order_antisym order_trans)
  consider "y < x" | "y = x" | "x < y" by fastforce
  then show ?case
  proof cases
    case 1
    then have "(case binary_search (y # ys) x of Inr i \<Rightarrow> i + 1 | Inl i \<Rightarrow> i) =
        Suc (case binary_search ys x of Inr i \<Rightarrow> i + 1 | Inl i \<Rightarrow> i)"
      by (simp add: binary_search_def Let_def)
    then show ?thesis using Cons 1 by simp
  next
    case 3
    then have "\<not> y < x" "y \<noteq> x" by auto
    then show ?thesis using none [OF less_imp_le [OF 3]] Cons.prems 3 by (simp add: binary_search_def)
  qed (use Cons.prems none in \<open>simp add: binary_search_def\<close>)
qed (simp add: binary_search_def)

lemma sorted_split:
  fixes x :: "'a::linorder"
  assumes "sorted xs"
  shows "take (length (filter (\<lambda>y. y \<le> x) xs)) xs = filter (\<lambda>y. y \<le> x) xs"
    "drop (length (filter (\<lambda>y. y \<le> x) xs)) xs = filter (\<lambda>y. x < y) xs"
proof -
  have "xs = filter (\<lambda>y. y \<le> x) xs @ filter (\<lambda>y. x < y) xs"
    using assms
  proof (induction xs)
    case (Cons y ys)
    show ?case
    proof (cases "y \<le> x")
      case False
      then have "filter (\<lambda>z. z \<le> x) ys = []" using Cons.prems by (auto simp: filter_empty_conv)
      then show ?thesis using Cons False by (simp add: not_le)
    qed (use Cons in auto)
  qed simp
  then show "take (length (filter (\<lambda>y. y \<le> x) xs)) xs = filter (\<lambda>y. y \<le> x) xs"
    "drop (length (filter (\<lambda>y. y \<le> x) xs)) xs = filter (\<lambda>y. x < y) xs"
    by (metis append_eq_conv_conj)+
qed

lemma walk_rotate: "map (\<lambda>k. xs ! ((i + k) mod length xs)) [0..<length xs] = rotate i xs"
  by (rule nth_equalityI) (simp_all add: nth_rotate add.commute)

lemma walk_clockwise:
  fixes x :: "'a::linorder"
  assumes "sorted xs" "distinct xs"
  shows "rotate (case binary_search xs x of Inr i \<Rightarrow> i + 1 | Inl i \<Rightarrow> i) xs =
    filter (\<lambda>y. x < y) xs @ filter (\<lambda>y. y \<le> x) xs"
proof -
  define i where "i = length (filter (\<lambda>y. y \<le> x) xs)"
  have le: "i \<le> length xs" by (simp add: i_def)
  have "rotate i xs = drop i xs @ take i xs"
  proof (cases "i = length xs")
    case False
    then show ?thesis using le by (simp add: rotate_drop_take)
  qed (simp add: rotate_drop_take)
  then show ?thesis
    using binary_search_next [OF assms, of x] sorted_split [OF assms(1), of x] by (simp add: i_def)
qed

section \<open>The walk\<close>

lemma owners_loop_spec:
  assumes "distinct seen"
  shows "owners_loop owner n seen ps =
    take (max n (Suc (length seen))) (seen @ filter (\<lambda>a. a \<notin> set seen) (dedup (List.map_filter owner ps)))"
  using assms
proof (induction owner n seen ps rule: owners_loop.induct)
  case (2 owner n seen p ps)
  show ?case
  proof (cases "owner p")
    case (Some a)
    let ?rest = "dedup (List.map_filter owner ps)"
    show ?thesis
    proof (cases "a \<in> set seen")
      case True
      then have "filter (\<lambda>x. x \<notin> set seen) (filter (\<lambda>y. y \<noteq> a) ?rest) = filter (\<lambda>x. x \<notin> set seen) ?rest"
        by (auto intro: filter_cong)
      then show ?thesis using 2 Some True by (simp add: map_filter_simps)
    next
      case False
      have f: "filter (\<lambda>x. x \<notin> set seen) (filter (\<lambda>y. y \<noteq> a) ?rest) =
          filter (\<lambda>x. x \<notin> set (seen @ [a])) ?rest"
        by (auto intro: filter_cong)
      have "owners_loop owner n seen (p # ps) =
          (if n \<le> Suc (length seen) then seen @ [a] else owners_loop owner n (seen @ [a]) ps)"
        using Some False by simp
      also have "\<dots> = take (max n (Suc (length seen)))
          ((seen @ [a]) @ filter (\<lambda>x. x \<notin> set (seen @ [a])) ?rest)"
        using 2(2) [OF Some False] 2(4) False by (auto simp: max_def not_less_eq_eq)
      finally show ?thesis using Some False f by (simp add: map_filter_simps)
    qed
  qed (use 2 in \<open>simp add: map_filter_simps\<close>)
qed simp

lemma get_agents_order:
  assumes "ring_ok r"
  shows "get_agents key n r =
    take (max 1 (case n of None \<Rightarrow> hr_factor r | Some k \<Rightarrow> k)) (owners_in_order key r)"
proof (cases "hr_ring r = []")
  case False
  note rs = ring_ok_sorted [OF assms]
  show ?thesis
    using False
    by (simp add: get_agents_def Let_def walk_rotate walk_clockwise [OF rs(1,2)] owners_loop_spec
        owners_in_order_def clockwise_def max.commute)
qed (simp add: get_agents_def owners_in_order_def clockwise_def map_filter_simps)

lemma set_owners_in_order:
  assumes "ring_ok r"
  shows "set (owners_in_order key r) = ran (map_of (hr_owner r))"
proof -
  have "set (clockwise (hash_key key) r) = dom (map_of (hr_owner r))"
    using ring_ok_sorted(3) [OF assms] by (auto simp: clockwise_def)
  then show ?thesis
    by (force simp: owners_in_order_def List.map_filter_def ran_def dom_def image_iff)
qed

lemma distinct_owners_in_order: "distinct (owners_in_order key r)"
  by (simp add: owners_in_order_def)

lemma get_agents_distinct: "ring_ok r \<Longrightarrow> distinct (get_agents key n r)"
  using distinct_owners_in_order [of key r] by (simp add: get_agents_order)

lemma get_agents_length:
  "ring_ok r \<Longrightarrow> length (get_agents key n r) \<le> max 1 (case n of None \<Rightarrow> hr_factor r | Some k \<Rightarrow> k)"
  by (simp add: get_agents_order)

lemma get_agents_in_ring:
  assumes "ring_ok r"
  shows "set (get_agents key n r) \<subseteq> set (agent_ids r)"
proof -
  have "ran (map_of (hr_owner r)) \<subseteq> set (agent_ids r)"
    using ring_okD(5) [OF assms] by (fastforce simp: ran_def agent_ids_def map_of_eq_None_iff)
  then have "set (owners_in_order key r) \<subseteq> set (agent_ids r)"
    using set_owners_in_order [OF assms] by simp
  then show ?thesis using get_agents_order [OF assms] by (auto dest: in_set_takeD)
qed

text \<open>
  On a well-formed ring, \<open>get_agents\<close> returns the first agents met clockwise from the key,
  each once, as many as asked for or as there are; a request for none still gives one.
\<close>

lemma get_agents_clockwise:
  assumes "ring_ok r"
  shows "get_agents key n r =
      take (max 1 (case n of None \<Rightarrow> hr_factor r | Some k \<Rightarrow> k)) (owners_in_order key r)
    \<and> distinct (get_agents key n r)
    \<and> set (get_agents key n r) \<subseteq> set (agent_ids r)"
  using get_agents_order [OF assms] get_agents_distinct [OF assms] get_agents_in_ring [OF assms] by blast

lemma get_agents_clockwise_witness:
  "get_agents (lit ''paris'') None ring_ab =
      take (max 1 (case None of None \<Rightarrow> hr_factor ring_ab | Some k \<Rightarrow> k)) (owners_in_order (lit ''paris'') ring_ab)
    \<and> distinct (get_agents (lit ''paris'') None ring_ab)
    \<and> set (get_agents (lit ''paris'') None ring_ab) \<subseteq> set (agent_ids ring_ab)"
  by (rule get_agents_clockwise [OF ring_ok_ab])

section \<open>Removal\<close>

lemma remove_owner:
  assumes "ring_ok r" "collision_free r"
  shows "map_of (hr_owner (ring_remove a r)) p =
    (if map_of (hr_owner r) p = Some a then None else map_of (hr_owner r) p)"
proof (cases "map_of (hr_positions r) a")
  case None
  then show ?thesis using ring_okD(5) [OF assms(1), of p a] by (auto simp: ring_remove_def)
next
  case (Some ps)
  then have ps: "ps = vnode_positions a" using ring_okD(4) [OF assms(1)] by blast
  have ain: "a \<in> set (agent_ids r)" using Some by (force simp: agent_ids_def dest: map_of_SomeD)
  have "b = a" if b: "map_of (hr_owner r) p = Some b" and p: "p \<in> set ps" for b
  proof (rule ccontr)
    assume "b \<noteq> a"
    have pb: "map_of (hr_positions r) b \<noteq> None" "p \<in> set (vnode_positions b)"
      using ring_okD(5) [OF assms(1) b] by simp_all
    then have "b \<in> set (agent_ids r)" by (auto simp: agent_ids_def map_of_eq_None_iff)
    then show False using assms(2) \<open>b \<noteq> a\<close> ain pb(2) p ps by (auto simp: collision_free_def)
  qed
  then show ?thesis
    using Some ring_okD(5) [OF assms(1), of p a] ps
    by (cases "map_of (hr_owner r) p") (auto simp: ring_remove_def Let_def map_of_deletes simp del: map_of_eq_Some_iff Some_eq_map_of_iff)
qed

lemma remove_order:
  assumes "ring_ok r" "collision_free r"
  shows "owners_in_order key (ring_remove a r) = filter (\<lambda>x. x \<noteq> a) (owners_in_order key r)"
proof -
  let ?o = "map_of (hr_owner r)" and ?o' = "map_of (hr_owner (ring_remove a r))"
  note own = remove_owner [OF assms, of a]
  note ok' = ring_ok_remove [OF assms(1), of a]
  have "hr_ring (ring_remove a r) = filter (\<lambda>p. ?o p \<noteq> Some a) (hr_ring r)"
  proof (rule sorted_distinct_set_unique)
    show "set (hr_ring (ring_remove a r)) = set (filter (\<lambda>p. ?o p \<noteq> Some a) (hr_ring r))"
      using ring_ok_sorted(3) [OF assms(1)] ring_ok_sorted(3) [OF ok'] own by (auto split: if_splits)
  qed (use ring_ok_sorted(1,2) [OF assms(1)] ring_ok_sorted(1,2) [OF ok'] in \<open>auto intro: sorted_wrt_filter\<close>)
  then have "clockwise pos (ring_remove a r) = filter (\<lambda>p. ?o p \<noteq> Some a) (clockwise pos r)" for pos
    by (simp add: clockwise_def conj_commute)
  moreover have "List.map_filter ?o' (filter (\<lambda>p. ?o p \<noteq> Some a) ps) =
      filter (\<lambda>x. x \<noteq> a) (List.map_filter ?o ps)" for ps
    by (induction ps) (auto simp: map_filter_simps own split: option.splits)
  ultimately show ?thesis by (simp add: owners_in_order_def filter_dedup)
qed

lemma take_filter_neq:
  assumes "distinct xs" "1 \<le> n"
  shows "take n (filter (\<lambda>x. x \<noteq> a) xs) = take n (filter (\<lambda>x. x \<noteq> a) (take (Suc n) xs))"
proof -
  have "xs = take (Suc n) xs @ drop (Suc n) xs" by simp
  then have s: "filter (\<lambda>x. x \<noteq> a) xs =
      filter (\<lambda>x. x \<noteq> a) (take (Suc n) xs) @ filter (\<lambda>x. x \<noteq> a) (drop (Suc n) xs)"
    by (metis filter_append)
  show ?thesis
  proof (cases "Suc n \<le> length xs")
    case True
    have "distinct (filter (\<lambda>x. x = a) (take (Suc n) xs))" using assms(1) by simp
    moreover have "set (filter (\<lambda>x. x = a) (take (Suc n) xs)) \<subseteq> {a}" by auto
    ultimately have "length (filter (\<lambda>x. x = a) (take (Suc n) xs)) \<le> 1"
      using card_mono [of "{a}" "set (filter (\<lambda>x. x = a) (take (Suc n) xs))"]
      by (simp only: distinct_card finite.intros card.empty card_insert_disjoint empty_iff not_False_eq_True One_nat_def)
    moreover have "length (filter (\<lambda>x. x = a) (take (Suc n) xs)) +
        length (filter (\<lambda>x. x \<noteq> a) (take (Suc n) xs)) = Suc n"
      using True sum_length_filter_compl [of "\<lambda>x. x = a" "take (Suc n) xs"] by simp
    ultimately show ?thesis by (simp add: s)
  qed simp
qed

text \<open>
  C35. Removing an agent whose virtual nodes collide with no other agent's moves only the keys it
  had: the owners of every key are the ones it had before, in the same order, without that
  agent, and with one more agent clockwise taking its place.
\<close>

theorem removal_moves_only_own_keys:
  assumes "ring_ok r" "collision_free r" "1 \<le> n"
  shows "get_agents key (Some n) (ring_remove a r) =
    take n (filter (\<lambda>x. x \<noteq> a) (get_agents key (Some (Suc n)) r))"
proof -
  have "max 1 n = n" using assms(3) by simp
  then show ?thesis
    using get_agents_order [OF ring_ok_remove [OF assms(1)], of key "Some n" a]
      get_agents_order [OF assms(1), of key "Some (Suc n)"]
      remove_order [OF assms(1,2), of key a]
      take_filter_neq [OF distinct_owners_in_order assms(3), of a key r]
    by simp
qed

lemma removal_moves_only_own_keys_witness:
  "get_agents (lit ''paris'') (Some 1) (ring_remove (lit ''b'') ring_ab) =
    take 1 (filter (\<lambda>x. x \<noteq> lit ''b'') (get_agents (lit ''paris'') (Some (Suc 1)) ring_ab))"
  by (rule removal_moves_only_own_keys [OF ring_ok_ab collision_free_ab]) simp

end
