(* ===== verification/Hive_Dht.thy ===== *)
theory Hive_Dht
  imports Hive_Ring_Facts
begin

text \<open>
  The shard store and the router of \<open>amplihack-hive/src/dht\<close> (\<open>store.rs\<close> and
  \<open>router.rs\<close>), without the ranked search and the statistics, whose scores are floating point.
  A fact keeps its text fields; \<open>sf_rest\<close> stands for the fields the operations only copy
  (confidence, time stamp, metadata).
\<close>

section \<open>Shard stores\<close>

record 'm shard_fact =
  sf_fact_id :: rstring
  sf_content :: rstring
  sf_concept :: rstring
  sf_source_agent :: rstring
  sf_tags :: "rstring list"
  sf_rest :: 'm
  sf_ring_position :: "32 word"

definition shard_fact_new :: "'m \<Rightarrow> rstring \<Rightarrow> rstring \<Rightarrow> 'm shard_fact" where
  "shard_fact_new defaults fact_id content =
    \<lparr>sf_fact_id = fact_id, sf_content = content, sf_concept = [], sf_source_agent = [], sf_tags = [],
     sf_rest = defaults, sf_ring_position = 0\<rparr>"

record 'm shard_store =
  ss_agent_id :: rstring
  ss_facts :: "(rstring \<times> 'm shard_fact) list"
  ss_content_index :: "(rstring \<times> rstring) list"

definition shard_new :: "rstring \<Rightarrow> 'm shard_store" where
  "shard_new agent = \<lparr>ss_agent_id = agent, ss_facts = [], ss_content_index = []\<rparr>"

text \<open>\<open>format!("{:x}", hash_key(content))\<close>.\<close>

definition content_hash :: "rstring \<Rightarrow> rstring" where
  "content_hash content = show_radix 16 (unat (hash_key content))"

definition shard_put :: "'m shard_fact \<Rightarrow> 'm shard_store \<Rightarrow> bool \<times> 'm shard_store" where
  "shard_put fc s =
    (let h = content_hash (sf_content fc)
     in if map_of (ss_content_index s) h \<noteq> None then (False, s)
        else (True, s\<lparr>ss_content_index := AList.update h (sf_fact_id fc) (ss_content_index s),
                      ss_facts := AList.update (sf_fact_id fc) fc (ss_facts s)\<rparr>))"

definition shard_get :: "'m shard_store \<Rightarrow> rstring \<Rightarrow> 'm shard_fact option" where
  "shard_get s fact_id = map_of (ss_facts s) fact_id"

definition fact_ids :: "'m shard_store \<Rightarrow> rstring list" where
  "fact_ids s = map fst (ss_facts s)"

definition all_facts :: "'m shard_store \<Rightarrow> 'm shard_fact list" where
  "all_facts s = map snd (ss_facts s)"

definition fact_count :: "'m shard_store \<Rightarrow> nat" where
  "fact_count s = length (ss_facts s)"

section \<open>The router\<close>

record 'm dht_router =
  dr_ring :: hash_ring
  dr_shards :: "(rstring \<times> 'm shard_store) list"
  dr_query_fanout :: nat

definition router_new :: "nat \<Rightarrow> nat \<Rightarrow> 'm dht_router" where
  "router_new replication_factor query_fanout =
    \<lparr>dr_ring = ring_new replication_factor, dr_shards = [], dr_query_fanout = query_fanout\<rparr>"

definition router_with_defaults :: "'m dht_router" where
  "router_with_defaults = router_new default_replication_factor 5"

definition router_add_agent :: "rstring \<Rightarrow> 'm dht_router \<Rightarrow> 'm dht_router" where
  "router_add_agent agent r =
    r\<lparr>dr_ring := ring_add agent (dr_ring r),
      dr_shards := (if map_of (dr_shards r) agent = None
        then AList.update agent (shard_new agent) (dr_shards r) else dr_shards r)\<rparr>"

definition router_remove_agent :: "rstring \<Rightarrow> 'm dht_router \<Rightarrow> 'm shard_fact list \<times> 'm dht_router" where
  "router_remove_agent agent r =
    ((case map_of (dr_shards r) agent of Some shard \<Rightarrow> all_facts shard | None \<Rightarrow> []),
     r\<lparr>dr_ring := ring_remove agent (dr_ring r), dr_shards := AList.delete agent (dr_shards r)\<rparr>)"

definition get_shard :: "'m dht_router \<Rightarrow> rstring \<Rightarrow> 'm shard_store option" where
  "get_shard r agent = map_of (dr_shards r) agent"

text \<open>The loop of \<open>store_fact\<close> over the owners.\<close>

fun store_loop ::
  "'m shard_fact \<Rightarrow> rstring list \<Rightarrow> (rstring \<times> 'm shard_store) list \<Rightarrow>
   rstring list \<times> (rstring \<times> 'm shard_store) list" where
  "store_loop fc [] shards = ([], shards)"
| "store_loop fc (agent # owners) shards =
    (case map_of shards agent of
       None \<Rightarrow> store_loop fc owners shards
     | Some shard \<Rightarrow>
         (let (stored, shard') = shard_put fc shard;
              (stored_on, shards') = store_loop fc owners (AList.update agent shard' shards)
          in (if stored then agent # stored_on else stored_on, shards')))"

text \<open>\<open>None\<close> is the panic of the routing key.\<close>

definition store_fact ::
  "(rstring \<Rightarrow> rstring) \<Rightarrow> 'm shard_fact \<Rightarrow> 'm dht_router \<Rightarrow> (rstring list \<times> 'm dht_router) option" where
  "store_fact lower fc r =
    (case content_key lower (sf_content fc) of
       None \<Rightarrow> None
     | Some key \<Rightarrow>
         (let fc' = fc\<lparr>sf_ring_position := hash_key key\<rparr>;
              owners = get_agents key None (dr_ring r);
              (stored_on, shards) = store_loop fc' owners (dr_shards r)
          in Some (stored_on, r\<lparr>dr_shards := shards\<rparr>)))"

definition get_storage_targets ::
  "(rstring \<Rightarrow> rstring) \<Rightarrow> 'm shard_fact \<Rightarrow> 'm dht_router \<Rightarrow> (rstring list \<times> 'm shard_fact) option" where
  "get_storage_targets lower fc r =
    (case content_key lower (sf_content fc) of
       None \<Rightarrow> None
     | Some key \<Rightarrow> Some (get_agents key None (dr_ring r), fc\<lparr>sf_ring_position := hash_key key\<rparr>))"

text \<open>The query text is not used.\<close>

definition select_query_targets :: "'m dht_router \<Rightarrow> rstring list" where
  "select_query_targets r =
    (let all_agents = agent_ids (dr_ring r);
         max_targets = dr_query_fanout r * 3;
         non_empty = filter (\<lambda>a. case map_of (dr_shards r) a of
            Some s \<Rightarrow> 0 < fact_count s | None \<Rightarrow> False) all_agents
     in if length non_empty < length all_agents then all_agents else take max_targets non_empty)"

definition all_agents :: "'m dht_router \<Rightarrow> rstring list" where
  "all_agents r = agent_ids (dr_ring r)"

section \<open>The interface of the placement\<close>

text \<open>The agent has a shard, and the shard has no fact of that content hash.\<close>

definition accepts :: "rstring \<Rightarrow> (rstring \<times> 'm shard_store) list \<Rightarrow> rstring \<Rightarrow> bool" where
  "accepts h shards a = (case map_of shards a of None \<Rightarrow> False
     | Some s \<Rightarrow> map_of (ss_content_index s) h = None)"

lemma accepts_simps:
  "map_of shards a = Some s \<Longrightarrow> accepts h shards a = (map_of (ss_content_index s) h = None)"
  "map_of shards a = None \<Longrightarrow> \<not> accepts h shards a"
  by (simp_all add: accepts_def)

text \<open>
  What the router needs of the ring: for a key, a list of agents without repetitions.  The lemmas
  on the store loop are proved from that alone.
\<close>

locale placement =
  fixes owners_of :: "'r \<Rightarrow> rstring \<Rightarrow> rstring list"
  assumes owners_distinct: "distinct (owners_of r key)"
begin

lemma accepts_update:
  "a \<noteq> b \<Longrightarrow> accepts h (AList.update b s shards) a = accepts h shards a"
  by (simp add: accepts_def update_conv')

lemma store_loop_stored:
  assumes "distinct owners"
  shows "fst (store_loop f owners shards) = filter (accepts (content_hash (sf_content f)) shards) owners"
  using assms
proof (induction f owners shards rule: store_loop.induct)
  case (2 f a owners shards)
  show ?case
  proof (cases "map_of shards a")
    case (Some s)
    obtain st s' where st: "shard_put f s = (st, s')" by fastforce
    have "fst (store_loop f owners (AList.update a s' shards)) =
        filter (accepts (content_hash (sf_content f)) (AList.update a s' shards)) owners"
      using 2(2) [OF Some st [symmetric]] 2(3) by simp
    also have "\<dots> = filter (accepts (content_hash (sf_content f)) shards) owners"
      using 2(3) by (intro filter_cong refl) (metis accepts_update distinct.simps(2))
    finally show ?thesis
      using Some st
      by (auto simp: accepts_simps shard_put_def Let_def split: prod.splits if_splits)
  qed (use 2 in \<open>auto simp: accepts_simps\<close>)
qed simp

lemma store_loop_shards:
  assumes "distinct owners"
  shows "map_of (snd (store_loop f owners shards)) a =
    (if a \<in> set owners then map_option (\<lambda>s. snd (shard_put f s)) (map_of shards a) else map_of shards a)"
  using assms
proof (induction f owners shards rule: store_loop.induct)
  case (2 f b owners shards)
  show ?case
  proof (cases "map_of shards b")
    case (Some s)
    obtain st s' where st: "shard_put f s = (st, s')" by fastforce
    show ?thesis
      using 2(2) [OF Some st [symmetric]] 2(3) Some st
      by (auto simp: update_conv' split: prod.splits)
  qed (use 2 in auto)
qed simp

lemma stored_on_owners:
  "fst (store_loop f (owners_of r key) shards) =
    filter (accepts (content_hash (sf_content f)) shards) (owners_of r key)"
  using store_loop_stored owners_distinct by blast

lemma shards_after:
  "map_of (snd (store_loop f (owners_of r key) shards)) a =
    (if a \<in> set (owners_of r key) then map_option (\<lambda>s. snd (shard_put f s)) (map_of shards a)
     else map_of shards a)"
  using store_loop_shards owners_distinct by blast

end

lemma distinct_owners_loop: "distinct seen \<Longrightarrow> distinct (owners_loop owner n seen ps)"
  by (induction owner n seen ps rule: owners_loop.induct) (auto split: option.splits)

interpretation ring_placement: placement "\<lambda>r key. get_agents key None r"
  by unfold_locales (simp add: get_agents_def Let_def distinct_owners_loop)

end
