(* ===== verification/Hive_Dht_Facts.thy ===== *)
theory Hive_Dht_Facts
  imports Hive_Dht
begin

text \<open>
  What the router of the distributed hash table guarantees, and the two ways the code loses or
  refuses a fact.
\<close>

section \<open>The invariant\<close>

text \<open>Every stored fact is filed under its id and its content hash is in the index.\<close>

definition shard_ok :: "'m shard_store \<Rightarrow> bool" where
  "shard_ok s \<longleftrightarrow> (\<forall>i f. map_of (ss_facts s) i = Some f \<longrightarrow>
     sf_fact_id f = i \<and> map_of (ss_content_index s) (content_hash (sf_content f)) \<noteq> None)"

text \<open>The router has exactly one shard for every agent of the ring.\<close>

definition router_ok :: "'m dht_router \<Rightarrow> bool" where
  "router_ok r \<longleftrightarrow> ring_ok (dr_ring r) \<and> dom (map_of (dr_shards r)) = set (agent_ids (dr_ring r)) \<and>
     (\<forall>a s. map_of (dr_shards r) a = Some s \<longrightarrow> shard_ok s)"

lemma shard_ok_new: "shard_ok (shard_new a)"
  by (simp add: shard_ok_def shard_new_def)

lemma shard_ok_put: "shard_ok s \<Longrightarrow> shard_ok (snd (shard_put f s))"
  by (auto simp: shard_ok_def shard_put_def Let_def update_conv' split: if_splits)

lemma agent_ids_add: "set (agent_ids (ring_add a r)) = insert a (set (agent_ids r))"
  by (auto simp: ring_add_def agent_ids_def Let_def dom_update map_of_eq_None_iff split: if_splits)

lemma agent_ids_remove: "set (agent_ids (ring_remove a r)) = set (agent_ids r) - {a}"
proof (cases "map_of (hr_positions r) a")
  case None
  then have "ring_remove a r = r" by (simp only: ring_remove_def option.case)
  moreover have "a \<notin> set (agent_ids r)" using None by (simp add: agent_ids_def map_of_eq_None_iff)
  ultimately show ?thesis by simp
next
  case (Some ps)
  then show ?thesis by (auto simp: ring_remove_def agent_ids_def Let_def delete_keys)
qed

lemma router_ok_new: "router_ok (router_new k q)"
  by (simp add: router_ok_def router_new_def ring_ok_new agent_ids_def) (simp add: ring_new_def)

lemma router_ok_add: "router_ok r \<Longrightarrow> router_ok (router_add_agent a r)"
  unfolding router_ok_def
  by (auto simp: router_add_agent_def ring_ok_add agent_ids_add update_conv' shard_ok_new split: if_splits)

lemma router_ok_remove: "router_ok r \<Longrightarrow> router_ok (snd (router_remove_agent a r))"
  unfolding router_ok_def
  by (auto simp: router_remove_agent_def ring_ok_remove agent_ids_remove delete_conv' split: if_splits)

lemma owners_have_shards:
  assumes "router_ok r" "a \<in> set (get_agents key n (dr_ring r))"
  shows "\<exists>s. map_of (dr_shards r) a = Some s"
  using assms get_agents_in_ring [of "dr_ring r" key n] unfolding router_ok_def by blast

lemma store_factE:
  assumes "store_fact lower f r = Some (stored_on, r')"
  obtains key where "content_key lower (sf_content f) = Some key"
    "stored_on = filter (accepts (content_hash (sf_content f)) (dr_shards r)) (get_agents key None (dr_ring r))"
    "dr_ring r' = dr_ring r"
    "map_of (dr_shards r') = (\<lambda>a. if a \<in> set (get_agents key None (dr_ring r))
       then map_option (\<lambda>s. snd (shard_put (f\<lparr>sf_ring_position := hash_key key\<rparr>) s)) (map_of (dr_shards r) a)
       else map_of (dr_shards r) a)"
proof -
  obtain key where key: "content_key lower (sf_content f) = Some key"
    using assms by (auto simp: store_fact_def split: option.splits)
  let ?f = "f\<lparr>sf_ring_position := hash_key key\<rparr>"
  have "stored_on = fst (store_loop ?f (get_agents key None (dr_ring r)) (dr_shards r))"
    "r' = r\<lparr>dr_shards := snd (store_loop ?f (get_agents key None (dr_ring r)) (dr_shards r))\<rparr>"
    using assms key by (auto simp: store_fact_def Let_def split: prod.splits)
  then show ?thesis
    using that [OF key] ring_placement.stored_on_owners [where f = ?f and r = "dr_ring r" and key = key and shards = "dr_shards r"]
      ring_placement.shards_after [where f = ?f and r = "dr_ring r" and key = key and shards = "dr_shards r"]
    by (simp add: fun_eq_iff)
qed

lemma router_ok_store:
  assumes "router_ok r" "store_fact lower f r = Some (stored_on, r')"
  shows "router_ok r'"
  using assms(2)
proof (rule store_factE)
  fix key
  assume "dr_ring r' = dr_ring r"
    "map_of (dr_shards r') = (\<lambda>a. if a \<in> set (get_agents key None (dr_ring r))
       then map_option (\<lambda>s. snd (shard_put (f\<lparr>sf_ring_position := hash_key key\<rparr>) s)) (map_of (dr_shards r) a)
       else map_of (dr_shards r) a)"
  then show "router_ok r'"
    using assms(1) unfolding router_ok_def
    by (auto simp: dom_def shard_ok_put split: if_splits)
qed

text \<open>What a shard has after \<open>store\<close>: the content hash is indexed, and an accepted fact is found.\<close>

lemma shard_put_indexed: "map_of (ss_content_index (snd (shard_put f s))) (content_hash (sf_content f)) \<noteq> None"
  by (simp add: shard_put_def Let_def update_conv')

lemma shard_put_accepted:
  "map_of (ss_content_index s) (content_hash (sf_content f)) = None \<Longrightarrow>
   shard_get (snd (shard_put f s)) (sf_fact_id f) = Some f"
  by (simp add: shard_put_def shard_get_def Let_def update_conv')

lemma store_fact_owners:
  assumes "router_ok r" "store_fact lower f r = Some (stored_on, r')"
    "content_key lower (sf_content f) = Some key"
  defines "owners \<equiv> get_agents key None (dr_ring r)"
  shows "stored_on = filter (accepts (content_hash (sf_content f)) (dr_shards r)) owners"
    and "a \<in> set owners \<Longrightarrow> \<exists>s. get_shard r a = Some s \<and>
      get_shard r' a = Some (snd (shard_put (f\<lparr>sf_ring_position := hash_key key\<rparr>) s))"
    and "a \<notin> set owners \<Longrightarrow> get_shard r' a = get_shard r a"
  using assms(2)
  by (rule store_factE; use assms(3) owners_have_shards [OF assms(1), of a key None] in
      \<open>auto simp: owners_def get_shard_def\<close>)+

text \<open>An accepted fact is indexed under its hash, and the rest of the shard stays.\<close>

lemma shard_put_effect:
  assumes "map_of (ss_content_index s) (content_hash (sf_content f)) = None"
  shows "map_of (ss_content_index (snd (shard_put f s))) (content_hash (sf_content f)) = Some (sf_fact_id f)"
    "i \<noteq> sf_fact_id f \<Longrightarrow> shard_get (snd (shard_put f s)) i = shard_get s i"
    "h \<noteq> content_hash (sf_content f) \<Longrightarrow> map_of (ss_content_index (snd (shard_put f s))) h = map_of (ss_content_index s) h"
    "ss_agent_id (snd (shard_put f s)) = ss_agent_id s"
  using assms by (simp_all add: shard_put_def shard_get_def Let_def update_conv')

lemma shard_put_refused:
  "map_of (ss_content_index s) (content_hash (sf_content f)) \<noteq> None \<Longrightarrow> snd (shard_put f s) = s"
  by (simp add: shard_put_def Let_def)

text \<open>
  C36. Storing a fact on a consistent router keeps it consistent; the agents reported are the owners of its content key, at most
  the replication factor and each once, less those whose shard has the 32-bit hash of the content in its index.  Each agent
  reported then finds the fact by its id and has the hash indexed to it, and all it had under other ids and other hashes is as before;
  the shards of the other owners, of all other agents, and the ring are unchanged.
\<close>

theorem store_fact_replicates:
  assumes "router_ok r" "store_fact lower f r = Some (stored_on, r')"
    "content_key lower (sf_content f) = Some key"
  shows "router_ok r' \<and> dr_ring r' = dr_ring r \<and>
    stored_on = filter (accepts (content_hash (sf_content f)) (dr_shards r)) (get_agents key None (dr_ring r)) \<and>
    distinct stored_on \<and> length stored_on \<le> max 1 (hr_factor (dr_ring r)) \<and>
    (\<forall>a \<in> set (get_agents key None (dr_ring r)). \<exists>s s'. get_shard r a = Some s \<and> get_shard r' a = Some s' \<and>
       (if a \<in> set stored_on
        then map_of (ss_content_index s) (content_hash (sf_content f)) = None \<and>
          shard_get s' (sf_fact_id f) = Some (f\<lparr>sf_ring_position := hash_key key\<rparr>) \<and>
          map_of (ss_content_index s') (content_hash (sf_content f)) = Some (sf_fact_id f) \<and>
          (\<forall>i. i \<noteq> sf_fact_id f \<longrightarrow> shard_get s' i = shard_get s i) \<and>
          (\<forall>h. h \<noteq> content_hash (sf_content f) \<longrightarrow> map_of (ss_content_index s') h = map_of (ss_content_index s) h) \<and>
          ss_agent_id s' = ss_agent_id s
        else map_of (ss_content_index s) (content_hash (sf_content f)) \<noteq> None \<and> s' = s)) \<and>
    (\<forall>a. a \<notin> set (get_agents key None (dr_ring r)) \<longrightarrow> get_shard r' a = get_shard r a)"
proof -
  let ?f = "f\<lparr>sf_ring_position := hash_key key\<rparr>"
  note st = store_fact_owners [OF assms]
  have ring: "ring_ok (dr_ring r)" using assms(1) by (simp add: router_ok_def)
  have len: "length stored_on \<le> max 1 (hr_factor (dr_ring r))"
    using get_agents_length [OF ring, of key None] length_filter_le le_trans
    unfolding st(1) by (metis option.simps(4))
  have same: "dr_ring r' = dr_ring r" using assms(2) by (rule store_factE)
  have owner: "\<exists>s s'. get_shard r a = Some s \<and> get_shard r' a = Some s' \<and>
       (if a \<in> set stored_on
        then map_of (ss_content_index s) (content_hash (sf_content f)) = None \<and> shard_get s' (sf_fact_id f) = Some ?f \<and>
          map_of (ss_content_index s') (content_hash (sf_content f)) = Some (sf_fact_id f) \<and>
          (\<forall>i. i \<noteq> sf_fact_id f \<longrightarrow> shard_get s' i = shard_get s i) \<and>
          (\<forall>h. h \<noteq> content_hash (sf_content f) \<longrightarrow> map_of (ss_content_index s') h = map_of (ss_content_index s) h) \<and>
          ss_agent_id s' = ss_agent_id s
        else map_of (ss_content_index s) (content_hash (sf_content f)) \<noteq> None \<and> s' = s)"
    if a: "a \<in> set (get_agents key None (dr_ring r))" for a
  proof -
    obtain s where s: "get_shard r a = Some s" "get_shard r' a = Some (snd (shard_put ?f s))" using st(2) [OF a] by blast
    have "a \<in> set stored_on \<longleftrightarrow> map_of (ss_content_index s) (content_hash (sf_content f)) = None"
      using s(1) a unfolding st(1) get_shard_def by (simp add: accepts_simps)
    then show ?thesis
      using s shard_put_effect [of s ?f] shard_put_accepted [of s ?f] shard_put_refused [of s ?f] by auto
  qed
  show ?thesis
    using router_ok_store [OF assms(1,2)] same st(1) len owner st(3) get_agents_distinct [OF ring] distinct_filter by metis
qed

definition sample_router :: "unit dht_router" where
  "sample_router = router_add_agent (lit ''b'') (router_add_agent (lit ''a'') router_with_defaults)"

definition sample_fact :: "unit shard_fact" where
  "sample_fact = shard_fact_new () (lit ''f1'') (lit ''Paris is the capital of France'')"

lemma sample_router_ok: "router_ok sample_router"
  unfolding sample_router_def router_with_defaults_def
  by (intro router_ok_add router_ok_new)

lemma sample_key: "content_key to_ascii_lowercase (sf_content sample_fact) = Some (lit ''paris capital france'')"
  by code_simp

lemma store_fact_replicates_witness:
  "\<exists>stored_on r'. store_fact to_ascii_lowercase sample_fact sample_router = Some (stored_on, r') \<and> router_ok r' \<and> distinct stored_on \<and>
     dr_ring r' = dr_ring sample_router"
proof -
  have "store_fact to_ascii_lowercase sample_fact sample_router \<noteq> None"
    by (simp add: store_fact_def sample_key Let_def split: prod.split)
  then obtain stored_on r' where "store_fact to_ascii_lowercase sample_fact sample_router = Some (stored_on, r')" by fastforce
  then show ?thesis using store_fact_replicates [OF sample_router_ok _ sample_key, of stored_on r'] by blast
qed

section \<open>Facts the code loses or refuses\<close>

text \<open>Eight words of one accented letter, each two bytes long, behind a space.\<close>

definition accented :: rstring where
  "accented = concat (replicate 8 [ch_space, 233])"

text \<open>
  A content of short words whose twentieth byte falls inside a character makes the routing key,
  and so the store operation, panic on every router, whatever the lowercase function.
\<close>

lemma store_fact_panics_inside_character:
  "store_fact lower (shard_fact_new defaults fact_id accented) r = None"
proof -
  have words: "list_all (\<lambda>w. utf8_len w = 2) (split_whitespace accented)" by code_simp
  then have "filter (significant lower) (split_whitespace accented) = []"
    by (auto simp: list_all_iff significant_def filter_empty_conv)
  moreover have "slice_to (min (utf8_len accented) 20) accented = None" by code_simp
  ultimately show ?thesis by (simp add: store_fact_def content_key_def shard_fact_new_def)
qed

text \<open>
  A shard takes two different contents with the same 32-bit hash for duplicates: after
  \<open>costarring\<close> it refuses \<open>liquid\<close> and does not change.
\<close>

lemma store_refuses_colliding_content:
  "shard_put (shard_fact_new defaults i (lit ''liquid''))
      (snd (shard_put (shard_fact_new defaults j (lit ''costarring'')) s)) =
    (False, snd (shard_put (shard_fact_new defaults j (lit ''costarring'')) s))"
proof -
  have "hash_key (lit ''liquid'') = hash_key (lit ''costarring'')" by code_simp
  then have "content_hash (lit ''liquid'') = content_hash (lit ''costarring'')"
    by (simp only: content_hash_def)
  then show ?thesis
    using shard_put_indexed [of "shard_fact_new defaults j (lit ''costarring'')" s]
    by (subst shard_put_def) (simp add: shard_fact_new_def Let_def del: lit_Cons)
qed

end
