(* ===== verification/Hive_Bus.thy ===== *)
theory Hive_Bus
  imports Rust_Num
begin

text \<open>
  The in-process event bus of \<open>amplihack-hive/src/event_bus.rs\<close>: subscriptions with an optional
  set of topics, and one bounded mailbox for each agent.  The hash maps are association lists; the
  order of their keys does not matter, since each mailbox is served alone.  The warning that
  \<open>publish\<close> logs is left out.
\<close>

definition max_mailbox_size :: nat where "max_mailbox_size = 1000000"

text \<open>\<open>be_payload\<close> is the JSON payload, which the bus only copies.\<close>

record 'p bus_event =
  be_event_id :: rstring
  be_topic :: rstring
  be_payload :: 'p
  be_source_id :: rstring
  be_timestamp :: int

type_synonym subscription = "rstring list option"

record 'p event_bus =
  eb_subscriptions :: "(rstring \<times> subscription) list"
  eb_mailboxes :: "(rstring \<times> 'p bus_event list) list"
  eb_closed :: bool

definition bus_new :: "'p event_bus" where
  "bus_new = \<lparr>eb_subscriptions = [], eb_mailboxes = [], eb_closed = False\<rparr>"

definition unwrap_or_default :: "'a list option \<Rightarrow> 'a list" where
  "unwrap_or_default m = (case m of None \<Rightarrow> [] | Some xs \<Rightarrow> xs)"

definition sub_matches :: "subscription \<Rightarrow> 'p bus_event \<Rightarrow> bool" where
  "sub_matches sub e = (case sub of Some types \<Rightarrow> be_topic e \<in> set types | None \<Rightarrow> True)"

definition mailbox_push :: "'p bus_event \<Rightarrow> 'p bus_event list \<Rightarrow> 'p bus_event list" where
  "mailbox_push e mailbox =
    (if max_mailbox_size \<le> length mailbox then tl mailbox else mailbox) @ [e]"

text \<open>One turn of the loop of \<open>publish\<close>.\<close>

definition deliver ::
  "(rstring \<times> subscription) list \<Rightarrow> 'p bus_event \<Rightarrow> rstring \<Rightarrow>
   (rstring \<times> 'p bus_event list) list \<Rightarrow> (rstring \<times> 'p bus_event list) list" where
  "deliver subs e agent boxes =
    (case map_of subs agent of
       Some sub \<Rightarrow>
         if sub_matches sub e
         then AList.update agent (mailbox_push e (unwrap_or_default (map_of boxes agent))) boxes
         else boxes
     | None \<Rightarrow> boxes)"

definition publish :: "'p bus_event \<Rightarrow> 'p event_bus \<Rightarrow> 'p event_bus" where
  "publish e b =
    (if eb_closed b then b
     else b\<lparr>eb_mailboxes := fold (deliver (eb_subscriptions b) e) (map fst (eb_subscriptions b)) (eb_mailboxes b)\<rparr>)"

definition subscribe :: "rstring \<Rightarrow> rstring list option \<Rightarrow> 'p event_bus \<Rightarrow> 'p event_bus" where
  "subscribe agent types b =
    b\<lparr>eb_subscriptions := AList.update agent types (eb_subscriptions b),
      eb_mailboxes := (if map_of (eb_mailboxes b) agent = None
        then AList.update agent [] (eb_mailboxes b) else eb_mailboxes b)\<rparr>"

definition unsubscribe :: "rstring \<Rightarrow> 'p event_bus \<Rightarrow> 'p event_bus" where
  "unsubscribe agent b =
    b\<lparr>eb_subscriptions := AList.delete agent (eb_subscriptions b),
      eb_mailboxes := AList.delete agent (eb_mailboxes b)\<rparr>"

definition pending_events :: "rstring \<Rightarrow> 'p event_bus \<Rightarrow> 'p bus_event list" where
  "pending_events agent b = unwrap_or_default (map_of (eb_mailboxes b) agent)"

definition poll :: "rstring \<Rightarrow> 'p event_bus \<Rightarrow> 'p bus_event list \<times> 'p event_bus" where
  "poll agent b =
    (unwrap_or_default (map_of (eb_mailboxes b) agent),
     b\<lparr>eb_mailboxes := AList.delete agent (eb_mailboxes b)\<rparr>)"

definition bus_close :: "'p event_bus \<Rightarrow> 'p event_bus" where
  "bus_close b = b\<lparr>eb_subscriptions := [], eb_mailboxes := [], eb_closed := True\<rparr>"

section \<open>The abstract mailbox\<close>

text \<open>The last \<open>n\<close> elements: what a bounded queue that drops its oldest element keeps.\<close>

definition last_n :: "nat \<Rightarrow> 'a list \<Rightarrow> 'a list" where
  "last_n n xs = drop (length xs - n) xs"

lemma last_n_short [simp]: "length xs \<le> n \<Longrightarrow> last_n n xs = xs"
  by (simp add: last_n_def)

lemma last_n_long: "n \<le> length ys \<Longrightarrow> last_n n (xs @ ys) = last_n n ys"
  by (simp add: last_n_def)

lemma last_n_append: "last_n n (last_n n xs @ ys) = last_n n (xs @ ys)"
proof (cases "length xs \<le> n")
  case False
  let ?k = "length xs - n"
  have "last_n n ((take ?k xs @ drop ?k xs) @ ys) = last_n n (drop ?k xs @ ys)"
    using False by (subst append_assoc) (simp add: last_n_long)
  then show ?thesis by (simp add: last_n_def [of n xs])
qed simp

lemma mailbox_push_last_n:
  "length q \<le> max_mailbox_size \<Longrightarrow> mailbox_push e q = last_n max_mailbox_size (q @ [e])"
  by (auto simp: mailbox_push_def last_n_def max_mailbox_size_def drop_Suc drop_Cons' tl_drop
      Suc_diff_le intro: arg_cong [where f = "\<lambda>x. x @ [e]"])

lemma deliver_other: "a \<noteq> b \<Longrightarrow> map_of (deliver subs e b boxes) a = map_of boxes a"
  by (auto simp: deliver_def update_conv' split: option.splits)

lemma deliver_own:
  "map_of (deliver subs e a boxes) a =
    (case map_of subs a of
       Some sub \<Rightarrow> if sub_matches sub e then Some (mailbox_push e (unwrap_or_default (map_of boxes a)))
         else map_of boxes a
     | None \<Rightarrow> map_of boxes a)"
  by (auto simp: deliver_def update_conv' split: option.splits)

lemma deliver_all:
  assumes "distinct as"
  shows "map_of (fold (deliver subs e) as boxes) a =
    (if a \<in> set as then map_of (deliver subs e a boxes) a else map_of boxes a)"
  using assms
proof (induction as arbitrary: boxes)
  case (Cons b as)
  show ?case
  proof (cases "a = b")
    case False
    then have "map_of (deliver subs e a (deliver subs e b boxes)) a = map_of (deliver subs e a boxes) a"
      by (auto simp: deliver_own deliver_other split: option.splits)
    then show ?thesis using Cons False by (simp add: deliver_other)
  qed (use Cons in auto)
qed simp

text \<open>Every mailbox within its bound, and no key twice.\<close>

definition bus_ok :: "'p event_bus \<Rightarrow> bool" where
  "bus_ok b \<longleftrightarrow> distinct (map fst (eb_subscriptions b)) \<and>
     (\<forall>a q. map_of (eb_mailboxes b) a = Some q \<longrightarrow> length q \<le> max_mailbox_size) \<and>
     (eb_closed b \<longrightarrow> eb_subscriptions b = [] \<and> eb_mailboxes b = [])"

lemma bus_ok_new: "bus_ok bus_new"
  by (simp add: bus_ok_def bus_new_def)

lemma publish_pending:
  assumes "bus_ok b"
  shows "map_of (eb_mailboxes (publish e b)) a = map_of (deliver (eb_subscriptions b) e a (eb_mailboxes b)) a"
proof (cases "eb_closed b")
  case False
  have "a \<notin> set (map fst (eb_subscriptions b)) \<Longrightarrow> map_of (eb_subscriptions b) a = None"
    by (simp add: map_of_eq_None_iff)
  then show ?thesis
    using False deliver_all [of "map fst (eb_subscriptions b)" "eb_subscriptions b" e "eb_mailboxes b" a] assms
    by (auto simp: publish_def bus_ok_def deliver_own)
qed (use assms in \<open>simp add: publish_def bus_ok_def deliver_def\<close>)

lemma publish_subscriptions: "eb_subscriptions (publish e b) = eb_subscriptions b" "eb_closed (publish e b) = eb_closed b"
  by (simp_all add: publish_def)

lemma length_mailbox_push: "length q \<le> max_mailbox_size \<Longrightarrow> length (mailbox_push e q) \<le> max_mailbox_size"
  by (simp add: mailbox_push_last_n last_n_def)

lemma bus_ok_publish:
  assumes "bus_ok b"
  shows "bus_ok (publish e b)"
proof -
  have "length (unwrap_or_default (map_of (eb_mailboxes b) a)) \<le> max_mailbox_size" for a
    using assms by (auto simp: bus_ok_def unwrap_or_default_def split: option.splits)
  then show ?thesis
    using assms publish_pending [OF assms, of e]
    by (auto simp: bus_ok_def publish_subscriptions deliver_own length_mailbox_push publish_def
        split: option.splits if_splits)
qed

lemma bus_ok_subscribe: "bus_ok b \<Longrightarrow> \<not> eb_closed b \<Longrightarrow> bus_ok (subscribe a ts b)"
  by (auto simp: bus_ok_def subscribe_def distinct_update update_conv' split: if_splits)

lemma bus_ok_unsubscribe: "bus_ok b \<Longrightarrow> bus_ok (unsubscribe a b)"
  by (auto simp: bus_ok_def unsubscribe_def distinct_delete delete_conv' split: if_splits)

lemma bus_ok_poll: "bus_ok b \<Longrightarrow> bus_ok (snd (poll a b))"
  by (auto simp: bus_ok_def poll_def delete_conv' split: if_splits)

lemma bus_ok_close: "bus_ok (bus_close b)"
  by (simp add: bus_ok_def bus_close_def)

lemma publish_one:
  assumes "bus_ok b" "map_of (eb_subscriptions b) a = Some sub"
  shows "pending_events a (publish e b) =
    last_n max_mailbox_size (pending_events a b @ filter (sub_matches sub) [e])"
proof -
  have len: "length (pending_events a b) \<le> max_mailbox_size"
    using assms(1) by (auto simp: bus_ok_def pending_events_def unwrap_or_default_def split: option.splits)
  show ?thesis
  proof (cases "sub_matches sub e")
    case True
    then have "pending_events a (publish e b) = mailbox_push e (pending_events a b)"
      using publish_pending [OF assms(1), of e a] assms(2)
      by (simp add: pending_events_def deliver_own unwrap_or_default_def)
    then show ?thesis using True mailbox_push_last_n [OF len] by simp
  next
    case False
    then have "pending_events a (publish e b) = pending_events a b"
      using publish_pending [OF assms(1), of e a] assms(2)
      by (simp add: pending_events_def deliver_own)
    then show ?thesis using False len by (simp add: last_n_def)
  qed
qed

text \<open>
  C37. A subscriber's poll returns, in order, the most recent events that match its subscription
  among what was pending and what was published since, up to the mailbox bound, and a second poll
  returns nothing.
\<close>

theorem poll_returns_recent_matches:
  assumes "bus_ok b" "map_of (eb_subscriptions b) a = Some sub"
  shows "fst (poll a (foldl (\<lambda>b e. publish e b) b es)) =
      last_n max_mailbox_size (pending_events a b @ filter (sub_matches sub) es) \<and>
    fst (poll a (snd (poll a (foldl (\<lambda>b e. publish e b) b es)))) = []"
proof -
  have "bus_ok (foldl (\<lambda>b e. publish e b) b es) \<and>
    eb_subscriptions (foldl (\<lambda>b e. publish e b) b es) = eb_subscriptions b \<and>
    pending_events a (foldl (\<lambda>b e. publish e b) b es) =
      last_n max_mailbox_size (pending_events a b @ filter (sub_matches sub) es)"
  proof (induction es rule: rev_induct)
    case Nil
    have "length (pending_events a b) \<le> max_mailbox_size"
      using assms(1) by (auto simp: bus_ok_def pending_events_def unwrap_or_default_def split: option.splits)
    then show ?case using assms(1) by (simp add: last_n_def)
  next
    case (snoc e es)
    let ?b = "foldl (\<lambda>b e. publish e b) b es"
    have "pending_events a (publish e ?b) =
        last_n max_mailbox_size (pending_events a ?b @ filter (sub_matches sub) [e])"
      using snoc.IH assms(2) by (intro publish_one) simp_all
    also have "\<dots> = last_n max_mailbox_size (pending_events a b @ filter (sub_matches sub) (es @ [e]))"
      using snoc.IH last_n_append [of max_mailbox_size "pending_events a b @ filter (sub_matches sub) es"
          "filter (sub_matches sub) [e]"]
      by simp
    finally show ?case using snoc.IH by (simp add: bus_ok_publish publish_subscriptions)
  qed
  then show ?thesis by (simp add: poll_def pending_events_def delete_conv' unwrap_or_default_def)
qed

definition sample_event :: "rstring \<Rightarrow> unit bus_event" where
  "sample_event topic = \<lparr>be_event_id = lit ''e'', be_topic = topic, be_payload = (), be_source_id = lit ''s'', be_timestamp = 0\<rparr>"

lemma poll_returns_recent_matches_witness:
  "fst (poll (lit ''a'') (foldl (\<lambda>b e. publish e b) (subscribe (lit ''a'') (Some [lit ''t'']) bus_new)
      [sample_event (lit ''t''), sample_event (lit ''u'')])) = [sample_event (lit ''t'')]"
proof -
  let ?b = "subscribe (lit ''a'') (Some [lit ''t'']) bus_new"
  have "bus_ok ?b" by (rule bus_ok_subscribe [OF bus_ok_new]) (simp add: bus_new_def)
  moreover have "map_of (eb_subscriptions ?b) (lit ''a'') = Some (Some [lit ''t''])"
    by (simp add: subscribe_def bus_new_def)
  ultimately have "fst (poll (lit ''a'') (foldl (\<lambda>b e. publish e b) ?b [sample_event (lit ''t''), sample_event (lit ''u'')])) =
      last_n max_mailbox_size (pending_events (lit ''a'') ?b @
        filter (sub_matches (Some [lit ''t''])) [sample_event (lit ''t''), sample_event (lit ''u'')])"
    by (intro poll_returns_recent_matches [THEN conjunct1])
  then show ?thesis
    by (simp add: sub_matches_def sample_event_def last_n_def max_mailbox_size_def pending_events_def
        subscribe_def bus_new_def unwrap_or_default_def)
qed

end
