(* ===== verification/Hive_Graph.thy ===== *)
theory Hive_Graph
  imports Rust_Num Complex_Main
begin

text \<open>
  The hive's knowledge graph of \<open>amplihack-hive/src/graph\<close> and the fact lifecycle of
  \<open>fact_lifecycle.rs\<close>.  Confidences, trust and times are the real values of the finite
  floating-point numbers, which these operations compare, clamp, subtract and scale;
  rounding and NaN are not modelled.  Fresh
  ids and clock readings are arguments, and so is \<open>lower\<close>, Unicode lowercase.  The
  searches that rank by a computed score are not modelled.
\<close>

section \<open>Data\<close>

record hive_fact =
  hf_fact_id :: rstring
  hf_concept :: rstring
  hf_content :: rstring
  hf_confidence :: real
  hf_source_id :: rstring
  hf_tags :: "rstring list"
  hf_created_at :: int
  hf_status :: rstring
  hf_metadata :: "(rstring \<times> rstring) list"

record hive_agent =
  ha_agent_id :: rstring
  ha_domain :: rstring
  ha_trust :: real
  ha_fact_count :: nat
  ha_status :: rstring

record hive_edge =
  hx_source_id :: rstring
  hx_target_id :: rstring
  hx_edge_type :: rstring
  hx_properties :: "(rstring \<times> rstring) list"

record hive_graph =
  hg_hive_id :: rstring
  hg_facts :: "hive_fact list"
  hg_agents :: "(rstring \<times> hive_agent) list"
  hg_edges :: "hive_edge list"
  hg_parent_id :: "rstring option"
  hg_children_ids :: "rstring list"

datatype hive_error = Invalid_confidence real | Graph_error rstring

definition broadcast_tag_prefix :: rstring where "broadcast_tag_prefix = lit ''broadcast:''"
definition escalation_tag_prefix :: rstring where "escalation_tag_prefix = lit ''escalation:''"

definition clamp :: "real \<Rightarrow> real \<Rightarrow> real \<Rightarrow> real" where
  "clamp lo hi x = (if x < lo then lo else if hi < x then hi else x)"

definition graph_with_id :: "rstring \<Rightarrow> hive_graph" where
  "graph_with_id hive_id =
    \<lparr>hg_hive_id = hive_id, hg_facts = [], hg_agents = [], hg_edges = [], hg_parent_id = None, hg_children_ids = []\<rparr>"

section \<open>Facts\<close>

definition graph_store_fact ::
  "rstring \<Rightarrow> int \<Rightarrow> rstring \<Rightarrow> rstring \<Rightarrow> real \<Rightarrow> rstring \<Rightarrow> rstring list \<Rightarrow> hive_graph \<Rightarrow>
   (hive_error, rstring) result \<times> hive_graph" where
  "graph_store_fact uuid now concept content confidence source tags g =
    (if \<not> (0 \<le> confidence \<and> confidence \<le> 1) then (Inl (Invalid_confidence confidence), g)
     else (Inr uuid, g\<lparr>hg_facts := hg_facts g @
       [\<lparr>hf_fact_id = uuid, hf_concept = concept, hf_content = content, hf_confidence = confidence,
         hf_source_id = source, hf_tags = tags, hf_created_at = now, hf_status = lit ''promoted'',
         hf_metadata = []\<rparr>]\<rparr>))"

text \<open>The stable sort with the greater confidence first.\<close>

definition by_confidence :: "hive_fact list \<Rightarrow> hive_fact list" where
  "by_confidence fs = sort_key (\<lambda>f. - hf_confidence f) fs"

definition query_facts ::
  "(rstring \<Rightarrow> rstring) \<Rightarrow> rstring \<Rightarrow> real \<Rightarrow> nat \<Rightarrow> hive_graph \<Rightarrow> hive_fact list" where
  "query_facts lower concept min_confidence limit g =
    take limit (by_confidence (filter (\<lambda>f. hf_status f \<noteq> lit ''retracted'' \<and>
        str_contains (lower concept) (lower (hf_concept f)) \<and> min_confidence \<le> hf_confidence f) (hg_facts g)))"

definition get_fact :: "rstring \<Rightarrow> hive_graph \<Rightarrow> hive_fact option" where
  "get_fact fact_id g = List.find (\<lambda>f. hf_fact_id f = fact_id) (hg_facts g)"

definition remove_fact :: "rstring \<Rightarrow> hive_graph \<Rightarrow> bool \<times> hive_graph" where
  "remove_fact fact_id g =
    (let facts = filter (\<lambda>f. hf_fact_id f \<noteq> fact_id) (hg_facts g)
     in (length facts < length (hg_facts g), g\<lparr>hg_facts := facts\<rparr>))"

text \<open>\<open>iter_mut().find(\<dots>)\<close>: the function is applied to the first match; the flag tells
whether there was one.\<close>

fun update_first :: "('a \<Rightarrow> bool) \<Rightarrow> ('a \<Rightarrow> 'a) \<Rightarrow> 'a list \<Rightarrow> bool \<times> 'a list" where
  "update_first P f [] = (False, [])"
| "update_first P f (x # xs) =
    (if P x then (True, f x # xs) else (let (b, ys) = update_first P f xs in (b, x # ys)))"

definition retract_fact :: "rstring \<Rightarrow> rstring \<Rightarrow> hive_graph \<Rightarrow> bool \<times> hive_graph" where
  "retract_fact fact_id reason g =
    (let (found, facts) = update_first (\<lambda>f. hf_fact_id f = fact_id)
        (\<lambda>f. f\<lparr>hf_status := lit ''retracted'',
               hf_metadata := AList.update (lit ''retraction_reason'') reason (hf_metadata f)\<rparr>) (hg_facts g)
     in (found, g\<lparr>hg_facts := facts\<rparr>))"

definition facts_by_tag :: "rstring \<Rightarrow> hive_graph \<Rightarrow> hive_fact list" where
  "facts_by_tag tag g = filter (\<lambda>f. tag \<in> set (hf_tags f)) (hg_facts g)"

definition set_fact_confidence :: "rstring \<Rightarrow> real \<Rightarrow> hive_graph \<Rightarrow> bool \<times> hive_graph" where
  "set_fact_confidence fact_id confidence g =
    (let (found, facts) = update_first (\<lambda>f. hf_fact_id f = fact_id)
        (\<lambda>f. f\<lparr>hf_confidence := clamp 0 1 confidence\<rparr>) (hg_facts g)
     in (found, g\<lparr>hg_facts := facts\<rparr>))"

section \<open>Agents and edges\<close>

definition hive_agent_new :: "rstring \<Rightarrow> rstring \<Rightarrow> hive_agent" where
  "hive_agent_new agent domain = \<lparr>ha_agent_id = agent, ha_domain = domain, ha_trust = 1, ha_fact_count = 0, ha_status = lit ''active''\<rparr>"

definition register_agent :: "rstring \<Rightarrow> rstring \<Rightarrow> hive_graph \<Rightarrow> (hive_error, unit) result \<times> hive_graph" where
  "register_agent agent domain g =
    (if map_of (hg_agents g) agent \<noteq> None
     then (Inl (Graph_error (lit ''agent already registered: '' @ agent)), g)
     else (Inr (), g\<lparr>hg_agents := AList.update agent (hive_agent_new agent domain) (hg_agents g)\<rparr>))"

definition unregister_agent :: "rstring \<Rightarrow> hive_graph \<Rightarrow> bool \<times> hive_graph" where
  "unregister_agent agent g =
    (case map_of (hg_agents g) agent of
       Some a \<Rightarrow> (True, g\<lparr>hg_agents := AList.update agent (a\<lparr>ha_status := lit ''removed''\<rparr>) (hg_agents g)\<rparr>)
     | None \<Rightarrow> (False, g))"

definition get_agent :: "rstring \<Rightarrow> hive_graph \<Rightarrow> hive_agent option" where
  "get_agent agent g = map_of (hg_agents g) agent"

definition list_agents :: "rstring option \<Rightarrow> hive_graph \<Rightarrow> hive_agent list" where
  "list_agents status g =
    filter (\<lambda>a. case status of None \<Rightarrow> True | Some s \<Rightarrow> ha_status a = s) (map snd (hg_agents g))"

definition update_trust :: "rstring \<Rightarrow> real \<Rightarrow> hive_graph \<Rightarrow> bool \<times> hive_graph" where
  "update_trust agent trust g =
    (case map_of (hg_agents g) agent of
       Some a \<Rightarrow> (True, g\<lparr>hg_agents := AList.update agent (a\<lparr>ha_trust := clamp 0 2 trust\<rparr>) (hg_agents g)\<rparr>)
     | None \<Rightarrow> (False, g))"

definition add_edge :: "rstring \<Rightarrow> rstring \<Rightarrow> rstring \<Rightarrow> (rstring \<times> rstring) list \<Rightarrow> hive_graph \<Rightarrow> hive_graph" where
  "add_edge source target edge_type properties g =
    g\<lparr>hg_edges := hg_edges g @ [\<lparr>hx_source_id = source, hx_target_id = target, hx_edge_type = edge_type,
        hx_properties = properties\<rparr>]\<rparr>"

definition get_edges :: "rstring \<Rightarrow> hive_graph \<Rightarrow> hive_edge list" where
  "get_edges node g = filter (\<lambda>e. hx_source_id e = node \<or> hx_target_id e = node) (hg_edges g)"

definition get_edges_from :: "rstring \<Rightarrow> rstring \<Rightarrow> hive_graph \<Rightarrow> hive_edge list" where
  "get_edges_from source edge_type g =
    filter (\<lambda>e. hx_source_id e = source \<and> hx_edge_type e = edge_type) (hg_edges g)"

section \<open>Federation\<close>

definition set_parent :: "rstring \<Rightarrow> hive_graph \<Rightarrow> hive_graph" where
  "set_parent parent g = g\<lparr>hg_parent_id := Some parent\<rparr>"

definition add_child :: "rstring \<Rightarrow> hive_graph \<Rightarrow> hive_graph" where
  "add_child child g =
    (if child \<in> set (hg_children_ids g) then g else g\<lparr>hg_children_ids := hg_children_ids g @ [child]\<rparr>)"

definition forwarded :: "hive_fact \<Rightarrow> bool" where
  "forwarded f = list_ex (\<lambda>t. starts_with escalation_tag_prefix t \<or> starts_with broadcast_tag_prefix t) (hf_tags f)"

definition escalate_fact ::
  "rstring \<Rightarrow> int \<Rightarrow> rstring \<Rightarrow> hive_graph \<Rightarrow> hive_graph \<Rightarrow> rstring option \<times> hive_graph" where
  "escalate_fact uuid now fact_id g parent =
    (case get_fact fact_id g of
       None \<Rightarrow> (None, parent)
     | Some f \<Rightarrow>
         if forwarded f then (None, parent)
         else (case graph_store_fact uuid now (hf_concept f) (hf_content f) (hf_confidence f) (hf_source_id f)
                 (hf_tags f @ [escalation_tag_prefix @ hg_hive_id g]) parent of
                 (Inr i, parent') \<Rightarrow> (Some i, parent')
               | (Inl _, parent') \<Rightarrow> (None, parent')))"

text \<open>The loop of \<open>broadcast_fact\<close>; each child comes with the id and the time it draws.\<close>

fun broadcast_loop ::
  "hive_fact \<Rightarrow> rstring \<Rightarrow> (rstring \<times> int \<times> hive_graph) list \<Rightarrow> (rstring \<times> rstring) list \<Rightarrow>
   (rstring \<times> rstring) list \<times> hive_graph list" where
  "broadcast_loop f hive [] out = (out, [])"
| "broadcast_loop f hive ((uuid, now, child) # cs) out =
    (let (res, child') = graph_store_fact uuid now (hf_concept f) (hf_content f) (hf_confidence f)
           (hf_source_id f) (hf_tags f @ [broadcast_tag_prefix @ hive]) child;
         out' = (case res of Inr i \<Rightarrow> AList.update (hg_hive_id child) i out | Inl _ \<Rightarrow> out);
         (out'', children) = broadcast_loop f hive cs out'
     in (out'', child' # children))"

definition broadcast_fact ::
  "rstring \<Rightarrow> hive_graph \<Rightarrow> (rstring \<times> int \<times> hive_graph) list \<Rightarrow> (rstring \<times> rstring) list \<times> hive_graph list" where
  "broadcast_fact fact_id g children =
    (case get_fact fact_id g of
       None \<Rightarrow> ([], map (\<lambda>c. snd (snd c)) children)
     | Some f \<Rightarrow>
         if forwarded f then ([], map (\<lambda>c. snd (snd c)) children)
         else broadcast_loop f (hg_hive_id g) children [])"

section \<open>Lifecycle\<close>

record fact_ttl =
  ft_fact_id :: rstring
  ft_created_at :: real
  ft_ttl_seconds :: real
  ft_confidence_decay_rate :: real

definition fact_ttl_new :: "rstring \<Rightarrow> real \<Rightarrow> fact_ttl" where
  "fact_ttl_new fact_id now =
    \<lparr>ft_fact_id = fact_id, ft_created_at = now, ft_ttl_seconds = 86400, ft_confidence_decay_rate = 1 / 100\<rparr>"

text \<open>The loop over the keys of the registry.\<close>

fun gc_loop ::
  "real \<Rightarrow> real \<Rightarrow> rstring list \<Rightarrow> hive_graph \<Rightarrow> (rstring \<times> fact_ttl) list \<Rightarrow> rstring list \<Rightarrow>
   rstring list \<times> hive_graph \<times> (rstring \<times> fact_ttl) list" where
  "gc_loop max_age now [] g reg removed = (removed, g, reg)"
| "gc_loop max_age now (i # ids) g reg removed =
    (case map_of reg i of
       Some ttl \<Rightarrow>
         if max_age \<le> now - ft_created_at ttl
         then gc_loop max_age now ids (snd (remove_fact i g)) (AList.delete i reg) (removed @ [i])
         else gc_loop max_age now ids g reg removed
     | None \<Rightarrow> gc_loop max_age now ids g reg removed)"

definition gc_expired_facts ::
  "real \<Rightarrow> real \<Rightarrow> hive_graph \<Rightarrow> (rstring \<times> fact_ttl) list \<Rightarrow>
   rstring list \<times> hive_graph \<times> (rstring \<times> fact_ttl) list" where
  "gc_expired_facts max_age_hours now g reg = gc_loop (max_age_hours * 3600) now (map fst reg) g reg []"

definition refresh_confidence ::
  "rstring \<Rightarrow> real \<Rightarrow> real \<Rightarrow> hive_graph \<Rightarrow> (rstring \<times> fact_ttl) list \<Rightarrow>
   bool \<times> hive_graph \<times> (rstring \<times> fact_ttl) list" where
  "refresh_confidence fact_id confidence now g reg =
    (let (found, g') = set_fact_confidence fact_id confidence g
     in if \<not> found then (False, g', reg)
        else (True, g', AList.update fact_id
          (case map_of reg fact_id of Some ttl \<Rightarrow> ttl\<lparr>ft_created_at := now\<rparr>
           | None \<Rightarrow> fact_ttl_new fact_id now) reg))"

end
