(* ===== verification/Hive_Graph_Facts.thy ===== *)
theory Hive_Graph_Facts
  imports Hive_Graph
begin

text \<open>
  What the knowledge graph guarantees: its numbers stay in range, a query gives the most confident
  matches, a forwarded fact is not forwarded again, and the garbage collection removes exactly the
  facts that are too old.
\<close>

section \<open>The invariant\<close>

definition fact_ok :: "hive_fact \<Rightarrow> bool" where
  "fact_ok f \<longleftrightarrow> 0 \<le> hf_confidence f \<and> hf_confidence f \<le> 1"

definition graph_ok :: "hive_graph \<Rightarrow> bool" where
  "graph_ok g \<longleftrightarrow> list_all fact_ok (hg_facts g) \<and> distinct (hg_children_ids g) \<and>
     (\<forall>i a. map_of (hg_agents g) i = Some a \<longrightarrow> ha_agent_id a = i \<and> 0 \<le> ha_trust a \<and> ha_trust a \<le> 2)"

lemma clamp_range: "lo \<le> hi \<Longrightarrow> lo \<le> clamp lo hi x \<and> clamp lo hi x \<le> hi"
  by (simp add: clamp_def)

lemma list_all_update_first:
  "list_all Q xs \<Longrightarrow> (\<And>x. Q x \<Longrightarrow> Q (f x)) \<Longrightarrow> list_all Q (snd (update_first P f xs))"
  by (induction xs) (auto split: prod.splits)

lemma graph_ok_store: "graph_ok g \<Longrightarrow> graph_ok (snd (graph_store_fact u t c x conf s tags g))"
  by (simp add: graph_ok_def graph_store_fact_def fact_ok_def)

lemma graph_ok_facts:
  assumes "graph_ok g"
  shows "graph_ok (snd (remove_fact i g))" "graph_ok (snd (retract_fact i r g))"
    "graph_ok (snd (set_fact_confidence i c g))"
proof -
  show "graph_ok (snd (remove_fact i g))"
    using assms by (auto simp: graph_ok_def remove_fact_def Let_def list_all_iff)
  show "graph_ok (snd (retract_fact i r g))"
    using assms list_all_update_first [of fact_ok "hg_facts g"]
    by (auto simp: graph_ok_def retract_fact_def fact_ok_def case_prod_beta)
  show "graph_ok (snd (set_fact_confidence i c g))"
    using assms list_all_update_first [of fact_ok "hg_facts g"] clamp_range [of 0 1 c]
    by (auto simp: graph_ok_def set_fact_confidence_def fact_ok_def case_prod_beta)
qed

lemma graph_ok_agents:
  assumes "graph_ok g"
  shows "graph_ok (snd (register_agent i d g))" "graph_ok (snd (unregister_agent i g))"
    "graph_ok (snd (update_trust i t g))" "graph_ok (add_child ch g)"
  using assms clamp_range [of 0 2 t]
  by (auto simp: graph_ok_def register_agent_def unregister_agent_def update_trust_def add_child_def
      hive_agent_new_def update_conv' split: option.splits if_splits)

lemma graph_ok_escalate: "graph_ok p \<Longrightarrow> graph_ok (snd (escalate_fact u t i g p))"
  using graph_ok_store [of p]
  by (auto simp: escalate_fact_def split: option.splits prod.splits sum.splits) (metis snd_conv)+

lemma graph_ok_broadcast_loop:
  "list_all (\<lambda>c. graph_ok (snd (snd c))) cs \<Longrightarrow> list_all graph_ok (snd (broadcast_loop f h cs out))"
proof (induction f h cs out rule: broadcast_loop.induct)
  case (2 f h u t c cs out)
  then show ?case
    using graph_ok_store [of c u t] by (auto simp: Let_def split: prod.splits) (metis snd_conv)+
qed simp

section \<open>Queries\<close>

lemma sorted_by_confidence: "sorted_wrt (\<lambda>f h. hf_confidence h \<le> hf_confidence f) (by_confidence fs)"
proof -
  have "sorted (map (\<lambda>f. - hf_confidence f) (by_confidence fs))" by (simp add: by_confidence_def)
  then show ?thesis by (simp add: sorted_wrt_map)
qed

lemma take_dominates:
  assumes "sorted_wrt R xs" "x \<in> set (take n xs)" "y \<in> set xs" "y \<notin> set (take n xs)"
  shows "R x y"
proof -
  have "y \<in> set (drop n xs)" using assms(3,4) by (metis Un_iff append_take_drop_id set_append)
  then show ?thesis
    using assms(1,2) by (metis append_take_drop_id sorted_wrt_append)
qed

definition query_matches :: "(rstring \<Rightarrow> rstring) \<Rightarrow> rstring \<Rightarrow> real \<Rightarrow> hive_fact \<Rightarrow> bool" where
  "query_matches lower concept mc f \<longleftrightarrow> hf_status f \<noteq> lit ''retracted'' \<and>
     str_contains (lower concept) (lower (hf_concept f)) \<and> mc \<le> hf_confidence f"

lemma set_by_confidence: "set (by_confidence fs) = set fs"
  by (simp add: by_confidence_def)

text \<open>
  A query returns stored facts only, each matching the concept and the confidence asked for and
  none retracted, the most confident first, at most \<open>limit\<close> of them; no match left out is more
  confident than a returned one, and none is left out while the limit is not reached.
\<close>

lemma query_returns_best_matches:
  "set (query_facts lower concept mc limit g) \<subseteq> {f \<in> set (hg_facts g). query_matches lower concept mc f} \<and>
   sorted_wrt (\<lambda>f h. hf_confidence h \<le> hf_confidence f) (query_facts lower concept mc limit g) \<and>
   length (query_facts lower concept mc limit g) =
     min limit (length (filter (query_matches lower concept mc) (hg_facts g))) \<and>
   (\<forall>f \<in> set (query_facts lower concept mc limit g). \<forall>h \<in> set (hg_facts g).
      query_matches lower concept mc h \<and> h \<notin> set (query_facts lower concept mc limit g) \<longrightarrow>
      hf_confidence h \<le> hf_confidence f)"
proof -
  let ?ms = "filter (query_matches lower concept mc) (hg_facts g)"
  have q: "query_facts lower concept mc limit g = take limit (by_confidence ?ms)"
    by (simp add: query_facts_def query_matches_def [abs_def])
  have len: "length (by_confidence ?ms) = length ?ms" by (simp add: by_confidence_def)
  have "hf_confidence h \<le> hf_confidence f"
    if "f \<in> set (take limit (by_confidence ?ms))" "h \<in> set (hg_facts g)" "query_matches lower concept mc h"
      "h \<notin> set (take limit (by_confidence ?ms))" for f h
    using take_dominates [OF sorted_by_confidence that(1) _ that(4)] that(2,3)
    by (simp add: set_by_confidence)
  then show ?thesis
    using sorted_wrt_take [OF sorted_by_confidence, of limit ?ms]
    by (auto simp: q len set_by_confidence dest: in_set_takeD)
qed

lemma query_returns_best_matches_witness:
  "let f = \<lparr>hf_fact_id = [49], hf_concept = [65], hf_content = [], hf_confidence = 1, hf_source_id = [],
      hf_tags = [], hf_created_at = 0, hf_status = lit ''promoted'', hf_metadata = []\<rparr>;
      g = (graph_with_id [])\<lparr>hg_facts := [f\<lparr>hf_confidence := 1 / 2\<rparr>, f]\<rparr>
   in query_matches id [65] 0 (f\<lparr>hf_confidence := 1 / 2\<rparr>) \<and>
      (\<forall>k \<in> set (query_facts id [65] 0 1 g). 1 / 2 \<le> hf_confidence k)"
proof -
  let ?f = "\<lparr>hf_fact_id = [49], hf_concept = [65], hf_content = [], hf_confidence = 1, hf_source_id = [],
      hf_tags = [], hf_created_at = 0, hf_status = lit ''promoted'', hf_metadata = []\<rparr>"
  let ?h = "?f\<lparr>hf_confidence := 1 / 2\<rparr>"
  let ?g = "(graph_with_id [])\<lparr>hg_facts := [?h, ?f]\<rparr>"
  have m: "query_matches id [65] 0 ?h" by (simp add: query_matches_def prefix_def)
  have "1 / 2 \<le> hf_confidence k" if "k \<in> set (query_facts id [65] 0 1 ?g)" for k
  proof (cases "?h \<in> set (query_facts id [65] 0 1 ?g)")
    case False
    then show ?thesis
      using query_returns_best_matches [of id "[65]" 0 1 ?g] m that by simp
  next
    case True
    have "k \<in> {?h, ?f}" using query_returns_best_matches [of id "[65]" 0 1 ?g] that by auto
    then show ?thesis by auto
  qed
  with m show ?thesis by (simp add: Let_def)
qed

section \<open>Federation\<close>

lemma find_appended: "List.find P xs = None \<Longrightarrow> List.find P (xs @ ys) = List.find P ys"
  by (induction xs) (auto split: if_splits)

lemma stored_fact_found:
  assumes "list_all (\<lambda>f. hf_fact_id f \<noteq> u) (hg_facts p)"
    "graph_store_fact u t c x conf s tags p = (Inr i, p')"
  shows "\<exists>f. get_fact i p' = Some f \<and> hf_tags f = tags \<and> hf_content f = x \<and> hf_confidence f = conf"
proof -
  have "List.find (\<lambda>f. hf_fact_id f = u) (hg_facts p) = None"
    using assms(1) by (simp add: find_None_iff list_all_iff)
  then have "List.find (\<lambda>f. hf_fact_id f = u) (hg_facts p @ [f]) = Some f" if "hf_fact_id f = u" for f
    using that by (simp add: find_appended)
  then show ?thesis
    using assms(2) by (auto simp: get_fact_def graph_store_fact_def split: if_splits)
qed

text \<open>
  Forwarding ends after one hop: a fact that arrived in a hive by escalation, under a fresh id,
  has the content and confidence it had, and that hive neither escalates it further nor broadcasts
  it back.
\<close>

lemma forwarded_once:
  assumes "escalate_fact u t i g p = (Some j, p')" "list_all (\<lambda>f. hf_fact_id f \<noteq> u) (hg_facts p)"
  shows "(\<exists>f h. get_fact i g = Some f \<and> get_fact j p' = Some h \<and> hf_content h = hf_content f \<and>
      hf_confidence h = hf_confidence f) \<and>
    escalate_fact u' t' j p' q = (None, q) \<and>
    broadcast_fact j p' cs = ([], map (\<lambda>c. snd (snd c)) cs)"
proof -
  obtain f where f: "get_fact i g = Some f"
    "graph_store_fact u t (hf_concept f) (hf_content f) (hf_confidence f) (hf_source_id f)
       (hf_tags f @ [escalation_tag_prefix @ hg_hive_id g]) p = (Inr j, p')"
    using assms(1) by (auto simp: escalate_fact_def split: option.splits if_splits prod.splits sum.splits)
  from stored_fact_found [OF assms(2) f(2)] obtain h where h: "get_fact j p' = Some h"
    "hf_tags h = hf_tags f @ [escalation_tag_prefix @ hg_hive_id g]" "hf_content h = hf_content f"
    "hf_confidence h = hf_confidence f"
    by blast
  have "forwarded h" using h(2) by (simp add: forwarded_def starts_with_def)
  then show ?thesis using f(1) h by (simp add: escalate_fact_def broadcast_fact_def)
qed

lemma forwarded_once_witness:
  "let g = snd (graph_store_fact [49] 0 [65] [66] 1 [67] [] (graph_with_id [71]));
       p' = snd (escalate_fact [50] 1 [49] g (graph_with_id [80]))
   in escalate_fact [51] 2 [50] p' g = (None, g) \<and> broadcast_fact [50] p' [] = ([], [])"
proof -
  let ?g = "snd (graph_store_fact [49] 0 [65] [66] 1 [67] [] (graph_with_id [71]))"
  let ?p' = "snd (escalate_fact [50] 1 [49] ?g (graph_with_id [80]))"
  have "escalate_fact [50] 1 [49] ?g (graph_with_id [80]) = (Some [50], ?p')"
    by (simp add: escalate_fact_def get_fact_def graph_store_fact_def graph_with_id_def forwarded_def)
  then show ?thesis
    using forwarded_once [of "[50]" 1 "[49]" ?g "graph_with_id [80]" "[50]" ?p' "[51]" 2 ?g "[]"]
    by (simp add: Let_def graph_with_id_def)
qed

section \<open>Garbage collection\<close>

definition too_old :: "real \<Rightarrow> real \<Rightarrow> fact_ttl \<Rightarrow> bool" where
  "too_old hours now ttl \<longleftrightarrow> hours * 3600 \<le> now - ft_created_at ttl"

lemma gc_loop_spec:
  assumes "distinct ids" "set ids \<subseteq> dom (map_of reg)"
  shows "gc_loop age now ids g reg removed =
    (let old = filter (\<lambda>i. age \<le> now - ft_created_at (the (map_of reg i))) ids
     in (removed @ old, g\<lparr>hg_facts := filter (\<lambda>f. hf_fact_id f \<notin> set old) (hg_facts g)\<rparr>,
         fold AList.delete old reg))"
  using assms
proof (induction age now ids g reg removed rule: gc_loop.induct)
  case (2 age now i ids g reg removed)
  obtain ttl where ttl: "map_of reg i = Some ttl" using 2(5) by auto
  show ?case
  proof (cases "age \<le> now - ft_created_at ttl")
    case True
    let ?reg = "AList.delete i reg"
    have "map_of ?reg j = map_of reg j" if "j \<in> set ids" for j
      using that 2(4) by (auto simp: delete_conv')
    then have f: "filter (\<lambda>j. age \<le> now - ft_created_at (the (map_of ?reg j))) ids =
        filter (\<lambda>j. age \<le> now - ft_created_at (the (map_of reg j))) ids"
      "set ids \<subseteq> dom (map_of ?reg)"
      using 2(4,5) by (auto intro: filter_cong simp: delete_conv')
    show ?thesis
      using 2(2) [OF ttl True] 2(4) ttl True
      by (simp add: f remove_fact_def Let_def)
  qed (use 2 ttl in auto)
qed simp

text \<open>
  The garbage collection removes the facts of exactly the registered ids that have reached the
  age limit, takes those ids and no other from the registry, and reports them.  The time to live
  of an entry plays no part.
\<close>

lemma gc_removes_expired:
  assumes "distinct (map fst reg)" "gc_expired_facts hours now g reg = (removed, g', reg')"
  shows "set removed = {i. \<exists>ttl. map_of reg i = Some ttl \<and> too_old hours now ttl} \<and> distinct removed \<and>
    hg_facts g' = filter (\<lambda>f. hf_fact_id f \<notin> set removed) (hg_facts g) \<and>
    map_of reg' = map_of reg |` (- set removed)"
proof -
  let ?old = "filter (\<lambda>i. hours * 3600 \<le> now - ft_created_at (the (map_of reg i))) (map fst reg)"
  have "set (map fst reg) \<subseteq> dom (map_of reg)" by (simp add: dom_map_of_conv_image_fst)
  from gc_loop_spec [OF assms(1) this, of "hours * 3600" now g "[]"]
  have "gc_expired_facts hours now g reg =
      (?old, g\<lparr>hg_facts := filter (\<lambda>f. hf_fact_id f \<notin> set ?old) (hg_facts g)\<rparr>, fold AList.delete ?old reg)"
    by (simp only: gc_expired_facts_def Let_def append_Nil)
  then have e: "removed = ?old" "g' = g\<lparr>hg_facts := filter (\<lambda>f. hf_fact_id f \<notin> set ?old) (hg_facts g)\<rparr>"
    "reg' = fold AList.delete ?old reg"
    unfolding assms(2) prod.inject by blast+
  have "set ?old = {i. \<exists>ttl. map_of reg i = Some ttl \<and> too_old hours now ttl}"
    using assms(1) by (force simp: too_old_def dest: map_of_SomeD)
  then show ?thesis
    using e assms(1) by (auto simp: map_of_deletes restrict_map_def fun_eq_iff)
qed

lemma gc_removes_expired_witness:
  "set (fst (gc_expired_facts 24 90000 (graph_with_id []) [([49], fact_ttl_new [49] 0), ([50], fact_ttl_new [50] 80000)]))
    = {[49]}"
proof -
  let ?reg = "[([49], fact_ttl_new [49] 0), ([50], fact_ttl_new [50] 80000)] :: (rstring \<times> fact_ttl) list"
  obtain removed g' reg' where r: "gc_expired_facts 24 90000 (graph_with_id []) ?reg = (removed, g', reg')"
    by (metis prod_cases3)
  have "distinct (map fst ?reg)" by simp
  from gc_removes_expired [OF this r]
  have "set removed = {i. \<exists>ttl. map_of ?reg i = Some ttl \<and> too_old 24 90000 ttl}" by blast
  also have "\<dots> = {[49]}"
    by (rule set_eqI) (simp add: too_old_def fact_ttl_new_def)
  finally show ?thesis by (simp only: r fst_conv)
qed

end
