(* ===== verification/Hive_Gossip.thy ===== *)
theory Hive_Gossip
  imports Hive_Graph_Facts "HOL-Library.Multiset"
begin

text \<open>
  The gossip protocol of \<open>amplihack-hive/src/gossip.rs\<close> and the Bloom filter of
  \<open>bloom.rs\<close>.  The round counter and the generator of the peer shuffle are 64-bit words.  The
  weighted peer choice and the convergence ratio are floating point and not modelled; the hash of
  the Bloom filter, \<open>DefaultHasher\<close>, is a parameter, and so are the two numbers its size and
  hash count are rounded from.
\<close>

section \<open>Gossip\<close>

record gossip_config =
  gc_fanout :: nat
  gc_interval_ms :: nat
  gc_min_confidence :: real

record gossip =
  gp_config :: gossip_config
  gp_round :: "64 word"
  gp_node_id :: rstring

record gossip_message =
  gm_facts :: "hive_fact list"
  gm_source_id :: rstring
  gm_round :: "64 word"

record merge_result =
  mr_accepted :: "rstring list"
  mr_rejected :: "rstring list"
  mr_conflicts :: "rstring list"

definition gossip_tag_prefix :: rstring where "gossip_tag_prefix = lit ''gossip:''"

definition gossip_new :: "rstring \<Rightarrow> gossip_config \<Rightarrow> gossip" where
  "gossip_new node config = \<lparr>gp_config = config, gp_round = 0, gp_node_id = node\<rparr>"

text \<open>The three classes of a peer's fact.\<close>

datatype verdict = Reject | Conflict | Accept

definition judge :: "real \<Rightarrow> hive_fact list \<Rightarrow> hive_fact \<Rightarrow> verdict" where
  "judge min_confidence local f =
    (if hf_confidence f < min_confidence then Reject
     else if hf_fact_id f \<in> set (map hf_fact_id local) \<or> hf_content f \<in> set (map hf_content local) then Conflict
     else Accept)"

fun judge_loop :: "real \<Rightarrow> hive_fact list \<Rightarrow> hive_fact list \<Rightarrow> merge_result \<Rightarrow> merge_result" where
  "judge_loop mc local [] r = r"
| "judge_loop mc local (f # fs) r =
    judge_loop mc local fs
      (case judge mc local f of
         Reject \<Rightarrow> r\<lparr>mr_rejected := mr_rejected r @ [hf_fact_id f]\<rparr>
       | Conflict \<Rightarrow> r\<lparr>mr_conflicts := mr_conflicts r @ [hf_fact_id f]\<rparr>
       | Accept \<Rightarrow> r\<lparr>mr_accepted := mr_accepted r @ [hf_fact_id f]\<rparr>)"

definition empty_result :: merge_result where
  "empty_result = \<lparr>mr_accepted = [], mr_rejected = [], mr_conflicts = []\<rparr>"

definition run_gossip_round :: "hive_fact list \<Rightarrow> hive_fact list \<Rightarrow> gossip \<Rightarrow> merge_result \<times> gossip" where
  "run_gossip_round local peer g =
    (judge_loop (gc_min_confidence (gp_config g)) local peer empty_result, g\<lparr>gp_round := gp_round g + 1\<rparr>)"

definition prepare_message :: "hive_fact list \<Rightarrow> gossip \<Rightarrow> gossip_message" where
  "prepare_message facts g =
    \<lparr>gm_facts = map (\<lambda>f. f\<lparr>hf_tags := hf_tags f @ [gossip_tag_prefix @ gp_node_id g]\<rparr>) facts,
     gm_source_id = gp_node_id g, gm_round = gp_round g\<rparr>"

fun incoming_loop :: "real \<Rightarrow> hive_fact list \<Rightarrow> merge_result \<Rightarrow> merge_result" where
  "incoming_loop mc [] r = r"
| "incoming_loop mc (f # fs) r =
    incoming_loop mc fs
      (if hf_confidence f < mc then r\<lparr>mr_rejected := mr_rejected r @ [hf_fact_id f]\<rparr>
       else r\<lparr>mr_accepted := mr_accepted r @ [hf_fact_id f]\<rparr>)"

definition merge_incoming :: "gossip_message \<Rightarrow> gossip \<Rightarrow> merge_result \<times> gossip" where
  "merge_incoming m g =
    (incoming_loop (gc_min_confidence (gp_config g)) (gm_facts m) empty_result, g\<lparr>gp_round := gp_round g + 1\<rparr>)"

section \<open>Peer selection\<close>

definition lcg :: "64 word \<Rightarrow> 64 word" where
  "lcg rng = rng * 6364136223846793005 + 1"

definition list_swap :: "nat \<Rightarrow> nat \<Rightarrow> 'a list \<Rightarrow> 'a list" where
  "list_swap i j xs = xs[i := xs ! j, j := xs ! i]"

text \<open>The shuffle over \<open>(1..n).rev()\<close>: \<open>i\<close> counts down to one.\<close>

primrec shuffle :: "nat \<Rightarrow> 64 word \<Rightarrow> 'a list \<Rightarrow> 'a list" where
  "shuffle 0 rng peers = peers"
| "shuffle (Suc k) rng peers =
    (let rng' = lcg rng; j = unat (drop_bit 33 rng') mod (Suc k + 1)
     in shuffle k rng' (list_swap (Suc k) j peers))"

definition select_peers :: "rstring list \<Rightarrow> gossip \<Rightarrow> rstring list" where
  "select_peers all_peers g =
    (let n = min (gc_fanout (gp_config g)) (length all_peers)
     in if n = 0 then []
        else take n (shuffle (length all_peers - 1) (lcg (gp_round g)) all_peers))"

definition get_top_facts :: "hive_graph \<Rightarrow> nat \<Rightarrow> hive_fact list" where
  "get_top_facts g k = take k (by_confidence (filter (\<lambda>f. hf_status f \<noteq> lit ''retracted'') (hg_facts g)))"

lemma mset_list_swap: "i < length xs \<Longrightarrow> j < length xs \<Longrightarrow> mset (list_swap i j xs) = mset xs"
  by (simp add: list_swap_def mset_swap)

lemma mset_shuffle: "k < length xs \<or> k = 0 \<Longrightarrow> mset (shuffle k rng xs) = mset xs"
proof (induction k arbitrary: rng xs)
  case (Suc k)
  let ?j = "unat (drop_bit 33 (lcg rng)) mod (Suc k + 1)"
  have len: "Suc k < length xs" using Suc.prems by simp
  have j: "?j < length xs"
    using mod_less_divisor [of "Suc k + 1" "unat (drop_bit 33 (lcg rng))"] len by linarith
  have "length (list_swap (Suc k) ?j xs) = length xs" by (simp add: list_swap_def)
  then show ?case using Suc.IH [of "list_swap (Suc k) ?j xs" "lcg rng"] mset_list_swap [OF len j] len
    by (simp add: Let_def)
qed simp

text \<open>
  Peer selection picks as many peers as the fan-out allows, all from the given list, none more
  often than it is listed, whatever the round, also when the generator wraps around.
\<close>

lemma select_peers_sample:
  "mset (select_peers ps g) \<subseteq># mset ps \<and>
   length (select_peers ps g) = min (gc_fanout (gp_config g)) (length ps)"
proof (cases "min (gc_fanout (gp_config g)) (length ps) = 0")
  case False
  let ?s = "shuffle (length ps - 1) (lcg (gp_round g)) ps"
  have m: "mset ?s = mset ps" by (rule mset_shuffle) (use False in auto)
  then have "mset (take n ?s) \<subseteq># mset ps" for n
    by (metis append_take_drop_id mset_append mset_subset_eq_add_left)
  moreover have "length ?s = length ps" using m by (metis size_mset)
  ultimately show ?thesis using False by (simp add: select_peers_def Let_def)
qed (simp add: select_peers_def)

lemma judge_loop_spec:
  "judge_loop mc local fs r =
    \<lparr>mr_accepted = mr_accepted r @ map hf_fact_id (filter (\<lambda>f. judge mc local f = Accept) fs),
     mr_rejected = mr_rejected r @ map hf_fact_id (filter (\<lambda>f. judge mc local f = Reject) fs),
     mr_conflicts = mr_conflicts r @ map hf_fact_id (filter (\<lambda>f. judge mc local f = Conflict) fs)\<rparr>"
  by (induction fs arbitrary: r) (auto split: verdict.splits)

text \<open>A round sorts every fact of the peer into exactly one class, in its order.\<close>

lemma gossip_round_partitions:
  "(let r = fst (run_gossip_round local peer g) in
    mset (mr_accepted r) + mset (mr_rejected r) + mset (mr_conflicts r) = mset (map hf_fact_id peer) \<and>
    set (mr_accepted r) \<inter> set (map hf_fact_id local) = {})"
proof -
  have "mset (map hf_fact_id (filter (\<lambda>f. judge mc local f = Accept) fs)) +
      mset (map hf_fact_id (filter (\<lambda>f. judge mc local f = Reject) fs)) +
      mset (map hf_fact_id (filter (\<lambda>f. judge mc local f = Conflict) fs)) = mset (map hf_fact_id fs)" for fs mc
  proof (induction fs)
    case (Cons f fs)
    then show ?case by (cases "judge mc local f") simp_all
  qed simp
  then show ?thesis
    by (auto simp: run_gossip_round_def judge_loop_spec empty_result_def Let_def judge_def split: if_splits)
qed

section \<open>The Bloom filter\<close>

record bloom =
  bf_bits :: "8 word list"
  bf_size :: nat
  bf_num_hashes :: nat
  bf_count :: nat

text \<open>\<open>m\<close> and \<open>k\<close> are the rounded optimal bit count and hash count.\<close>

definition bloom_new :: "nat \<Rightarrow> nat \<Rightarrow> bloom" where
  "bloom_new m k =
    (let size = max 64 m
     in \<lparr>bf_bits = replicate ((size + 7) div 8) 0, bf_size = size, bf_num_hashes = max 1 k, bf_count = 0\<rparr>)"

type_synonym hasher = "rstring \<Rightarrow> 64 word \<Rightarrow> 64 word"

definition get_hashes :: "hasher \<Rightarrow> rstring \<Rightarrow> bloom \<Rightarrow> nat list" where
  "get_hashes hash_with_seed item b =
    (let h1 = hash_with_seed item 0; h2 = hash_with_seed item 0x9e3779b97f4a7c15
     in map (\<lambda>i. unat (h1 + of_nat i * h2) mod bf_size b) [0..<bf_num_hashes b])"

definition set_bit_at :: "nat \<Rightarrow> 8 word list \<Rightarrow> 8 word list" where
  "set_bit_at pos bits =
    bits[pos div 8 := Bit_Operations.or (bits ! (pos div 8)) (push_bit (pos mod 8) 1)]"

definition test_bit_at :: "nat \<Rightarrow> 8 word list \<Rightarrow> bool" where
  "test_bit_at pos bits = (Bit_Operations.and (bits ! (pos div 8)) (push_bit (pos mod 8) 1) \<noteq> 0)"

definition bloom_add :: "hasher \<Rightarrow> rstring \<Rightarrow> bloom \<Rightarrow> bloom" where
  "bloom_add h item b =
    b\<lparr>bf_bits := fold set_bit_at (get_hashes h item b) (bf_bits b), bf_count := bf_count b + 1\<rparr>"

definition might_contain :: "hasher \<Rightarrow> rstring \<Rightarrow> bloom \<Rightarrow> bool" where
  "might_contain h item b = list_all (\<lambda>pos. test_bit_at pos (bf_bits b)) (get_hashes h item b)"

definition bloom_add_all :: "hasher \<Rightarrow> rstring list \<Rightarrow> bloom \<Rightarrow> bloom" where
  "bloom_add_all h items b = foldl (\<lambda>b item. bloom_add h item b) b items"

definition missing_from :: "hasher \<Rightarrow> rstring list \<Rightarrow> bloom \<Rightarrow> rstring list" where
  "missing_from h items b = filter (\<lambda>item. \<not> might_contain h item b) items"

definition bloom_to_bytes :: "bloom \<Rightarrow> 8 word list" where
  "bloom_to_bytes b = bf_bits b"

definition bloom_from_bytes :: "8 word list \<Rightarrow> nat \<Rightarrow> nat \<Rightarrow> bloom" where
  "bloom_from_bytes bytes m k =
    (let b = bloom_new m k; n = min (length bytes) (length (bf_bits b))
     in b\<lparr>bf_bits := take n bytes @ drop n (bf_bits b)\<rparr>)"

subsection \<open>The interface of the bit array\<close>

text \<open>
  What the filter needs of its bits: positions below the length can be set, and setting one adds it
  to those that test true.
\<close>

locale bit_array =
  fixes test :: "nat \<Rightarrow> 'b \<Rightarrow> bool" and put :: "nat \<Rightarrow> 'b \<Rightarrow> 'b" and len :: "'b \<Rightarrow> nat"
  assumes len_put: "len (put i b) = len b"
    and test_put: "i < len b \<Longrightarrow> j < len b \<Longrightarrow> test j (put i b) \<longleftrightarrow> i = j \<or> test j b"
begin

lemma len_fold: "len (fold put is b) = len b"
  by (induction "is" arbitrary: b) (simp_all add: len_put)

lemma test_fold:
  "list_all (\<lambda>i. i < len b) is \<Longrightarrow> j < len b \<Longrightarrow> test j (fold put is b) \<longleftrightarrow> j \<in> set is \<or> test j b"
  by (induction "is" arbitrary: b) (auto simp: len_put test_put)

end

lemma bit_of_byte: "i < 8 \<Longrightarrow> (Bit_Operations.and w (push_bit i 1) \<noteq> 0) = bit (w :: 8 word) i"
  by (metis and_exp_eq_0_iff_not_bit push_bit_of_1)

lemma test_bit_at_iff: "test_bit_at pos bits = bit (bits ! (pos div 8)) (pos mod 8)"
  unfolding test_bit_at_def by (rule bit_of_byte) simp

interpretation bytes: bit_array test_bit_at set_bit_at "\<lambda>bits. 8 * length bits"
proof
  fix i j :: nat and b :: "8 word list"
  show "8 * length (set_bit_at i b) = 8 * length b" by (simp add: set_bit_at_def)
  assume "i < 8 * length b" "j < 8 * length b"
  then have d: "i div 8 < length b" "j div 8 < length b" by (simp_all add: less_mult_imp_div_less mult.commute)
  have "i = j \<longleftrightarrow> i div 8 = j div 8 \<and> i mod 8 = j mod 8" by (metis mult_div_mod_eq)
  then show "test_bit_at j (set_bit_at i b) \<longleftrightarrow> i = j \<or> test_bit_at j b"
    using d by (auto simp: test_bit_at_iff set_bit_at_def bit_or_iff bit_exp_iff nth_list_update)
qed

subsection \<open>No false negatives\<close>

definition bloom_ok :: "bloom \<Rightarrow> bool" where
  "bloom_ok b \<longleftrightarrow> 0 < bf_size b \<and> bf_size b \<le> 8 * length (bf_bits b)"

lemma bloom_ok_new: "bloom_ok (bloom_new m k)"
  by (auto simp: bloom_ok_def bloom_new_def Let_def)

lemma hashes_in_range: "bloom_ok b \<Longrightarrow> list_all (\<lambda>i. i < 8 * length (bf_bits b)) (get_hashes h x b)"
  by (auto simp: bloom_ok_def get_hashes_def Let_def list_all_iff intro: less_le_trans [OF mod_less_divisor])

lemma get_hashes_add: "get_hashes h x (bloom_add g y b) = get_hashes h x b"
  by (simp add: get_hashes_def bloom_add_def)

lemma bloom_ok_add: "bloom_ok b \<Longrightarrow> bloom_ok (bloom_add h x b)"
  using bytes.len_fold by (simp add: bloom_ok_def bloom_add_def)

lemma might_contain_add:
  assumes "bloom_ok b" "x = y \<or> might_contain h x b"
  shows "might_contain h x (bloom_add h y b)"
proof -
  have "test_bit_at i (fold set_bit_at (get_hashes h y b) (bf_bits b))" if "i \<in> set (get_hashes h x b)" for i
    using bytes.test_fold [OF hashes_in_range [OF assms(1)], of i h y] hashes_in_range [OF assms(1), of h x]
      assms(2) that by (auto simp: might_contain_def list_all_iff)
  then show ?thesis by (simp add: might_contain_def get_hashes_add list_all_iff) (simp add: bloom_add_def)
qed

lemma might_contain_add_all:
  "bloom_ok b \<Longrightarrow> x \<in> set items \<or> might_contain h x b \<Longrightarrow> might_contain h x (bloom_add_all h items b)"
proof (induction items arbitrary: b)
  case (Cons y ys)
  then show ?case
    using might_contain_add [of b x y h] bloom_ok_add [of b h y] by (auto simp: bloom_add_all_def)
qed (simp add: bloom_add_all_def)

lemma from_bytes_same:
  assumes "length (bf_bits b) = (max 64 m + 7) div 8" "bf_size b = max 64 m" "bf_num_hashes b = max 1 k"
  shows "might_contain h x (bloom_from_bytes (bloom_to_bytes b) m k) = might_contain h x b"
  using assms
  by (simp add: might_contain_def bloom_from_bytes_def bloom_to_bytes_def bloom_new_def Let_def get_hashes_def)

text \<open>
  C38. The filter has no false negatives, whatever the hash function: every item added to a new
  filter is reported as possibly present, is not among the missing ones, and stays so when the
  filter goes over the wire as bytes and is rebuilt with the same parameters.
\<close>

theorem bloom_no_false_negatives:
  assumes "x \<in> set items"
  shows "might_contain h x (bloom_add_all h items (bloom_new m k)) \<and>
    x \<notin> set (missing_from h others (bloom_add_all h items (bloom_new m k))) \<and>
    might_contain h x (bloom_from_bytes (bloom_to_bytes (bloom_add_all h items (bloom_new m k))) m k)"
proof -
  let ?b = "bloom_add_all h items (bloom_new m k)"
  have "length (bf_bits (bloom_add_all h items b)) = length (bf_bits b) \<and>
      bf_size (bloom_add_all h items b) = bf_size b \<and> bf_num_hashes (bloom_add_all h items b) = bf_num_hashes b" for b
    by (induction items arbitrary: b) (simp_all add: bloom_add_all_def bloom_add_def bytes.len_fold [simplified])
  then have "length (bf_bits ?b) = (max 64 m + 7) div 8" "bf_size ?b = max 64 m" "bf_num_hashes ?b = max 1 k"
    by (simp_all add: bloom_new_def Let_def)
  then show ?thesis
    using might_contain_add_all [OF bloom_ok_new] assms from_bytes_same [of ?b m k h x]
    by (simp add: missing_from_def)
qed

lemma bloom_no_false_negatives_witness:
  "let h = \<lambda>s seed. of_nat (sum_list s) + seed;
       b = bloom_add_all h [lit ''f1'', lit ''f2''] (bloom_new 96 7)
   in might_contain h (lit ''f2'') b \<and> missing_from h [lit ''f2''] b = []"
proof -
  let ?h = "\<lambda>s seed. of_nat (sum_list s) + seed"
  have "lit ''f2'' \<in> set [lit ''f1'', lit ''f2'']" by simp
  from bloom_no_false_negatives [OF this, of ?h 96 7 "[lit ''f2'']"]
  show ?thesis by (simp add: missing_from_def Let_def del: lit_Cons split: if_splits)
qed

end
