(* ===== verification/Signal_Text.thy ===== *)
theory Signal_Text
  imports Rust_Num
begin

text \<open>
  The pure text parts of the Signal chat (\<open>amplihack-signal/src/chat\<close>: \<open>chunk.rs\<close>,
  \<open>naming.rs\<close>, \<open>control.rs\<close>) and of the turn driver (\<open>amplihack-turn/src\<close>: \<open>allowlist.rs\<close>
  and the argument list and error tail of \<open>turn.rs\<close>).
\<close>

section \<open>Chunks\<close>

definition signal_max_bytes :: nat where "signal_max_bytes = 2000"

text \<open>\<open>s.is_char_boundary(n)\<close>.\<close>

definition is_char_boundary :: "rstring \<Rightarrow> nat \<Rightarrow> bool" where
  "is_char_boundary s n = (slice_to n s \<noteq> None)"

text \<open>The inner loop: back off from \<open>n\<close> to a boundary.\<close>

primrec back_off :: "rstring \<Rightarrow> nat \<Rightarrow> nat" where
  "back_off s 0 = 0"
| "back_off s (Suc n) = (if is_char_boundary s (Suc n) then Suc n else back_off s n)"

lemma slice_to_0: "slice_to 0 s = Some []"
  by (cases s) simp_all

lemma back_off_boundary: "is_char_boundary s (back_off s n)"
  by (induction n) (simp_all add: is_char_boundary_def slice_to_0)

lemma back_off_le: "back_off s n \<le> n"
  by (induction n) simp_all

lemma boundary_head: "is_char_boundary (c # s) (utf8_len_char c)"
  using utf8_len_char_bounds(1) [of c] by (simp add: is_char_boundary_def slice_to_0)

lemma back_off_ge: "is_char_boundary s k \<Longrightarrow> k \<le> n \<Longrightarrow> k \<le> back_off s n"
  by (induction n) (auto simp: le_Suc_eq)

lemma back_off_pos: "s \<noteq> [] \<Longrightarrow> 4 \<le> n \<or> n = utf8_len s \<Longrightarrow> 0 < back_off s n"
proof -
  assume "s \<noteq> []" and n: "4 \<le> n \<or> n = utf8_len s"
  then obtain c t where s: "s = c # t" by (cases s) auto
  have "utf8_len_char c \<le> n" using n utf8_len_char_bounds(2) [of c] s by auto
  then show ?thesis
    using back_off_ge [OF boundary_head] s utf8_len_char_bounds(1) [of c] by (metis order_less_le_trans)
qed

text \<open>
  The outer loop over the text from \<open>start\<close> on.  \<open>None\<close> is the panic of a slice off a boundary,
  which does not happen.
\<close>

function chunk_loop :: "rstring \<Rightarrow> rstring list option" where
  "chunk_loop s =
    (if s = [] then Some []
     else (case slice_to (back_off s (min signal_max_bytes (utf8_len s))) s of
             None \<Rightarrow> None
           | Some piece \<Rightarrow> map_option (\<lambda>cs. piece # cs) (chunk_loop (drop (length piece) s))))"
  by pat_completeness auto
termination
proof (relation "measure length")
  fix s piece
  assume "s \<noteq> []" and p: "slice_to (back_off s (min signal_max_bytes (utf8_len s))) s = Some piece"
  have "4 \<le> min signal_max_bytes (utf8_len s) \<or> min signal_max_bytes (utf8_len s) = utf8_len s"
    by (auto simp: signal_max_bytes_def min_def)
  then have "0 < utf8_len piece" using back_off_pos [OF \<open>s \<noteq> []\<close>] slice_to_Some [OF p] by simp
  then have "piece \<noteq> []" by auto
  then show "(drop (length piece) s, s) \<in> measure length" using \<open>s \<noteq> []\<close> by simp
qed simp

declare chunk_loop.simps [simp del]

definition chunk :: "rstring \<Rightarrow> rstring list option" where
  "chunk body = (if body = [] then Some [] else chunk_loop body)"

text \<open>
  Splitting a message always succeeds and loses nothing: the chunks reassemble to the body, none
  is empty, and each is at most two thousand bytes, whatever characters the body holds.
\<close>

lemma chunking_succeeds:
  "\<exists>cs. chunk body = Some cs \<and> concat cs = body \<and>
     list_all (\<lambda>c. c \<noteq> [] \<and> utf8_len c \<le> signal_max_bytes) cs"
proof -
  have "\<exists>cs. chunk_loop s = Some cs \<and> concat cs = s \<and>
      list_all (\<lambda>c. c \<noteq> [] \<and> utf8_len c \<le> signal_max_bytes) cs" for s
  proof (induction s rule: chunk_loop.induct)
    case (1 s)
    show ?case
    proof (cases "s = []")
      case False
      let ?n = "min signal_max_bytes (utf8_len s)"
      obtain piece where p: "slice_to (back_off s ?n) s = Some piece"
        using back_off_boundary [of s ?n] by (auto simp: is_char_boundary_def)
      have "4 \<le> ?n \<or> ?n = utf8_len s" by (auto simp: signal_max_bytes_def min_def)
      then have "0 < utf8_len piece" "utf8_len piece \<le> signal_max_bytes"
        using back_off_pos [OF False, of ?n] back_off_le [of s ?n] slice_to_Some [OF p] by simp_all
      moreover have "piece @ drop (length piece) s = s"
        using slice_to_Some [OF p] by (auto simp: prefix_def)
      ultimately have b: "piece \<noteq> []" "utf8_len piece \<le> signal_max_bytes" "piece @ drop (length piece) s = s"
        by auto
      from 1 [OF False p] obtain cs where "chunk_loop (drop (length piece) s) = Some cs"
        "concat cs = drop (length piece) s"
        "list_all (\<lambda>c. c \<noteq> [] \<and> utf8_len c \<le> signal_max_bytes) cs"
        by blast
      then show ?thesis
        using b False p by (subst chunk_loop.simps) simp
    qed (simp add: chunk_loop.simps)
  qed
  then show ?thesis by (simp add: chunk_def)
qed

lemma short_chunk:
  assumes "b \<noteq> []" "utf8_len b \<le> signal_max_bytes"
  shows "chunk b = Some [b]"
proof -
  have "is_char_boundary b (utf8_len b)" by (simp add: is_char_boundary_def slice_to_all)
  then have "back_off b (utf8_len b) = utf8_len b"
    using back_off_ge [of b "utf8_len b" "utf8_len b"] back_off_le [of b "utf8_len b"] by simp
  moreover have "min signal_max_bytes (utf8_len b) = utf8_len b" using assms(2) by simp
  ultimately show ?thesis
    using assms(1) by (simp add: chunk_def chunk_loop.simps [of b] chunk_loop.simps [of "[]"] slice_to_all)
qed

section \<open>Names\<close>

definition max_topic_slug :: nat where "max_topic_slug = 40"

fun slug_loop :: "bool \<Rightarrow> rstring \<Rightarrow> rstring" where
  "slug_loop prev_dash [] = []"
| "slug_loop prev_dash (c # cs) =
    (if is_ascii_alphanumeric c then to_ascii_lower c # slug_loop False cs
     else if \<not> prev_dash then ch_dash # slug_loop True cs
     else slug_loop True cs)"

text \<open>The slug is ASCII, so its byte cap is a character cap.\<close>

definition slug :: "rstring \<Rightarrow> rstring" where
  "slug s = trim_end_matches (\<lambda>c. c = ch_dash) (trim_start_matches (\<lambda>c. c = ch_dash)
     (take max_topic_slug (slug_loop False s)))"

definition group_name :: "rstring \<Rightarrow> rstring option \<Rightarrow> rstring \<Rightarrow> rstring" where
  "group_name host tmux topic =
    (let parts = [lit ''amplihack'', slug host] @
           (case tmux of Some session \<Rightarrow> if slug session \<noteq> [] then [slug session] else [] | None \<Rightarrow> []) @
           [slug topic]
     in join [ch_dash] (filter (\<lambda>p. p \<noteq> []) parts))"

definition slug_char_ok :: "rchar \<Rightarrow> bool" where
  "slug_char_ok c \<longleftrightarrow> is_ascii_lowercase c \<or> is_ascii_digit c \<or> c = ch_dash"

definition slug_ok :: "rstring \<Rightarrow> bool" where
  "slug_ok s \<longleftrightarrow> list_all slug_char_ok s \<and> successively (\<lambda>c d. \<not> (c = ch_dash \<and> d = ch_dash)) s"

lemma slug_loop_ok: "slug_ok (slug_loop p s) \<and> (p \<longrightarrow> slug_loop p s \<noteq> [] \<longrightarrow> hd (slug_loop p s) \<noteq> ch_dash)"
proof (induction p s rule: slug_loop.induct)
  case (2 p c cs)
  have "is_ascii_alphanumeric c \<Longrightarrow> slug_char_ok (to_ascii_lower c) \<and> to_ascii_lower c \<noteq> ch_dash"
    by (auto simp: ascii_defs slug_char_ok_def)
  moreover have "slug_char_ok ch_dash" by (simp add: slug_char_ok_def)
  ultimately show ?case
    using 2 by (auto simp: slug_ok_def successively_Cons)
qed (simp add: slug_ok_def)

lemma slug_ok_sublist: "slug_ok s \<Longrightarrow> s = a @ t @ b \<Longrightarrow> slug_ok t"
  by (auto simp: slug_ok_def successively_append_iff)

lemma trimmed_sublist: "\<exists>a b. s = a @ trim_end_matches P (trim_start_matches P s) @ b"
proof -
  let ?t = "dropWhile P s"
  have "s = takeWhile P s @ ?t" by simp
  moreover have "?t = rev (dropWhile P (rev ?t)) @ rev (takeWhile P (rev ?t))"
    by (metis rev_append rev_rev_ident takeWhile_dropWhile_id)
  ultimately show ?thesis unfolding trim_end_matches_def trim_start_matches_def by metis
qed

lemma trimmed_ends:
  assumes "trim_end_matches P (trim_start_matches P s) \<noteq> []"
  shows "\<not> P (hd (trim_end_matches P (trim_start_matches P s)))" "\<not> P (last (trim_end_matches P (trim_start_matches P s)))"
proof -
  let ?t = "dropWhile P s"
  let ?r = "rev (dropWhile P (rev ?t))"
  have ne: "dropWhile P (rev ?t) \<noteq> []" using assms by (simp add: trim_end_matches_def trim_start_matches_def)
  have "?t = ?r @ rev (takeWhile P (rev ?t))" by (metis rev_append rev_rev_ident takeWhile_dropWhile_id)
  then have "hd ?t = hd ?r" using ne by (metis hd_append2 rev_is_Nil_conv)
  moreover have "?t \<noteq> []" using ne by (metis dropWhile.simps(1) rev.simps(1))
  ultimately show "\<not> P (hd (trim_end_matches P (trim_start_matches P s)))"
    using hd_dropWhile [of P s] by (simp add: trim_end_matches_def trim_start_matches_def)
  show "\<not> P (last (trim_end_matches P (trim_start_matches P s)))"
    using hd_dropWhile [OF ne] ne by (simp add: trim_end_matches_def trim_start_matches_def last_rev)
qed

text \<open>
  A slug holds only lowercase letters, digits and single dashes, has none at its ends, and is at
  most forty bytes long.
\<close>

lemma slug_shape:
  "slug_ok (slug s) \<and> utf8_len (slug s) \<le> max_topic_slug \<and>
   (slug s \<noteq> [] \<longrightarrow> hd (slug s) \<noteq> ch_dash \<and> last (slug s) \<noteq> ch_dash)"
proof -
  let ?s = "slug_loop False s" let ?t = "take max_topic_slug ?s"
  obtain a b where ab: "?t = a @ slug s @ b"
    using trimmed_sublist [of ?t "\<lambda>c. c = ch_dash"] by (auto simp: slug_def)
  have "slug_ok ?t" using slug_ok_sublist [of ?s "[]" ?t "drop max_topic_slug ?s"] slug_loop_ok by simp
  then have ok: "slug_ok (slug s)" using slug_ok_sublist ab by blast
  have "utf8_len (slug s) = length (slug s)"
  proof -
    have "utf8_len t = length t" if "list_all slug_char_ok t" for t
      using that by (induction t) (auto simp: slug_char_ok_def ascii_defs utf8_len_char_def)
    then show ?thesis using ok by (simp add: slug_ok_def)
  qed
  moreover have "length (slug s) \<le> max_topic_slug"
    using arg_cong [OF ab, of length] by simp
  ultimately show ?thesis
    using ok trimmed_ends [of "\<lambda>c. c = ch_dash" ?t] by (auto simp: slug_def)
qed

section \<open>Control phrases\<close>

datatype control = Status | Stop | Prompt rstring

definition parse_control :: "rstring \<Rightarrow> control" where
  "parse_control body =
    (let trimmed = trim body
     in if eq_ignore_ascii_case trimmed (lit ''status'') then Status
        else if eq_ignore_ascii_case trimmed (lit ''stop'') \<or> eq_ignore_ascii_case trimmed (lit ''kill'') then Stop
        else Prompt trimmed)"

section \<open>The turn's arguments\<close>

record tool_allowlist =
  ta_dangerous :: bool
  ta_tools :: "rstring list"

definition read_only_tools :: "rstring list" where
  "read_only_tools = map lit [''view'', ''grep'', ''glob'']"

definition read_only_default :: tool_allowlist where
  "read_only_default = \<lparr>ta_dangerous = False, ta_tools = read_only_tools\<rparr>"

definition from_flags :: "rstring list \<Rightarrow> bool \<Rightarrow> tool_allowlist" where
  "from_flags flags dangerous =
    (if dangerous then \<lparr>ta_dangerous = True, ta_tools = []\<rparr>
     else if flags = [] then read_only_default
     else \<lparr>ta_dangerous = False, ta_tools = flags\<rparr>)"

definition to_copilot_args :: "tool_allowlist \<Rightarrow> rstring list" where
  "to_copilot_args a =
    (if ta_dangerous a then [lit ''--allow-all-tools'']
     else concat (map (\<lambda>tool. [lit ''--allow-tool'', tool]) (ta_tools a)))"

definition describe :: "tool_allowlist \<Rightarrow> rstring" where
  "describe a =
    (if ta_dangerous a then lit ''ALL TOOLS (dangerous: --allow-all-tools)''
     else lit ''read-only/scoped tools: '' @ join (lit '', '') (ta_tools a))"

definition build_turn_argv :: "rstring \<Rightarrow> rstring \<Rightarrow> tool_allowlist \<Rightarrow> rstring list" where
  "build_turn_argv session_id prompt allowlist =
    [lit ''--session-id'', session_id, lit ''--no-color'', lit ''-s'', lit ''-p'', prompt] @
    to_copilot_args allowlist"

definition default_turn_error_tail_bytes :: nat where "default_turn_error_tail_bytes = 2048"

definition turn_error_tail_bytes :: "rstring option \<Rightarrow> nat" where
  "turn_error_tail_bytes env =
    (case env of Some raw \<Rightarrow> (case parse_usize raw of Some n \<Rightarrow> n | None \<Rightarrow> default_turn_error_tail_bytes)
     | None \<Rightarrow> default_turn_error_tail_bytes)"

text \<open>Skip whole characters until at least \<open>n\<close> bytes are behind: the start snapped forward.\<close>

fun skip_bytes :: "nat \<Rightarrow> rstring \<Rightarrow> rstring" where
  "skip_bytes n [] = []"
| "skip_bytes n (c # s) = (if n = 0 then c # s else skip_bytes (n - utf8_len_char c) s)"

definition char_boundary_tail :: "rstring \<Rightarrow> nat \<Rightarrow> rstring" where
  "char_boundary_tail s budget = (if utf8_len s \<le> budget then s else skip_bytes (utf8_len s - budget) s)"

lemma skip_bytes_spec: "suffix (skip_bytes n s) s \<and> utf8_len (skip_bytes n s) \<le> utf8_len s - n"
proof (induction n s rule: skip_bytes.induct)
  case (2 n c s)
  then show ?case by (auto intro: suffix_ConsI)
qed simp

lemma char_boundary_tail_bounded: "suffix (char_boundary_tail s b) s \<and> utf8_len (char_boundary_tail s b) \<le> b"
  using skip_bytes_spec [of "utf8_len s - b" s] by (auto simp: char_boundary_tail_def)

end
