(* ===== verification/Signal_Channel.thy ===== *)
theory Signal_Channel
  imports Signal_Text
begin

text \<open>
  The Signal channel of \<open>amplihack-signal/src\<close>: the inbound gate (\<open>gating.rs\<close>), the membership check
  (\<open>chat/membership.rs\<close>, \<open>chat/mod.rs\<close>), and the actor that owns both and feeds the turn queue
  (\<open>signal_channel.rs\<close>).  The redactor, which is the \<open>regex\<close> crate's work, is a parameter; so is
  the network, as the answers its calls give.  The local log lines are left out.
\<close>

section \<open>The gate\<close>

text \<open>An \<open>Instant\<close> and a \<open>Duration\<close> are nanosecond counts.\<close>

record envelope =
  en_source :: "rstring option"
  en_source_device :: "nat option"
  en_group_id :: "rstring option"
  en_body :: "rstring option"
  en_is_sync :: bool

record signal_config =
  cf_account :: rstring
  cf_allowlist :: "rstring list"
  cf_own_device_id :: "nat option"

record gate =
  ga_ttl :: nat
  ga_group_id :: rstring
  ga_allowlist :: "rstring set"
  ga_account :: rstring
  ga_own_device_id :: "nat option"
  ga_recent_outbound :: "(rstring \<times> nat) list"

definition default_echo_ttl :: nat where "default_echo_ttl = 120 * 1000000000"
definition primary_device_id :: nat where "primary_device_id = 1"

definition gate_with_ttl :: "signal_config \<Rightarrow> rstring \<Rightarrow> nat \<Rightarrow> gate" where
  "gate_with_ttl cfg gid ttl =
    \<lparr>ga_ttl = ttl, ga_group_id = gid, ga_allowlist = set (cf_allowlist cfg), ga_account = cf_account cfg,
     ga_own_device_id = cf_own_device_id cfg, ga_recent_outbound = []\<rparr>"

definition gate_new :: "signal_config \<Rightarrow> rstring \<Rightarrow> gate" where
  "gate_new cfg gid = gate_with_ttl cfg gid default_echo_ttl"

text \<open>The difference of instants saturates at zero.\<close>

definition prune :: "nat \<Rightarrow> gate \<Rightarrow> gate" where
  "prune now g = g\<lparr>ga_recent_outbound := filter (\<lambda>(_, at). now - at < ga_ttl g) (ga_recent_outbound g)\<rparr>"

definition record_outbound_at :: "rstring \<Rightarrow> nat \<Rightarrow> gate \<Rightarrow> gate" where
  "record_outbound_at body at g =
    (let g' = prune at g in g'\<lparr>ga_recent_outbound := ga_recent_outbound g' @ [(body, at)]\<rparr>)"

definition evaluate_at :: "envelope \<Rightarrow> nat \<Rightarrow> gate \<Rightarrow> rstring option \<times> gate" where
  "evaluate_at env now g =
    (let g' = prune now g
     in (if en_group_id env \<noteq> Some (ga_group_id g') then None
         else (case en_body env of
                 None \<Rightarrow> None
               | Some body \<Rightarrow>
                   if body = [] then None
                   else if list_ex (\<lambda>(recorded, _). recorded = body) (ga_recent_outbound g') then None
                   else (case en_source env of
                           None \<Rightarrow> None
                         | Some src \<Rightarrow>
                             if src \<notin> ga_allowlist g' then None
                             else if en_is_sync env then
                               (if ga_own_device_id g' \<noteq> None \<and> en_source_device env = ga_own_device_id g' then None
                                else if en_source_device env \<noteq> Some primary_device_id then None
                                else if src \<noteq> ga_account g' then None
                                else Some body)
                             else Some body)), g'))"

section \<open>Membership\<close>

definition expected_members :: "signal_config \<Rightarrow> rstring list" where
  "expected_members cfg =
    (if cf_account cfg \<in> set (cf_allowlist cfg) then cf_allowlist cfg else cf_allowlist cfg @ [cf_account cfg])"

text \<open>The reason of \<open>Unverified\<close> is its data, not the message made from it.\<close>

datatype membership = Verified | No_member_set | Mismatch "rstring set" "rstring set"

definition may_relay :: "membership \<Rightarrow> bool" where
  "may_relay m = (m = Verified)"

definition classify :: "rstring list \<Rightarrow> rstring list option \<Rightarrow> membership" where
  "classify expected actual =
    (case actual of
       None \<Rightarrow> No_member_set
     | Some members \<Rightarrow>
         if set expected = set members then Verified
         else Mismatch (set members - set expected) (set expected - set members))"

section \<open>The channel\<close>

text \<open>
  The state the handle and the actor share, with what the actor owns.  \<open>ch_trigger\<close> tells whether
  a turn's pre-emption trigger is in its slot, \<open>ch_fired\<close> counts how often it was fired.  \<open>ch_sent\<close>
  records every message handed to the network, with the member set read just before, and
  \<open>ch_quit\<close> whether the group was left.  \<open>ch_stopping\<close> is the time the actor waits for the answer to
  \<open>quitGroup\<close>: the turn loop runs on meanwhile, because the closed flag is set only after it.
\<close>

record sent =
  st_body :: rstring
  st_members :: "rstring list option"

record channel =
  ch_gate :: gate
  ch_expected :: "rstring list"
  ch_group_id :: rstring
  ch_capacity :: nat
  ch_queue :: "rstring list"
  ch_closed :: bool
  ch_session_label :: rstring
  ch_running :: bool
  ch_stopping :: bool
  ch_trigger :: bool
  ch_fired :: nat
  ch_sent :: "sent list"
  ch_quit :: bool

definition default_capacity :: nat where "default_capacity = 32"

definition resolve_capacity :: "rstring option \<Rightarrow> nat" where
  "resolve_capacity raw =
    (case raw of None \<Rightarrow> default_capacity
     | Some r \<Rightarrow> (case parse_usize (trim r) of Some n \<Rightarrow> if 0 < n then n else default_capacity
                | None \<Rightarrow> default_capacity))"

definition channel_new :: "signal_config \<Rightarrow> rstring \<Rightarrow> nat \<Rightarrow> channel" where
  "channel_new cfg gid capacity =
    \<lparr>ch_gate = gate_new cfg gid, ch_expected = expected_members cfg, ch_group_id = gid,
     ch_capacity = capacity, ch_queue = [], ch_closed = False, ch_session_label = [], ch_running = True,
     ch_stopping = False, ch_trigger = False, ch_fired = 0, ch_sent = [], ch_quit = False\<rparr>"

text \<open>What the network answers for one chunk: the member set, whether the send worked, and the time.\<close>

type_synonym network = "nat \<Rightarrow> rstring list option \<times> bool \<times> nat"

text \<open>
  \<open>verified_send\<close> and the arm of \<open>post_body\<close> that follows it: the flag tells whether the loop goes on
  to the next chunk.
\<close>

definition post_chunk :: "rstring list option \<times> bool \<times> nat \<Rightarrow> rstring \<Rightarrow> channel \<Rightarrow> bool \<times> channel" where
  "post_chunk answer piece ch =
    (case answer of (members, works, now) \<Rightarrow>
       if may_relay (classify (ch_expected ch) members)
       then (let ch' = ch\<lparr>ch_sent := ch_sent ch @ [\<lparr>st_body = piece, st_members = members\<rparr>]\<rparr>
             in if works then (True, ch'\<lparr>ch_gate := record_outbound_at piece now (ch_gate ch')\<rparr>)
                else (False, ch'))
       else (False, ch))"

fun post_chunks :: "network \<Rightarrow> nat \<Rightarrow> rstring list \<Rightarrow> channel \<Rightarrow> channel" where
  "post_chunks net i [] ch = ch"
| "post_chunks net i (piece # cs) ch =
    (let (go_on, ch') = post_chunk (net i) piece ch in if go_on then post_chunks net (i + 1) cs ch' else ch')"

text \<open>The chunking cannot fail (\<open>chunking_succeeds\<close>).\<close>

definition redact_and_chunk :: "(rstring \<Rightarrow> rstring) \<Rightarrow> rstring \<Rightarrow> rstring list" where
  "redact_and_chunk redact body = (case chunk (redact body) of Some cs \<Rightarrow> cs | None \<Rightarrow> [])"

definition post_body :: "(rstring \<Rightarrow> rstring) \<Rightarrow> network \<Rightarrow> rstring \<Rightarrow> channel \<Rightarrow> channel" where
  "post_body redact net body ch = post_chunks net 0 (redact_and_chunk redact body) ch"

definition preempt_child :: "channel \<Rightarrow> channel" where
  "preempt_child ch = (if ch_trigger ch then ch\<lparr>ch_trigger := False, ch_fired := ch_fired ch + 1\<rparr> else ch)"

definition status_line :: "channel \<Rightarrow> rstring" where
  "status_line ch =
    lit ''status: session '' @ (if ch_session_label ch = [] then ch_group_id ch else ch_session_label ch) @
    lit '' | queue depth '' @ show_radix 10 (length (ch_queue ch)) @
    lit '' | membership: verifying before each post''"

text \<open>\<open>push_back\<close> and the loop that drops the oldest prompts over the capacity.\<close>

definition enqueue_prompt :: "rstring \<Rightarrow> channel \<Rightarrow> channel" where
  "enqueue_prompt prompt ch =
    (let q = ch_queue ch @ [prompt] in ch\<lparr>ch_queue := drop (length q - ch_capacity ch) q\<rparr>)"

datatype receipt = Frame envelope | Stream_closed | Receive_error

datatype actor_event = Post rstring | Handle_dropped | Receive receipt

text \<open>One turn of the actor's loop.\<close>

definition actor_step :: "(rstring \<Rightarrow> rstring) \<Rightarrow> network \<Rightarrow> nat \<Rightarrow> actor_event \<Rightarrow> channel \<Rightarrow> channel" where
  "actor_step redact net now ev ch =
    (case ev of
       Post body \<Rightarrow> post_body redact net body ch
     | Handle_dropped \<Rightarrow> ch\<lparr>ch_running := False\<rparr>
     | Receive Stream_closed \<Rightarrow> ch\<lparr>ch_closed := True, ch_running := False\<rparr>
     | Receive Receive_error \<Rightarrow> ch
     | Receive (Frame env) \<Rightarrow>
         (let (accepted, g) = evaluate_at env now (ch_gate ch); ch' = ch\<lparr>ch_gate := g\<rparr>
          in (case accepted of
                None \<Rightarrow> ch'
              | Some body \<Rightarrow>
                  (case parse_control body of
                     Status \<Rightarrow> post_body redact net (status_line ch') ch'
                   | Stop \<Rightarrow> (preempt_child ch')\<lparr>ch_stopping := True\<rparr>
                   | Prompt prompt \<Rightarrow> enqueue_prompt prompt ch'))))"

text \<open>What the actor does when the group has been left.\<close>

definition finish_stop :: "channel \<Rightarrow> channel" where
  "finish_stop ch = ch\<lparr>ch_stopping := False, ch_quit := True, ch_closed := True, ch_running := False\<rparr>"

datatype next_prompt = Ready rstring | Idle | Closed

definition next_prompt_of :: "channel \<Rightarrow> next_prompt \<times> channel" where
  "next_prompt_of ch =
    (if ch_closed ch then (Closed, ch)
     else (case ch_queue ch of prompt # q \<Rightarrow> (Ready prompt, ch\<lparr>ch_queue := q\<rparr>) | [] \<Rightarrow> (Idle, ch)))"

definition seed_first_prompt :: "rstring \<Rightarrow> channel \<Rightarrow> channel" where
  "seed_first_prompt prompt ch = ch\<lparr>ch_queue := ch_queue ch @ [prompt]\<rparr>"

definition set_session_id :: "rstring \<Rightarrow> channel \<Rightarrow> channel" where
  "set_session_id i ch = ch\<lparr>ch_session_label := i\<rparr>"

text \<open>The post request that \<open>publish_output\<close> sends to the actor, if any.\<close>

definition publish_request :: "rstring \<Rightarrow> channel \<Rightarrow> rstring option" where
  "publish_request out ch =
    (if ch_closed ch then None
     else Some (if trim out = [] then lit ''(turn produced no output)'' else out))"

section \<open>The interleaved steps\<close>

text \<open>
  What can happen to a channel, in any order: the actor takes an event while it runs and does not wait
  for the group to be left, it finishes a stop, the turn loop
  asks for a prompt, starts a turn (its trigger is put into the slot) or ends one, and the
  caller sets the label or seeds a prompt.  The chat command seeds once, right after the start, when the
  queue is within its capacity.
\<close>

inductive channel_step :: "(rstring \<Rightarrow> rstring) \<Rightarrow> channel \<Rightarrow> channel \<Rightarrow> bool" for redact where
  actor: "ch_running ch \<Longrightarrow> \<not> ch_stopping ch \<Longrightarrow> channel_step redact ch (actor_step redact net now ev ch)"
| left: "ch_stopping ch \<Longrightarrow> channel_step redact ch (finish_stop ch)"
| prompt: "channel_step redact ch (snd (next_prompt_of ch))"
| seed: "length (ch_queue ch) \<le> ch_capacity ch \<Longrightarrow> channel_step redact ch (seed_first_prompt p ch)"
| label: "channel_step redact ch (set_session_id i ch)"
| turn_start: "channel_step redact ch (ch\<lparr>ch_trigger := True\<rparr>)"
| turn_end: "channel_step redact ch (ch\<lparr>ch_trigger := False\<rparr>)"

inductive_cases channel_stepE: "channel_step redact ch ch'"

inductive reachable_channel :: "(rstring \<Rightarrow> rstring) \<Rightarrow> signal_config \<Rightarrow> rstring \<Rightarrow> nat \<Rightarrow> channel \<Rightarrow> bool"
  for redact cfg gid capacity where
  init: "reachable_channel redact cfg gid capacity (channel_new cfg gid capacity)"
| step: "reachable_channel redact cfg gid capacity ch \<Longrightarrow> channel_step redact ch ch' \<Longrightarrow>
    reachable_channel redact cfg gid capacity ch'"

end
