(* ===== verification/Signal_Facts.thy ===== *)
theory Signal_Facts
  imports Signal_Channel
begin

text \<open>
  What the Signal channel guarantees in every interleaving of its actor with the turn loop: nothing
  leaves without a verified group, only the operator drives it, and a stop is final.
\<close>

section \<open>The gate\<close>

text \<open>An envelope that may instruct the session: the checks of the gate that do not depend on time.\<close>

definition authorised :: "signal_config \<Rightarrow> rstring \<Rightarrow> envelope \<Rightarrow> rstring \<Rightarrow> bool" where
  "authorised cfg gid env b \<longleftrightarrow>
     en_group_id env = Some gid \<and> en_body env = Some b \<and> b \<noteq> [] \<and>
     (\<exists>src. en_source env = Some src \<and> src \<in> set (cf_allowlist cfg) \<and>
        (en_is_sync env \<longrightarrow> src = cf_account cfg \<and> en_source_device env = Some primary_device_id \<and>
           cf_own_device_id cfg \<noteq> Some primary_device_id))"

definition recently_sent :: "nat \<Rightarrow> gate \<Rightarrow> rstring \<Rightarrow> bool" where
  "recently_sent now g b \<longleftrightarrow> (\<exists>at. (b, at) \<in> set (ga_recent_outbound g) \<and> now - at < ga_ttl g)"

text \<open>The gate was made from this configuration for this group.\<close>

definition gate_of :: "signal_config \<Rightarrow> rstring \<Rightarrow> gate \<Rightarrow> bool" where
  "gate_of cfg gid g \<longleftrightarrow> ga_group_id g = gid \<and> ga_allowlist g = set (cf_allowlist cfg) \<and>
     ga_account g = cf_account cfg \<and> ga_own_device_id g = cf_own_device_id cfg \<and> ga_ttl g = default_echo_ttl"

lemma gate_of_new: "gate_of cfg gid (gate_new cfg gid)"
  by (simp add: gate_of_def gate_new_def gate_with_ttl_def)

lemma gate_of_ops:
  "gate_of cfg gid (prune now g) = gate_of cfg gid g"
  "gate_of cfg gid (record_outbound_at b now g) = gate_of cfg gid g"
  "gate_of cfg gid (snd (evaluate_at env now g)) = gate_of cfg gid g"
  by (simp_all add: gate_of_def prune_def record_outbound_at_def evaluate_at_def Let_def)

lemma gate_accepts:
  assumes "gate_of cfg gid g"
  shows "fst (evaluate_at env now g) = Some b \<longleftrightarrow> authorised cfg gid env b \<and> \<not> recently_sent now g b"
  using assms
  by (auto simp: evaluate_at_def Let_def gate_of_def authorised_def recently_sent_def prune_def list_ex_iff
      split: option.splits if_splits)

section \<open>Posting\<close>

definition sent_ok :: "(rstring \<Rightarrow> rstring) \<Rightarrow> signal_config \<Rightarrow> sent \<Rightarrow> bool" where
  "sent_ok redact cfg m \<longleftrightarrow>
     (\<exists>members. st_members m = Some members \<and> set members = set (expected_members cfg)) \<and>
     utf8_len (st_body m) \<le> signal_max_bytes \<and>
     (\<exists>body a b. redact body = a @ st_body m @ b)"

lemma chunks_of_redacted:
  assumes "piece \<in> set (redact_and_chunk redact body)"
  shows "utf8_len piece \<le> signal_max_bytes \<and> (\<exists>a b. redact body = a @ piece @ b)"
proof -
  obtain cs where cs: "chunk (redact body) = Some cs" "concat cs = redact body"
    "list_all (\<lambda>c. c \<noteq> [] \<and> utf8_len c \<le> signal_max_bytes) cs"
    using chunking_succeeds [of "redact body"] by blast
  then have "piece \<in> set cs" using assms by (simp add: redact_and_chunk_def)
  then obtain xs ys where "cs = xs @ piece # ys" by (meson split_list)
  then have "redact body = concat xs @ piece @ concat ys" using cs(2) by simp
  then show ?thesis using cs(3) \<open>piece \<in> set cs\<close> by (auto simp: list_all_iff)
qed

text \<open>What posting changes: the log of sent messages grows by verified ones, and the gate stays of its
configuration.\<close>

definition same_control :: "channel \<Rightarrow> channel \<Rightarrow> bool" where
  "same_control ch ch' \<longleftrightarrow> ch_queue ch' = ch_queue ch \<and> ch_closed ch' = ch_closed ch \<and>
     ch_running ch' = ch_running ch \<and> ch_stopping ch' = ch_stopping ch \<and> ch_fired ch' = ch_fired ch \<and> ch_trigger ch' = ch_trigger ch \<and>
     ch_expected ch' = ch_expected ch \<and> ch_capacity ch' = ch_capacity ch \<and> ch_quit ch' = ch_quit ch"

definition channel_ok :: "(rstring \<Rightarrow> rstring) \<Rightarrow> signal_config \<Rightarrow> rstring \<Rightarrow> nat \<Rightarrow> channel \<Rightarrow> bool" where
  "channel_ok redact cfg gid capacity ch \<longleftrightarrow>
     gate_of cfg gid (ch_gate ch) \<and> ch_expected ch = expected_members cfg \<and> ch_capacity ch = capacity \<and>
     list_all (sent_ok redact cfg) (ch_sent ch) \<and> length (ch_queue ch) \<le> capacity + 1 \<and>
     (ch_closed ch \<longrightarrow> \<not> ch_running ch) \<and> (ch_stopping ch \<longrightarrow> ch_running ch)"

lemma post_chunks_ok:
  assumes "channel_ok redact cfg gid capacity ch" "set cs \<subseteq> set (redact_and_chunk redact body)"
  shows "channel_ok redact cfg gid capacity (post_chunks net i cs ch) \<and> same_control ch (post_chunks net i cs ch)"
  using assms
proof (induction net i cs ch rule: post_chunks.induct)
  case (2 net i piece cs ch)
  obtain go_on ch' where p: "post_chunk (net i) piece ch = (go_on, ch')" by fastforce
  have "piece \<in> set (redact_and_chunk redact body)" using 2(3) by simp
  from chunks_of_redacted [OF this] have piece: "utf8_len piece \<le> signal_max_bytes" "\<exists>a b. redact body = a @ piece @ b"
    by simp_all
  have sent: "sent_ok redact cfg \<lparr>st_body = piece, st_members = Some m\<rparr>" if "set (expected_members cfg) = set m" for m
    using piece that unfolding sent_ok_def sent.simps by (metis (no_types))
  have "channel_ok redact cfg gid capacity ch' \<and> same_control ch ch'"
  proof (cases "may_relay (classify (ch_expected ch) (fst (net i)))")
    case False
    then show ?thesis using p 2(2) by (simp add: post_chunk_def same_control_def split: prod.splits)
  next
    case True
    then obtain m where "fst (net i) = Some m" "set (expected_members cfg) = set m"
      using 2(2) by (auto simp: may_relay_def classify_def channel_ok_def split: option.splits if_splits)
    then show ?thesis using p 2(2) True sent [of m]
      by (auto simp: post_chunk_def channel_ok_def same_control_def gate_of_ops Let_def split: prod.splits if_splits)
  qed
  then show ?case using 2(1) [OF p [symmetric] refl] 2(3) p by (auto simp: same_control_def)
qed (simp add: same_control_def)

lemma post_body_ok:
  "channel_ok redact cfg gid capacity ch \<Longrightarrow>
   channel_ok redact cfg gid capacity (post_body redact net b ch) \<and> same_control ch (post_body redact net b ch)"
  unfolding post_body_def by (rule post_chunks_ok [OF _ order_refl])

section \<open>Reachable channels\<close>

lemma channel_ok_gate: "channel_ok redact cfg gid capacity (ch\<lparr>ch_gate := snd (evaluate_at env now (ch_gate ch))\<rparr>) =
    channel_ok redact cfg gid capacity ch"
  by (simp add: channel_ok_def gate_of_ops)

lemma channel_ok_new: "channel_ok redact cfg gid capacity (channel_new cfg gid capacity)"
  by (simp add: channel_ok_def channel_new_def gate_of_new)

lemma channel_ok_enqueue: "channel_ok redact cfg gid capacity ch \<Longrightarrow> channel_ok redact cfg gid capacity (enqueue_prompt p ch)"
  by (simp add: channel_ok_def enqueue_prompt_def Let_def)

lemma channel_ok_frame:
  assumes "channel_ok redact cfg gid capacity ch" and run: "ch_running ch"
  shows "channel_ok redact cfg gid capacity (actor_step redact net now (Receive (Frame env)) ch)"
proof -
  let ?ch = "ch\<lparr>ch_gate := snd (evaluate_at env now (ch_gate ch))\<rparr>"
  have ok: "channel_ok redact cfg gid capacity ?ch" using assms by (simp add: channel_ok_gate)
  then have "channel_ok redact cfg gid capacity ((preempt_child ?ch)\<lparr>ch_stopping := True\<rparr>)"
    using run by (simp add: channel_ok_def preempt_child_def)
  then show ?thesis
    using ok post_body_ok [OF ok] channel_ok_enqueue [OF ok]
    by (auto simp: actor_step_def case_prod_beta Let_def split: option.splits control.splits)
qed

lemma channel_ok_step:
  assumes "channel_ok redact cfg gid capacity ch" "channel_step redact ch ch'"
  shows "channel_ok redact cfg gid capacity ch'"
  using assms(2)
proof (rule channel_stepE)
  fix net now ev
  assume e: "ch' = actor_step redact net now ev ch" "ch_running ch" "\<not> ch_stopping ch"
  show ?thesis
  proof (cases ev)
    case (Receive r)
    then show ?thesis
      using assms(1) e channel_ok_frame [OF assms(1) e(2)] by (cases r) (auto simp: actor_step_def channel_ok_def)
  qed (use assms(1) e post_body_ok in \<open>auto simp: actor_step_def channel_ok_def\<close>)
qed (use assms(1) in \<open>auto simp: channel_ok_def finish_stop_def next_prompt_of_def seed_first_prompt_def set_session_id_def
    split: list.splits\<close>)

lemma reachable_channel_ok: "reachable_channel redact cfg gid capacity ch \<Longrightarrow> channel_ok redact cfg gid capacity ch"
  by (induction rule: reachable_channel.induct) (auto simp: channel_ok_new channel_ok_step)

text \<open>
  C16. In every interleaving, each message the channel hands to the network is a piece of at most two
  thousand bytes of a redacted body, and the member set read just before it was exactly the
  operator set; a failed or different reading sends nothing.
\<close>

theorem outbound_verified:
  assumes "reachable_channel redact cfg gid capacity ch"
  shows "\<forall>m \<in> set (ch_sent ch).
    (\<exists>members. st_members m = Some members \<and> set members = set (cf_allowlist cfg) \<union> {cf_account cfg}) \<and>
    utf8_len (st_body m) \<le> signal_max_bytes \<and> (\<exists>body a b. redact body = a @ st_body m @ b)"
proof -
  have "set (expected_members cfg) = set (cf_allowlist cfg) \<union> {cf_account cfg}"
    by (auto simp: expected_members_def)
  then show ?thesis
    using reachable_channel_ok [OF assms] by (auto simp: channel_ok_def sent_ok_def list_all_iff)
qed

definition sample_config :: signal_config where
  "sample_config = \<lparr>cf_account = lit ''+1'', cf_allowlist = [lit ''+2''], cf_own_device_id = None\<rparr>"

definition sample_channel :: channel where
  "sample_channel = actor_step id (\<lambda>_. (Some [lit ''+2'', lit ''+1''], True, 7)) 5 (Post (lit ''hello''))
     (channel_new sample_config (lit ''g'') 32)"

lemma sample_reachable: "reachable_channel id sample_config (lit ''g'') 32 sample_channel"
  unfolding sample_channel_def
  by (intro reachable_channel.step [OF reachable_channel.init] channel_step.actor) (simp_all add: channel_new_def)

lemma sample_sent:
  "ch_sent sample_channel = [\<lparr>st_body = lit ''hello'', st_members = Some [lit ''+2'', lit ''+1'']\<rparr>]"
proof -
  have "chunk (lit ''hello'') = Some [lit ''hello'']" by code_simp
  then show ?thesis
    by (simp add: sample_channel_def actor_step_def post_body_def redact_and_chunk_def post_chunk_def channel_new_def
        may_relay_def classify_def expected_members_def sample_config_def Let_def insert_commute del: lit_Cons)
qed

lemma outbound_verified_witness:
  "\<exists>m members. m \<in> set (ch_sent sample_channel) \<and> st_members m = Some members \<and>
     set members = {lit ''+2'', lit ''+1''} \<and> utf8_len (st_body m) \<le> signal_max_bytes"
  using outbound_verified [OF sample_reachable] by (auto simp: sample_config_def sample_sent)

section \<open>Only the operator\<close>

text \<open>
  C17. A received frame can change the turn queue, the shut-down flags, the child or the outbound log
  only when it comes from an allowlisted sender of this group (from the account itself only from
  the primary phone) and is not the text of a message sent within the echo window.
\<close>

theorem only_operator_drives:
  assumes "reachable_channel redact cfg gid capacity ch"
    "ch' = actor_step redact net now (Receive (Frame env)) ch"
    "\<not> (same_control ch ch' \<and> ch_sent ch' = ch_sent ch)"
  shows "\<exists>b. authorised cfg gid env b \<and> \<not> recently_sent now (ch_gate ch) b"
proof -
  have g: "gate_of cfg gid (ch_gate ch)" using reachable_channel_ok [OF assms(1)] by (simp add: channel_ok_def)
  show ?thesis
  proof (cases "fst (evaluate_at env now (ch_gate ch))")
    case None
    then have "same_control ch ch' \<and> ch_sent ch' = ch_sent ch"
      using assms(2) by (simp add: actor_step_def case_prod_beta Let_def same_control_def)
    then show ?thesis using assms(3) by blast
  next
    case (Some b)
    then show ?thesis using gate_accepts [OF g] by blast
  qed
qed

definition sample_frame :: "rstring \<Rightarrow> envelope" where
  "sample_frame b = \<lparr>en_source = Some (lit ''+2''), en_source_device = Some 4, en_group_id = Some (lit ''g''),
     en_body = Some b, en_is_sync = False\<rparr>"

lemma sample_gate: "ch_gate sample_channel = record_outbound_at (lit ''hello'') 7 (gate_new sample_config (lit ''g''))"
proof -
  have "chunk (lit ''hello'') = Some [lit ''hello'']" by code_simp
  then show ?thesis
    by (simp add: sample_channel_def actor_step_def post_body_def redact_and_chunk_def post_chunk_def channel_new_def
        may_relay_def classify_def expected_members_def sample_config_def Let_def insert_commute del: lit_Cons)
qed

lemma sample_run_queue: "ch_queue sample_channel = []" "ch_capacity sample_channel = 32"
  and sample_run_closed: "\<not> ch_closed sample_channel"
  using post_body_ok [OF channel_ok_new, where redact = id and net = "\<lambda>_. (Some [lit ''+2'', lit ''+1''], True, 7)"
      and b = "lit ''hello''" and cfg = sample_config and gid = "lit ''g''" and capacity = 32]
  by (simp_all add: sample_channel_def actor_step_def same_control_def channel_new_def)

lemma only_operator_drives_witness:
  "ch_queue (actor_step id (\<lambda>_. (None, True, 0)) 9 (Receive (Frame (sample_frame (lit ''go'')))) sample_channel) = [lit ''go''] \<and>
   (\<exists>b. authorised sample_config (lit ''g'') (sample_frame (lit ''go'')) b \<and> \<not> recently_sent 9 (ch_gate sample_channel) b)"
proof -
  let ?ch' = "actor_step id (\<lambda>_. (None, True, 0)) 9 (Receive (Frame (sample_frame (lit ''go'')))) sample_channel"
  have g: "gate_of sample_config (lit ''g'') (ch_gate sample_channel)"
    using reachable_channel_ok [OF sample_reachable] by (simp add: channel_ok_def)
  have "fst (evaluate_at (sample_frame (lit ''go'')) 9 (ch_gate sample_channel)) = Some (lit ''go'')"
    unfolding gate_accepts [OF g]
    by (simp add: authorised_def sample_frame_def sample_config_def recently_sent_def sample_gate record_outbound_at_def
        prune_def gate_new_def gate_with_ttl_def Let_def)
  moreover have "parse_control (lit ''go'') = Prompt (lit ''go'')" by code_simp
  ultimately have q: "ch_queue ?ch' = [lit ''go'']"
    by (simp add: actor_step_def case_prod_beta Let_def enqueue_prompt_def sample_run_queue del: lit_Cons)
  then have "\<not> (same_control sample_channel ?ch' \<and> ch_sent ?ch' = ch_sent sample_channel)"
    by (simp add: same_control_def sample_run_queue)
  with q show ?thesis using only_operator_drives [OF sample_reachable refl] by blast
qed

section \<open>Echoes\<close>

text \<open>
  A posted text is recognised as an echo whoever sends it: for two minutes after the channel has
  posted a short body, a frame with the same text changes nothing, so a turn whose output is the word \<open>stop\<close>
  disables the operator's \<open>stop\<close> for that time.
\<close>

lemma echo_hides_control:
  assumes "reachable_channel redact cfg gid capacity ch" "redact b = b" "b \<noteq> []" "utf8_len b \<le> signal_max_bytes"
    "net 0 = (Some (cf_account cfg # cf_allowlist cfg), True, at)" "now - at < default_echo_ttl" "en_body env = Some b"
    "ch' = actor_step redact net early (Post b) ch"
  shows "same_control ch' (actor_step redact net' now (Receive (Frame env)) ch')"
proof -
  have ok: "channel_ok redact cfg gid capacity ch" using reachable_channel_ok [OF assms(1)] .
  have "set (expected_members cfg) = set (cf_account cfg # cf_allowlist cfg)" by (auto simp: expected_members_def)
  then have "(b, at) \<in> set (ga_recent_outbound (ch_gate ch')) \<and> gate_of cfg gid (ch_gate ch')"
    using ok assms(2,5,8) short_chunk [OF assms(3,4)]
    by (simp add: actor_step_def post_body_def redact_and_chunk_def post_chunk_def may_relay_def classify_def
        channel_ok_def gate_of_ops Let_def) (simp add: record_outbound_at_def Let_def)
  then have recent: "recently_sent now (ch_gate ch') b" and g: "gate_of cfg gid (ch_gate ch')"
    using assms(6) by (auto simp: recently_sent_def gate_of_def)
  have "fst (evaluate_at env now (ch_gate ch')) = None"
  proof (rule ccontr)
    assume "fst (evaluate_at env now (ch_gate ch')) \<noteq> None"
    then obtain x where "fst (evaluate_at env now (ch_gate ch')) = Some x" by blast
    then have "authorised cfg gid env x \<and> \<not> recently_sent now (ch_gate ch') x"
      using gate_accepts [OF g] by blast
    then show False using assms(7) recent by (simp add: authorised_def)
  qed
  then show ?thesis by (simp add: actor_step_def case_prod_beta Let_def same_control_def)
qed

lemma echo_hides_control_witness:
  "same_control (actor_step id (\<lambda>_. (Some [lit ''+1'', lit ''+2''], True, 5)) 5 (Post (lit ''stop'')) sample_channel)
     (actor_step id (\<lambda>_. (None, True, 0)) 9 (Receive (Frame (sample_frame (lit ''stop''))))
       (actor_step id (\<lambda>_. (Some [lit ''+1'', lit ''+2''], True, 5)) 5 (Post (lit ''stop'')) sample_channel)) \<and>
   authorised sample_config (lit ''g'') (sample_frame (lit ''stop'')) (lit ''stop'') \<and>
   parse_control (lit ''stop'') = Stop"
proof (intro conjI)
  show "authorised sample_config (lit ''g'') (sample_frame (lit ''stop'')) (lit ''stop'')"
    by (simp add: authorised_def sample_frame_def sample_config_def)
  show "parse_control (lit ''stop'') = Stop" by code_simp
  show "same_control (actor_step id (\<lambda>_. (Some [lit ''+1'', lit ''+2''], True, 5)) 5 (Post (lit ''stop'')) sample_channel)
     (actor_step id (\<lambda>_. (None, True, 0)) 9 (Receive (Frame (sample_frame (lit ''stop''))))
       (actor_step id (\<lambda>_. (Some [lit ''+1'', lit ''+2''], True, 5)) 5 (Post (lit ''stop'')) sample_channel))"
  proof (rule echo_hides_control [where at = 5 and b = "lit ''stop''" and now = 9 and redact = id and early = 5 and
        net = "\<lambda>_. (Some [lit ''+1'', lit ''+2''], True, 5)", OF sample_reachable])
    show "utf8_len (lit ''stop'') \<le> signal_max_bytes" by code_simp
    show "(9::nat) - 5 < default_echo_ttl" by (simp add: default_echo_ttl_def)
  qed (simp_all add: sample_config_def sample_frame_def)
qed

section \<open>Stopping\<close>

text \<open>A channel that is being stopped or has been.\<close>

definition stopped_since :: "channel \<Rightarrow> channel \<Rightarrow> bool" where
  "stopped_since ch ch' \<longleftrightarrow> ch_sent ch' = ch_sent ch \<and>
     (ch_stopping ch' \<or> \<not> ch_running ch' \<and> ch_closed ch' \<and> ch_quit ch')"

lemma stopped_stays: "stopped_since ch ch' \<Longrightarrow> channel_step redact ch' ch'' \<Longrightarrow> stopped_since ch ch''"
  by (erule channel_stepE)
    (auto simp: stopped_since_def finish_stop_def next_prompt_of_def seed_first_prompt_def set_session_id_def
      split: list.splits)

lemma stop_frame:
  assumes "reachable_channel redact cfg gid capacity ch"
    "authorised cfg gid env b" "\<not> recently_sent now (ch_gate ch) b"
    "to_ascii_lowercase (trim b) = lit ''stop'' \<or> to_ascii_lowercase (trim b) = lit ''kill''"
  shows "actor_step redact net now (Receive (Frame env)) ch =
    (preempt_child (ch\<lparr>ch_gate := snd (evaluate_at env now (ch_gate ch))\<rparr>))\<lparr>ch_stopping := True\<rparr>"
proof -
  have g: "gate_of cfg gid (ch_gate ch)" using reachable_channel_ok [OF assms(1)] by (simp add: channel_ok_def)
  have e: "fst (evaluate_at env now (ch_gate ch)) = Some b" using gate_accepts [OF g] assms(2,3) by blast
  have low: "to_ascii_lowercase (lit ''status'') = lit ''status''" "to_ascii_lowercase (lit ''stop'') = lit ''stop''"
    "to_ascii_lowercase (lit ''kill'') = lit ''kill''" by code_simp+
  have "parse_control b = Stop"
    using assms(4) by (auto simp: parse_control_def eq_ignore_ascii_case_def low Let_def simp del: lit_Cons) (simp_all)
  then show ?thesis using e by (simp add: actor_step_def case_prod_beta Let_def)
qed

text \<open>
  C18. A \<open>stop\<close> or \<open>kill\<close> from the operator, in any letter case and with any white space around it,
  fires the trigger of the running turn, and whatever happens afterwards nothing more is sent; once the group has been left, no
  further prompt is handed out, also none that was queued, and no turn output is posted.  The one exception is a stop whose text
  is among those the channel itself posted in the last 120 seconds: it is taken for an echo and changes nothing.
\<close>

theorem stop_is_final:
  assumes "reachable_channel redact cfg gid capacity ch" "authorised cfg gid env b"
    "to_ascii_lowercase (trim b) = lit ''stop'' \<or> to_ascii_lowercase (trim b) = lit ''kill''"
    "(channel_step redact)\<^sup>*\<^sup>* (actor_step redact net now (Receive (Frame env)) ch) ch'"
  shows "(if \<exists>at. (b, at) \<in> set (ga_recent_outbound (ch_gate ch)) \<and> now - at < 120 * 10 ^ 9
    then same_control ch (actor_step redact net now (Receive (Frame env)) ch)
    else ch_fired (actor_step redact net now (Receive (Frame env)) ch) = ch_fired ch + (if ch_trigger ch then 1 else 0) \<and>
      ch_sent ch' = ch_sent ch \<and>
      (ch_stopping ch' \<or> ch_quit ch' \<and> fst (next_prompt_of ch') = Closed \<and> publish_request out ch' = None))"
proof -
  have g: "gate_of cfg gid (ch_gate ch)" using reachable_channel_ok [OF assms(1)] by (simp add: channel_ok_def)
  then have ttl: "ga_ttl (ch_gate ch) = 120 * 10 ^ 9" by (simp add: gate_of_def default_echo_ttl_def)
  show ?thesis
  proof (cases "recently_sent now (ch_gate ch) b")
    case True
    have "fst (evaluate_at env now (ch_gate ch)) = None"
    proof (rule ccontr)
      assume "fst (evaluate_at env now (ch_gate ch)) \<noteq> None"
      then obtain x where x: "fst (evaluate_at env now (ch_gate ch)) = Some x" by blast
      then have "authorised cfg gid env x" "\<not> recently_sent now (ch_gate ch) x" using gate_accepts [OF g] by blast+
      then show False using assms(2) True by (simp add: authorised_def)
    qed
    then have "same_control ch (actor_step redact net now (Receive (Frame env)) ch)"
      by (simp add: actor_step_def case_prod_beta Let_def same_control_def)
    then show ?thesis using True ttl by (simp add: recently_sent_def)
  next
    case False
    note s = stop_frame [OF assms(1,2) False assms(3), of net]
    have "stopped_since ch ch'"
      using assms(4) by (induction rule: rtranclp_induct) (simp add: s stopped_since_def preempt_child_def, rule stopped_stays)
    then have "ch_fired (actor_step redact net now (Receive (Frame env)) ch) = ch_fired ch + (if ch_trigger ch then 1 else 0) \<and>
        ch_sent ch' = ch_sent ch \<and>
        (ch_stopping ch' \<or> ch_quit ch' \<and> fst (next_prompt_of ch') = Closed \<and> publish_request out ch' = None)"
      by (auto simp: s stopped_since_def preempt_child_def next_prompt_of_def publish_request_def)
    then show ?thesis using False unfolding recently_sent_def ttl by (simp only: if_False)
  qed
qed

lemma sample_stop:
  "authorised sample_config (lit ''g'') (sample_frame (lit '' Stop'')) (lit '' Stop'')"
  "\<not> recently_sent 9 (ch_gate sample_channel) (lit '' Stop'')"
  "to_ascii_lowercase (trim (lit '' Stop'')) = lit ''stop''"
proof -
  show "authorised sample_config (lit ''g'') (sample_frame (lit '' Stop'')) (lit '' Stop'')"
    by (simp add: authorised_def sample_frame_def sample_config_def)
  show "\<not> recently_sent 9 (ch_gate sample_channel) (lit '' Stop'')"
    by (simp add: recently_sent_def sample_gate record_outbound_at_def prune_def gate_new_def gate_with_ttl_def Let_def)
  show "to_ascii_lowercase (trim (lit '' Stop'')) = lit ''stop''" by code_simp
qed

lemma stop_is_final_witness:
  "ch_sent (finish_stop (actor_step id (\<lambda>_. (None, True, 0)) 9 (Receive (Frame (sample_frame (lit '' Stop'')))) sample_channel)) =
   ch_sent sample_channel"
proof -
  let ?s = "actor_step id (\<lambda>_. (None, True, 0)) 9 (Receive (Frame (sample_frame (lit '' Stop'')))) sample_channel"
  have "ch_stopping ?s"
    using stop_frame [OF sample_reachable sample_stop(1,2), of "\<lambda>_. (None, True, 0)"] sample_stop(3) by simp
  then have "(channel_step id)\<^sup>*\<^sup>* ?s (finish_stop ?s)" by (intro r_into_rtranclp left)
  note r = stop_is_final [OF sample_reachable sample_stop(1) disjI1 [OF sample_stop(3)] this]
  have "ga_ttl (ch_gate sample_channel) = 120 * 10 ^ 9"
    by (simp add: sample_gate record_outbound_at_def prune_def gate_new_def gate_with_ttl_def default_echo_ttl_def Let_def)
  then have "\<not> (\<exists>at. (lit '' Stop'', at) \<in> set (ga_recent_outbound (ch_gate sample_channel)) \<and> 9 - at < 120 * 10 ^ 9)"
    using sample_stop(2) unfolding recently_sent_def by simp
  with r show ?thesis by (simp only: if_False)
qed

text \<open>
  While the actor waits for the group to be left, the turn loop is still handed a prompt that
  was queued before the stop, and nothing interrupts the turn it starts: the trigger put into the
  slot for it is never fired, also after the channel has closed.
\<close>

lemma stop_leaves_a_window:
  assumes "reachable_channel redact cfg gid capacity ch"
    "authorised cfg gid env b" "\<not> recently_sent now (ch_gate ch) b"
    "to_ascii_lowercase (trim b) = lit ''stop'' \<or> to_ascii_lowercase (trim b) = lit ''kill''"
    "ch_queue ch = p # q" "\<not> ch_closed ch" "s = actor_step redact net now (Receive (Frame env)) ch"
  shows "fst (next_prompt_of s) = Ready p \<and>
    (\<exists>ch'. (channel_step redact)\<^sup>*\<^sup>* (snd (next_prompt_of s)) ch' \<and> ch_closed ch' \<and> ch_trigger ch' \<and>
       ch_fired ch' = ch_fired s)"
proof -
  have s: "s = (preempt_child (ch\<lparr>ch_gate := snd (evaluate_at env now (ch_gate ch))\<rparr>))\<lparr>ch_stopping := True\<rparr>"
    using stop_frame [OF assms(1-4), of net] assms(7) by simp
  have n: "fst (next_prompt_of s) = Ready p \<and> ch_stopping (snd (next_prompt_of s)) \<and>
      ch_fired (snd (next_prompt_of s)) = ch_fired s"
    using assms(5,6) by (simp add: s preempt_child_def next_prompt_of_def)
  let ?t = "(snd (next_prompt_of s))\<lparr>ch_trigger := True\<rparr>"
  have "channel_step redact (snd (next_prompt_of s)) ?t" by (rule turn_start)
  moreover have "channel_step redact ?t (finish_stop ?t)" by (rule left) (simp add: n)
  ultimately have "(channel_step redact)\<^sup>*\<^sup>* (snd (next_prompt_of s)) (finish_stop ?t)" by simp
  moreover have "ch_closed (finish_stop ?t) \<and> ch_trigger (finish_stop ?t) \<and> ch_fired (finish_stop ?t) = ch_fired s"
    using n by (simp add: finish_stop_def)
  ultimately show ?thesis using n by blast
qed

lemma stop_leaves_a_window_witness:
  "fst (next_prompt_of (actor_step id (\<lambda>_. (None, True, 0)) 9 (Receive (Frame (sample_frame (lit '' Stop''))))
     (seed_first_prompt (lit ''go'') sample_channel))) = Ready (lit ''go'')"
proof -
  let ?c = "seed_first_prompt (lit ''go'') sample_channel"
  have r: "reachable_channel id sample_config (lit ''g'') 32 ?c"
    by (intro reachable_channel.step [OF sample_reachable] seed) (simp add: sample_run_queue)
  have c: "ch_queue ?c = [lit ''go'']" "ch_gate ?c = ch_gate sample_channel" "\<not> ch_closed ?c"
    by (simp_all add: seed_first_prompt_def sample_run_queue sample_run_closed del: lit_Cons)
  show ?thesis
    using stop_leaves_a_window [OF r sample_stop(1) _ disjI1 [OF sample_stop(3)] c(1,3) refl, of 9] sample_stop(2) c(2)
    by (metis (no_types))
qed

end
