(* ===== verification/Turn_Loop.thy ===== *)
theory Turn_Loop
  imports Signal_Facts
begin

text \<open>
  The turn loop of \<open>amplihack-turn/src/lib.rs\<close>, the Copilot driver as a session (\<open>turn.rs\<close>), the
  wrapper the chat command puts around it (\<open>amplihack-cli/src/commands/signal/chat.rs\<close>), and the
  composition of all three with the Signal channel.  A session is a state and a function; the child process
  is a parameter, as the answer it gives to an argument list.
\<close>

section \<open>Sessions and errors\<close>

record turn_output =
  to_text :: rstring
  to_exit_code :: "int option"

definition from_text :: "rstring \<Rightarrow> turn_output" where
  "from_text t = \<lparr>to_text = t, to_exit_code = None\<rparr>"

definition with_exit_code :: "int \<Rightarrow> turn_output \<Rightarrow> turn_output" where
  "with_exit_code code out = out\<lparr>to_exit_code := Some code\<rparr>"

datatype turn_error = Exec rstring | Turn_io rstring | Preempted

datatype channel_error = Recv rstring | Publish rstring | Turn turn_error | Channel_io rstring

definition turn_error_text :: "turn_error \<Rightarrow> rstring" where
  "turn_error_text e =
    (case e of Exec m \<Rightarrow> lit ''agent turn failed: '' @ m
     | Turn_io m \<Rightarrow> lit ''turn I/O error: '' @ m
     | Preempted \<Rightarrow> lit ''turn pre-empted'')"

type_synonym 's session = "'s \<Rightarrow> rstring \<Rightarrow> (turn_error + turn_output) \<times> 's"

text \<open>The kinds of \<open>io::Error\<close> the adapter tells apart.\<close>

datatype io_error = Interrupted | Other_io rstring

definition driver_run_turn ::
  "('s \<Rightarrow> rstring list \<Rightarrow> (io_error + rstring) \<times> 's) \<Rightarrow> rstring \<Rightarrow> tool_allowlist \<Rightarrow> 's session" where
  "driver_run_turn runner session_id allowlist s prompt =
    (case runner s (build_turn_argv session_id prompt allowlist) of
       (Inr stdout, s') \<Rightarrow> (Inr (from_text stdout), s')
     | (Inl Interrupted, s') \<Rightarrow> (Inl Preempted, s')
     | (Inl (Other_io m), s') \<Rightarrow> (Inl (Exec m), s'))"

definition resilient_run_turn :: "'s session \<Rightarrow> 's session" where
  "resilient_run_turn inner s prompt =
    (case inner s prompt of
       (Inr out, s') \<Rightarrow> (Inr out, s')
     | (Inl Preempted, s') \<Rightarrow> (Inr (from_text []), s')
     | (Inl e, s') \<Rightarrow> (Inr (from_text (lit ''turn failed: '' @ turn_error_text e)), s'))"

lemma resilient_never_fails: "\<exists>out s'. resilient_run_turn inner s p = (Inr out, s')"
  by (auto simp: resilient_run_turn_def split: prod.splits sum.splits turn_error.splits)

section \<open>The loop\<close>

text \<open>The wait between two idle polls changes no state; not returning is \<open>None\<close>.\<close>

partial_function (option) run_session_loop ::
  "'s session \<Rightarrow> ('c \<Rightarrow> (channel_error + next_prompt) \<times> 'c) \<Rightarrow> ('c \<Rightarrow> turn_output \<Rightarrow> (channel_error + unit) \<times> 'c) \<Rightarrow>
   's \<Rightarrow> 'c \<Rightarrow> ((channel_error + unit) \<times> 's \<times> 'c) option" where
  "run_session_loop run_turn poll publish s c =
    (case poll c of
       (Inl e, c') \<Rightarrow> Some (Inl e, s, c')
     | (Inr r, c') \<Rightarrow>
         (case r of
            Ready prompt \<Rightarrow>
              (case run_turn s prompt of
                 (Inl e, s') \<Rightarrow> Some (Inl (Turn e), s', c')
               | (Inr out, s') \<Rightarrow>
                   (case publish c' out of
                      (Inl e, c'') \<Rightarrow> Some (Inl e, s', c'')
                    | (Inr u, c'') \<Rightarrow> run_session_loop run_turn poll publish s' c''))
          | Idle \<Rightarrow> run_session_loop run_turn poll publish s c'
          | Closed \<Rightarrow> Some (Inr (), s, c')))"

declare run_session_loop.simps [simp del]

lemma loop_closed: "poll c = (Inr Closed, c') \<Longrightarrow> run_session_loop run_turn poll publish s c = Some (Inr (), s, c')"
  by (simp add: run_session_loop.simps)

lemma loop_idle: "poll c = (Inr Idle, c') \<Longrightarrow>
    run_session_loop run_turn poll publish s c = run_session_loop run_turn poll publish s c'"
  by (simp add: run_session_loop.simps [of run_turn poll publish s c])

lemma loop_ready: "poll c = (Inr (Ready p), c') \<Longrightarrow> run_turn s p = (Inr out, s') \<Longrightarrow> publish c' out = (Inr (), c'') \<Longrightarrow>
    run_session_loop run_turn poll publish s c = run_session_loop run_turn poll publish s' c''"
  by (simp add: run_session_loop.simps [of run_turn poll publish s c])

section \<open>The loop on the Signal channel\<close>

text \<open>
  What happens around the loop: the actor's events and the end of a stop, in batches, one batch
  before each of the loop's own calls.  An event the actor cannot take is skipped.
\<close>

datatype happening = Actor network nat actor_event | Group_left

definition happen :: "(rstring \<Rightarrow> rstring) \<Rightarrow> happening \<Rightarrow> channel \<Rightarrow> channel" where
  "happen redact h ch =
    (case h of
       Actor net now ev \<Rightarrow> if ch_running ch \<and> \<not> ch_stopping ch then actor_step redact net now ev ch else ch
     | Group_left \<Rightarrow> if ch_stopping ch then finish_stop ch else ch)"

type_synonym live = "channel \<times> happening list list"

definition settle :: "(rstring \<Rightarrow> rstring) \<Rightarrow> live \<Rightarrow> live" where
  "settle redact l = (case l of (ch, []) \<Rightarrow> (ch, []) | (ch, b # bs) \<Rightarrow> (fold (happen redact) b ch, bs))"

definition live_next :: "(rstring \<Rightarrow> rstring) \<Rightarrow> live \<Rightarrow> (channel_error + next_prompt) \<times> live" where
  "live_next redact l =
    (case settle redact l of (ch, bs) \<Rightarrow> (Inr (fst (next_prompt_of ch)), snd (next_prompt_of ch), bs))"

text \<open>\<open>publish_output\<close>: the request is served by the actor; if the actor has gone, the post is dropped.\<close>

definition live_publish :: "(rstring \<Rightarrow> rstring) \<Rightarrow> network \<Rightarrow> nat \<Rightarrow> live \<Rightarrow> turn_output \<Rightarrow> (channel_error + unit) \<times> live" where
  "live_publish redact net now l out =
    (case settle redact l of (ch, bs) \<Rightarrow>
       (Inr (), (case publish_request (to_text out) ch of
                   None \<Rightarrow> ch
                 | Some body \<Rightarrow> happen redact (Actor net now (Post body)) ch), bs))"

text \<open>The handle lives as long as the loop, so the channel is closed when the actor has stopped.\<close>

definition handle_kept :: "happening \<Rightarrow> bool" where
  "handle_kept h \<longleftrightarrow> (\<forall>net now. h \<noteq> Actor net now Handle_dropped)"

definition closed_if_stopped :: "channel \<Rightarrow> bool" where
  "closed_if_stopped ch \<longleftrightarrow> ch_running ch \<or> ch_closed ch"

lemma posting_keeps_control:
  "ch_closed (post_body redact net b ch) = ch_closed ch" "ch_running (post_body redact net b ch) = ch_running ch"
  "ch_stopping (post_body redact net b ch) = ch_stopping ch"
proof -
  have "ch_closed (post_chunks net i cs ch) = ch_closed ch \<and> ch_running (post_chunks net i cs ch) = ch_running ch \<and>
      ch_stopping (post_chunks net i cs ch) = ch_stopping ch" for i cs
    by (induction net i cs ch rule: post_chunks.induct)
      (auto simp: post_chunk_def Let_def split: prod.splits if_splits)
  then show "ch_closed (post_body redact net b ch) = ch_closed ch" "ch_running (post_body redact net b ch) = ch_running ch"
    "ch_stopping (post_body redact net b ch) = ch_stopping ch"
    by (simp_all add: post_body_def)
qed

lemma happen_closed: "ch_closed ch \<Longrightarrow> ch_closed (happen redact h ch)"
  by (auto simp: happen_def actor_step_def finish_stop_def posting_keeps_control enqueue_prompt_def preempt_child_def
      Let_def split: happening.splits actor_event.splits receipt.splits prod.splits option.splits control.splits)

lemma happen_stopped: "closed_if_stopped ch \<Longrightarrow> handle_kept h \<Longrightarrow> closed_if_stopped (happen redact h ch)"
  by (auto simp: closed_if_stopped_def handle_kept_def happen_def actor_step_def finish_stop_def posting_keeps_control
      enqueue_prompt_def preempt_child_def Let_def
      split: happening.splits actor_event.splits receipt.splits prod.splits option.splits control.splits)

lemma fold_happen:
  "ch_closed ch \<Longrightarrow> ch_closed (fold (happen redact) b ch)"
  "closed_if_stopped ch \<Longrightarrow> list_all handle_kept b \<Longrightarrow> closed_if_stopped (fold (happen redact) b ch)"
  by (induction b arbitrary: ch) (auto simp: happen_closed happen_stopped)

text \<open>The last batch closes the channel.\<close>

definition ends_stream :: "happening list list \<Rightarrow> bool" where
  "ends_stream bs \<longleftrightarrow> (\<exists>front b net now. bs = front @ [b @ [Group_left, Actor net now (Receive Stream_closed)]])"

lemma ending_closes:
  "closed_if_stopped ch \<Longrightarrow> list_all handle_kept b \<Longrightarrow>
   ch_closed (fold (happen redact) (b @ [Group_left, Actor net now (Receive Stream_closed)]) ch)"
  using fold_happen(2) [of ch b redact]
  by (auto simp: happen_def actor_step_def finish_stop_def closed_if_stopped_def)

definition live_ok :: "live \<Rightarrow> bool" where
  "live_ok l \<longleftrightarrow> closed_if_stopped (fst l) \<and> list_all (list_all handle_kept) (snd l) \<and>
     (if snd l = [] then ch_closed (fst l) else ends_stream (snd l))"

lemma settle_ok:
  assumes "live_ok l"
  shows "live_ok (settle redact l)" "length (snd (settle redact l)) = length (snd l) - 1"
    "snd l = [] \<Longrightarrow> settle redact l = l"
proof -
  obtain ch bs where l: "l = (ch, bs)" by fastforce
  show "live_ok (settle redact l)"
  proof (cases bs)
    case (Cons b bs')
    have kept: "closed_if_stopped (fold (happen redact) b ch)"
      using assms fold_happen(2) [of ch b redact] l Cons by (simp add: live_ok_def)
    show ?thesis
    proof (cases "bs' = []")
      case True
      then show ?thesis
        using assms kept l Cons ending_closes [of ch] by (auto simp: live_ok_def settle_def ends_stream_def)
    next
      case False
      then have "ends_stream bs'"
        using assms l Cons by (auto simp: live_ok_def ends_stream_def Cons_eq_append_conv)
      then show ?thesis using assms kept l Cons False by (simp add: live_ok_def settle_def)
    qed
  qed (use assms l in \<open>simp add: settle_def\<close>)
qed (auto simp: settle_def split: prod.splits list.splits)

lemma live_ok_queue: "live_ok (snd (next_prompt_of ch), bs) = live_ok (ch, bs)"
  by (auto simp: live_ok_def next_prompt_of_def closed_if_stopped_def split: list.splits)

lemma live_ok_happen: "live_ok (ch, bs) \<Longrightarrow> handle_kept h \<Longrightarrow> live_ok (happen redact h ch, bs)"
  using happen_closed happen_stopped by (auto simp: live_ok_def)

lemma publish_ok:
  assumes "live_ok l"
  obtains l' where "live_publish redact net now l out = (Inr (), l')" "live_ok l'" "length (snd l') = length (snd l) - 1"
proof -
  obtain ch bs where s: "settle redact l = (ch, bs)" by fastforce
  have ok: "live_ok (ch, bs)" "length bs = length (snd l) - 1" using settle_ok [OF assms, of redact] s by simp_all
  then have "live_ok (happen redact (Actor net now (Post b)) ch, bs)" for b
    by (rule_tac live_ok_happen) (simp_all add: handle_kept_def)
  then show thesis
    using that ok s by (auto simp: live_publish_def split: option.splits)
qed

lemma loop_returns:
  assumes "live_ok l"
  shows "\<exists>s' l'. run_session_loop (resilient_run_turn inner) (live_next redact) (live_publish redact net now) s l =
    Some (Inr (), s', l') \<and> ch_closed (fst l')"
  using assms
proof (induction "length (snd l)" arbitrary: s l rule: less_induct)
  case less
  obtain ch bs where st: "settle redact l = (ch, bs)" by fastforce
  have ok: "live_ok (ch, bs)" "length bs = length (snd l) - 1" using settle_ok [OF less(2), of redact] st by simp_all
  obtain r ch' where n: "next_prompt_of ch = (r, ch')" by fastforce
  then have poll: "live_next redact l = (Inr r, (ch', bs))" using st by (simp add: live_next_def)
  have ok': "live_ok (ch', bs)" using live_ok_queue [of ch bs] ok(1) n by simp
  show ?case
  proof (cases "ch_closed ch")
    case True
    then have "r = Closed" "ch' = ch" using n by (simp_all add: next_prompt_of_def)
    then show ?thesis using True poll loop_closed [of "live_next redact"] by fastforce
  next
    case False
    then have "snd l \<noteq> []" using less(2) settle_ok(3) [OF less(2), of redact] st by (cases l) (auto simp: live_ok_def)
    then have shorter: "length bs < length (snd l)" using ok(2) by (cases "snd l") auto
    show ?thesis
    proof (cases r)
      case (Ready p)
      obtain out s' where t: "resilient_run_turn inner s p = (Inr out, s')" using resilient_never_fails [of inner s p] by blast
      obtain l' where l': "live_publish redact net now (ch', bs) out = (Inr (), l')" "live_ok l'" "length (snd l') = length bs - 1"
        using publish_ok [OF ok', of redact net now out] by auto
      then show ?thesis
        using less(1) [of l' s'] shorter loop_ready [where run_turn = "resilient_run_turn inner" and poll = "live_next redact" and
            publish = "live_publish redact net now", OF poll [unfolded Ready] t l'(1)] by simp
    next
      case Idle
      then show ?thesis using less(1) [of "(ch', bs)" s] ok' shorter loop_idle [where run_turn = "resilient_run_turn inner" and poll = "live_next redact", OF poll [unfolded Idle]] by simp
    next
      case Closed
      then show ?thesis using False n by (auto simp: next_prompt_of_def split: list.splits)
    qed
  qed
qed

text \<open>
  C28. Whatever the operator sends, whatever the turns do, and however posts fail, the chat's turn loop
  returns without an error once the receive stream has ended, and the channel is then closed.
\<close>

theorem chat_returns:
  assumes "list_all (list_all handle_kept) batches" "ends_stream batches"
  shows "\<exists>s' l'. run_session_loop (resilient_run_turn (driver_run_turn runner session_id allowlist))
      (live_next redact) (live_publish redact net now) s (channel_new cfg gid capacity, batches) = Some (Inr (), s', l') \<and>
    ch_closed (fst l')"
proof -
  have "batches \<noteq> []" using assms(2) by (auto simp: ends_stream_def)
  then show ?thesis
    by (intro loop_returns) (use assms in \<open>simp add: live_ok_def closed_if_stopped_def channel_new_def\<close>)
qed

lemma chat_returns_witness:
  "\<exists>s' l'. run_session_loop
      (resilient_run_turn (driver_run_turn (\<lambda>s argv. (Inl Interrupted, s + (1::nat))) (lit ''id'') read_only_default))
      (live_next id) (live_publish id (\<lambda>_. (None, True, 0)) 0) 0
      (channel_new sample_config (lit ''g'') 32,
       [[Actor (\<lambda>_. (None, True, 0)) 3 (Receive (Frame (sample_frame (lit ''go''))))],
        [Group_left, Actor (\<lambda>_. (None, True, 0)) 4 (Receive Stream_closed)]]) = Some (Inr (), s', l') \<and>
    ch_closed (fst l')"
proof (rule chat_returns)
  let ?b = "[Actor (\<lambda>_. (None, True, 0)) 3 (Receive (Frame (sample_frame (lit ''go''))))]"
  let ?e = "[Group_left, Actor (\<lambda>_. (None, True, 0)) 4 (Receive Stream_closed)]"
  show "list_all (list_all handle_kept) [?b, ?e]" by (simp add: handle_kept_def)
  have "[?b, ?e] = [?b] @ [[] @ ?e]" by simp
  then show "ends_stream [?b, ?e]" unfolding ends_stream_def by blast
qed

end
