(* ===== verification/Rust_Path.thy ===== *)
theory Rust_Path
  imports Rust_Text
begin

text \<open>
  The parts of \<open>std::path\<close> and the string functions that the command checks of the PreToolUse hook
  and the XPIA defender use.  A path is its text; two paths are compared by their components.
\<close>

section \<open>Text\<close>

text \<open>
  A pattern for the \<open>regex\<close> crate: the text of the raw string, with \<open>~\<close> for the backslash, which HOL's
  string literals do not have.  Matching is the crate's work and a parameter wherever it is used.
\<close>

definition pat :: "string \<Rightarrow> rstring" where
  "pat s = map (\<lambda>c. if c = CHR ''~'' then ch_backslash else of_char c) s"

text \<open>Lines joined by newlines.\<close>

definition text_lines :: "rstring list \<Rightarrow> rstring" where
  "text_lines ls = join [ch_nl] ls"

text \<open>\<open>s.replace(p, t)\<close> for a pattern that is not empty.\<close>

function str_replace :: "rstring \<Rightarrow> rstring \<Rightarrow> rstring \<Rightarrow> rstring" where
  "str_replace p t [] = []"
| "str_replace p t (c # cs) =
    (if p \<noteq> [] \<and> prefix p (c # cs) then t @ str_replace p t (drop (length p) (c # cs))
     else c # str_replace p t cs)"
  by pat_completeness auto
termination
  by (relation "measure (\<lambda>(p, t, s). length s)") auto

text \<open>\<open>s.split_once(p)\<close> for a text \<open>p\<close> that is not empty.\<close>

fun split_once_str :: "rstring \<Rightarrow> rstring \<Rightarrow> (rstring \<times> rstring) option" where
  "split_once_str p [] = None"
| "split_once_str p (c # cs) =
    (if prefix p (c # cs) then Some ([], drop (length p) (c # cs))
     else map_option (\<lambda>(a, b). (c # a, b)) (split_once_str p cs))"

lemma split_once_str_Some: "split_once_str p s = Some (a, b) \<Longrightarrow> s = a @ p @ b"
proof (induction s arbitrary: a)
  case (Cons c cs)
  then show ?case by (auto simp: prefix_def split: if_splits)
qed simp

text \<open>\<open>s.lines()\<close>: without the empty part after a final newline, and without a carriage return at the end.\<close>

definition strip_cr :: "rstring \<Rightarrow> rstring" where
  "strip_cr l = (if l \<noteq> [] \<and> last l = ch_cr then butlast l else l)"

definition str_lines :: "rstring \<Rightarrow> rstring list" where
  "str_lines s =
    (let parts = split_on (\<lambda>c. c = ch_nl) s
     in map strip_cr (butlast parts) @ (if last parts = [] then [] else [strip_cr (last parts)]))"

section \<open>Paths\<close>

datatype component = Root_dir | Cur_dir | Parent_dir | Normal rstring

definition is_absolute :: "rstring \<Rightarrow> bool" where
  "is_absolute p = starts_with [ch_slash] p"

definition component_of :: "rstring \<Rightarrow> component" where
  "component_of seg = (if seg = lit ''..'' then Parent_dir else Normal seg)"

text \<open>Empty parts and inner dots are skipped; a dot at the start of a relative path stays.\<close>

definition path_components :: "rstring \<Rightarrow> component list" where
  "path_components p =
    (let segs = split_on (\<lambda>c. c = ch_slash) p
     in (if is_absolute p then [Root_dir] else if hd segs = lit ''.'' then [Cur_dir] else []) @
        map component_of (filter (\<lambda>s. s \<noteq> [] \<and> s \<noteq> lit ''.'') segs))"

fun component_text :: "component \<Rightarrow> rstring" where
  "component_text Root_dir = []"
| "component_text Cur_dir = lit ''.''"
| "component_text Parent_dir = lit ''..''"
| "component_text (Normal s) = s"

definition path_text :: "component list \<Rightarrow> rstring" where
  "path_text cs = (if cs = [Root_dir] then [ch_slash] else join [ch_slash] (map component_text cs))"

definition path_parent :: "component list \<Rightarrow> component list option" where
  "path_parent cs = (if cs = [] \<or> last cs = Root_dir then None else Some (butlast cs))"

definition file_name :: "component list \<Rightarrow> rstring option" where
  "file_name cs = (if cs = [] then None else case last cs of Normal s \<Rightarrow> Some s | _ \<Rightarrow> None)"

definition path_starts_with :: "rstring \<Rightarrow> rstring \<Rightarrow> bool" where
  "path_starts_with child parent = prefix (path_components parent) (path_components child)"

definition path_join :: "rstring \<Rightarrow> rstring \<Rightarrow> rstring" where
  "path_join base p =
    (if is_absolute p then p
     else base @ (if base \<noteq> [] \<and> last base \<noteq> ch_slash then [ch_slash] else []) @ p)"

text \<open>The text of an absolute path of plain names reads back as its components.\<close>

definition plain_name :: "rstring \<Rightarrow> bool" where
  "plain_name s \<longleftrightarrow> s \<noteq> [] \<and> ch_slash \<notin> set s \<and> s \<noteq> lit ''.'' \<and> s \<noteq> lit ''..''"

lemma split_on_none: "\<not> list_ex P s \<Longrightarrow> split_on P s = [s]"
  by (induction s) auto

lemma split_once_at: "c \<notin> set a \<Longrightarrow> split_once c (a @ c # b) = Some (a, b)"
  by (induction a) (auto simp: split_once_def split: list.splits)

lemma split_on_append: "\<not> list_ex P s \<Longrightarrow> P c \<Longrightarrow> split_on P (s @ c # t) = s # split_on P t"
  by (induction s) auto

lemma split_on_join:
  "P c \<Longrightarrow> ns \<noteq> [] \<Longrightarrow> list_all (\<lambda>n. \<not> list_ex P n) ns \<Longrightarrow> split_on P (join [c] ns) = ns"
proof (induction "[c]" ns rule: join.induct)
  case (3 w v ws)
  then show ?case using split_on_append [of P w c] by simp
qed (simp_all add: split_on_none)

lemma no_slash: "plain_name s \<Longrightarrow> \<not> list_ex (\<lambda>c. c = ch_slash) s"
  by (auto simp: plain_name_def list_ex_iff)

lemma split_join_names:
  "ns \<noteq> [] \<Longrightarrow> list_all plain_name ns \<Longrightarrow> split_on (\<lambda>c. c = ch_slash) (join [ch_slash] ns) = ns"
proof (induction "[ch_slash]" ns rule: join.induct)
  case (3 w v ws)
  then show ?case using split_on_append [OF no_slash [of w], of ch_slash] by simp
qed (simp_all add: split_on_none no_slash)

lemma path_components_text:
  assumes "list_all plain_name ns"
  shows "path_components (path_text (Root_dir # map Normal ns)) = Root_dir # map Normal ns"
proof (cases "ns = []")
  case False
  let ?t = "path_text (Root_dir # map Normal ns)"
  have e: "map (component_text \<circ> Normal) ns = ns" by (simp add: comp_def)
  have "?t = ch_slash # join [ch_slash] ns" using False e by (cases ns) (simp_all add: path_text_def)
  moreover have "filter (\<lambda>s. s \<noteq> [] \<and> s \<noteq> lit ''.'') ns = ns" "map component_of ns = map Normal ns"
    using assms by (auto simp: list_all_iff plain_name_def component_of_def)
  ultimately show ?thesis
    using split_join_names [OF False assms]
    by (simp add: path_components_def is_absolute_def starts_with_def Let_def del: lit_Cons)
qed (simp add: path_text_def path_components_def is_absolute_def starts_with_def component_of_def)

end
