(* ===== verification/Hook_Input.thy ===== *)
theory Hook_Input
  imports Json_Value Rust_Path "HOL-Library.AList"
begin

text \<open>
  The payload of a hook (\<open>amplihack-types/src/hook_io.rs\<close>): from the JSON value to the event.  Parsing the text of a
  tool's arguments is \<open>serde_json\<close>'s work and the parameter \<open>from_str\<close>; the message of an error is left out.
\<close>

section \<open>Events\<close>

datatype hook_message =
    In_pre_tool_use rstring json "rstring option"
  | In_post_tool_use rstring json "json option" "rstring option"
  | In_stop "bool option" "rstring option" "rstring option"
  | In_stop_failure "rstring option" "rstring option" "rstring option" "rstring option" "bool option" "rstring option" json
  | In_session_start "rstring option" "rstring option" json
  | In_session_stop "rstring option" "rstring option" json
  | In_user_prompt "rstring option" "rstring option" json
  | In_pre_compact "rstring option" "rstring option" json
  | In_unknown

datatype input_error = Wrong_type "rstring list" | Missing_field rstring "rstring list" | Bad_json_string rstring "rstring list"

definition event_fields :: "rstring list" where "event_fields = map lit [''hook_event_name'', ''hookEventName'']"
definition tool_name_fields :: "rstring list" where "tool_name_fields = map lit [''tool_name'', ''toolName'']"
definition tool_input_fields :: "rstring list" where "tool_input_fields = map lit [''tool_input'', ''toolInput'', ''toolArgs'']"
definition tool_result_fields :: "rstring list" where
  "tool_result_fields = map lit [''tool_result'', ''toolResult'', ''tool_response'']"
definition session_id_fields :: "rstring list" where "session_id_fields = map lit [''session_id'', ''sessionId'']"
definition stop_active_fields :: "rstring list" where "stop_active_fields = map lit [''stop_hook_active'', ''stopHookActive'']"
definition transcript_fields :: "rstring list" where "transcript_fields = map lit [''transcript_path'', ''transcriptPath'']"
definition cwd_fields :: "rstring list" where "cwd_fields = [lit ''cwd'']"
definition user_prompt_fields :: "rstring list" where "user_prompt_fields = map lit [''user_prompt'', ''userPrompt'', ''prompt'']"
definition error_fields :: "rstring list" where "error_fields = [lit ''error'']"
definition error_details_fields :: "rstring list" where "error_details_fields = map lit [''error_details'', ''errorDetails'']"
definition last_message_fields :: "rstring list" where
  "last_message_fields = map lit [''last_assistant_message'', ''lastAssistantMessage'']"

section \<open>Fields\<close>

type_synonym json_map = "(rstring \<times> json) list"

definition find_field :: "json_map \<Rightarrow> rstring list \<Rightarrow> json option" where
  "find_field m names = find_map (map_of m) names"

definition has_any_field :: "json_map \<Rightarrow> rstring list \<Rightarrow> bool" where
  "has_any_field m names = list_ex (\<lambda>n. map_of m n \<noteq> None) names"

text \<open>A field of a type with its own reader: absent and null are \<open>None\<close>.\<close>

definition optional_typed_field :: "(json \<Rightarrow> 'a option) \<Rightarrow> json_map \<Rightarrow> rstring list \<Rightarrow> (input_error, 'a option) result" where
  "optional_typed_field rd m names =
    (case find_field m names of
       None \<Rightarrow> Inr None
     | Some v \<Rightarrow>
         if v = J_null then Inr None
         else (case rd v of Some x \<Rightarrow> Inr (Some x) | None \<Rightarrow> Inl (Wrong_type names)))"

definition json_as_bool :: "json \<Rightarrow> bool option" where
  "json_as_bool v = (case v of J_bool b \<Rightarrow> Some b | _ \<Rightarrow> None)"

definition loose_field :: "(json \<Rightarrow> 'a option) \<Rightarrow> json_map \<Rightarrow> rstring list \<Rightarrow> 'a option" where
  "loose_field rd m names = (case optional_typed_field rd m names of Inr x \<Rightarrow> x | Inl _ \<Rightarrow> None)"

definition guard_field :: "json_map \<Rightarrow> rstring list \<Rightarrow> bool option" where
  "guard_field m names =
    (case find_field m names of
       None \<Rightarrow> None
     | Some J_null \<Rightarrow> None
     | Some (J_bool flag) \<Rightarrow> Some flag
     | Some _ \<Rightarrow> Some True)"

definition required_typed_field :: "(json \<Rightarrow> 'a option) \<Rightarrow> json_map \<Rightarrow> rstring list \<Rightarrow> rstring \<Rightarrow> (input_error, 'a) result" where
  "required_typed_field rd m names event =
    and_then (optional_typed_field rd m names)
      (\<lambda>x. case x of Some y \<Rightarrow> Inr y | None \<Rightarrow> Inl (Missing_field event names))"

definition required_tool_input ::
  "(rstring \<Rightarrow> json option) \<Rightarrow> json_map \<Rightarrow> rstring list \<Rightarrow> rstring \<Rightarrow> (input_error, json) result" where
  "required_tool_input from_str m names event =
    (case find_field m names of
       None \<Rightarrow> Inl (Missing_field event names)
     | Some (J_str raw) \<Rightarrow> (case from_str raw of Some v \<Rightarrow> Inr v | None \<Rightarrow> Inl (Bad_json_string event names))
     | Some v \<Rightarrow> Inr v)"

definition normalize_event_name :: "rstring \<Rightarrow> rstring" where
  "normalize_event_name name = to_ascii_lowercase (filter is_ascii_alphanumeric name)"

definition infer_event_name :: "json_map \<Rightarrow> rstring option" where
  "infer_event_name m =
    (if has_any_field m tool_result_fields then Some (lit ''posttooluse'')
     else if has_any_field m tool_name_fields \<or> has_any_field m tool_input_fields then Some (lit ''pretooluse'')
     else None)"

definition extra_without :: "json_map \<Rightarrow> rstring list list \<Rightarrow> json" where
  "extra_without m known = J_obj (fold AList.delete (concat known) m)"

definition extra_fields :: "json_map \<Rightarrow> json" where
  "extra_fields m = extra_without m [event_fields, tool_name_fields, tool_input_fields, tool_result_fields,
     session_id_fields, stop_active_fields, transcript_fields, cwd_fields, user_prompt_fields]"

section \<open>The payload\<close>

definition stop_failure_of :: "json_map \<Rightarrow> hook_message" where
  "stop_failure_of m =
    In_stop_failure (loose_field json_as_str m session_id_fields) (loose_field json_as_str m error_fields)
      (loose_field json_as_str m error_details_fields) (loose_field json_as_str m last_message_fields)
      (guard_field m stop_active_fields) (loose_field json_as_str m transcript_fields)
      (extra_without m [event_fields, session_id_fields, error_fields, error_details_fields, last_message_fields,
        stop_active_fields, transcript_fields])"

definition deserialize_map :: "(rstring \<Rightarrow> json option) \<Rightarrow> json_map \<Rightarrow> (input_error, hook_message) result" where
  "deserialize_map from_str m =
    and_then (optional_typed_field json_as_str m event_fields) (\<lambda>named.
      (let event = (case named of Some n \<Rightarrow> Some (normalize_event_name n) | None \<Rightarrow> infer_event_name m);
           str = (\<lambda>names. optional_typed_field json_as_str m names)
       in
       if event = Some (lit ''pretooluse'') then
         and_then (required_typed_field json_as_str m tool_name_fields (lit ''PreToolUse'')) (\<lambda>name.
         and_then (required_tool_input from_str m tool_input_fields (lit ''PreToolUse'')) (\<lambda>inp.
         and_then (str session_id_fields) (\<lambda>sid. Inr (In_pre_tool_use name inp sid))))
       else if event = Some (lit ''posttooluse'') then
         and_then (required_typed_field json_as_str m tool_name_fields (lit ''PostToolUse'')) (\<lambda>name.
         and_then (required_tool_input from_str m tool_input_fields (lit ''PostToolUse'')) (\<lambda>inp.
         and_then (str session_id_fields) (\<lambda>sid. Inr (In_post_tool_use name inp (find_field m tool_result_fields) sid))))
       else if event = Some (lit ''stop'') then
         and_then (optional_typed_field json_as_bool m stop_active_fields) (\<lambda>active.
         and_then (str transcript_fields) (\<lambda>tp.
         and_then (str session_id_fields) (\<lambda>sid. Inr (In_stop active tp sid))))
       else if event = Some (lit ''stopfailure'') then Inr (stop_failure_of m)
       else if event = Some (lit ''sessionstart'') then
         and_then (str session_id_fields) (\<lambda>sid. and_then (str cwd_fields) (\<lambda>cwd. Inr (In_session_start sid cwd (extra_fields m))))
       else if event = Some (lit ''sessionstop'') \<or> event = Some (lit ''sessionend'') then
         and_then (str session_id_fields) (\<lambda>sid. and_then (str transcript_fields) (\<lambda>tp. Inr (In_session_stop sid tp (extra_fields m))))
       else if event = Some (lit ''userpromptsubmit'') then
         and_then (str user_prompt_fields) (\<lambda>up. and_then (str session_id_fields) (\<lambda>sid. Inr (In_user_prompt up sid (extra_fields m))))
       else if event = Some (lit ''precompact'') then
         and_then (str session_id_fields) (\<lambda>sid. and_then (str transcript_fields) (\<lambda>tp. Inr (In_pre_compact sid tp (extra_fields m))))
       else Inr In_unknown))"

definition hook_deserialize :: "(rstring \<Rightarrow> json option) \<Rightarrow> json \<Rightarrow> (input_error, hook_message) result" where
  "hook_deserialize from_str v = (case v of J_obj m \<Rightarrow> deserialize_map from_str m | _ \<Rightarrow> Inr In_unknown)"

definition normalize_line_endings :: "rstring \<Rightarrow> rstring" where
  "normalize_line_endings content = str_replace [ch_cr] [ch_nl] (str_replace [ch_cr, ch_nl] [ch_nl] content)"

section \<open>Facts\<close>

text \<open>The loop guard fails closed: only an absent field, null or \<open>false\<close> leaves it off.\<close>

lemma guard_field_closed:
  "guard_field m names \<noteq> Some True \<longleftrightarrow>
   find_field m names = None \<or> find_field m names = Some J_null \<or> find_field m names = Some (J_bool False)"
  by (auto simp: guard_field_def split: option.splits json.splits)

text \<open>A failed stop is read whatever its fields hold.\<close>

lemma stop_failure_total:
  assumes "optional_typed_field json_as_str m event_fields = Inr (Some name)" "normalize_event_name name = lit ''stopfailure''"
  shows "deserialize_map from_str m = Inr (stop_failure_of m)"
  using assms by (simp add: deserialize_map_def)

lemma no_cr: "ch_cr \<notin> set (normalize_line_endings content)"
proof -
  have "ch_cr \<notin> set (str_replace [ch_cr] [ch_nl] s)" for s
    by (induction "[ch_cr]" "[ch_nl]" s rule: str_replace.induct) auto
  then show ?thesis by (simp add: normalize_line_endings_def)
qed

end
