(* ===== verification/Guard_Merge.thy ===== *)
theory Guard_Merge
  imports Shell_Facts Json_Value Rust_Path
begin

text \<open>
  The merge guard of the PreToolUse hook (\<open>pre_tool_use/merge_guard.rs\<close>): inside an auto-drive run the
  agent's shell may not merge a pull request.  The endpoint pattern is matched by the \<open>regex\<close> crate, which
  is a parameter \<open>re\<close> from patterns to predicates.
\<close>

definition merge_guard_env :: rstring where "merge_guard_env = lit ''AMPLIHACK_MERGE_GUARD''"

definition gh_api_value_opts :: "rstring list" where
  "gh_api_value_opts = map lit
     [''-X'', ''--method'', ''-f'', ''--raw-field'', ''-F'', ''--field'', ''-H'', ''--header'', ''--input'',
      ''-q'', ''--jq'', ''-t'', ''--template'', ''-p'', ''--preview'', ''--cache'', ''--hostname'']"

definition gh_value_opts :: "rstring list" where
  "gh_value_opts = map lit [''-R'', ''--repo'']"

definition merge_block_message :: rstring where
  "merge_block_message =
    [128683] @ text_lines
     [lit '' OPERATION BLOCKED - merge outside auto-drive's merge gate (amplihack #1551)'', [],
      lit ''This is an auto-drive run (AMPLIHACK_MERGE_GUARD is set) and the command'',
      lit ''runs {label}. Only autodrive_merge_gate.sh may merge: leave the PR open.'',
      lit ''Auto-drive's merge gate merges it after a Crusty CLEAN and the merge-ready loop,'',
      lit ''from its own recipe step; an agent's shell never runs the gate.'',
      lit ''Do not retry with another gh path, PATH, alias, API client or token.'']"

definition endpoint_re :: rstring where
  "endpoint_re = pat (''(?i)(?:^|/)(?:pulls/[^/?#~s]+/merge|(?:repos/[^/?#~s]+/[^/?#~s]+|repositories/'' @
     ''[^/?#~s]+)/merges)/?(?:$|[?#])'')"

definition guard_active :: "rstring option \<Rightarrow> bool" where
  "guard_active value = (case value of Some v \<Rightarrow> v \<noteq> [] | None \<Rightarrow> False)"

text \<open>The closure of \<open>operands\<close>, with its flag and the index.\<close>

fun operands_loop :: "rstring list \<Rightarrow> bool \<Rightarrow> nat \<Rightarrow> rstring list \<Rightarrow> (nat \<times> rstring) list" where
  "operands_loop value_opts skip_next i [] = []"
| "operands_loop value_opts skip_next i (w # ws) =
    (if skip_next then operands_loop value_opts False (i + 1) ws
     else if w \<in> set value_opts then operands_loop value_opts True (i + 1) ws
     else if \<not> starts_with (lit ''-'') w then (i, w) # operands_loop value_opts False (i + 1) ws
     else operands_loop value_opts False (i + 1) ws)"

definition operands :: "rstring list \<Rightarrow> rstring list \<Rightarrow> (nat \<times> rstring) list" where
  "operands args value_opts = operands_loop value_opts False 0 args"

definition gh_merge_form :: "(rstring \<Rightarrow> rstring \<Rightarrow> bool) \<Rightarrow> rstring list \<Rightarrow> rstring option" where
  "gh_merge_form re args =
    (case operands args gh_value_opts of
       [] \<Rightarrow> None
     | (_, w) # positional \<Rightarrow>
         if w = lit ''pr'' then
           (case positional of [] \<Rightarrow> None
            | (_, v) # _ \<Rightarrow> if v = lit ''merge'' then Some (lit ''gh pr merge'') else None)
         else if w = lit ''api'' then
           (case List.find (\<lambda>(_, v). v = lit ''api'') (operands args gh_value_opts) of
              None \<Rightarrow> None
            | Some (at, _) \<Rightarrow>
                (case operands (drop (at + 1) args) gh_api_value_opts of
                   [] \<Rightarrow> None
                 | (_, endpoint) # _ \<Rightarrow>
                     if re endpoint_re endpoint then Some (lit ''gh api on a merge endpoint'') else None))
         else None)"

definition merge_form :: "(rstring \<Rightarrow> rstring \<Rightarrow> bool) \<Rightarrow> rstring list \<Rightarrow> rstring option" where
  "merge_form re ws =
    (case program ws of
       Some (name # args) \<Rightarrow> if basename name \<noteq> lit ''gh'' then None else gh_merge_form re args
     | _ \<Rightarrow> None)"

definition block_response :: "rstring \<Rightarrow> json" where
  "block_response message = J_obj [(lit ''block'', J_bool True), (lit ''message'', J_str message)]"

definition merge_check :: "(rstring \<Rightarrow> rstring \<Rightarrow> bool) \<Rightarrow> rstring \<Rightarrow> json option" where
  "merge_check re command =
    map_option (\<lambda>label. block_response (str_replace (lit ''{label}'') label merge_block_message))
      (find_map (merge_form re) (commands command))"

section \<open>What it refuses\<close>

lemma find_map_commands_argv: "ws \<noteq> [] \<Longrightarrow> commands (join_argv ws) = [ws]"
  by (simp add: commands_def parse_def tokenise_join_argv default_command_def)

text \<open>Options of \<open>gh\<close> up to the next operand, each value option with its value.\<close>

fun only_options :: "rstring list \<Rightarrow> rstring list \<Rightarrow> bool" where
  "only_options value_opts [] = True"
| "only_options value_opts (w # ws) =
    (if w \<in> set value_opts then (case ws of [] \<Rightarrow> False | _ # r \<Rightarrow> only_options value_opts r)
     else starts_with (lit ''-'') w \<and> only_options value_opts ws)"

lemma operands_skip_options:
  "only_options opts pre \<Longrightarrow> operands_loop opts False i (pre @ ws) = operands_loop opts False (i + length pre) ws"
proof (induction opts pre arbitrary: i rule: only_options.induct)
  case (2 opts w pre)
  then show ?case by (auto split: list.splits if_splits)
qed simp

lemma gh_words: "lit ''pr'' \<notin> set gh_value_opts" "lit ''merge'' \<notin> set gh_value_opts" "lit ''api'' \<notin> set gh_value_opts"
    "\<not> starts_with (lit ''-'') (lit ''pr'')" "\<not> starts_with (lit ''-'') (lit ''merge'')" "\<not> starts_with (lit ''-'') (lit ''api'')"
  by code_simp+

definition gh_pr_merge :: "rstring list \<Rightarrow> bool" where
  "gh_pr_merge args \<longleftrightarrow> (\<exists>pre mid rest. args = pre @ lit ''pr'' # mid @ lit ''merge'' # rest \<and>
     only_options gh_value_opts pre \<and> only_options gh_value_opts mid)"

lemma gh_pr_merge_form: "gh_pr_merge args \<Longrightarrow> gh_merge_form re args = Some (lit ''gh pr merge'')"
  by (auto simp: gh_pr_merge_def gh_merge_form_def operands_def operands_skip_options gh_words simp del: lit_Cons)

definition gh_api_merge :: "(rstring \<Rightarrow> rstring \<Rightarrow> bool) \<Rightarrow> rstring list \<Rightarrow> bool" where
  "gh_api_merge re args \<longleftrightarrow> (\<exists>pre mid e rest. args = pre @ lit ''api'' # mid @ e # rest \<and>
     only_options gh_value_opts pre \<and> only_options gh_api_value_opts mid \<and>
     e \<notin> set gh_api_value_opts \<and> \<not> starts_with (lit ''-'') e \<and> re endpoint_re e)"

lemma gh_api_merge_form: "gh_api_merge re args \<Longrightarrow> gh_merge_form re args = Some (lit ''gh api on a merge endpoint'')"
proof -
  assume "gh_api_merge re args"
  then obtain pre mid e rest where a: "args = pre @ lit ''api'' # mid @ e # rest" and
    o: "only_options gh_value_opts pre" "only_options gh_api_value_opts mid" "e \<notin> set gh_api_value_opts"
      "\<not> starts_with (lit ''-'') e" "re endpoint_re e"
    unfolding gh_api_merge_def by blast
  have "lit ''api'' \<noteq> lit ''pr''" by simp
  moreover have "operands args gh_value_opts = (length pre, lit ''api'') # operands_loop gh_value_opts False (length pre + 1) (mid @ e # rest)"
    using o(1) by (simp add: a operands_def operands_skip_options gh_words del: lit_Cons)
  moreover have "operands (drop (length pre + 1) args) gh_api_value_opts =
      (length mid, e) # operands_loop gh_api_value_opts False (length mid + 1) rest"
    using o by (simp add: a operands_def operands_skip_options del: lit_Cons)
  ultimately show ?thesis using o(5) by (simp add: gh_merge_form_def del: lit_Cons)
qed

definition merge_words :: "(rstring \<Rightarrow> rstring \<Rightarrow> bool) \<Rightarrow> rstring list \<Rightarrow> bool" where
  "merge_words re ws \<longleftrightarrow> (\<exists>name args. program ws = Some (name # args) \<and> basename name = lit ''gh'' \<and>
     (gh_pr_merge args \<or> gh_api_merge re args))"

lemma merge_words_refused: "merge_words re ws \<Longrightarrow> ws \<in> set (commands line) \<Longrightarrow> merge_check re line \<noteq> None"
proof -
  assume "merge_words re ws" "ws \<in> set (commands line)"
  then have "merge_form re ws \<noteq> None"
    by (auto simp: merge_words_def merge_form_def gh_pr_merge_form gh_api_merge_form simp del: lit_Cons)
  then have "find_map (merge_form re) (commands line) \<noteq> None"
    using \<open>ws \<in> set (commands line)\<close> by (auto simp: find_map_None simp del: not_None_eq)
  then show ?thesis by (simp add: merge_check_def)
qed

lemma merge_argv_refused: "merge_words re ws \<Longrightarrow> merge_check re (join_argv ws) \<noteq> None"
proof -
  assume m: "merge_words re ws"
  then have "ws \<noteq> []" by (auto simp: merge_words_def)
  then show ?thesis using merge_words_refused [OF m, of "join_argv ws"] by (simp add: find_map_commands_argv)
qed

text \<open>Text that only mentions a merge passes: every refused line runs \<open>gh\<close> itself.\<close>

lemma merge_needs_gh:
  "merge_check re line \<noteq> None \<Longrightarrow> \<exists>ws \<in> set (commands line). \<exists>name args. program ws = Some (name # args) \<and> basename name = lit ''gh''"
proof -
  assume "merge_check re line \<noteq> None"
  then have "find_map (merge_form re) (commands line) \<noteq> None" by (simp add: merge_check_def)
  then obtain ws where "ws \<in> set (commands line)" "merge_form re ws \<noteq> None" unfolding find_map_None by blast
  then show ?thesis by (fastforce simp: merge_form_def split: option.splits list.splits if_splits)
qed

end
