(* ===== verification/Guard_Cwd.thy ===== *)
theory Guard_Cwd
  imports Guard_Merge
begin

text \<open>
  The protection of the working directory in the PreToolUse hook: the simple segmentation of a command
  line (\<open>pre_tool_use/command.rs\<close>) and the checks for deleting or moving the working directory
  (\<open>pre_tool_use/cwd/mod.rs\<close>).  The \<open>regex\<close> and \<open>shell_words\<close> crates and the file system are
  parameters: \<open>re\<close> matches a pattern, \<open>words\<close> splits a segment, and a \<open>fs_view\<close> answers where
  the process is, what a path resolves to, and what \<open>HOME\<close> is.
\<close>

section \<open>Segments\<close>

definition push_trimmed :: "rstring \<Rightarrow> rstring list \<Rightarrow> rstring list" where
  "push_trimmed current segments = (if trim current \<noteq> [] then segments @ [trim current] else segments)"

definition double_separator :: "rchar \<Rightarrow> rstring \<Rightarrow> bool" where
  "double_separator c cs = (case cs of [] \<Rightarrow> False
     | d # _ \<Rightarrow> c = ch_amp \<and> d = ch_amp \<or> c = ch_pipe \<and> d = ch_pipe)"

function split_loop :: "rstring \<Rightarrow> bool \<Rightarrow> bool \<Rightarrow> rstring \<Rightarrow> rstring list \<Rightarrow> rstring list" where
  "split_loop [] in_single in_double current segments = push_trimmed current segments"
| "split_loop (c # cs) in_single in_double current segments =
    (if c = ch_squote \<and> \<not> in_double then split_loop cs (\<not> in_single) in_double (current @ [c]) segments
     else if c = ch_dquote \<and> \<not> in_single then split_loop cs in_single (\<not> in_double) (current @ [c]) segments
     else if \<not> in_single \<and> \<not> in_double \<and> double_separator c cs
       then split_loop (tl cs) in_single in_double [] (push_trimmed current segments)
     else if \<not> in_single \<and> \<not> in_double \<and> c = ch_semi
       then split_loop cs in_single in_double [] (push_trimmed current segments)
     else split_loop cs in_single in_double (current @ [c]) segments)"
  by pat_completeness auto
termination
  by (relation "measure (\<lambda>(cs, _). length cs)") auto

definition split_segments :: "rstring \<Rightarrow> rstring list" where
  "split_segments command = split_loop command False False [] []"

section \<open>Path arguments\<close>

definition is_rm_word :: "rstring \<Rightarrow> bool" where
  "is_rm_word token = (token = lit ''rm'' \<or> token = lit ''rmdir'' \<or>
     ends_with (lit ''/rm'') token \<or> ends_with (lit ''/rmdir'') token)"

fun rm_loop :: "bool \<Rightarrow> rstring list \<Rightarrow> rstring list" where
  "rm_loop found [] = []"
| "rm_loop found (token # ts) =
    (if \<not> found then rm_loop (is_rm_word token) ts
     else if starts_with (lit ''-'') token then rm_loop found ts
     else token # rm_loop found ts)"

definition extract_rm_paths :: "(rstring \<Rightarrow> rstring list option) \<Rightarrow> rstring \<Rightarrow> rstring list" where
  "extract_rm_paths shell_words segment =
    rm_loop False (case shell_words segment of Some t \<Rightarrow> t | None \<Rightarrow> split_whitespace segment)"

text \<open>The arguments of \<open>mv\<close>: \<open>None\<close> is the early return of the malformed form.\<close>

fun mv_loop :: "rstring list \<Rightarrow> bool \<Rightarrow> rstring list \<Rightarrow> (rstring list \<times> bool) option" where
  "mv_loop [] target_dir_mode non_flag_args = Some (non_flag_args, target_dir_mode)"
| "mv_loop (arg # args) target_dir_mode non_flag_args =
    (if arg = lit ''--'' then Some (non_flag_args @ args, target_dir_mode)
     else if starts_with (lit ''-'') arg \<and> arg \<noteq> lit ''-'' then
       (if arg = lit ''-t'' \<or> arg = lit ''--target-directory'' then
          (case args of [] \<Rightarrow> None | _ # r \<Rightarrow> mv_loop r True non_flag_args)
        else if starts_with (lit ''--target-directory='') arg then mv_loop args True non_flag_args
        else mv_loop args target_dir_mode non_flag_args)
     else mv_loop args target_dir_mode (non_flag_args @ [arg]))"

definition is_mv_word :: "rstring \<Rightarrow> bool" where
  "is_mv_word t = (t = lit ''mv'' \<or> ends_with (lit ''/mv'') t)"

definition extract_mv_source_paths :: "(rstring \<Rightarrow> rstring list option) \<Rightarrow> rstring \<Rightarrow> rstring list" where
  "extract_mv_source_paths shell_words segment =
    (case shell_words segment of
       None \<Rightarrow> []
     | Some tokens \<Rightarrow>
         (case dropWhile (\<lambda>t. \<not> is_mv_word t) tokens of
            [] \<Rightarrow> []
          | _ # args \<Rightarrow>
              (case mv_loop args False [] of
                 None \<Rightarrow> []
               | Some (non_flag_args, target_dir_mode) \<Rightarrow>
                   if non_flag_args = [] then []
                   else if target_dir_mode then non_flag_args
                   else if 2 \<le> length non_flag_args then butlast non_flag_args
                   else non_flag_args)))"

section \<open>Paths\<close>

record fs_view =
  fv_current_dir :: "rstring option"
  fv_canonicalize :: "rstring \<Rightarrow> rstring option"
  fv_home :: "rstring option"

definition rm_recursive_re :: rstring where
  "rm_recursive_re = pat ''~brm~s+(?:-[a-zA-Z]*[rR][a-zA-Z]*|(?:-[a-zA-Z]+~s+)*-[rR]|--recursive)''"

definition rmdir_re :: rstring where
  "rmdir_re = pat ''~brmdir(?:~s|$)''"

definition mv_re :: rstring where
  "mv_re = pat (''(?:^|[;&|])~s*(?:~w+=~S+~s+)*(?:sudo~s+)?(?:-~w+(?:~s+~S+)?~s+)*'' @
     ''(?:command~s+)?(?:/(?:usr/)?bin/)?mv~s+'')"

definition canonical_cwd :: "fs_view \<Rightarrow> rstring option" where
  "canonical_cwd fs =
    map_option (\<lambda>p. case fv_canonicalize fs p of Some c \<Rightarrow> c | None \<Rightarrow> p) (fv_current_dir fs)"

definition resolve_path :: "fs_view \<Rightarrow> rstring \<Rightarrow> rstring option" where
  "resolve_path fs p =
    (let tilde = p = lit ''~'' \<or> starts_with (lit ''~/'') p;
         expanded = (if tilde then map_option (\<lambda>home. if p = lit ''~'' then home else home @ tl p) (fv_home fs)
                     else Some p)
     in (case expanded of
           None \<Rightarrow> None
         | Some path \<Rightarrow>
             (case fv_canonicalize fs path of
                Some c \<Rightarrow> Some c
              | None \<Rightarrow> if is_absolute path then Some path
                        else map_option (\<lambda>cwd. path_join cwd path) (fv_current_dir fs))))"

definition is_path_under :: "rstring \<Rightarrow> rstring \<Rightarrow> bool" where
  "is_path_under child parent = path_starts_with child parent"

fun variable_loop :: "rstring \<Rightarrow> bool" where
  "variable_loop (c # d # cs) =
    (c = ch_dollar \<and> (d = ch_lbrace \<or> is_ascii_alphabetic d \<or> d = ch_underscore) \<or> variable_loop (d # cs))"
| "variable_loop _ = False"

definition has_dangerous_expansion :: "rstring \<Rightarrow> bool" where
  "has_dangerous_expansion command =
    (str_contains (lit ''$('') command \<or> ch_backtick \<in> set command \<or> variable_loop command)"

section \<open>Deletion\<close>

definition expansion_block_message :: rstring where
  "expansion_block_message =
    [128683] @ text_lines
     [lit '' OPERATION BLOCKED - Shell Expansion in Destructive Command'', [],
      lit ''The command uses shell expansion ($(...), `...`, or variable substitution) '' @
      lit ''in a destructive operation. This bypasses path safety checks.'', [],
      lit ''Please use literal paths instead of shell expansion in rm/rmdir commands.'', [],
      [128274] @ lit '' This protection cannot be disabled programmatically.'']"

definition cwd_deletion_error :: rstring where
  "cwd_deletion_error =
    [128683] @ text_lines
     [lit '' OPERATION BLOCKED - Working Directory Deletion Prevented'', [],
      lit ''You attempted to delete a directory that contains your current working directory:'',
      lit ''  Target: {target}'', lit ''  CWD:    {cwd}'', [],
      lit ''Deleting the CWD would break the current session. If you need to clean up'',
      lit ''this directory, first change to a different working directory.'', [],
      [128274] @ lit '' This protection cannot be disabled programmatically.'']"

definition deletion_block :: "rstring \<Rightarrow> rstring \<Rightarrow> json" where
  "deletion_block target cwd =
    block_response (str_replace (lit ''{cwd}'') cwd (str_replace (lit ''{target}'') target cwd_deletion_error))"

definition is_deletion :: "(rstring \<Rightarrow> rstring \<Rightarrow> bool) \<Rightarrow> rstring \<Rightarrow> bool" where
  "is_deletion re s = (re rm_recursive_re s \<or> re rmdir_re s)"

definition check_cwd_deletion ::
  "(rstring \<Rightarrow> rstring \<Rightarrow> bool) \<Rightarrow> (rstring \<Rightarrow> rstring list option) \<Rightarrow> fs_view \<Rightarrow> rstring \<Rightarrow> json option" where
  "check_cwd_deletion re shell_words fs command =
    (if \<not> is_deletion re command then None
     else if has_dangerous_expansion command then Some (block_response expansion_block_message)
     else (case canonical_cwd fs of
             None \<Rightarrow> None
           | Some cwd \<Rightarrow>
               find_map (\<lambda>segment.
                 if \<not> is_deletion re segment then None
                 else find_map (\<lambda>p.
                   (case resolve_path fs p of
                      None \<Rightarrow> None
                    | Some target \<Rightarrow> if is_path_under cwd target then Some (deletion_block target cwd) else None))
                   (extract_rm_paths shell_words segment))
                 (split_segments command)))"

section \<open>Renaming\<close>

definition cwd_rename_error :: rstring where
  "cwd_rename_error =
    [128683] @ text_lines
     [lit '' OPERATION BLOCKED - Working Directory Rename Prevented'', [],
      lit ''You attempted to move/rename a directory that contains your current working directory:'',
      lit ''  Source: {source}'', lit ''  CWD:    {cwd}'', [],
      lit ''Moving or renaming the CWD would break the current session. To rename this directory:'',
      lit ''  1. First change to a different working directory (e.g., cd ..)'',
      lit ''  2. Then perform the rename operation'',
      lit ''  3. Change back into the renamed directory if needed'', [],
      [128274] @ lit '' This protection cannot be disabled programmatically.'']"

definition rename_block :: "rstring \<Rightarrow> rstring \<Rightarrow> json" where
  "rename_block src cwd =
    block_response (str_replace (lit ''{cwd}'') cwd (str_replace (lit ''{source}'') src cwd_rename_error))"

text \<open>The walk from the working directory up; a path is its components.\<close>

function glob_walk :: "fs_view \<Rightarrow> rstring \<Rightarrow> rstring \<Rightarrow> component list \<Rightarrow> bool" where
  "glob_walk fs glob_dir basename_prefix path =
    (case path_parent path of
       None \<Rightarrow> False
     | Some parent \<Rightarrow>
         (case fv_canonicalize fs (path_text parent) of
            None \<Rightarrow> False
          | Some canonical_parent \<Rightarrow>
              path_components canonical_parent = path_components glob_dir \<and>
              (case file_name path of None \<Rightarrow> False | Some name \<Rightarrow> starts_with basename_prefix name)) \<or>
         (parent \<noteq> [Root_dir] \<and> parent \<noteq> [] \<and> glob_walk fs glob_dir basename_prefix parent))"
  by pat_completeness auto
termination
  by (relation "measure (\<lambda>(_, _, _, path). length path)") (auto simp: path_parent_def split: if_splits)

declare glob_walk.simps [simp del]

definition check_glob_cwd_match :: "fs_view \<Rightarrow> rstring \<Rightarrow> rstring \<Rightarrow> json option" where
  "check_glob_cwd_match fs pattern cwd =
    (let first = (\<lambda>c s. hd (split_on (\<lambda>x. x = c) s));
         prefix = first 91 (first 63 (first 42 pattern))
     in if prefix = [] then None
        else (case path_parent (path_components prefix) of
                None \<Rightarrow> None
              | Some d \<Rightarrow>
                  (case fv_canonicalize fs (path_text d) of
                     None \<Rightarrow> None
                   | Some glob_dir \<Rightarrow>
                       (case file_name (path_components prefix) of
                          None \<Rightarrow> None
                        | Some basename_prefix \<Rightarrow>
                            if glob_walk fs glob_dir basename_prefix (path_components cwd)
                            then Some (rename_block pattern cwd) else None))))"

definition check_cwd_rename ::
  "(rstring \<Rightarrow> rstring \<Rightarrow> bool) \<Rightarrow> (rstring \<Rightarrow> rstring list option) \<Rightarrow> fs_view \<Rightarrow> rstring \<Rightarrow> json option" where
  "check_cwd_rename re shell_words fs command =
    (if \<not> re mv_re command then None
     else (case canonical_cwd fs of
             None \<Rightarrow> None
           | Some cwd \<Rightarrow>
               find_map (\<lambda>segment.
                 if \<not> re mv_re segment then None
                 else find_map (\<lambda>source_path.
                   if 42 \<in> set source_path \<or> 63 \<in> set source_path \<or> 91 \<in> set source_path
                   then check_glob_cwd_match fs source_path cwd
                   else (case resolve_path fs source_path of
                           None \<Rightarrow> None
                         | Some src \<Rightarrow> if is_path_under cwd src then Some (rename_block src cwd) else None))
                   (extract_mv_source_paths shell_words segment))
                 (split_segments command)))"

end
