(* ===== verification/Guard_Cwd_Facts.thy ===== *)
theory Guard_Cwd_Facts
  imports Guard_Cwd
begin

text \<open>
  What the protection of the working directory guarantees, and two command lines it lets through.
\<close>

section \<open>Segments\<close>

text \<open>
  A piece of a chain: its quotes are closed at its end, and outside of them it has no separator and
  no single \<open>&\<close> or \<open>|\<close>.
\<close>

fun piece_ok :: "bool \<Rightarrow> bool \<Rightarrow> rstring \<Rightarrow> bool" where
  "piece_ok in_single in_double [] = (\<not> in_single \<and> \<not> in_double)"
| "piece_ok in_single in_double (c # cs) =
    (if c = ch_squote \<and> \<not> in_double then piece_ok (\<not> in_single) in_double cs
     else if c = ch_dquote \<and> \<not> in_single then piece_ok in_single (\<not> in_double) cs
     else (in_single \<or> in_double \<or> c \<noteq> ch_semi \<and> c \<noteq> ch_amp \<and> c \<noteq> ch_pipe) \<and> piece_ok in_single in_double cs)"

lemma split_loop_piece:
  "piece_ok q d p \<Longrightarrow> split_loop (p @ rest) q d current segs = split_loop rest False False (current @ p) segs"
proof (induction q d p arbitrary: current rule: piece_ok.induct)
  case (2 q d c cs)
  have "\<not> double_separator c (cs @ rest)" if "c \<noteq> ch_amp" "c \<noteq> ch_pipe"
    using that by (cases "cs @ rest") (simp_all add: double_separator_def)
  then show ?case using 2 by (auto split: if_splits)
qed simp

definition separators :: "rstring list" where
  "separators = [lit '';'', lit ''&&'', lit ''||'']"

lemma split_loop_separator:
  "sep \<in> set separators \<Longrightarrow> split_loop (sep @ rest) False False current segs = split_loop rest False False [] (push_trimmed current segs)"
  by (auto simp: separators_def double_separator_def split: list.splits)

definition chain :: "rstring \<Rightarrow> (rstring \<times> rstring) list \<Rightarrow> rstring" where
  "chain p rest = p @ concat (map (\<lambda>(sep, q). sep @ q) rest)"

lemma split_loop_chain:
  "piece_ok False False p \<Longrightarrow> list_all (\<lambda>(sep, q). sep \<in> set separators \<and> piece_ok False False q) rest \<Longrightarrow>
   split_loop (chain p rest) False False [] segs = segs @ filter (\<lambda>s. s \<noteq> []) (map trim (p # map snd rest))"
proof (induction rest arbitrary: p segs)
  case (Cons r rest)
  obtain sep q where r: "r = (sep, q)" by fastforce
  have "split_loop (chain p (r # rest)) False False [] segs =
      split_loop (sep @ chain q rest) False False p segs"
    using split_loop_piece [OF Cons(2), of "sep @ chain q rest" "[]"] r by (simp add: chain_def)
  also have "\<dots> = split_loop (chain q rest) False False [] (push_trimmed p segs)"
    using Cons(3) r by (simp add: split_loop_separator)
  finally show ?case using Cons r by (simp add: push_trimmed_def)
next
  case Nil
  then show ?case using split_loop_piece [of False False p "[]" "[]" segs] by (simp add: chain_def push_trimmed_def)
qed

text \<open>
  A chain of commands is cut exactly at its separators: whatever is quoted in the pieces, the
  segments are the trimmed pieces, without the empty ones.
\<close>

lemma split_segments_chain:
  assumes "piece_ok False False p" "list_all (\<lambda>(sep, q). sep \<in> set separators \<and> piece_ok False False q) rest"
  shows "split_segments (chain p rest) = filter (\<lambda>s. s \<noteq> []) (map trim (p # map snd rest))"
  using split_loop_chain [OF assms, of "[]"] by (simp add: split_segments_def)

lemma split_segments_chain_witness:
  "split_segments (chain (lit ''echo \"a; b\" '') [(lit ''&&'', lit '' rm -r x''), (lit '';'', lit '' '')]) =
   [lit ''echo \"a; b\"'', lit ''rm -r x'']"
proof -
  have "filter (\<lambda>s. s \<noteq> []) (map trim (lit ''echo \"a; b\" '' # map snd [(lit ''&&'', lit '' rm -r x''), (lit '';'', lit '' '')])) =
      [lit ''echo \"a; b\"'', lit ''rm -r x'']" by code_simp
  moreover have "piece_ok False False (lit ''echo \"a; b\" '')"
    "list_all (\<lambda>(sep, q). sep \<in> set separators \<and> piece_ok False False q) [(lit ''&&'', lit '' rm -r x''), (lit '';'', lit '' '')]"
    by code_simp+
  ultimately show ?thesis using split_segments_chain by metis
qed

section \<open>Deletion and renaming\<close>

lemma find_map_not_None: "find_map f xs \<noteq> None \<longleftrightarrow> (\<exists>x \<in> set xs. f x \<noteq> None)"
  by (simp add: find_map_None del: not_None_eq)

text \<open>A path argument that resolves to the working directory or a directory above it.\<close>

definition hits_cwd :: "fs_view \<Rightarrow> rstring \<Rightarrow> bool" where
  "hits_cwd fs p \<longleftrightarrow> (\<exists>cwd target. canonical_cwd fs = Some cwd \<and> resolve_path fs p = Some target \<and> is_path_under cwd target)"

text \<open>
  A command that deletes is refused exactly when it expands something in the shell or one of its
  deleting segments names the working directory or a directory above it, however the path is written.
\<close>

lemma cwd_deletion_exact:
  "check_cwd_deletion re shell_words fs command \<noteq> None \<longleftrightarrow>
   is_deletion re command \<and>
   (has_dangerous_expansion command \<or>
    (\<exists>segment \<in> set (split_segments command). is_deletion re segment \<and>
       (\<exists>p \<in> set (extract_rm_paths shell_words segment). hits_cwd fs p)))"
proof -
  have "(\<exists>p \<in> set ps. (case resolve_path fs p of None \<Rightarrow> None
      | Some target \<Rightarrow> if is_path_under cwd target then Some (deletion_block target cwd) else None) \<noteq> None) \<longleftrightarrow>
      (\<exists>p \<in> set ps. hits_cwd fs p)" if "canonical_cwd fs = Some cwd" for ps cwd
    using that by (auto simp: hits_cwd_def split: option.splits)
  note inner = this
  show ?thesis
  proof (cases "canonical_cwd fs")
    case None
    then show ?thesis by (auto simp: check_cwd_deletion_def hits_cwd_def)
  next
    case (Some cwd)
    have "find_map (\<lambda>segment. if \<not> is_deletion re segment then None
        else find_map (\<lambda>p. (case resolve_path fs p of None \<Rightarrow> None
          | Some target \<Rightarrow> if is_path_under cwd target then Some (deletion_block target cwd) else None))
          (extract_rm_paths shell_words segment)) (split_segments command) \<noteq> None \<longleftrightarrow>
        (\<exists>segment \<in> set (split_segments command). is_deletion re segment \<and>
           (\<exists>p \<in> set (extract_rm_paths shell_words segment). hits_cwd fs p))"
      unfolding find_map_not_None using inner [OF Some, folded find_map_not_None] by (auto simp del: not_None_eq)
    then show ?thesis using Some by (simp add: check_cwd_deletion_def del: not_None_eq)
  qed
qed

text \<open>A path argument as the user writes it, with a tilde for the home directory or without one.\<close>

definition written_as :: "fs_view \<Rightarrow> rstring \<Rightarrow> rstring \<Rightarrow> bool" where
  "written_as fs arg path \<longleftrightarrow>
    arg \<noteq> lit ''~'' \<and> \<not> starts_with (lit ''~/'') arg \<and> path = arg
    \<or> arg = lit ''~'' \<and> fv_home fs = Some path
    \<or> (\<exists>home r. arg = lit ''~/'' @ r \<and> fv_home fs = Some home \<and> path = home @ lit ''/'' @ r)"

lemma written_as_resolves:
  "written_as fs arg path \<Longrightarrow> fv_canonicalize fs path = Some target \<Longrightarrow> resolve_path fs arg = Some target"
  by (auto simp: written_as_def resolve_path_def starts_with_def Let_def)

lemma is_rm_word_basename: "is_rm_word w \<longleftrightarrow> basename w \<in> {lit ''rm'', lit ''rmdir''}"
proof -
  have e: "(w = n \<or> ends_with (ch_slash # n) w) \<longleftrightarrow> basename w = n" if n: "ch_slash \<notin> set n" for n
  proof
    have "basename n = n" using n by (simp add: basename_def after_last_id)
    moreover have "basename (u @ ch_slash # n) = n" for u
      using n by (simp add: basename_def after_last_def takeWhile_append)
    moreover assume "w = n \<or> ends_with (ch_slash # n) w"
    ultimately show "basename w = n" by (auto simp: ends_with_def suffix_def)
  next
    assume b: "basename w = n"
    show "w = n \<or> ends_with (ch_slash # n) w"
    proof (cases "ch_slash \<in> set w")
      case True
      then obtain u v where w: "w = u @ ch_slash # v" "ch_slash \<notin> set v" by (meson split_list_last)
      then have "basename w = v"
        by (simp add: basename_def after_last_def takeWhile_append) 
      then show ?thesis using b w by (auto simp: ends_with_def suffix_def)
    next
      case False
      then show ?thesis using b by (simp add: basename_def after_last_id)
    qed
  qed
  have "ch_slash \<notin> set (lit ''rm'')" "ch_slash \<notin> set (lit ''rmdir'')" by code_simp+
  then show ?thesis using e [of "lit ''rm''"] e [of "lit ''rmdir''"] by (auto simp: is_rm_word_def)
qed

lemma rm_loop_args: "list_all (\<lambda>v. \<not> is_rm_word v) pre \<Longrightarrow> is_rm_word w \<Longrightarrow> a \<in> set args \<Longrightarrow> \<not> starts_with (lit ''-'') a \<Longrightarrow>
   a \<in> set (rm_loop False (pre @ w # args))"
proof (induction pre)
  case Nil
  have "a \<in> set (rm_loop True args)" using Nil(3,4) by (induction args) auto
  then show ?case using Nil by simp
qed simp

text \<open>The arguments are resolved where the hook runs, not where an earlier \<open>cd\<close> of the line leads.\<close>

definition sample_fs :: fs_view where
  "sample_fs = \<lparr>fv_current_dir = Some (lit ''/w/proj''),
     fv_canonicalize = (\<lambda>p. if p = lit ''/w/proj'' \<or> p = lit ''/w'' \<or> p = lit ''/'' then Some p else None),
     fv_home = Some (lit ''/home/me'')\<rparr>"

text \<open>
  Stepping out of the working directory first hides its deletion: the line \<open>cd .. && rm -rf proj\<close>
  run in \<open>/w/proj\<close> is let through by the check, whatever the patterns match.
\<close>

lemma cd_hides_deletion:
  assumes "shell_words (lit ''cd ..'') = Some [lit ''cd'', lit ''..'']"
    "shell_words (lit ''rm -rf proj'') = Some [lit ''rm'', lit ''-rf'', lit ''proj'']"
  shows "check_cwd_deletion re shell_words sample_fs (lit ''cd .. && rm -rf proj'') = None"
proof -
  have "split_segments (lit ''cd .. && rm -rf proj'') = [lit ''cd ..'', lit ''rm -rf proj'']"
    "\<not> has_dangerous_expansion (lit ''cd .. && rm -rf proj'')"
    "rm_loop False [lit ''cd'', lit ''..''] = []" "rm_loop False [lit ''rm'', lit ''-rf'', lit ''proj''] = [lit ''proj'']"
    "canonical_cwd sample_fs = Some (lit ''/w/proj'')" "resolve_path sample_fs (lit ''proj'') = Some (lit ''/w/proj/proj'')"
    "\<not> is_path_under (lit ''/w/proj'') (lit ''/w/proj/proj'')"
    by code_simp+
  then have "\<not> (\<exists>segment \<in> set (split_segments (lit ''cd .. && rm -rf proj'')). is_deletion re segment \<and>
       (\<exists>p \<in> set (extract_rm_paths shell_words segment). hits_cwd sample_fs p))"
    using assms by (simp add: extract_rm_paths_def hits_cwd_def del: lit_Cons)
  then show ?thesis
    using cwd_deletion_exact [of re shell_words sample_fs] \<open>\<not> has_dangerous_expansion _\<close> by blast
qed

lemma cd_hides_deletion_witness:
  "check_cwd_deletion (\<lambda>_ _. True) (\<lambda>s. Some (split_whitespace s)) sample_fs (lit ''cd .. && rm -rf proj'') = None"
  by (rule cd_hides_deletion) code_simp+

definition moves_cwd :: "fs_view \<Rightarrow> rstring \<Rightarrow> bool" where
  "moves_cwd fs src \<longleftrightarrow>
    (if 42 \<in> set src \<or> 63 \<in> set src \<or> 91 \<in> set src
     then \<exists>cwd. canonical_cwd fs = Some cwd \<and> check_glob_cwd_match fs src cwd \<noteq> None else hits_cwd fs src)"

lemma cwd_rename_exact:
  "check_cwd_rename re shell_words fs command \<noteq> None \<longleftrightarrow>
   re mv_re command \<and>
   (\<exists>segment \<in> set (split_segments command). re mv_re segment \<and>
      (\<exists>src \<in> set (extract_mv_source_paths shell_words segment). moves_cwd fs src))"
proof (cases "canonical_cwd fs")
  case None
  then show ?thesis by (auto simp: check_cwd_rename_def moves_cwd_def hits_cwd_def)
next
  case (Some cwd)
  have src: "(if 42 \<in> set src \<or> 63 \<in> set src \<or> 91 \<in> set src then check_glob_cwd_match fs src cwd
      else (case resolve_path fs src of None \<Rightarrow> None
        | Some s \<Rightarrow> if is_path_under cwd s then Some (rename_block s cwd) else None)) \<noteq> None \<longleftrightarrow> moves_cwd fs src" for src
    using Some by (auto simp: moves_cwd_def hits_cwd_def split: option.splits)
  have "find_map (\<lambda>segment. if \<not> re mv_re segment then None
      else find_map (\<lambda>src. if 42 \<in> set src \<or> 63 \<in> set src \<or> 91 \<in> set src then check_glob_cwd_match fs src cwd
        else (case resolve_path fs src of None \<Rightarrow> None
          | Some s \<Rightarrow> if is_path_under cwd s then Some (rename_block s cwd) else None))
        (extract_mv_source_paths shell_words segment)) (split_segments command) \<noteq> None \<longleftrightarrow>
      (\<exists>segment \<in> set (split_segments command). re mv_re segment \<and>
        (\<exists>src \<in> set (extract_mv_source_paths shell_words segment). moves_cwd fs src))"
    unfolding find_map_not_None
    by (rule bex_cong [OF refl]) (simp add: find_map_not_None src del: not_None_eq)
  then show ?thesis using Some by (simp add: check_cwd_rename_def del: not_None_eq)
qed

text \<open>
  A target directory given with other short options of \<open>mv\<close> is not recognised: the line
  \<open>mv -vt /tmp /w/proj\<close> run in \<open>/w/proj\<close> is let through, because the last argument is taken
  for the destination.
\<close>

lemma combined_target_hides_move:
  assumes "shell_words (lit ''mv -vt /tmp /w/proj'') = Some [lit ''mv'', lit ''-vt'', lit ''/tmp'', lit ''/w/proj'']"
  shows "check_cwd_rename re shell_words sample_fs (lit ''mv -vt /tmp /w/proj'') = None"
proof -
  have split: "split_segments (lit ''mv -vt /tmp /w/proj'') = [lit ''mv -vt /tmp /w/proj'']" by code_simp
  have "extract_mv_source_paths (\<lambda>_. Some [lit ''mv'', lit ''-vt'', lit ''/tmp'', lit ''/w/proj'']) [] = [lit ''/tmp'']"
    by code_simp
  then have src: "extract_mv_source_paths shell_words (lit ''mv -vt /tmp /w/proj'') = [lit ''/tmp'']"
    using assms by (simp add: extract_mv_source_paths_def del: lit_Cons)
  have "resolve_path sample_fs (lit ''/tmp'') = Some (lit ''/tmp'')" "\<not> is_path_under (lit ''/w/proj'') (lit ''/tmp'')"
    "canonical_cwd sample_fs = Some (lit ''/w/proj'')"
    "\<not> (42 \<in> set (lit ''/tmp'') \<or> 63 \<in> set (lit ''/tmp'') \<or> 91 \<in> set (lit ''/tmp''))"
    by code_simp+
  then have "\<not> moves_cwd sample_fs (lit ''/tmp'')" by (simp add: moves_cwd_def hits_cwd_def del: lit_Cons)
  then have "\<not> (\<exists>segment \<in> set (split_segments (lit ''mv -vt /tmp /w/proj'')). re mv_re segment \<and>
      (\<exists>src \<in> set (extract_mv_source_paths shell_words segment). moves_cwd sample_fs src))"
    by (simp add: split src del: lit_Cons)
  then show ?thesis using cwd_rename_exact [of re shell_words sample_fs] by blast
qed

lemma combined_target_hides_move_witness:
  "check_cwd_rename (\<lambda>_ _. True) (\<lambda>s. Some (split_whitespace s)) sample_fs (lit ''mv -vt /tmp /w/proj'') = None"
  by (rule combined_target_hides_move) code_simp

end
