(* ===== verification/Xpia.thy ===== *)
theory Xpia
  imports Rust_Num Rust_Path Json_Value
begin

text \<open>
  The prompt-injection defender of \<open>amplihack-security\<close>: risk levels and results (\<open>risk.rs\<close>), the
  attack patterns (\<open>patterns.rs\<close>), the configuration (\<open>config.rs\<close>), the checks (\<open>defender.rs\<close>)
  and the health report (\<open>health.rs\<close>).  Parameters: \<open>re\<close> matches a pattern of the \<open>regex\<close> crate
  without regard to case (nothing for a pattern that does not compile), \<open>lower\<close> and \<open>upper\<close> are
  \<open>to_lowercase\<close> and \<open>to_uppercase\<close>, \<open>lookup\<close> reads the environment and \<open>read_file\<close> a file.
\<close>

section \<open>Risk levels\<close>

datatype security_level = Level_low | Level_medium | Level_high | Level_strict

definition security_level_text :: "security_level \<Rightarrow> rstring" where
  "security_level_text l =
    (case l of Level_low \<Rightarrow> lit ''low'' | Level_medium \<Rightarrow> lit ''medium'' | Level_high \<Rightarrow> lit ''high''
     | Level_strict \<Rightarrow> lit ''strict'')"

datatype risk_level = Risk_none | Risk_low | Risk_medium | Risk_high | Risk_critical

definition risk_text :: "risk_level \<Rightarrow> rstring" where
  "risk_text r =
    (case r of Risk_none \<Rightarrow> lit ''none'' | Risk_low \<Rightarrow> lit ''low'' | Risk_medium \<Rightarrow> lit ''medium''
     | Risk_high \<Rightarrow> lit ''high'' | Risk_critical \<Rightarrow> lit ''critical'')"

text \<open>The derived order: by the position of the constructor.\<close>

fun risk_rank :: "risk_level \<Rightarrow> nat" where
  "risk_rank Risk_none = 0"
| "risk_rank Risk_low = 1"
| "risk_rank Risk_medium = 2"
| "risk_rank Risk_high = 3"
| "risk_rank Risk_critical = 4"

lemma risk_rank_inject: "risk_rank r = risk_rank s \<Longrightarrow> r = s"
  by (cases r; cases s) simp_all

instantiation risk_level :: linorder
begin

definition less_eq_risk_level :: "risk_level \<Rightarrow> risk_level \<Rightarrow> bool" where
  "less_eq_risk_level r s = (risk_rank r \<le> risk_rank s)"

definition less_risk_level :: "risk_level \<Rightarrow> risk_level \<Rightarrow> bool" where
  "less_risk_level r s = (risk_rank r < risk_rank s)"

instance
  by standard (auto simp: less_eq_risk_level_def less_risk_level_def intro: risk_rank_inject)

end

datatype content_type = Prompt_content | Url_content | Bash_command | Tool_parameters | Data_content

datatype threat_type = Prompt_injection | Exfiltration | Escape | Hijacking | Encoding | Manipulation
  | Malicious_url | Chain_attack

record threat =
  th_type :: threat_type
  th_severity :: risk_level
  th_description :: rstring
  th_pattern_id :: rstring
  th_mitigation :: rstring

record validation =
  vr_risk_level :: risk_level
  vr_should_block :: bool
  vr_threats :: "threat list"
  vr_recommendations :: "rstring list"
  vr_content_type :: content_type
  vr_metadata :: json

definition clean :: "content_type \<Rightarrow> validation" where
  "clean ct = \<lparr>vr_risk_level = Risk_none, vr_should_block = False, vr_threats = [], vr_recommendations = [],
     vr_content_type = ct, vr_metadata = J_obj [(lit ''validation'', J_str (lit ''passed''))]\<rparr>"

text \<open>\<open>iter().max().unwrap_or(RiskLevel::None)\<close>.\<close>

definition max_severity :: "threat list \<Rightarrow> risk_level" where
  "max_severity ts = foldr (\<lambda>t. max (th_severity t)) ts Risk_none"

definition threat_summary :: "validation \<Rightarrow> rstring" where
  "threat_summary v =
    (if vr_threats v = [] then lit ''No threats detected''
     else show_radix 10 (length (vr_threats v)) @ lit '' threat(s) detected, highest severity: '' @
       risk_text (max_severity (vr_threats v)))"

section \<open>Patterns\<close>

datatype category = Prompt_override | Instruction_injection | Context_manipulation | Data_exfiltration
  | System_escape | Role_hijacking | Encoding_bypass | Chain_attacks

datatype matcher = Regex rstring | Length_threshold nat

record attack_pattern =
  ap_id :: rstring
  ap_name :: rstring
  ap_category :: category
  ap_severity :: rstring
  ap_description :: rstring
  ap_mitigation :: rstring
  ap_matcher :: matcher

definition attack :: "rstring \<Rightarrow> rstring \<Rightarrow> category \<Rightarrow> rstring \<Rightarrow> rstring \<Rightarrow> rstring \<Rightarrow> matcher \<Rightarrow> attack_pattern" where
  "attack i n c s d m t = \<lparr>ap_id = i, ap_name = n, ap_category = c, ap_severity = s, ap_description = d,
     ap_mitigation = m, ap_matcher = t\<rparr>"

definition all_patterns :: "attack_pattern list" where
  "all_patterns =
    [
     attack (lit ''PO001'') (lit ''Ignore Previous Instructions'') Prompt_override (lit ''critical'')
       (lit ''Attempts to override previous instructions'')
       (lit ''Block and alert on detection'')
       (Regex (pat (''(ignore|disregard|forget|abandon|override|bypass|skip)[~s~w]*(previous'' @
         ''|prior|above|earlier|preceding)[~s~w]*(instructions?|prompts?|commands'' @
         ''?|directives?)''))),
     attack (lit ''PO002'') (lit ''New Instructions Override'') Prompt_override (lit ''high'')
       (lit ''Attempts to inject new overriding instructions'')
       (lit ''Validate against original context'')
       (Regex (pat (''(new|updated|revised|different|alternative)[~s~w]*(instructions?|task|'' @
         ''objective|goal|mission)[~s~w]*:?[~s~w]*(ignore|override|replace|supers'' @
         ''ede)''))),
     attack (lit ''PO003'') (lit ''Safety Bypass'') Prompt_override (lit ''critical'')
       (lit ''Attempts to disable safety measures'')
       (lit ''Block immediately'')
       (Regex (pat (''(ignore|bypass|disable|turn~s+off|skip|override)[~s~w]*(all|any|every)'' @
         ''?[~s~w]*(safety|security|validation|filter|guard|protection)''))),
     attack (lit ''PO004'') (lit ''Instruction Override'') Prompt_override (lit ''high'')
       (lit ''General instruction override attempt'')
       (lit ''Block and log'')
       (Regex (pat (''(ignore|disregard|forget|override|bypass)[~s~w]*(instructions?|rules|g'' @
         ''uidelines|constraints?)''))),
     attack (lit ''II001'') (lit ''System Prompt Injection'') Instruction_injection (lit ''critical'')
       (lit ''Attempts to inject system-level prompts'')
       (lit ''Strip system markers from user input'')
       (Regex (pat ''(~[system~]|~[SYSTEM~]|<system>|</system>|###~s*System|system:)'')),
     attack (lit ''II002'') (lit ''Assistant Role Injection'') Instruction_injection (lit ''high'')
       (lit ''Attempts to inject assistant role markers'')
       (lit ''Strip role markers from user input'')
       (Regex (pat (''(assistant:|Assistant:|ASSISTANT:|<assistant>|</assistant>)|(you are n'' @
         ''ow|you must act as|pretend to be|roleplay as)''))),
     attack (lit ''CM001'') (lit ''Context Window Overflow'') Context_manipulation (lit ''medium'')
       (lit ''Attempts to overflow the context window'')
       (lit ''Truncate oversized content'')
       (Length_threshold 5000),
     attack (lit ''CM002'') (lit ''Hidden Instructions'') Context_manipulation (lit ''high'')
       (lit ''Instructions hidden in comments or markup'')
       (lit ''Strip comments before processing'')
       (Regex (pat ''(<!--|//|#|/~*|~*/|<!-- |-->)[~s~w]*(ignore|execute|run|eval|system)'')),
     attack (lit ''DE001'') (lit ''Credential Request'') Data_exfiltration (lit ''critical'')
       (lit ''Attempts to extract credentials or secrets'')
       (lit ''Block credential exposure'')
       (Regex (pat (''(show|display|print|output|reveal|expose|leak)[~s~w]*(password|token|k'' @
         ''ey|secret|credential|api[~s_~-]?key|private)''))),
     attack (lit ''DE002'') (lit ''File System Access'') Data_exfiltration (lit ''critical'')
       (lit ''Attempts to access sensitive files'')
       (lit ''Block sensitive path access'')
       (Regex (pat (''(read|cat|type|show|display|output)[~s~w]*(/etc/passwd|/etc/shadow|~.e'' @
         ''nv|config~.json|secrets|credentials)''))),
     attack (lit ''SE001'') (lit ''Command Injection'') System_escape (lit ''critical'')
       (lit ''Shell command injection via operators'')
       (lit ''Sanitize shell metacharacters'')
       (Regex (pat (''(~||&&|~$~(|`|;|~n)[~s]*(rm|del|format|kill|shutdown|reboot|wget|curl|'' @
         ''nc|netcat)''))),
     attack (lit ''SE002'') (lit ''Path Traversal'') System_escape (lit ''high'')
       (lit ''Directory traversal attempts'')
       (lit ''Normalize and validate paths'')
       (Regex (pat ''(~.~.~/|~.~.~~|%2e%2e%2f|%252e%252e%252f)'')),
     attack (lit ''RH001'') (lit ''Jailbreak Attempt'') Role_hijacking (lit ''critical'')
       (lit ''Known jailbreak technique attempt'')
       (lit ''Block and report'')
       (Regex (pat (''(DAN|Do Anything Now|jailbreak|unrestricted mode|developer mode|god mo'' @
         ''de)''))),
     attack (lit ''RH002'') (lit ''Authority Claim'') Role_hijacking (lit ''high'')
       (lit ''Claims authority over the AI system'')
       (lit ''Ignore authority claims'')
       (Regex (pat (''(I am|I'm|act as if I am|pretend I am)[~s~w]*(the AI|the assistant|the'' @
         '' system|in control|your master)''))),
     attack (lit ''EB001'') (lit ''Base64 Encoded Instructions'') Encoding_bypass (lit ''high'')
       (lit ''Instructions hidden in base64 encoding'')
       (lit ''Decode and re-validate'')
       (Regex (pat ''(base64|b64)[~s:]+([A-Za-z0-9+/]{20,}={0,2})'')),
     attack (lit ''EB002'') (lit ''Unicode/Hex Escape Sequences'') Encoding_bypass (lit ''medium'')
       (lit ''Instructions using escape sequences'')
       (lit ''Decode escape sequences before validation'')
       (Regex (pat ''(~~u[0-9a-fA-F]{4}|~~x[0-9a-fA-F]{2}|&#x[0-9a-fA-F]+;|&#[0-9]+;)'')),
     attack (lit ''CA001'') (lit ''Multi-Step Chain Attack'') Chain_attacks (lit ''high'')
       (lit ''Multi-step attack using sequential instructions'')
       (lit ''Validate each step independently'')
       (Regex (pat (''(step~s+1|first,?|then|after that|next|finally).*?(step~s+2|second|the'' @
         ''n|after|next|finally)''))),
     attack (lit ''WF001'') (lit ''Malicious Fetch Request'') Chain_attacks (lit ''critical'')
       (lit ''Attempts to fetch malicious content'')
       (lit ''Validate URLs against allowlist'')
       (Regex (pat (''(fetch|get|retrieve|download|access)[~s~w]*(malware|payload|exploit|ba'' @
         ''ckdoor|trojan|virus)''))),
     attack (lit ''WF002'') (lit ''URL with Override Intent'') Chain_attacks (lit ''high'')
       (lit ''URL combined with instruction override'')
       (lit ''Validate URL and scan for injection'')
       (Regex (pat ''(https?://[^~s]+)[~s~w]*(ignore|override|bypass|execute|system)''))]"

definition pattern_matches :: "(rstring \<Rightarrow> rstring \<Rightarrow> bool) \<Rightarrow> attack_pattern \<Rightarrow> rstring \<Rightarrow> bool" where
  "pattern_matches re p txt =
    (case ap_matcher p of Regex r \<Rightarrow> re r txt | Length_threshold n \<Rightarrow> n \<le> utf8_len txt)"

definition patterns_by_category :: "category \<Rightarrow> attack_pattern list" where
  "patterns_by_category c = filter (\<lambda>p. ap_category p = c) all_patterns"

definition pattern_by_id :: "rstring \<Rightarrow> attack_pattern option" where
  "pattern_by_id i = List.find (\<lambda>p. ap_id p = i) all_patterns"

definition scan_patterns :: "(rstring \<Rightarrow> rstring \<Rightarrow> bool) \<Rightarrow> rstring \<Rightarrow> attack_pattern list" where
  "scan_patterns re txt = filter (\<lambda>p. pattern_matches re p txt) all_patterns"

section \<open>Configuration\<close>

definition default_safe_domains :: "rstring list" where
  "default_safe_domains = map lit
    [''github.com'', ''microsoft.com'', ''azure.com'', ''openai.com'', ''anthropic.com'', ''stackoverflow.com'',
     ''python.org'', ''nodejs.org'', ''npmjs.com'', ''pypi.org'', ''docs.python.org'', ''developer.mozilla.org'',
     ''w3.org'']"

record xpia_config =
  xc_enabled :: bool
  xc_security_level :: security_level
  xc_verbose_feedback :: bool
  xc_block_on_high_risk :: bool
  xc_block_on_critical :: bool
  xc_validate_webfetch :: bool
  xc_validate_bash :: bool
  xc_validate_agents :: bool
  xc_log_security_events :: bool
  xc_log_file :: "rstring option"
  xc_whitelist_domains :: "rstring set"
  xc_blacklist_domains :: "rstring set"
  xc_max_prompt_length :: nat
  xc_max_url_length :: nat

record text_funs =
  tf_lower :: "rstring \<Rightarrow> rstring"
  tf_upper :: "rstring \<Rightarrow> rstring"

type_synonym env_lookup = "rstring \<Rightarrow> rstring option"

definition parse_bool :: "text_funs \<Rightarrow> rstring \<Rightarrow> bool" where
  "parse_bool tf v = (tf_lower tf v \<in> {lit ''1'', lit ''true'', lit ''yes''})"

definition enabled_from_lookup :: "text_funs \<Rightarrow> env_lookup \<Rightarrow> bool" where
  "enabled_from_lookup tf lookup =
    (case lookup (lit ''XPIA_ENABLED'') of Some v \<Rightarrow> parse_bool tf v | None \<Rightarrow> False)"

definition env_bool :: "text_funs \<Rightarrow> env_lookup \<Rightarrow> rstring \<Rightarrow> bool \<Rightarrow> bool" where
  "env_bool tf lookup key dflt = (case lookup key of None \<Rightarrow> dflt | Some v \<Rightarrow> parse_bool tf v)"

definition env_usize :: "env_lookup \<Rightarrow> rstring \<Rightarrow> nat \<Rightarrow> nat" where
  "env_usize lookup key dflt =
    (case lookup key of None \<Rightarrow> dflt | Some v \<Rightarrow> (case parse_usize v of Some n \<Rightarrow> n | None \<Rightarrow> dflt))"

definition split_domains :: "text_funs \<Rightarrow> rstring \<Rightarrow> rstring set" where
  "split_domains tf domains = (\<lambda>s. tf_lower tf (trim s)) ` set (split_on (\<lambda>c. c = 44) domains)"

definition domains_from_file :: "text_funs \<Rightarrow> (rstring \<Rightarrow> rstring option) \<Rightarrow> rstring \<Rightarrow> rstring set" where
  "domains_from_file tf read_file path =
    (case read_file path of
       None \<Rightarrow> {}
     | Some content \<Rightarrow>
         (tf_lower tf) ` {t \<in> trim ` set (str_lines content). t \<noteq> [] \<and> \<not> starts_with (lit ''#'') t})"

definition domain_list :: "text_funs \<Rightarrow> (rstring \<Rightarrow> rstring option) \<Rightarrow> env_lookup \<Rightarrow> rstring \<Rightarrow> rstring \<Rightarrow> rstring set" where
  "domain_list tf read_file lookup domains_key file_key =
    (case lookup domains_key of Some d \<Rightarrow> split_domains tf d | None \<Rightarrow> {}) \<union>
    (case lookup file_key of Some f \<Rightarrow> domains_from_file tf read_file f | None \<Rightarrow> {})"

definition security_level_of :: "text_funs \<Rightarrow> env_lookup \<Rightarrow> security_level" where
  "security_level_of tf lookup =
    (let v = tf_upper tf (case lookup (lit ''XPIA_SECURITY_LEVEL'') of Some v \<Rightarrow> v | None \<Rightarrow> lit ''MODERATE'')
     in if v = lit ''STRICT'' then Level_strict
        else if v = lit ''HIGH'' then Level_high
        else if v = lit ''LENIENT'' \<or> v = lit ''LOW'' then Level_low
        else Level_medium)"

definition config_from_lookup :: "text_funs \<Rightarrow> (rstring \<Rightarrow> rstring option) \<Rightarrow> env_lookup \<Rightarrow> xpia_config" where
  "config_from_lookup tf read_file lookup =
    \<lparr>xc_enabled = enabled_from_lookup tf lookup,
     xc_security_level = security_level_of tf lookup,
     xc_verbose_feedback = env_bool tf lookup (lit ''XPIA_VERBOSE_FEEDBACK'') False,
     xc_block_on_high_risk = env_bool tf lookup (lit ''XPIA_BLOCK_HIGH_RISK'') True,
     xc_block_on_critical = env_bool tf lookup (lit ''XPIA_BLOCK_CRITICAL'') True,
     xc_validate_webfetch = env_bool tf lookup (lit ''XPIA_VALIDATE_WEBFETCH'') True,
     xc_validate_bash = env_bool tf lookup (lit ''XPIA_VALIDATE_BASH'') True,
     xc_validate_agents = env_bool tf lookup (lit ''XPIA_VALIDATE_AGENTS'') True,
     xc_log_security_events = env_bool tf lookup (lit ''XPIA_LOG_EVENTS'') True,
     xc_log_file = lookup (lit ''XPIA_LOG_FILE''),
     xc_whitelist_domains = domain_list tf read_file lookup (lit ''XPIA_WHITELIST_DOMAINS'') (lit ''XPIA_WHITELIST_FILE'') \<union>
       set default_safe_domains,
     xc_blacklist_domains = domain_list tf read_file lookup (lit ''XPIA_BLACKLIST_DOMAINS'') (lit ''XPIA_BLACKLIST_FILE''),
     xc_max_prompt_length = env_usize lookup (lit ''XPIA_MAX_PROMPT_LENGTH'') 10000,
     xc_max_url_length = env_usize lookup (lit ''XPIA_MAX_URL_LENGTH'') 2048\<rparr>"

definition config_should_block :: "xpia_config \<Rightarrow> risk_level \<Rightarrow> bool" where
  "config_should_block cfg risk =
    (case risk of Risk_critical \<Rightarrow> xc_block_on_critical cfg | Risk_high \<Rightarrow> xc_block_on_high_risk cfg | _ \<Rightarrow> False)"

definition in_domains :: "text_funs \<Rightarrow> rstring set \<Rightarrow> rstring \<Rightarrow> bool" where
  "in_domains tf domains domain =
    (let lower = tf_lower tf domain in \<exists>d \<in> domains. lower = d \<or> ends_with (ch_dot # d) lower)"

definition is_whitelisted :: "text_funs \<Rightarrow> xpia_config \<Rightarrow> rstring \<Rightarrow> bool" where
  "is_whitelisted tf cfg domain = in_domains tf (xc_whitelist_domains cfg) domain"

definition is_blacklisted :: "text_funs \<Rightarrow> xpia_config \<Rightarrow> rstring \<Rightarrow> bool" where
  "is_blacklisted tf cfg domain = in_domains tf (xc_blacklist_domains cfg) domain"

section \<open>The defender\<close>

definition category_to_threat :: "category \<Rightarrow> threat_type" where
  "category_to_threat c =
    (case c of Prompt_override \<Rightarrow> Prompt_injection | Instruction_injection \<Rightarrow> Prompt_injection
     | Context_manipulation \<Rightarrow> Manipulation | Data_exfiltration \<Rightarrow> Exfiltration | System_escape \<Rightarrow> Escape
     | Role_hijacking \<Rightarrow> Hijacking | Encoding_bypass \<Rightarrow> Encoding | Chain_attacks \<Rightarrow> Chain_attack)"

definition severity_str_to_risk :: "rstring \<Rightarrow> risk_level" where
  "severity_str_to_risk s =
    (if s = lit ''critical'' then Risk_critical else if s = lit ''high'' then Risk_high
     else if s = lit ''medium'' then Risk_medium else if s = lit ''low'' then Risk_low else Risk_medium)"

definition build_recommendations :: "threat list \<Rightarrow> rstring list" where
  "build_recommendations ts =
    (let recs = filter (\<lambda>m. m \<noteq> []) (map th_mitigation (take 3 ts))
     in if recs = [] then [lit ''Review content for potential security issues''] else recs)"

definition threat_of :: "attack_pattern \<Rightarrow> threat" where
  "threat_of p = \<lparr>th_type = category_to_threat (ap_category p), th_severity = severity_str_to_risk (ap_severity p),
     th_description = ap_description p, th_pattern_id = ap_id p, th_mitigation = ap_mitigation p\<rparr>"

definition validate_content :: "(rstring \<Rightarrow> rstring \<Rightarrow> bool) \<Rightarrow> xpia_config \<Rightarrow> rstring \<Rightarrow> content_type \<Rightarrow> validation" where
  "validate_content re cfg content ct =
    (if \<not> xc_enabled cfg then clean ct
     else (let hits = scan_patterns re content
           in if hits = [] then clean ct
              else (let threats = map threat_of hits; max_risk = max_severity threats
                    in \<lparr>vr_risk_level = max_risk, vr_should_block = config_should_block cfg max_risk,
                        vr_threats = threats, vr_recommendations = build_recommendations threats,
                        vr_content_type = ct,
                        vr_metadata = J_obj [(lit ''validation'', J_str (lit ''completed''))]\<rparr>)))"

definition extract_domain :: "text_funs \<Rightarrow> rstring \<Rightarrow> rstring option" where
  "extract_domain tf url =
    (let without_scheme = (case strip_prefix (lit ''https://'') url of Some r \<Rightarrow> r
           | None \<Rightarrow> (case strip_prefix (lit ''http://'') url of Some r \<Rightarrow> r | None \<Rightarrow> url));
         host = hd (split_on (\<lambda>c. c = ch_slash) without_scheme);
         domain = hd (split_on (\<lambda>c. c = ch_colon) host)
     in if domain = [] then None else Some (tf_lower tf domain))"

definition url_block :: "risk_level \<Rightarrow> rstring \<Rightarrow> rstring \<Rightarrow> rstring \<Rightarrow> rstring \<Rightarrow> json \<Rightarrow> validation" where
  "url_block risk description pattern_id mitigation recommendation metadata =
    \<lparr>vr_risk_level = risk, vr_should_block = True,
     vr_threats = [\<lparr>th_type = Malicious_url, th_severity = risk, th_description = description,
                    th_pattern_id = pattern_id, th_mitigation = mitigation\<rparr>],
     vr_recommendations = [recommendation], vr_content_type = Url_content, vr_metadata = metadata\<rparr>"

definition validate_url :: "(rstring \<Rightarrow> rstring \<Rightarrow> bool) \<Rightarrow> text_funs \<Rightarrow> xpia_config \<Rightarrow> rstring \<Rightarrow> validation" where
  "validate_url re tf cfg url =
    (if \<not> xc_enabled cfg \<or> \<not> xc_validate_webfetch cfg then clean Url_content
     else if utf8_len url > xc_max_url_length cfg then
       url_block Risk_high
         (lit ''URL exceeds max length ('' @ show_radix 10 (utf8_len url) @ lit '' > '' @
          show_radix 10 (xc_max_url_length cfg) @ lit '')'')
         (lit ''URL_LENGTH'') (lit ''Shorten URL'') (lit ''Reduce URL length'')
         (J_obj [(lit ''url_length'', J_num (show_radix 10 (utf8_len url)))])
     else (case extract_domain tf url of
             Some domain \<Rightarrow>
               if is_blacklisted tf cfg domain then
                 url_block Risk_critical (lit ''Domain ''  @ [ch_squote] @ domain @ [ch_squote] @ lit '' is blacklisted'')
                   (lit ''BLACKLIST'') (lit ''Do not access blacklisted domains'') (lit ''Use a trusted domain'')
                   (J_obj [(lit ''domain'', J_str domain)])
               else validate_content re cfg url Url_content
           | None \<Rightarrow> validate_content re cfg url Url_content))"

definition validate_bash :: "(rstring \<Rightarrow> rstring \<Rightarrow> bool) \<Rightarrow> xpia_config \<Rightarrow> rstring \<Rightarrow> validation" where
  "validate_bash re cfg command =
    (if \<not> xc_enabled cfg \<or> \<not> xc_validate_bash cfg then clean Bash_command
     else validate_content re cfg command Bash_command)"

definition validate_webfetch ::
  "(rstring \<Rightarrow> rstring \<Rightarrow> bool) \<Rightarrow> text_funs \<Rightarrow> xpia_config \<Rightarrow> rstring \<Rightarrow> rstring \<Rightarrow> validation" where
  "validate_webfetch re tf cfg url prompt =
    (if \<not> xc_enabled cfg \<or> \<not> xc_validate_webfetch cfg then clean Url_content
     else (let url_result = validate_url re tf cfg url
           in if vr_should_block url_result then url_result
              else (let prompt_result = validate_content re cfg prompt Prompt_content
                    in if vr_should_block prompt_result then prompt_result
                       else if vr_risk_level url_result < vr_risk_level prompt_result then prompt_result
                       else url_result)))"

end
