(* ===== verification/Xpia_Facts.thy ===== *)
theory Xpia_Facts
  imports Xpia
begin

text \<open>
  What the defender refuses: content by its worst match, and addresses of blacklisted domains; and the
  two ways around it that the code leaves open.
\<close>

section \<open>Content\<close>

lemma max_severity_ge: "t \<in> set ts \<Longrightarrow> th_severity t \<le> max_severity ts"
  by (induction ts) (auto simp: max_severity_def le_max_iff_disj)

lemma max_severity_in: "max_severity ts = Risk_none \<or> (\<exists>t \<in> set ts. max_severity ts = th_severity t)"
proof (induction ts)
  case (Cons t ts)
  then show ?case by (auto simp: max_severity_def max_def)
qed (simp add: max_severity_def)

definition pattern_risk :: "attack_pattern \<Rightarrow> risk_level" where
  "pattern_risk p = severity_str_to_risk (ap_severity p)"

lemma hits_severity:
  assumes "p \<in> set all_patterns" "pattern_matches re p c"
  shows "pattern_risk p \<le> max_severity (map threat_of (scan_patterns re c))"
proof -
  have "threat_of p \<in> set (map threat_of (scan_patterns re c))" using assms by (simp add: scan_patterns_def)
  from max_severity_ge [OF this] show ?thesis by (simp add: threat_of_def pattern_risk_def)
qed

lemma worst_hit:
  assumes "max_severity (map threat_of (scan_patterns re c)) \<noteq> Risk_none"
  shows "\<exists>p \<in> set all_patterns. pattern_matches re p c \<and>
    pattern_risk p = max_severity (map threat_of (scan_patterns re c))"
  using max_severity_in [of "map threat_of (scan_patterns re c)"] assms
  by (auto simp: scan_patterns_def threat_of_def pattern_risk_def)

lemma blocked_by_worst:
  "vr_should_block (validate_content re cfg c ct) \<longleftrightarrow>
   xc_enabled cfg \<and> config_should_block cfg (max_severity (map threat_of (scan_patterns re c)))"
  by (simp add: validate_content_def clean_def Let_def) (simp add: max_severity_def config_should_block_def)

lemma top_risk: "Risk_critical \<le> r \<Longrightarrow> r = Risk_critical"
  by (cases r) (simp_all add: less_eq_risk_level_def)

text \<open>
  With blocking of critical matches left on, content is blocked exactly when a pattern matches it
  whose own level the configuration blocks.
\<close>

lemma content_blocked_iff:
  assumes "xc_block_on_critical cfg"
  shows "vr_should_block (validate_content re cfg c ct) \<longleftrightarrow>
    xc_enabled cfg \<and> (\<exists>p \<in> set all_patterns. pattern_matches re p c \<and> config_should_block cfg (pattern_risk p))"
proof -
  let ?m = "max_severity (map threat_of (scan_patterns re c))"
  have "config_should_block cfg ?m \<longleftrightarrow> (\<exists>p \<in> set all_patterns. pattern_matches re p c \<and> config_should_block cfg (pattern_risk p))"
  proof
    assume b: "config_should_block cfg ?m"
    then have "?m \<noteq> Risk_none" by (auto simp: config_should_block_def)
    from worst_hit [OF this] b
    show "\<exists>p \<in> set all_patterns. pattern_matches re p c \<and> config_should_block cfg (pattern_risk p)" by metis
  next
    assume "\<exists>p \<in> set all_patterns. pattern_matches re p c \<and> config_should_block cfg (pattern_risk p)"
    then obtain p where "pattern_risk p \<le> ?m" "config_should_block cfg (pattern_risk p)"
      using hits_severity by blast
    then show "config_should_block cfg ?m"
      using assms by (cases "pattern_risk p"; cases ?m) (simp_all add: config_should_block_def less_eq_risk_level_def)
  qed
  then show ?thesis by (simp add: blocked_by_worst)
qed

definition ascii_text :: text_funs where
  "ascii_text = \<lparr>tf_lower = to_ascii_lowercase, tf_upper = map (\<lambda>c. if is_ascii_lowercase c then c - 32 else c)\<rparr>"

definition on_config :: xpia_config where
  "on_config = config_from_lookup ascii_text (\<lambda>_. None) (\<lambda>k. if k = lit ''XPIA_ENABLED'' then Some (lit ''yes'') else None)"

lemma on_config_flags:
  "xc_enabled on_config" "xc_block_on_critical on_config" "xc_block_on_high_risk on_config"
  by (simp_all add: on_config_def config_from_lookup_def enabled_from_lookup_def env_bool_def parse_bool_def
      ascii_text_def to_ascii_lowercase_def ascii_defs)

lemma content_blocked_iff_witness:
  "vr_should_block (validate_content (\<lambda>r t. prefix (lit ''(~'') r \<or> str_contains (lit ''|jailbreak|'') r) on_config (lit ''jailbreak'') Prompt_content) \<longleftrightarrow>
   (\<exists>p \<in> set all_patterns. pattern_matches (\<lambda>r t. prefix (lit ''(~'') r \<or> str_contains (lit ''|jailbreak|'') r) p (lit ''jailbreak'') \<and>
      config_should_block on_config (pattern_risk p))"
  using content_blocked_iff [OF on_config_flags(2)] on_config_flags(1) by blast

text \<open>
  With blocking of critical matches turned off and of high ones on, content with a high match is let
  through as soon as it also has a critical one: only the worst match is looked at.
\<close>

lemma critical_hides_high:
  assumes "xc_enabled cfg" "xc_block_on_high_risk cfg" "\<not> xc_block_on_critical cfg"
    "q \<in> set all_patterns" "pattern_matches re q c" "pattern_risk q = Risk_high"
  shows "vr_should_block (validate_content re cfg c ct) \<longleftrightarrow>
    \<not> (\<exists>p \<in> set all_patterns. pattern_matches re p c \<and> pattern_risk p = Risk_critical)"
proof -
  let ?m = "max_severity (map threat_of (scan_patterns re c))"
  have high: "Risk_high \<le> ?m" using hits_severity [OF assms(4,5)] assms(6) by simp
  have "?m = Risk_critical \<longleftrightarrow> (\<exists>p \<in> set all_patterns. pattern_matches re p c \<and> pattern_risk p = Risk_critical)"
  proof
    assume "?m = Risk_critical"
    then show "\<exists>p \<in> set all_patterns. pattern_matches re p c \<and> pattern_risk p = Risk_critical"
      using worst_hit [of re c] by auto
  qed (use hits_severity top_risk in metis)
  then show ?thesis
    using high assms(1-3) by (cases ?m) (simp_all add: blocked_by_worst config_should_block_def less_eq_risk_level_def)
qed

lemma sample_attack: "attack (lit ''SE002'') (lit ''Path Traversal'') System_escape (lit ''high'')
    (lit ''Directory traversal attempts'') (lit ''Normalize and validate paths'')
    (Regex (pat ''(~.~.~/|~.~.~~|%2e%2e%2f|%252e%252e%252f)'')) \<in> set all_patterns"
  by (simp add: all_patterns_def del: lit_Cons)

lemma critical_hides_high_witness:
  "vr_should_block (validate_content (\<lambda>_ _. True) (on_config\<lparr>xc_block_on_critical := False\<rparr>) (lit ''../x; rm -r y'') Bash_command) \<longleftrightarrow>
   \<not> (\<exists>p \<in> set all_patterns. pattern_matches (\<lambda>_ _. True) p (lit ''../x; rm -r y'') \<and> pattern_risk p = Risk_critical)"
  by (rule critical_hides_high [OF _ _ _ sample_attack])
    (simp_all add: on_config_flags pattern_matches_def attack_def pattern_risk_def severity_str_to_risk_def)

section \<open>Addresses\<close>

lemma split_host:
  "c \<notin> set host \<Longrightarrow> rest = [] \<or> hd rest = c \<Longrightarrow> hd (split_on (\<lambda>x. x = c) (host @ rest)) = host"
  by (cases rest) (auto simp: split_on_none split_on_append list_ex_iff)

lemma extract_domain_plain:
  assumes "scheme = lit ''https://'' \<or> scheme = lit ''http://''" "host \<noteq> []" "ch_slash \<notin> set host" "ch_colon \<notin> set host"
    "rest = [] \<or> hd rest = ch_slash \<or> hd rest = ch_colon"
  shows "extract_domain tf (scheme @ host @ rest) = Some (tf_lower tf host)"
proof -
  have strip: "(case strip_prefix (lit ''https://'') (scheme @ host @ rest) of Some r \<Rightarrow> r
      | None \<Rightarrow> (case strip_prefix (lit ''http://'') (scheme @ host @ rest) of Some r \<Rightarrow> r | None \<Rightarrow> scheme @ host @ rest)) =
      host @ rest"
    using assms(1) by (auto simp: strip_prefix_def)
  let ?h = "hd (split_on (\<lambda>c. c = ch_slash) (host @ rest))"
  have "\<exists>r. ?h = host @ r \<and> (r = [] \<or> hd r = ch_colon)"
  proof (cases "rest = [] \<or> hd rest = ch_slash")
    case True
    then show ?thesis using split_host [OF assms(3)] by auto
  next
    case False
    then obtain t where r: "rest = ch_colon # t" using assms(5) by (cases rest) auto
    have "hd (split_on (\<lambda>c. c = ch_slash) (host @ u)) = host @ hd (split_on (\<lambda>c. c = ch_slash) u)" for u
      using assms(3) by (induction host) (auto split: list.splits)
    then show ?thesis using r by (auto split: list.splits)
  qed
  then obtain r where "?h = host @ r" "r = [] \<or> hd r = ch_colon" by blast
  then have "hd (split_on (\<lambda>c. c = ch_colon) ?h) = host" using split_host [OF assms(4), of r] by simp
  then show ?thesis using assms(2) by (simp only: extract_domain_def strip Let_def) simp
qed

text \<open>
  C33. An address that begins with \<open>http://\<close> or \<open>https://\<close> in lower case, directly followed by a host of a
  blacklisted domain or of a domain below it, is refused with at least high risk, with a port and a path or without, and in any
  letter case of the host.  A scheme in capital letters, a user name before the host or a query right after it passes
  (\<open>blacklist_passed_by\<close>).
\<close>

theorem blacklisted_host_refused:
  assumes "xc_enabled cfg" "xc_validate_webfetch cfg"
    "scheme = lit ''https://'' \<or> scheme = lit ''http://''" "host \<noteq> []" "ch_slash \<notin> set host" "ch_colon \<notin> set host"
    "rest = [] \<or> hd rest = ch_slash \<or> hd rest = ch_colon"
    "d \<in> xc_blacklist_domains cfg" "tf_lower tf (tf_lower tf host) = d \<or> ends_with (ch_dot # d) (tf_lower tf (tf_lower tf host))"
  shows "vr_should_block (validate_webfetch re tf cfg (scheme @ host @ rest) prompt) \<and>
    Risk_high \<le> vr_risk_level (validate_webfetch re tf cfg (scheme @ host @ rest) prompt)"
proof -
  have "is_blacklisted tf cfg (tf_lower tf host)" using assms(8,9) by (auto simp: is_blacklisted_def in_domains_def Let_def)
  then have "vr_should_block (validate_url re tf cfg (scheme @ host @ rest)) \<and>
      Risk_high \<le> vr_risk_level (validate_url re tf cfg (scheme @ host @ rest))"
    using assms(1,2) extract_domain_plain [OF assms(3-7), of tf]
    by (simp add: validate_url_def url_block_def less_eq_risk_level_def)
  then show ?thesis using assms(1,2) by (simp add: validate_webfetch_def Let_def)
qed

definition evil_config :: xpia_config where
  "evil_config = on_config\<lparr>xc_blacklist_domains := {lit ''evil.com''}\<rparr>"

lemma evil_config_flags:
  "xc_enabled evil_config" "xc_validate_webfetch evil_config" "xc_blacklist_domains evil_config = {lit ''evil.com''}"
  "xc_max_url_length evil_config = 2048"
  by (simp_all add: evil_config_def on_config_flags)
    (simp_all add: on_config_def config_from_lookup_def env_bool_def env_usize_def)

lemma blacklisted_host_refused_witness:
  "vr_should_block (validate_webfetch (\<lambda>_ _. False) ascii_text evil_config (lit ''https://'' @ lit ''www.Evil.com'' @ lit '':80/x'') [])"
proof -
  have "ends_with (ch_dot # lit ''evil.com'') (tf_lower ascii_text (tf_lower ascii_text (lit ''www.Evil.com'')))"
    "ch_slash \<notin> set (lit ''www.Evil.com'')" "ch_colon \<notin> set (lit ''www.Evil.com'')"
    by code_simp+
  then show ?thesis
    using blacklisted_host_refused [OF evil_config_flags(1,2), where scheme = "lit ''https://''" and host = "lit ''www.Evil.com''"
      and rest = "lit '':80/x''" and d = "lit ''evil.com''"] evil_config_flags(3) by simp
qed

text \<open>
  The blacklist is passed by with a scheme in capital letters, a user name before the host, or a
  query directly after it: none of these addresses of a blacklisted host is refused.
\<close>

lemma blacklist_passed_by:
  assumes "url \<in> {lit ''HTTPS://evil.com/x'', lit ''https://me@evil.com/x'', lit ''https://evil.com?x''}"
    "\<And>p. p \<in> set all_patterns \<Longrightarrow> \<not> pattern_matches re p url"
  shows "validate_url re ascii_text evil_config url = clean Url_content"
proof -
  have d: "extract_domain ascii_text (lit ''HTTPS://evil.com/x'') = Some (lit ''https'')"
    "extract_domain ascii_text (lit ''https://me@evil.com/x'') = Some (lit ''me@evil.com'')"
    "extract_domain ascii_text (lit ''https://evil.com?x'') = Some (lit ''evil.com?x'')"
    by code_simp+
  have "\<not> in_domains ascii_text {lit ''evil.com''} (lit ''https'')" "\<not> in_domains ascii_text {lit ''evil.com''} (lit ''me@evil.com'')"
    "\<not> in_domains ascii_text {lit ''evil.com''} (lit ''evil.com?x'')"
    by code_simp+
  moreover have "utf8_len url \<le> 2048" using assms(1) by (auto simp: utf8_len_char_def)
  moreover have "scan_patterns re url = []" using assms(2) by (simp add: scan_patterns_def)
  ultimately show ?thesis
    using assms(1) d
    by (auto simp: validate_url_def evil_config_flags is_blacklisted_def validate_content_def simp del: lit_Cons)
qed

lemma blacklist_passed_by_witness:
  "validate_url (\<lambda>_ _. False) ascii_text evil_config (lit ''https://me@evil.com/x'') = clean Url_content"
proof (rule blacklist_passed_by)
  fix p assume p: "p \<in> set all_patterns"
  have "list_all (\<lambda>p. case ap_matcher p of Regex _ \<Rightarrow> True | Length_threshold n \<Rightarrow> 5000 \<le> n) all_patterns" by code_simp
  then show "\<not> pattern_matches (\<lambda>_ _. False) p (lit ''https://me@evil.com/x'')"
    using p by (auto simp: pattern_matches_def list_all_iff utf8_len_char_def split: matcher.splits)
qed simp

end
