(* ===== verification/Xpia_Health.thy ===== *)
theory Xpia_Health
  imports Xpia_Facts
begin

text \<open>The health report of the defender (\<open>amplihack-security/src/health.rs\<close>).\<close>

datatype health_status = Healthy | Degraded | Unhealthy

definition health_status_text :: "health_status \<Rightarrow> rstring" where
  "health_status_text s =
    (case s of Healthy \<Rightarrow> lit ''healthy'' | Degraded \<Rightarrow> lit ''degraded'' | Unhealthy \<Rightarrow> lit ''unhealthy'')"

record check_result =
  cr_name :: rstring
  cr_passed :: bool
  cr_message :: rstring

record health_report =
  hp_status :: health_status
  hp_checks :: "check_result list"
  hp_pattern_count :: nat
  hp_config_summary :: json

definition check_row :: "rstring \<Rightarrow> bool \<Rightarrow> rstring \<Rightarrow> check_result" where
  "check_row name passed message = \<lparr>cr_name = name, cr_passed = passed, cr_message = message\<rparr>"

definition bool_text :: "bool \<Rightarrow> rstring" where
  "bool_text b = (if b then lit ''true'' else lit ''false'')"

definition health_checks :: "xpia_config \<Rightarrow> check_result list" where
  "health_checks cfg =
    (let pattern_count = length all_patterns;
         blocking_configured = xc_block_on_critical cfg \<or> xc_block_on_high_risk cfg;
         features_enabled = xc_validate_webfetch cfg \<or> xc_validate_bash cfg \<or> xc_validate_agents cfg
     in [check_row (lit ''xpia_enabled'') True
           (if xc_enabled cfg then lit ''XPIA defense is enabled''
            else lit ''XPIA defense is disabled (default; set XPIA_ENABLED=true to opt in)''),
         check_row (lit ''patterns_loaded'') (15 \<le> pattern_count)
           (show_radix 10 pattern_count @ lit '' attack patterns loaded''),
         check_row (lit ''blocking_configured'') blocking_configured
           (if blocking_configured
            then lit ''Blocking: critical='' @ bool_text (xc_block_on_critical cfg) @ lit '', high='' @
              bool_text (xc_block_on_high_risk cfg)
            else lit ''WARNING: No blocking thresholds configured''),
         check_row (lit ''features_enabled'') features_enabled
           (lit ''webfetch='' @ bool_text (xc_validate_webfetch cfg) @ lit '', bash='' @
            bool_text (xc_validate_bash cfg) @ lit '', agents='' @ bool_text (xc_validate_agents cfg)),
         check_row (lit ''domain_lists'') (xc_whitelist_domains cfg \<noteq> {})
           (lit ''whitelist='' @ show_radix 10 (card (xc_whitelist_domains cfg)) @ lit '' domains, blacklist='' @
            show_radix 10 (card (xc_blacklist_domains cfg)) @ lit '' domains''),
         check_row (lit ''limits_configured'') (100 \<le> xc_max_prompt_length cfg \<and> 10 \<le> xc_max_url_length cfg)
           (lit ''max_prompt='' @ show_radix 10 (xc_max_prompt_length cfg) @ lit '', max_url='' @
            show_radix 10 (xc_max_url_length cfg))])"

definition check_health_with :: "xpia_config \<Rightarrow> health_report" where
  "check_health_with cfg =
    (let checks = health_checks cfg; failed = length (filter (\<lambda>c. \<not> cr_passed c) checks)
     in \<lparr>hp_status = (if failed = 0 then Healthy else if failed \<le> 2 then Degraded else Unhealthy),
         hp_checks = checks, hp_pattern_count = length all_patterns,
         hp_config_summary = J_obj
           [(lit ''enabled'', J_bool (xc_enabled cfg)),
            (lit ''security_level'', J_str (security_level_text (xc_security_level cfg))),
            (lit ''block_on_critical'', J_bool (xc_block_on_critical cfg)),
            (lit ''block_on_high_risk'', J_bool (xc_block_on_high_risk cfg))]\<rparr>)"

lemma length_all_patterns: "length all_patterns = 19"
  by (simp add: all_patterns_def del: lit_Cons)

text \<open>
  A configuration is healthy exactly when something is blocked, something is validated, a domain is
  whitelisted and both limits are sane: whether the defender is switched on does not count.
\<close>

lemma healthy_iff:
  "hp_status (check_health_with cfg) = Healthy \<longleftrightarrow>
   (xc_block_on_critical cfg \<or> xc_block_on_high_risk cfg) \<and>
   (xc_validate_webfetch cfg \<or> xc_validate_bash cfg \<or> xc_validate_agents cfg) \<and>
   xc_whitelist_domains cfg \<noteq> {} \<and> 100 \<le> xc_max_prompt_length cfg \<and> 10 \<le> xc_max_url_length cfg"
  by (simp add: check_health_with_def health_checks_def Let_def check_row_def length_all_patterns)

lemma lookup_whitelist: "xc_whitelist_domains (config_from_lookup tf rf lookup) \<noteq> {}"
  by (simp add: config_from_lookup_def default_safe_domains_def)

end
