(* ===== verification/Guard_Hook.thy ===== *)
theory Guard_Hook
  imports Guard_Cwd_Facts Xpia_Health Tmux_Deny Tail_Facts
begin

text \<open>
  The PreToolUse hook as a whole (\<open>pre_tool_use/mod.rs\<close>, with \<open>git.rs\<close>, \<open>xpia.rs\<close> and
  \<open>known_agents.rs\<close>): the order in which the checks answer.  What the hook asks of its surroundings is one
  record: the regex and shell-words crates, the text functions, JSON printing, the environment, the file
  system, the answer of \<open>git branch\<close>, and the directory trees of the bundled skills.
\<close>

section \<open>Skills and agents\<close>

definition max_skill_scan_depth :: nat where "max_skill_scan_depth = 8"
definition max_skill_files :: nat where "max_skill_files = 10000"
definition max_skill_name_len :: nat where "max_skill_name_len = 256"

text \<open>
  A directory listing: \<open>Tree_dir\<close> with its entries (\<open>None\<close> when it cannot be read), a file with its
  name and text (\<open>None\<close> when it cannot be read), and what is skipped.
\<close>

datatype tree = Tree_dir "tree list option" | Tree_file rstring "rstring option" | Tree_other

definition skill_frontmatter_name :: "rstring option \<Rightarrow> rstring option" where
  "skill_frontmatter_name file =
    Option.bind file (\<lambda>content.
    Option.bind (strip_prefix (lit ''---'' @ [ch_nl]) content) (\<lambda>rest.
    Option.bind (split_once_str (ch_nl # lit ''---'') rest) (\<lambda>(frontmatter, _).
    Option.bind (find_map (\<lambda>line. strip_prefix (lit ''name:'') (trim line)) (str_lines frontmatter)) (\<lambda>name.
      if trim name \<noteq> [] \<and> utf8_len (trim name) \<le> max_skill_name_len then Some (trim name) else None))))"

text \<open>The names found so far and the number of files read.\<close>

type_synonym skill_scan = "rstring set \<times> nat"

fun collect_tree :: "tree \<Rightarrow> nat \<Rightarrow> skill_scan \<Rightarrow> skill_scan"
  and collect_entries :: "tree list \<Rightarrow> nat \<Rightarrow> skill_scan \<Rightarrow> skill_scan" where
  "collect_tree (Tree_dir entries) level st =
    (if max_skill_scan_depth < level \<or> max_skill_files \<le> snd st then st
     else (case entries of None \<Rightarrow> st | Some es \<Rightarrow> collect_entries es level st))"
| "collect_tree _ level st = st"
| "collect_entries [] level st = st"
| "collect_entries (e # es) level st =
    (if max_skill_files \<le> snd st then st
     else collect_entries es level
       (case e of
          Tree_other \<Rightarrow> st
        | Tree_dir _ \<Rightarrow> collect_tree e (level + 1) st
        | Tree_file name content \<Rightarrow>
            if name = lit ''SKILL.md''
            then (case skill_frontmatter_name content of
                    Some n \<Rightarrow> (insert n (fst st), snd st + 1) | None \<Rightarrow> (fst st, snd st + 1))
            else st))"

definition bundled_skill_names_under :: "tree list \<Rightarrow> rstring set" where
  "bundled_skill_names_under dirs = fst (fold (\<lambda>d. collect_tree d 0) dirs ({}, 0))"

definition amplihack_agents :: "rstring list" where
  "amplihack_agents = map lit
    [''ambiguity'', ''amplifier-cli-architect'', ''amplihack-improvement-workflow'', ''analyzer'',
     ''api-designer'', ''architect'', ''azure-kubernetes-expert'', ''builder'', ''ci-diagnostic-workflow'',
     ''cleanup'', ''concept-extractor'', ''database'', ''documentation-writer'', ''fallback-cascade'',
     ''fix-agent'', ''gherkin-expert'', ''guide'', ''iac-planner'', ''insight-synthesizer'', ''integration'',
     ''knowledge-archaeologist'', ''mcp-server-builder'', ''multi-agent-debate'', ''n-version-validator'',
     ''openapi-scaffolder'', ''optimizer'', ''patterns'', ''philosophy-guardian'', ''pre-commit-diagnostic'',
     ''preference-reviewer'', ''prompt-review-workflow'', ''prompt-writer'', ''reviewer'',
     ''rust-programming-expert'', ''security'', ''socratic-reviewer'', ''tester'', ''tla-plus-expert'',
     ''verus-expert'', ''visualization-architect'', ''worktree-manager'', ''xpia-defense'']"

text \<open>The binary search finds a member because the list is sorted (\<open>agents_sorted\<close>).\<close>

definition is_amplihack_agent :: "rstring \<Rightarrow> bool" where
  "is_amplihack_agent name = (name \<in> set amplihack_agents)"

lemma agents_sorted: "sorted_wrt ord_class.lexordp amplihack_agents"
  by code_simp

definition skill_is_agent_redirect :: rstring where
  "skill_is_agent_redirect =
    [128257] @ text_lines
     [lit '' WRONG INTERFACE - '' @ [ch_squote] @ lit ''{name}'' @ [ch_squote] @ lit '' is an amplihack AGENT, not a skill.'', [],
      lit ''You invoked the Skill tool with name '' @ [ch_squote] @ lit ''{name}'' @ [ch_squote] @ lit '', but '' @ [ch_squote] @
      lit ''{name}'' @ [ch_squote] @ lit '' is provided as an'',
      lit ''agent, not a skill. Invoking it as a skill fails with \"Skill not found\" and'',
      lit ''silently skips this step.'', [],
      [9989] @ lit '' Instead, run '' @ [ch_squote] @ lit ''{name}'' @ [ch_squote] @ lit '' through the agent interface (the Task/agent tool),'',
      lit ''e.g. reference it as an agent such as \"amplihack:{name}\".'', [],
      lit ''This redirect prevents the requirements-clarification phase from being skipped.'']"

section \<open>The surroundings\<close>

record hook_env =
  he_re :: "rstring \<Rightarrow> rstring \<Rightarrow> bool"
  he_re_ci :: "rstring \<Rightarrow> rstring \<Rightarrow> bool"
  he_alnum :: "rchar \<Rightarrow> bool"
  he_shell_words :: "rstring \<Rightarrow> rstring list option"
  he_text :: text_funs
  he_show_json :: "json \<Rightarrow> rstring"
  he_lookup :: env_lookup
  he_read_file :: "rstring \<Rightarrow> rstring option"
  he_fs :: fs_view
  he_branch :: "rstring option"
  he_skill_dirs :: "tree list"

text \<open>\<open>v.get(key).and_then(Value::as_str)\<close>\<close>

definition json_str_at :: "rstring \<Rightarrow> json \<Rightarrow> rstring option" where
  "json_str_at key v = Option.bind (json_get key v) json_as_str"

definition unwrap_text :: "rstring option \<Rightarrow> rstring" where
  "unwrap_text x = (case x of Some s \<Rightarrow> s | None \<Rightarrow> [])"

definition check_skill_redirect :: "hook_env \<Rightarrow> rstring \<Rightarrow> json \<Rightarrow> json option" where
  "check_skill_redirect env tool_name tool_input =
    (if tool_name \<noteq> lit ''Skill'' then None
     else (case (case json_str_at (lit ''skill'') tool_input of Some n \<Rightarrow> Some n
                 | None \<Rightarrow> json_str_at (lit ''name'') tool_input) of
             None \<Rightarrow> None
           | Some name \<Rightarrow>
               if \<not> is_amplihack_agent name \<or> name \<in> bundled_skill_names_under (he_skill_dirs env) then None
               else Some (block_response (str_replace (lit ''{name}'') name skill_is_agent_redirect))))"

section \<open>XPIA\<close>

definition xpia_block :: "validation \<Rightarrow> json option" where
  "xpia_block result =
    (if vr_should_block result then
       Some (block_response (text_lines
         [[128737, 65039] @ lit '' XPIA Security Alert: Request blocked due to potential security risk.'',
          lit ''Risk Level: '' @ risk_text (vr_risk_level result),
          threat_summary result, [], lit ''Please review and modify your request.'']))
     else None)"

definition check_webfetch :: "hook_env \<Rightarrow> xpia_config \<Rightarrow> json \<Rightarrow> json option" where
  "check_webfetch env cfg params =
    (let url = unwrap_text (json_str_at (lit ''url'') params); prompt = unwrap_text (json_str_at (lit ''prompt'') params)
     in if url = [] \<and> prompt = [] then None
        else xpia_block (validate_webfetch (he_re_ci env) (he_text env) cfg url prompt))"

definition check_bash :: "hook_env \<Rightarrow> xpia_config \<Rightarrow> json \<Rightarrow> json option" where
  "check_bash env cfg params =
    (let command = unwrap_text (json_str_at (lit ''command'') params)
     in if command = [] then None else xpia_block (validate_bash (he_re_ci env) cfg command))"

definition check_general :: "hook_env \<Rightarrow> xpia_config \<Rightarrow> json \<Rightarrow> json option" where
  "check_general env cfg params =
    (let content = he_show_json env params
     in if utf8_len content < 10 then None
        else xpia_block (validate_content (he_re_ci env) cfg content Tool_parameters))"

definition check_xpia_with :: "hook_env \<Rightarrow> xpia_config \<Rightarrow> rstring \<Rightarrow> json \<Rightarrow> json option" where
  "check_xpia_with env cfg tool_name tool_input =
    (if \<not> xc_enabled cfg then None
     else if tool_name = lit ''WebFetch'' then check_webfetch env cfg tool_input
     else if tool_name = lit ''Bash'' then check_bash env cfg tool_input
     else check_general env cfg tool_input)"

definition check_xpia :: "hook_env \<Rightarrow> rstring \<Rightarrow> json \<Rightarrow> json option" where
  "check_xpia env tool_name tool_input =
    (if \<not> enabled_from_lookup (he_text env) (he_lookup env) then None
     else check_xpia_with env (config_from_lookup (he_text env) (he_read_file env) (he_lookup env)) tool_name tool_input)"

section \<open>Git\<close>

definition main_branch_error :: rstring where
  "main_branch_error =
    [9940] @ text_lines
     [lit '' Direct commits to '' @ [ch_squote] @ lit ''{branch}'' @ [ch_squote] @ lit '' branch are not allowed.'', [],
      lit ''Please use the feature branch workflow:'',
      lit ''  1. Create a feature branch: git checkout -b feature/your-feature-name'',
      lit ''  2. Make your commits on the feature branch'',
      lit ''  3. Create a Pull Request to merge into {branch}'', [],
      lit ''This protection cannot be bypassed with --no-verify.'']"

definition no_verify_error :: rstring where
  "no_verify_error =
    [128683] @ text_lines
     [lit '' OPERATION BLOCKED'', [],
      lit ''You attempted to use --no-verify which bypasses critical quality checks:'',
      lit ''- Code formatting (ruff, prettier)'', lit ''- Type checking (pyright)'', lit ''- Secret detection'',
      lit ''- Trailing whitespace fixes'', [],
      lit ''This defeats the purpose of our quality gates.'', [],
      [9989] @ lit '' Instead, fix the underlying issues:'',
      lit ''1. Run: pre-commit run --all-files'', lit ''2. Fix the violations'', lit ''3. Commit without --no-verify'', [],
      lit ''For true emergencies, ask a human to override this protection.'', [],
      [128274] @ lit '' This protection cannot be disabled programmatically.'']"

text \<open>The branch that \<open>git\<close> names, as \<open>get_current_branch\<close> returns it.\<close>

definition check_main_branch :: "hook_env \<Rightarrow> json option" where
  "check_main_branch env =
    (case he_branch env of
       None \<Rightarrow> None
     | Some branch \<Rightarrow>
         if branch = lit ''main'' \<or> branch = lit ''master''
         then Some (block_response (str_replace (lit ''{branch}'') branch main_branch_error)) else None)"

text \<open>One assignment at the front: what is left after it, if it is one with something after it.\<close>

definition after_assignment :: "rstring \<Rightarrow> rstring option" where
  "after_assignment rest =
    (case split_once ch_eq rest of
       None \<Rightarrow> None
     | Some (key, after_eq) \<Rightarrow>
         if key = [] \<or> \<not> list_all (\<lambda>b. is_ascii_alphanumeric b \<or> b = ch_underscore) key \<or> is_ascii_digit (hd key)
         then None
         else (let after_value = trim_start_matches is_whitespace (dropWhile (\<lambda>c. c \<noteq> ch_space \<and> c \<noteq> ch_tab) after_eq)
               in if after_value = [] then None else Some after_value))"

lemma after_assignment_shorter: "after_assignment rest = Some r \<Longrightarrow> length r < length rest"
proof -
  assume "after_assignment rest = Some r"
  then obtain p v where s: "split_once ch_eq rest = Some (p, v)"
    and r: "r = dropWhile is_whitespace (dropWhile (\<lambda>c. c \<noteq> ch_space \<and> c \<noteq> ch_tab) v)"
    by (auto simp: after_assignment_def trim_start_matches_def Let_def split: option.splits if_splits)
  have "length r \<le> length v"
    unfolding r using length_dropWhile_le le_trans by blast
  then show ?thesis using length_split_once(2) [OF s] by simp
qed

function strip_assignments :: "rstring \<Rightarrow> rstring" where
  "strip_assignments rest = (case after_assignment rest of None \<Rightarrow> rest | Some r \<Rightarrow> strip_assignments r)"
  by pat_completeness auto
termination
  by (relation "measure length") (auto simp: after_assignment_shorter)

declare strip_assignments.simps [simp del]

definition normalize_command :: "rstring \<Rightarrow> rstring" where
  "normalize_command command =
    (let rest = strip_assignments (trim command)
     in (case strip_prefix (lit ''env '') rest of
           Some after_env \<Rightarrow> strip_assignments (trim_start_matches is_whitespace after_env)
         | None \<Rightarrow> rest))"

definition git_commands :: "rstring list" where
  "git_commands = map lit [''git commit'', ''git push'', ''git rebase'', ''git merge'', ''git cherry-pick'', ''git am'']"

section \<open>The hook\<close>

datatype hook_input = Pre_tool_use rstring json | Other_input

definition empty_object :: json where "empty_object = J_obj []"

definition git_checks :: "hook_env \<Rightarrow> rstring \<Rightarrow> json" where
  "git_checks env command =
    (let normalized = normalize_command command
     in if \<not> list_ex (\<lambda>g. str_contains g normalized) git_commands then empty_object
        else (case (if str_contains (lit ''git commit'') normalized then check_main_branch env else None) of
                Some block \<Rightarrow> block
              | None \<Rightarrow> if str_contains (lit ''--no-verify'') command then block_response no_verify_error
                        else empty_object))"

definition bash_checks :: "hook_env \<Rightarrow> rstring \<Rightarrow> json \<Rightarrow> json" where
  "bash_checks env tool_name tool_input =
    (if tool_name \<noteq> lit ''Bash'' then empty_object
     else (let command = unwrap_text (json_str_at (lit ''command'') tool_input)
           in if command = [] then empty_object
              else (case check_cwd_deletion (he_re env) (he_shell_words env) (he_fs env) command of
                      Some block \<Rightarrow> block
                    | None \<Rightarrow>
                        (case check_cwd_rename (he_re env) (he_shell_words env) (he_fs env) command of
                           Some block \<Rightarrow> block
                         | None \<Rightarrow> git_checks env command))))"

definition merge_guard_answer :: "hook_env \<Rightarrow> rstring \<Rightarrow> json \<Rightarrow> json option" where
  "merge_guard_answer env tool_name tool_input =
    (if eq_ignore_ascii_case tool_name (lit ''bash'') \<and> guard_active (he_lookup env merge_guard_env)
     then Option.bind (json_str_at (lit ''command'') tool_input) (merge_check (he_re env)) else None)"

definition process :: "hook_env \<Rightarrow> hook_input \<Rightarrow> json" where
  "process env input =
    (case input of
       Other_input \<Rightarrow> empty_object
     | Pre_tool_use tool_name tool_input \<Rightarrow>
         (case (if is_shell_tool tool_name then tmux_check_tool_input (he_alnum env) tool_input else None) of
            Some block \<Rightarrow> block
          | None \<Rightarrow>
         (case (if is_shell_tool tool_name then tail_check_tool_input tool_input else None) of
            Some block \<Rightarrow> block
          | None \<Rightarrow>
         (case check_xpia env tool_name tool_input of
            Some block \<Rightarrow> block
          | None \<Rightarrow>
         (case check_skill_redirect env tool_name tool_input of
            Some block \<Rightarrow> block
          | None \<Rightarrow>
         (case merge_guard_answer env tool_name tool_input of
            Some block \<Rightarrow> block
          | None \<Rightarrow> bash_checks env tool_name tool_input))))))"

end
