(* ===== verification/Guard_Hook_Facts.thy ===== *)
theory Guard_Hook_Facts
  imports Guard_Hook
begin

text \<open>
  What the PreToolUse hook guarantees as a whole, on top of what its single checks do.
\<close>

section \<open>No refusal is lost\<close>

lemma refusals_not_empty:
  "block_response m \<noteq> empty_object" "deny_response m \<noteq> empty_object"
  by (simp_all add: block_response_def deny_response_def empty_object_def)

lemma tmux_answer: "tmux_check_tool_input u i = Some j \<Longrightarrow> j \<noteq> empty_object"
  using refusals_not_empty
  by (auto simp: tmux_check_tool_input_def tmux_check_value_def tmux_check_def Let_def
      split: option.splits json.splits if_splits)

lemma tail_answer: "tail_check_tool_input i = Some j \<Longrightarrow> j \<noteq> empty_object"
  using refusals_not_empty
  by (auto simp: tail_check_tool_input_def tail_check_value_def tail_check_def Let_def
      split: option.splits json.splits if_splits)

lemma xpia_answer: "check_xpia env t i = Some j \<Longrightarrow> j \<noteq> empty_object"
  using refusals_not_empty
  by (auto simp: check_xpia_def check_xpia_with_def check_webfetch_def check_bash_def check_general_def xpia_block_def
      Let_def split: if_splits)

lemma skill_answer: "check_skill_redirect env t i = Some j \<Longrightarrow> j \<noteq> empty_object"
  using refusals_not_empty by (auto simp: check_skill_redirect_def split: if_splits option.splits)

lemma merge_answer: "merge_guard_answer env t i = Some j \<Longrightarrow> j \<noteq> empty_object"
  using refusals_not_empty
  by (auto simp: merge_guard_answer_def merge_check_def bind_eq_Some_conv split: if_splits)

text \<open>
  The hook lets a tool call pass exactly when every one of its checks does: the order of the checks
  and their early returns lose no refusal, and the shell guards see every shell tool.
\<close>

lemma hook_passes_iff:
  "process env (Pre_tool_use t i) = empty_object \<longleftrightarrow>
   (is_shell_tool t \<longrightarrow> tmux_check_tool_input (he_alnum env) i = None \<and> tail_check_tool_input i = None) \<and>
   check_xpia env t i = None \<and> check_skill_redirect env t i = None \<and> merge_guard_answer env t i = None \<and>
   bash_checks env t i = empty_object"
  using tmux_answer tail_answer xpia_answer skill_answer merge_answer
  by (auto simp: process_def split: option.splits if_splits)

text \<open>
  C11. In an auto-drive run a line for the agent's shell is refused when one of its commands merges through \<open>gh\<close>: whatever
  stands before and after it in the line, and whatever wrappers, assignments and options surround its words.  The commands of a
  line are the tokeniser's, and a command quoted word by word is one of them.
\<close>

theorem auto_drive_merge_refused:
  assumes "he_lookup env merge_guard_env = Some v" "v \<noteq> []" "eq_ignore_ascii_case t (lit ''bash'')"
    "json_str_at (lit ''command'') i = Some line" "ws \<in> set (commands line)"
    "program ws = Some (name # args)" "basename name = lit ''gh''" "gh_pr_merge args \<or> gh_api_merge (he_re env) args"
  shows "process env (Pre_tool_use t i) \<noteq> empty_object"
proof -
  have "merge_words (he_re env) ws" using assms(6-8) unfolding merge_words_def by blast
  then have "merge_guard_answer env t i \<noteq> None"
    using assms(1-5) merge_words_refused [of "he_re env" ws line] by (simp add: merge_guard_answer_def guard_active_def)
  then show ?thesis unfolding hook_passes_iff by blast
qed

definition plain_env :: hook_env where
  "plain_env = \<lparr>he_re = (\<lambda>_ _. False), he_re_ci = (\<lambda>_ _. False), he_alnum = (\<lambda>_. False),
     he_shell_words = (\<lambda>s. Some (split_whitespace s)), he_text = ascii_text, he_show_json = (\<lambda>_. []),
     he_lookup = (\<lambda>k. if k = merge_guard_env then Some (lit ''1'') else None), he_read_file = (\<lambda>_. None),
     he_fs = sample_fs, he_branch = Some (lit ''main''), he_skill_dirs = []\<rparr>"

lemma hook_passes_iff_witness:
  "process plain_env (Pre_tool_use (lit ''Read'') (J_obj [])) = empty_object"
proof -
  have t: "\<not> is_shell_tool (lit ''Read'')" "lit ''Read'' \<noteq> lit ''Skill''" "\<not> eq_ignore_ascii_case (lit ''Read'') (lit ''bash'')"
    "lit ''Read'' \<noteq> lit ''Bash''" by code_simp+
  moreover have "he_lookup plain_env (lit ''XPIA_ENABLED'') = None" by (simp add: plain_env_def merge_guard_env_def)
  ultimately show ?thesis
    using hook_passes_iff [of plain_env "lit ''Read''" "J_obj []"]
    by (simp add: check_skill_redirect_def merge_guard_answer_def bash_checks_def check_xpia_def enabled_from_lookup_def
        del: lit_Cons)
qed

lemma auto_drive_merge_refused_witness:
  "process plain_env (Pre_tool_use (lit ''bash'') (J_obj [(lit ''command'',
     J_str (lit ''cd x && GH_TOKEN=y sudo /usr/bin/gh -R o/r pr merge 7 | cat''))])) \<noteq> empty_object"
proof (rule auto_drive_merge_refused)
  let ?line = "lit ''cd x && GH_TOKEN=y sudo /usr/bin/gh -R o/r pr merge 7 | cat''"
  let ?ws = "map lit [''GH_TOKEN=y'', ''sudo'', ''/usr/bin/gh'', ''-R'', ''o/r'', ''pr'', ''merge'', ''7'']"
  let ?args = "map lit [''-R'', ''o/r'', ''pr'', ''merge'', ''7'']"
  show "?ws \<in> set (commands ?line)" "program ?ws = Some (lit ''/usr/bin/gh'' # ?args)" "basename (lit ''/usr/bin/gh'') = lit ''gh''"
    by code_simp+
  have "only_options gh_value_opts (map lit [''-R'', ''o/r''])" by code_simp
  then have "gh_pr_merge ?args"
    unfolding gh_pr_merge_def
    by (intro exI [of _ "map lit [''-R'', ''o/r'']"] exI [of _ "[]"] exI [of _ "[lit ''7'']"]) (simp del: lit_Cons)
  then show "gh_pr_merge ?args \<or> gh_api_merge (he_re plain_env) ?args" by blast
  show "he_lookup plain_env merge_guard_env = Some (lit ''1'')" by (simp add: plain_env_def)
  show "eq_ignore_ascii_case (lit ''bash'') (lit ''bash'')" by (simp add: eq_ignore_ascii_case_def)
qed (simp_all add: json_str_at_def json_get_def json_as_str_def del: lit_Cons, simp)

section \<open>The scan for skills\<close>

lemma scan_bounded:
  "snd st \<le> max_skill_files \<Longrightarrow> snd (collect_tree e level st) \<le> max_skill_files"
  "snd st \<le> max_skill_files \<Longrightarrow> snd (collect_entries es level st) \<le> max_skill_files"
proof (induction e level st and es level st rule: collect_tree_collect_entries.induct)
  case (4 e es level st)
  then show ?case by (cases e) (auto split: option.splits)
qed (auto split: option.splits)

lemma scan_fold_bounded:
  "snd st \<le> max_skill_files \<Longrightarrow> snd (fold (\<lambda>d. collect_tree d 0) dirs st) \<le> max_skill_files"
  by (induction dirs arbitrary: st) (simp_all add: scan_bounded)

section \<open>Git\<close>

definition assignment_key :: "rstring \<Rightarrow> bool" where
  "assignment_key k \<longleftrightarrow> k \<noteq> [] \<and> list_all (\<lambda>b. is_ascii_alphanumeric b \<or> b = ch_underscore) k \<and> \<not> is_ascii_digit (hd k)"

text \<open>A value without a blank, and the blank after it.\<close>

definition assignment_text :: "rstring \<times> rstring \<Rightarrow> rstring" where
  "assignment_text = (\<lambda>(k, v). k @ ch_eq # v @ [ch_space])"

lemma key_no_eq: "assignment_key k \<Longrightarrow> ch_eq \<notin> set k"
  by (auto simp: assignment_key_def list_all_iff ascii_defs)

lemma after_assignment_step:
  assumes "assignment_key k" "ch_space \<notin> set v" "ch_tab \<notin> set v" "r \<noteq> []" "\<not> is_whitespace (hd r)"
  shows "after_assignment (assignment_text (k, v) @ r) = Some r"
proof -
  have "split_once ch_eq (k @ ch_eq # v @ ch_space # r) = Some (k, v @ ch_space # r)"
    using key_no_eq [OF assms(1)] by (simp add: split_once_def takeWhile_append dropWhile_append)
  moreover have "dropWhile (\<lambda>c. c \<noteq> ch_space \<and> c \<noteq> ch_tab) (v @ ch_space # r) = ch_space # r"
    using assms(2,3) by (induction v) auto
  moreover have "dropWhile is_whitespace (ch_space # r) = r"
    using assms(4,5) by (cases r) (simp_all add: is_whitespace_def [of ch_space])
  moreover have "\<exists>x \<in> set r. \<not> is_whitespace x" using assms(4,5) by auto
  ultimately show ?thesis
    using assms(1,4) by (auto simp: after_assignment_def assignment_text_def assignment_key_def trim_start_matches_def Let_def)
qed

lemma strip_all_assignments:
  "list_all (\<lambda>(k, v). assignment_key k \<and> ch_space \<notin> set v \<and> ch_tab \<notin> set v) as \<Longrightarrow> r \<noteq> [] \<Longrightarrow> \<not> is_whitespace (hd r) \<Longrightarrow>
   strip_assignments (concat (map assignment_text as) @ r) = strip_assignments r"
proof (induction as)
  case (Cons a as)
  obtain k v where a: "a = (k, v)" by fastforce
  let ?r = "concat (map assignment_text as) @ r"
  have k: "assignment_key k" "ch_space \<notin> set v" "ch_tab \<notin> set v" using Cons(2) a by auto
  have "?r \<noteq> [] \<and> \<not> is_whitespace (hd ?r)"
  proof (cases as)
    case (Cons b bs)
    obtain k' v' where b: "b = (k', v')" by fastforce
    then have "assignment_key k'" using \<open>list_all _ (a # as)\<close> Cons by auto
    then show ?thesis using Cons b by (cases k') (auto simp: assignment_text_def assignment_key_def ascii_defs)
  qed (use \<open>r \<noteq> []\<close> \<open>\<not> is_whitespace (hd r)\<close> in simp)
  then have "after_assignment (assignment_text (k, v) @ ?r) = Some ?r"
    using after_assignment_step [OF k, of ?r] by blast
  then have "strip_assignments (concat (map assignment_text (a # as)) @ r) = strip_assignments ?r"
    using strip_assignments.simps [of "concat (map assignment_text (a # as)) @ r"] a by simp
  then show ?case using Cons by simp
qed simp

lemma dropWhile_stop: "ys \<noteq> [] \<Longrightarrow> \<not> P (hd ys) \<Longrightarrow> dropWhile P (xs @ ys) = dropWhile P xs @ ys"
  by (induction xs) (cases ys; simp)+

lemma trim_keeps:
  assumes "a \<noteq> []" "\<not> is_whitespace (hd a)" "\<not> is_whitespace (last a)"
  shows "trim (a @ b) = a @ trim_end_matches is_whitespace b"
proof -
  have "dropWhile is_whitespace (a @ b) = a @ b" using assms(1,2) by (cases a) simp_all
  moreover have "dropWhile is_whitespace (rev b @ rev a) = dropWhile is_whitespace (rev b) @ rev a"
    using assms(1,3) by (intro dropWhile_stop) (simp_all add: hd_rev)
  ultimately show ?thesis by (simp add: trim_def trim_start_matches_def trim_end_matches_def)
qed

lemma char_after: "a @ r = k @ c # v \<Longrightarrow> c \<notin> set a \<Longrightarrow> \<exists>t. k = a @ t"
  by (auto simp: append_eq_append_conv2) (metis in_set_conv_decomp self_append_conv2 append_self_conv hd_append2 list.sel(1) hd_in_set)

lemma git_text_no_assignment: "after_assignment (lit ''git commit'' @ r) = None"
proof (cases "split_once ch_eq (lit ''git commit'' @ r)")
  case (Some kv)
  obtain k v where kv: "kv = (k, v)" by fastforce
  have "ch_eq \<notin> set (lit ''git commit'')" by code_simp
  then obtain t where "k = lit ''git commit'' @ t"
    using char_after [OF split_once_Some(1) [OF Some [unfolded kv]]] by blast
  then have "ch_space \<in> set k" by simp
  then have "\<not> list_all (\<lambda>b. is_ascii_alphanumeric b \<or> b = ch_underscore) k"
    unfolding list_all_iff by (intro notI) (drule (1) bspec, simp add: ascii_defs)
  then show ?thesis using Some kv by (simp add: after_assignment_def)
qed (simp add: after_assignment_def)

lemma find_map_Some: "find_map f xs = Some y \<Longrightarrow> \<exists>x \<in> set xs. f x = Some y"
  by (induction xs) (auto split: option.splits)

lemma cwd_answers:
  "check_cwd_deletion re w fs c = Some j \<Longrightarrow> j \<noteq> empty_object"
  "check_cwd_rename re w fs c = Some j \<Longrightarrow> j \<noteq> empty_object"
  using refusals_not_empty
  by (auto simp: check_cwd_deletion_def check_cwd_rename_def check_glob_cwd_match_def deletion_block_def rename_block_def
      Let_def dest!: find_map_Some split: option.splits if_splits)

lemma bash_git:
  "json_str_at (lit ''command'') i = Some c \<Longrightarrow> c \<noteq> [] \<Longrightarrow> git_checks env c \<noteq> empty_object \<Longrightarrow>
   bash_checks env (lit ''Bash'') i \<noteq> empty_object"
  using cwd_answers by (auto simp: bash_checks_def unwrap_text_def Let_def split: option.splits)



definition evading_commit :: json where
  "evading_commit = J_obj [(lit ''command'', J_str (lit ''git -C . commit --no-verify''))]"

text \<open>
  The same commit with a git option before the subcommand passes the hook, on \<open>main\<close> and with
  \<open>--no-verify\<close>, as the line is searched for the literal text \<open>git commit\<close>.
\<close>

lemma git_options_evade:
  assumes "tmux_check_tool_input (he_alnum env) evading_commit = None" "tail_check_tool_input evading_commit = None"
    "he_lookup env (lit ''XPIA_ENABLED'') = None"
    "\<not> is_deletion (he_re env) (lit ''git -C . commit --no-verify'')" "\<not> he_re env mv_re (lit ''git -C . commit --no-verify'')"
  shows "process env (Pre_tool_use (lit ''Bash'') evading_commit) = empty_object"
proof -
  let ?c = "lit ''git -C . commit --no-verify''"
  have s: "json_str_at (lit ''command'') evading_commit = Some ?c"
    by (simp add: evading_commit_def json_str_at_def json_get_def json_as_str_def del: lit_Cons)
  have "commands ?c = [map lit [''git'', ''-C'', ''.'', ''commit'', ''--no-verify'']]"
    "program (map lit [''git'', ''-C'', ''.'', ''commit'', ''--no-verify'']) = Some (map lit [''git'', ''-C'', ''.'', ''commit'', ''--no-verify''])"
    "basename (lit ''git'') \<noteq> lit ''gh''"
    by code_simp+
  then have "merge_check (he_re env) ?c = None" by (simp add: merge_check_def merge_form_def del: lit_Cons)
  then have m: "merge_guard_answer env (lit ''Bash'') evading_commit = None"
    by (simp add: merge_guard_answer_def s del: lit_Cons)
  have "normalize_command ?c = ?c" "\<not> list_ex (\<lambda>g. str_contains g ?c) git_commands" "?c \<noteq> []" by code_simp+
  then have "bash_checks env (lit ''Bash'') evading_commit = empty_object"
    using assms(4,5)
    by (simp add: bash_checks_def s unwrap_text_def check_cwd_deletion_def check_cwd_rename_def git_checks_def del: lit_Cons)
  moreover have "check_xpia env (lit ''Bash'') evading_commit = None"
    using assms(3) by (simp add: check_xpia_def enabled_from_lookup_def)
  moreover have "check_skill_redirect env (lit ''Bash'') evading_commit = None"
    by (simp add: check_skill_redirect_def)
  ultimately show ?thesis using m assms(1,2) unfolding hook_passes_iff by blast
qed

lemma git_options_evade_witness:
  "process plain_env (Pre_tool_use (lit ''Bash'') evading_commit) = empty_object"
proof (rule git_options_evade)
  show "tmux_check_tool_input (he_alnum plain_env) evading_commit = None" by code_simp
  show "tail_check_tool_input evading_commit = None" by code_simp
qed (simp_all add: plain_env_def is_deletion_def merge_guard_env_def)

section \<open>The working directory\<close>

lemma bash_deletion:
  "json_str_at (lit ''command'') i = Some c \<Longrightarrow> c \<noteq> [] \<Longrightarrow> check_cwd_deletion (he_re env) (he_shell_words env) (he_fs env) c \<noteq> None \<Longrightarrow>
   bash_checks env (lit ''Bash'') i \<noteq> empty_object"
  using cwd_answers(1) by (auto simp: bash_checks_def unwrap_text_def Let_def)



end
