(* ===== verification/Hook_Protocol.thy ===== *)
theory Hook_Protocol
  imports Hook_Input Guard_Hook_Facts Rust_Num
begin

text \<open>
  One run of a hook (\<open>amplihack-hooks/src/protocol.rs\<close> and \<open>protocol/codex.rs\<close>): reading the payload, the event,
  the hook itself, the answer and what is written when anything fails.  Parameters are JSON parsing and printing,
  the payload on standard input, the fate of each write, and the hook's own \<open>process\<close>, which may return, fail or
  panic.  The telemetry line on standard error is left out.
\<close>

section \<open>Outcomes\<close>

datatype failure_policy = Fail_open | Fail_closed

datatype process_result = Returned json | Failed rstring | Panicked

datatype write_result = W_ok | W_broken_pipe | W_failed

record hook =
  hk_name :: rstring
  hk_policy :: failure_policy
  hk_event :: "rstring option"
  hk_process :: "hook_message \<Rightarrow> process_result"

text \<open>What the host sees: the complete writes and the exit code.\<close>

record run_end =
  re_out :: "nat list list"
  re_exit :: nat

record surroundings =
  su_codex :: bool
  su_stdin :: "nat list option"
  su_parse :: "rstring \<Rightarrow> json option"
  su_print :: "json \<Rightarrow> nat list"
  su_write :: "nat \<Rightarrow> write_result"
  su_io_text :: rstring

section \<open>Codex\<close>

definition is_codex_shell :: "rstring \<Rightarrow> bool" where
  "is_codex_shell name = (name \<in> {lit ''shell_command'', lit ''exec_command'', lit ''shell''})"

definition codex_shell :: "rstring \<Rightarrow> json \<Rightarrow> rstring \<times> json" where
  "codex_shell name args =
    (if is_codex_shell name
     then (lit ''Bash'',
       (case (json_get (lit ''command'') args, json_get (lit ''cmd'') args, args) of
          (None, Some cmd, J_obj m) \<Rightarrow> J_obj (m @ [(lit ''command'', cmd)])
        | _ \<Rightarrow> args))
     else (name, args))"

definition normalize_codex_input :: "hook_message \<Rightarrow> hook_message" where
  "normalize_codex_input inp =
    (case inp of
       In_pre_tool_use name args sid \<Rightarrow> (let (n, a) = codex_shell name args in In_pre_tool_use n a sid)
     | In_post_tool_use name args r sid \<Rightarrow> (let (n, a) = codex_shell name args in In_post_tool_use n a r sid)
     | In_session_stop sid _ extra \<Rightarrow> In_session_stop sid None extra
     | other \<Rightarrow> other)"

text \<open>\<open>v.pointer("/a/b")\<close> and \<open>v["a"]\<close> for objects.\<close>

definition pointer2 :: "rstring \<Rightarrow> rstring \<Rightarrow> json \<Rightarrow> json option" where
  "pointer2 a b v = Option.bind (json_get a v) (json_get b)"

definition json_index :: "rstring \<Rightarrow> json \<Rightarrow> json" where
  "json_index key v = (case json_get key v of Some x \<Rightarrow> x | None \<Rightarrow> J_null)"

definition deny_output :: "rstring \<Rightarrow> json" where
  "deny_output reason = J_obj [(lit ''hookSpecificOutput'', J_obj [(lit ''hookEventName'', J_str (lit ''PreToolUse'')),
     (lit ''permissionDecision'', J_str (lit ''deny'')), (lit ''permissionDecisionReason'', J_str reason)])]"

definition pre_tool_denial :: "json \<Rightarrow> json option" where
  "pre_tool_denial v =
    (if Option.bind (pointer2 (lit ''hookSpecificOutput'') (lit ''permissionDecision'') v) json_as_str = Some (lit ''deny'')
     then Some (J_obj [(lit ''hookSpecificOutput'', json_index (lit ''hookSpecificOutput'') v)])
     else if Option.bind (json_get (lit ''block'') v) json_as_bool = Some True \<or>
             Option.bind (json_get (lit ''decision'') v) json_as_str = Some (lit ''block'')
     then Some (deny_output
       (case Option.bind (case json_get (lit ''message'') v of Some m \<Rightarrow> Some m | None \<Rightarrow> json_get (lit ''reason'') v) json_as_str of
          Some t \<Rightarrow> t | None \<Rightarrow> lit ''Amplihack security check denied this tool''))
     else None)"

definition codex_context :: "rstring \<Rightarrow> json \<Rightarrow> json" where
  "codex_context event v =
    (if event \<in> {lit ''SessionStart'', lit ''UserPromptSubmit'', lit ''PreToolUse'', lit ''PostToolUse''}
     then (case Option.bind (pointer2 (lit ''hookSpecificOutput'') (lit ''additionalContext'') v) json_as_str of
             Some context \<Rightarrow> J_obj [(lit ''hookSpecificOutput'',
               J_obj [(lit ''hookEventName'', J_str event), (lit ''additionalContext'', J_str context)])]
           | None \<Rightarrow> J_obj [])
     else J_obj [])"

definition codex_output :: "rstring \<Rightarrow> json \<Rightarrow> json" where
  "codex_output event v =
    (if event = lit ''SessionEnd'' then J_obj []
     else (case (if event = lit ''PreToolUse'' then pre_tool_denial v else None) of
             Some d \<Rightarrow> d
           | None \<Rightarrow> codex_context event v))"

definition security_denial :: json where
  "security_denial = deny_output (lit ''Amplihack security check could not process tool input'')"

section \<open>Input\<close>

definition max_codex_input :: nat where "max_codex_input = 4194304"

definition read_stdin :: "surroundings \<Rightarrow> (rstring, rstring) result" where
  "read_stdin su =
    (case su_stdin su of
       None \<Rightarrow> Inl (su_io_text su)
     | Some bytes \<Rightarrow>
         (case from_utf8 (if su_codex su then take (max_codex_input + 1) bytes else bytes) of
            None \<Rightarrow> Inl (su_io_text su)
          | Some t \<Rightarrow> if su_codex su \<and> max_codex_input < utf8_len t then Inl (lit ''hook input exceeds 4 MiB limit'') else Inr t))"

definition deserialize_hook_input :: "(rstring \<Rightarrow> json option) \<Rightarrow> rstring \<Rightarrow> rstring option \<Rightarrow> hook_message option" where
  "deserialize_hook_input pj input_json known_event =
    (let from_value = (\<lambda>v. case hook_deserialize pj v of Inr m \<Rightarrow> Some m | Inl _ \<Rightarrow> None);
         plain = Option.bind (pj input_json) from_value
     in (case (known_event, pj input_json) of
           (Some event, Some (J_obj m)) \<Rightarrow>
             if \<not> (map_of m (lit ''hook_event_name'') \<noteq> None \<or> map_of m (lit ''hookEventName'') \<noteq> None)
             then from_value (J_obj (m @ [(lit ''hook_event_name'', J_str event)]))
             else plain
         | _ \<Rightarrow> plain))"

definition event_of :: "hook_message \<Rightarrow> rstring" where
  "event_of inp =
    (case inp of
       In_pre_tool_use _ _ _ \<Rightarrow> lit ''PreToolUse''
     | In_post_tool_use _ _ _ _ \<Rightarrow> lit ''PostToolUse''
     | In_stop _ _ _ \<Rightarrow> lit ''Stop''
     | In_session_start _ _ _ \<Rightarrow> lit ''SessionStart''
     | In_session_stop _ _ _ \<Rightarrow> lit ''SessionEnd''
     | In_user_prompt _ _ _ \<Rightarrow> lit ''UserPromptSubmit''
     | _ \<Rightarrow> [])"

definition is_pre_tool_use :: "hook_message \<Rightarrow> bool" where
  "is_pre_tool_use inp = (case inp of In_pre_tool_use _ _ _ \<Rightarrow> True | _ \<Rightarrow> False)"

section \<open>Output\<close>

text \<open>The write number \<open>k\<close>: whether it succeeded, and what arrived complete.\<close>

definition write_stdout :: "surroundings \<Rightarrow> nat \<Rightarrow> nat list \<Rightarrow> bool \<times> nat list list" where
  "write_stdout su k data =
    (case su_write su k of W_ok \<Rightarrow> (True, [data]) | W_broken_pipe \<Rightarrow> (True, []) | W_failed \<Rightarrow> (False, []))"

definition write_security_response :: "surroundings \<Rightarrow> nat \<Rightarrow> nat list \<Rightarrow> bool \<times> nat list list" where
  "write_security_response su k data = (case su_write su k of W_ok \<Rightarrow> (True, [data]) | _ \<Rightarrow> (False, []))"

definition empty_response :: "nat list" where "empty_response = lit ''{}''"
definition version_response :: "nat list" where
  "version_response = lit ''{'' @ [ch_dquote] @ lit ''version'' @ [ch_dquote] @ lit '':1}''"

definition deny_on_failure :: "surroundings \<Rightarrow> nat \<Rightarrow> run_end" where
  "deny_on_failure su k =
    (case write_security_response su k (su_print su security_denial) of
       (True, out) \<Rightarrow> \<lparr>re_out = out, re_exit = 0\<rparr>
     | (False, out) \<Rightarrow> \<lparr>re_out = out, re_exit = 2\<rparr>)"

section \<open>The run\<close>

text \<open>The guarded body: how it ended, what arrived, and the number of the next write.\<close>

datatype body_end = B_ok | B_error rstring | B_panic

definition finish_write :: "surroundings \<Rightarrow> bool \<times> nat list list \<Rightarrow> body_end \<times> nat list list \<times> nat" where
  "finish_write su w = (if fst w then B_ok else B_error (su_io_text su), snd w, 1)"

definition hook_body :: "surroundings \<Rightarrow> hook \<Rightarrow> bool \<Rightarrow> body_end \<times> nat list list \<times> nat" where
  "hook_body su hk security =
    (case read_stdin su of
       Inl e \<Rightarrow> (B_error e, [], 0)
     | Inr input_json \<Rightarrow>
         (case deserialize_hook_input (su_parse su) input_json
                 (if security then Some (lit ''PreToolUse'') else hk_event hk) of
            None \<Rightarrow> (B_error (lit ''failed to deserialize hook input JSON''), [], 0)
          | Some inp0 \<Rightarrow>
              if security \<and> \<not> is_pre_tool_use inp0 then (B_error (lit ''invalid Codex tool security event''), [], 0)
              else if su_codex su \<and> event_of inp0 = lit ''Stop'' then finish_write su (write_stdout su 0 empty_response)
              else (let inp = (if su_codex su then normalize_codex_input inp0 else inp0)
                    in if inp = In_unknown
                       then finish_write su (write_stdout su 0 (if su_codex su then empty_response else version_response))
                       else (case hk_process hk inp of
                               Panicked \<Rightarrow> (B_panic, [], 0)
                             | Failed e \<Rightarrow> (B_error e, [], 0)
                             | Returned v \<Rightarrow>
                                 (let bytes = su_print su (if su_codex su then codex_output (event_of inp0) v else v)
                                  in finish_write su
                                       (if security then write_security_response su 0 bytes else write_stdout su 0 bytes))))))"

definition run_hook :: "surroundings \<Rightarrow> hook \<Rightarrow> run_end" where
  "run_hook su hk =
    (let security = (su_codex su \<and> hk_name hk = lit ''pre_tool_use'');
         (r, out, k) = hook_body su hk security
     in (case r of
           B_ok \<Rightarrow> \<lparr>re_out = out, re_exit = 0\<rparr>
         | B_error e \<Rightarrow>
             if security then (deny_on_failure su k)\<lparr>re_out := out @ re_out (deny_on_failure su k)\<rparr>
             else (case hk_policy hk of
                     Fail_open \<Rightarrow>
                       (case write_stdout su k empty_response of
                          (True, out2) \<Rightarrow> \<lparr>re_out = out @ out2, re_exit = 0\<rparr>
                        | (False, out2) \<Rightarrow> \<lparr>re_out = out @ out2, re_exit = 3\<rparr>)
                   | Fail_closed \<Rightarrow>
                       \<lparr>re_out = out @ snd (write_stdout su k (su_print su (J_obj [(lit ''error'', J_str e)]))), re_exit = 2\<rparr>)
         | B_panic \<Rightarrow>
             if security then (deny_on_failure su k)\<lparr>re_out := out @ re_out (deny_on_failure su k)\<rparr>
             else \<lparr>re_out = out @ snd (write_stdout su k empty_response), re_exit = 0\<rparr>))"

text \<open>The PreToolUse hook as the protocol runs it.\<close>

definition guard_input :: "hook_message \<Rightarrow> hook_input" where
  "guard_input inp = (case inp of In_pre_tool_use name args _ \<Rightarrow> Pre_tool_use name args | _ \<Rightarrow> Other_input)"

definition pre_tool_use_hook :: "hook_env \<Rightarrow> hook" where
  "pre_tool_use_hook env =
    \<lparr>hk_name = lit ''pre_tool_use'', hk_policy = Fail_open, hk_event = None,
     hk_process = (\<lambda>inp. Returned (process env (guard_input inp)))\<rparr>"

end
