(* ===== verification/Hook_Protocol_Facts.thy ===== *)
theory Hook_Protocol_Facts
  imports Hook_Protocol
begin

text \<open>
  What a run of a hook promises its host: under Codex the tool guard fails closed whatever goes wrong, a refusal of
  the PreToolUse hook arrives as a denial, and every other hook fails open.
\<close>

section \<open>Fail closed\<close>

definition guards_codex :: "surroundings \<Rightarrow> hook \<Rightarrow> bool" where
  "guards_codex su hk = (su_codex su \<and> hk_name hk = lit ''pre_tool_use'')"

text \<open>The tool call of the payload, as the hook sees it.\<close>

definition payload_call :: "surroundings \<Rightarrow> (rstring \<times> json \<times> rstring option) option" where
  "payload_call su =
    (case read_stdin su of
       Inl _ \<Rightarrow> None
     | Inr t \<Rightarrow>
         (case deserialize_hook_input (su_parse su) t (Some (lit ''PreToolUse'')) of
            Some (In_pre_tool_use name args sid) \<Rightarrow>
              Some (fst (codex_shell name args), snd (codex_shell name args), sid)
          | _ \<Rightarrow> None))"

definition call_result :: "surroundings \<Rightarrow> hook \<Rightarrow> process_result option" where
  "call_result su hk = map_option (\<lambda>(name, args, sid). hk_process hk (In_pre_tool_use name args sid)) (payload_call su)"

lemma deny_cases:
  "deny_on_failure su k = \<lparr>re_out = [su_print su security_denial], re_exit = 0\<rparr> \<or> deny_on_failure su k = \<lparr>re_out = [], re_exit = 2\<rparr>"
  by (simp add: deny_on_failure_def write_security_response_def split: write_result.split)

lemma not_pre: "\<not> is_pre_tool_use inp \<Longrightarrow> (case inp of In_pre_tool_use n a s \<Rightarrow> f n a s | _ \<Rightarrow> None) = None"
  by (cases inp) (simp_all add: is_pre_tool_use_def)

lemma pre_obtain: "is_pre_tool_use inp \<Longrightarrow> \<exists>n a s. inp = In_pre_tool_use n a s"
  by (cases inp) (simp_all add: is_pre_tool_use_def)

text \<open>The guarded body, when the call is read and when it is not.\<close>

lemma hook_body_call:
  assumes "guards_codex su hk" "payload_call su = Some (n, a, sid)"
  shows "hook_body su hk True =
    (case hk_process hk (In_pre_tool_use n a sid) of
       Panicked \<Rightarrow> (B_panic, [], 0)
     | Failed e \<Rightarrow> (B_error e, [], 0)
     | Returned v \<Rightarrow> finish_write su (write_security_response su 0 (su_print su (codex_output (lit ''PreToolUse'') v))))"
proof -
  from assms(2) obtain t n0 a0 where
    "read_stdin su = Inr t" "deserialize_hook_input (su_parse su) t (Some (lit ''PreToolUse'')) = Some (In_pre_tool_use n0 a0 sid)"
    and c: "n = fst (codex_shell n0 a0)" "a = snd (codex_shell n0 a0)"
    by (auto simp: payload_call_def simp del: lit_Cons split: sum.splits option.splits hook_message.splits)
  moreover have "lit ''PreToolUse'' \<noteq> lit ''Stop''" by code_simp
  ultimately show ?thesis
    using assms(1)
    by (simp add: guards_codex_def hook_body_def is_pre_tool_use_def event_of_def normalize_codex_input_def c
        case_prod_beta del: lit_Cons split: process_result.split)
qed

lemma hook_body_no_call:
  assumes "payload_call su = None"
  shows "\<exists>e. hook_body su hk True = (B_error e, [], 0)"
proof (cases "read_stdin su")
  case (Inr t)
  show ?thesis
  proof (cases "deserialize_hook_input (su_parse su) t (Some (lit ''PreToolUse''))")
    case (Some inp)
    have "\<not> is_pre_tool_use inp"
      using assms Inr Some by (cases inp) (simp_all add: payload_call_def is_pre_tool_use_def del: lit_Cons)
    then show ?thesis using Inr Some by (simp add: hook_body_def del: lit_Cons)
  qed (use Inr in \<open>simp add: hook_body_def del: lit_Cons\<close>)
qed (simp add: hook_body_def)

text \<open>
  C5. Under Codex the tool guard fails closed: whatever the payload, the hook and the writes do, the run ends with the
  blocking exit code and no answer, or with one complete answer, and that answer is the denial unless the payload was
  read as a tool call and the hook returned for that call, in which case it is the hook's own decision.
\<close>

theorem codex_fails_closed:
  assumes "guards_codex su hk"
  shows "run_hook su hk = \<lparr>re_out = [], re_exit = 2\<rparr> \<or>
    run_hook su hk = \<lparr>re_out = [su_print su security_denial], re_exit = 0\<rparr> \<or>
    (\<exists>v. call_result su hk = Some (Returned v) \<and>
       run_hook su hk = \<lparr>re_out = [su_print su (codex_output (lit ''PreToolUse'') v)], re_exit = 0\<rparr>)"
proof (cases "payload_call su")
  case None
  then obtain e where "hook_body su hk True = (B_error e, [], 0)" using hook_body_no_call by blast
  then show ?thesis
    using assms deny_cases [of su 0] by (auto simp: guards_codex_def run_hook_def simp del: lit_Cons)
next
  case (Some c)
  obtain n a sid where c: "c = (n, a, sid)" by (cases c)
  note body = hook_body_call [OF assms Some [unfolded c]]
  have r: "call_result su hk = Some (hk_process hk (In_pre_tool_use n a sid))" by (simp add: call_result_def Some c)
  have "run_hook su hk = (let (r, out, k) = hook_body su hk True in
      case r of B_ok \<Rightarrow> \<lparr>re_out = out, re_exit = 0\<rparr>
      | _ \<Rightarrow> (deny_on_failure su k)\<lparr>re_out := out @ re_out (deny_on_failure su k)\<rparr>)"
    using assms by (simp add: guards_codex_def run_hook_def case_prod_beta Let_def del: lit_Cons split: body_end.split)
  then show ?thesis
    using deny_cases [of su 0] deny_cases [of su 1] r
    by (auto simp: body finish_write_def write_security_response_def simp del: lit_Cons
        split: process_result.splits write_result.splits)
qed

section \<open>Refusals arrive\<close>

definition refusal :: "json \<Rightarrow> bool" where
  "refusal v = (Option.bind (json_get (lit ''block'') v) json_as_bool = Some True)"

definition denies :: "json \<Rightarrow> bool" where
  "denies v = (Option.bind (pointer2 (lit ''hookSpecificOutput'') (lit ''permissionDecision'') v) json_as_str = Some (lit ''deny''))"

lemma answers_refuse: "refusal (block_response m)" "refusal (deny_response m)"
  by (simp_all add: refusal_def block_response_def deny_response_def json_get_def json_as_bool_def)

lemma denial_denies: "denies (deny_output m)" "denies security_denial"
  by (simp_all add: denies_def deny_output_def security_denial_def pointer2_def json_get_def json_as_str_def)

lemma tmux_refuses: "tmux_check_tool_input u i = Some j \<Longrightarrow> refusal j"
  using answers_refuse
  by (auto simp: tmux_check_tool_input_def tmux_check_value_def tmux_check_def Let_def
      split: option.splits json.splits if_splits)

lemma tail_refuses: "tail_check_tool_input i = Some j \<Longrightarrow> refusal j"
  using answers_refuse
  by (auto simp: tail_check_tool_input_def tail_check_value_def tail_check_def Let_def
      split: option.splits json.splits if_splits)

lemma other_refuse:
  "check_xpia env t i = Some j \<Longrightarrow> refusal j"
  "check_skill_redirect env t i = Some j \<Longrightarrow> refusal j"
  "merge_guard_answer env t i = Some j \<Longrightarrow> refusal j"
  using answers_refuse
  by (auto simp: check_xpia_def check_xpia_with_def check_webfetch_def check_bash_def check_general_def xpia_block_def Let_def
      check_skill_redirect_def merge_guard_answer_def merge_check_def bind_eq_Some_conv split: if_splits option.splits)

lemma cwd_refuses:
  "check_cwd_deletion re sw fs c = Some j \<Longrightarrow> refusal j"
  "check_cwd_rename re sw fs c = Some j \<Longrightarrow> refusal j"
  by (auto simp: check_cwd_deletion_def check_cwd_rename_def check_glob_cwd_match_def deletion_block_def rename_block_def
      answers_refuse Let_def dest!: find_map_Some split: if_splits option.splits)

lemma bash_refuses: "bash_checks env t i = empty_object \<or> refusal (bash_checks env t i)"
  by (auto simp: bash_checks_def git_checks_def check_main_branch_def answers_refuse Let_def
      split: if_splits option.splits dest: cwd_refuses)

lemma process_refuses: "process env inp = empty_object \<or> refusal (process env inp)"
  using bash_refuses
  by (auto simp: process_def split: hook_input.split option.splits if_splits
      dest: tmux_refuses tail_refuses other_refuse)

text \<open>What Codex is told: a refusal as a denial, anything else never as one.\<close>

lemma pre_tool_denial_denies: "pre_tool_denial v = Some d \<Longrightarrow> denies d"
proof -
  have *: "Option.bind (pointer2 a b v) f = Some x \<Longrightarrow> pointer2 a b (J_obj [(a, json_index a v)]) = pointer2 a b v" for a b x and f :: "json \<Rightarrow> rstring option"
    by (cases "json_get a v") (simp_all add: pointer2_def json_index_def json_get_def)
  show "pre_tool_denial v = Some d \<Longrightarrow> denies d"
    by (auto simp: pre_tool_denial_def denies_def [of "J_obj [(_, json_index _ _)]"] * denial_denies
        simp del: lit_Cons split: if_splits)
qed

lemma refusal_denied:
  assumes "refusal v" shows "denies (codex_output (lit ''PreToolUse'') v)"
proof -
  have "lit ''PreToolUse'' \<noteq> lit ''SessionEnd''" by code_simp
  moreover have "pre_tool_denial v \<noteq> None"
    using assms by (simp add: pre_tool_denial_def refusal_def del: lit_Cons)
  ultimately show ?thesis using pre_tool_denial_denies by (auto simp: codex_output_def simp del: lit_Cons)
qed

lemma empty_allowed: "codex_output (lit ''PreToolUse'') empty_object = empty_object"
  by code_simp

lemma empty_not_denies: "\<not> denies empty_object"
  by code_simp

text \<open>
  C6. Under Codex the PreToolUse hook decides each tool call it can read, and what it decides arrives: when the write
  succeeds the host receives exactly one answer, which denies the call exactly when one of the hook's checks refused it
  in the form Codex sends it, with its shell tools renamed.
\<close>

theorem refusal_reaches_codex:
  assumes "su_codex su" "payload_call su = Some (n, a, sid)" "su_write su 0 = W_ok"
  shows "\<exists>v. run_hook su (pre_tool_use_hook env) = \<lparr>re_out = [su_print su v], re_exit = 0\<rparr> \<and>
    (denies v \<longleftrightarrow> process env (Pre_tool_use n a) \<noteq> empty_object)"
proof -
  let ?hk = "pre_tool_use_hook env" and ?v = "codex_output (lit ''PreToolUse'') (process env (Pre_tool_use n a))"
  have g: "guards_codex su ?hk" using assms(1) by (simp add: guards_codex_def pre_tool_use_hook_def)
  have "hook_body su ?hk True = (B_ok, [su_print su ?v], 1)"
    using hook_body_call [OF g assms(2)] assms(3)
    by (simp add: pre_tool_use_hook_def guard_input_def finish_write_def write_security_response_def del: lit_Cons)
  then have "run_hook su ?hk = \<lparr>re_out = [su_print su ?v], re_exit = 0\<rparr>"
    using g by (simp add: guards_codex_def run_hook_def del: lit_Cons)
  moreover have "denies ?v \<longleftrightarrow> process env (Pre_tool_use n a) \<noteq> empty_object"
    using process_refuses [of env "Pre_tool_use n a"] refusal_denied empty_allowed empty_not_denies by metis
  ultimately show ?thesis by blast
qed

section \<open>Every other hook\<close>

text \<open>A hook with the open policy outside Codex's tool guard never blocks: it exits 0, or 3 when even the empty answer fails.\<close>

lemma fail_open:
  assumes "\<not> guards_codex su hk" "hk_policy hk = Fail_open"
  shows "re_exit (run_hook su hk) \<in> {0, 3}"
  using assms
  by (auto simp: guards_codex_def run_hook_def Let_def simp del: lit_Cons split: body_end.split prod.split bool.split)

section \<open>A run\<close>

definition sample_call :: json where
  "sample_call = J_obj [(lit ''tool_name'', J_str (lit ''shell'')),
     (lit ''tool_input'', J_obj [(lit ''cmd'', J_str (lit ''tmux kill-server''))])]"

definition codex_run :: surroundings where
  "codex_run = \<lparr>su_codex = True, su_stdin = Some (lit ''{}''), su_parse = (\<lambda>_. Some sample_call),
     su_print = (\<lambda>v. if denies v then lit ''deny'' else lit ''{}''), su_write = (\<lambda>_. W_ok), su_io_text = []\<rparr>"

lemma sample_payload:
  "payload_call codex_run = Some (lit ''Bash'', J_obj [(lit ''cmd'', J_str (lit ''tmux kill-server'')),
     (lit ''command'', J_str (lit ''tmux kill-server''))], None)"
  by code_simp

lemma refusal_reaches_codex_witness:
  "\<exists>v. run_hook codex_run (pre_tool_use_hook plain_env) = \<lparr>re_out = [su_print codex_run v], re_exit = 0\<rparr> \<and>
    (denies v \<longleftrightarrow> process plain_env (Pre_tool_use (lit ''Bash'') (J_obj [(lit ''cmd'', J_str (lit ''tmux kill-server'')),
     (lit ''command'', J_str (lit ''tmux kill-server''))])) \<noteq> empty_object)"
  by (rule refusal_reaches_codex [OF _ sample_payload]) (simp_all add: codex_run_def)

definition panicking_hook :: hook where
  "panicking_hook = \<lparr>hk_name = lit ''pre_tool_use'', hk_policy = Fail_open, hk_event = None, hk_process = (\<lambda>_. Panicked)\<rparr>"

lemma codex_fails_closed_witness:
  "run_hook codex_run panicking_hook \<noteq> \<lparr>re_out = [], re_exit = 0\<rparr>"
  using codex_fails_closed [of codex_run panicking_hook]
  by (auto simp: guards_codex_def codex_run_def panicking_hook_def simp del: lit_Cons)

text \<open>
  Codex may send a shell command as its argument vector.  The tool is renamed to \<open>Bash\<close>, but the working-directory, git
  and merge checks read the command as one string only: a vector passes them whatever it says.
\<close>

lemma argv_skips_string_checks:
  assumes "json_get (lit ''command'') i = Some (J_arr xs)"
  shows "bash_checks env (lit ''Bash'') i = empty_object" "merge_guard_answer env (lit ''Bash'') i = None"
proof -
  have "json_str_at (lit ''command'') i = None" using assms by (simp add: json_str_at_def json_as_str_def)
  then show "bash_checks env (lit ''Bash'') i = empty_object" "merge_guard_answer env (lit ''Bash'') i = None"
    by (simp_all add: bash_checks_def merge_guard_answer_def unwrap_text_def del: lit_Cons)
qed

end
