(* ===== verification/Remote_Repo.thy ===== *)
theory Remote_Repo
  imports Rust_Path
begin

text \<open>
  Git remote URLs (\<open>amplihack-workflows/src/remote_repository.rs\<close>): which provider and repository a URL
  names, and its form for logs without the secret.  The code compares bytes, the model characters: the texts
  compared with are ASCII, where the two agree.
\<close>

section \<open>Definitions\<close>

datatype provider = Git_hub | Azure_dev_ops | Manual

record repository_identity =
  ri_remote_url :: "rstring option"
  ri_owner :: rstring
  ri_name :: rstring
  ri_default_base :: rstring

record url_parts =
  up_host :: rstring
  up_path :: rstring

definition host_matches_provider_domain :: "rstring \<Rightarrow> rstring \<Rightarrow> bool" where
  "host_matches_provider_domain host0 domain =
    (let host = (case strip_suffix [ch_dot] host0 of Some h \<Rightarrow> h | None \<Rightarrow> host0);
         start = length host - length domain
     in \<not> length host < length domain \<and> eq_ignore_ascii_case (drop start host) domain \<and>
        (start = 0 \<or> host ! (start - 1) = ch_dot))"

definition provider_from_remote_parts :: "url_parts option \<Rightarrow> provider" where
  "provider_from_remote_parts parts =
    (case parts of
       None \<Rightarrow> Manual
     | Some p \<Rightarrow>
         if host_matches_provider_domain (up_host p) (lit ''dev.azure.com'') \<or>
            host_matches_provider_domain (up_host p) (lit ''visualstudio.com'') then Azure_dev_ops
         else if host_matches_provider_domain (up_host p) (lit ''github.com'') then Git_hub
         else Manual)"

definition is_userinfo_byte :: "rchar \<Rightarrow> bool" where
  "is_userinfo_byte b = (is_ascii_alphanumeric b \<or> b \<in> set (lit ''._~%!$&()*+,;=:-'') \<or> b = ch_squote)"

definition split_userinfo :: "rstring \<Rightarrow> rstring option" where
  "split_userinfo authority =
    (case split_once ch_at authority of
       None \<Rightarrow> Some authority
     | Some (userinfo, host) \<Rightarrow>
         if userinfo \<noteq> [] \<and> list_all is_userinfo_byte userinfo \<and> ch_at \<notin> set host then Some host else None)"

definition is_scheme :: "rstring \<Rightarrow> bool" where
  "is_scheme scheme =
    ((case scheme of [] \<Rightarrow> False | b # _ \<Rightarrow> is_ascii_alphabetic b) \<and>
     list_all (\<lambda>b. is_ascii_alphanumeric b \<or> b \<in> set (lit ''+-.'')) scheme)"

text \<open>What ends the authority: \<open>/ ? #\<close>, and the backslash too when parsing.\<close>

definition ends_authority :: "rchar \<Rightarrow> bool" where
  "ends_authority c = (c = ch_slash \<or> c = 63 \<or> c = ch_hash)"

definition ends_authority_parse :: "rchar \<Rightarrow> bool" where
  "ends_authority_parse c = (ends_authority c \<or> c = ch_backslash)"

definition host_of_port :: "rstring \<Rightarrow> rstring" where
  "host_of_port host_port =
    (case Option.bind (strip_prefix (lit ''['') host_port) (split_once 93) of
       Some (host, _) \<Rightarrow> host
     | None \<Rightarrow> (case split_once ch_colon host_port of Some (host, _) \<Rightarrow> host | None \<Rightarrow> host_port))"

definition url_form :: "rstring \<Rightarrow> rstring \<Rightarrow> url_parts option" where
  "url_form scheme after_scheme =
    (if \<not> is_scheme scheme then None
     else (let authority = takeWhile (\<lambda>c. \<not> ends_authority_parse c) after_scheme;
               path = dropWhile (\<lambda>c. \<not> ends_authority_parse c) after_scheme
           in if authority = [] then None
              else (case split_userinfo authority of
                      None \<Rightarrow> None
                    | Some host_port \<Rightarrow>
                        if host_of_port host_port = [] then None
                        else Some \<lparr>up_host = host_of_port host_port,
                               up_path = (case strip_prefix [ch_slash] path of Some p \<Rightarrow> p | None \<Rightarrow> path)\<rparr>)))"

definition scp_form :: "rstring \<Rightarrow> url_parts option" where
  "scp_form remote_url =
    (case split_once ch_colon remote_url of
       None \<Rightarrow> None
     | Some (host_part, path) \<Rightarrow>
         if starts_with (lit ''-'') host_part \<or> ch_backslash \<in> set host_part then None
         else (case split_userinfo host_part of
                 None \<Rightarrow> None
               | Some host \<Rightarrow> if host = [] then None else Some \<lparr>up_host = host, up_path = path\<rparr>))"

definition remote_url_parts :: "rstring \<Rightarrow> url_parts option" where
  "remote_url_parts remote_url =
    (if remote_url = [] then None
     else (case split_once_str (lit ''://'') remote_url of
             Some (scheme, after_scheme) \<Rightarrow> url_form scheme after_scheme
           | None \<Rightarrow> scp_form remote_url))"

definition provider_from_remote_url :: "rstring option \<Rightarrow> provider" where
  "provider_from_remote_url remote_url = provider_from_remote_parts (Option.bind remote_url remote_url_parts)"

definition redact_remote_url :: "rstring \<Rightarrow> rstring" where
  "redact_remote_url remote_url =
    (case split_once_str (lit ''://'') remote_url of
       None \<Rightarrow> remote_url
     | Some (scheme, after_scheme) \<Rightarrow>
         (let authority = takeWhile (\<lambda>c. \<not> ends_authority c) after_scheme;
              rest = dropWhile (\<lambda>c. \<not> ends_authority c) after_scheme
          in if ch_backslash \<in> set authority \<and> ch_at \<in> set authority
             then scheme @ lit ''://[redacted]'' @ rest
             else (case rsplit_once ch_at authority of
                     None \<Rightarrow> remote_url
                   | Some (_, host) \<Rightarrow> scheme @ lit ''://[redacted]@'' @ host @ rest)))"

definition is_pr_number :: "rstring \<Rightarrow> bool" where
  "is_pr_number number =
    (1 \<le> utf8_len number \<and> utf8_len number \<le> 10 \<and> \<not> starts_with (lit ''0'') number \<and> list_all is_ascii_digit number)"

definition is_identity_segment :: "rstring \<Rightarrow> bool" where
  "is_identity_segment v =
    (v \<noteq> [] \<and> v \<noteq> lit ''.'' \<and> v \<noteq> lit ''..'' \<and>
     list_all (\<lambda>b. is_ascii_alphanumeric b \<or> b \<in> set (lit ''._-'')) v)"

definition drop_git :: "rstring \<Rightarrow> rstring" where
  "drop_git raw_name = (case strip_suffix (lit ''.git'') raw_name of Some n \<Rightarrow> n | None \<Rightarrow> raw_name)"

definition github_owner_name :: "rstring \<Rightarrow> (rstring \<times> rstring) option" where
  "github_owner_name path0 =
    (let path1 = hd (split_on (\<lambda>c. c = 63 \<or> c = ch_hash) path0);
         path = (case strip_suffix [ch_slash] path1 of Some p \<Rightarrow> p | None \<Rightarrow> path1);
         parts = split_on (\<lambda>c. c = ch_slash) path;
         owner = hd parts;
         raw_name = (case tl parts of [] \<Rightarrow> [] | n # _ \<Rightarrow> n);
         rest = drop 2 parts;
         name = (if rest = [] then Some (drop_git raw_name)
                 else if length rest = 2 \<and> hd rest = lit ''pull'' \<and> is_pr_number (rest ! 1) \<and>
                   \<not> ends_with (lit ''.git'') raw_name then Some raw_name
                 else None)
     in if is_identity_segment owner \<and> \<not> starts_with (lit ''-'') owner
        then (case name of Some n \<Rightarrow> if is_identity_segment n then Some (owner, n) else None | None \<Rightarrow> None)
        else None)"

definition owner_name_from_path :: "rstring \<Rightarrow> rstring \<Rightarrow> rstring \<times> rstring" where
  "owner_name_from_path path fallback =
    (case github_owner_name path of Some on \<Rightarrow> on | None \<Rightarrow> (lit ''unknown'', fallback))"

text \<open>\<open>trim_end_matches(".git")\<close>: as often as it ends so.\<close>

function trim_end_git :: "rstring \<Rightarrow> rstring" where
  "trim_end_git s = (case strip_suffix (lit ''.git'') s of Some r \<Rightarrow> trim_end_git r | None \<Rightarrow> s)"
  by pat_completeness auto
termination
  by (relation "measure length") (auto simp: strip_suffix_Some)

declare trim_end_git.simps [simp del]

definition trim_slashes :: "rstring \<Rightarrow> rstring" where
  "trim_slashes s = trim_end_matches (\<lambda>c. c = ch_slash) (trim_start_matches (\<lambda>c. c = ch_slash) s)"

definition trim_repo_suffix :: "rstring \<Rightarrow> rstring" where
  "trim_repo_suffix name =
    trim (trim_end_git (hd (split_on (\<lambda>c. c = 63 \<or> c = ch_hash) (trim_slashes name))))"

definition azure_owner_name_from_path :: "rstring \<Rightarrow> rstring \<Rightarrow> rstring \<times> rstring" where
  "azure_owner_name_from_path path0 fallback =
    (let path = trim_slashes path0
     in (case split_once_str (lit ''/_git/'') path of
           Some (owner_path, name) \<Rightarrow>
             (let owner = trim_slashes owner_path
              in if owner = [] \<or> trim name = [] then (lit ''unknown'', fallback) else (owner, trim_repo_suffix name))
         | None \<Rightarrow>
             (let parts0 = filter (\<lambda>v. v \<noteq> []) (split_on (\<lambda>c. c = ch_slash) path);
                  parts = (if parts0 \<noteq> [] \<and> hd parts0 = lit ''v3'' then tl parts0 else parts0)
              in (case parts of
                    org # project # name # _ \<Rightarrow> (org @ [ch_slash] @ project, trim_repo_suffix name)
                  | _ \<Rightarrow> (lit ''unknown'', fallback)))))"

definition repository_owner_name :: "provider \<Rightarrow> url_parts option \<Rightarrow> rstring \<Rightarrow> rstring \<times> rstring" where
  "repository_owner_name provider parts fallback =
    (case parts of
       None \<Rightarrow> (lit ''unknown'', fallback)
     | Some p \<Rightarrow>
         (case provider of
            Git_hub \<Rightarrow> owner_name_from_path (up_path p) fallback
          | Azure_dev_ops \<Rightarrow> azure_owner_name_from_path (up_path p) fallback
          | Manual \<Rightarrow> (lit ''unknown'', fallback)))"

definition repository_identity_from_remote_url :: "rstring option \<Rightarrow> rstring \<Rightarrow> provider \<times> repository_identity" where
  "repository_identity_from_remote_url remote_url fallback =
    (let parts = Option.bind remote_url remote_url_parts; provider = provider_from_remote_parts parts;
         (owner, name) = repository_owner_name provider parts fallback
     in (provider, \<lparr>ri_remote_url = map_option redact_remote_url remote_url, ri_owner = owner, ri_name = name,
                     ri_default_base = lit ''main''\<rparr>))"

definition github_repository_from_remote_url :: "rstring \<Rightarrow> rstring option" where
  "github_repository_from_remote_url remote_url =
    (case remote_url_parts remote_url of
       None \<Rightarrow> None
     | Some parts \<Rightarrow>
         if provider_from_remote_parts (Some parts) \<noteq> Git_hub then None
         else map_option (\<lambda>(owner, name). owner @ [ch_slash] @ name) (github_owner_name (up_path parts)))"

section \<open>Redaction\<close>

lemma split_once_scheme:
  assumes "ch_colon \<notin> set scheme"
  shows "split_once_str (lit ''://'') (scheme @ lit ''://'' @ r) = Some (scheme, r)"
  using assms by (induction scheme) (auto simp: prefix_def split: list.splits)

lemma rsplit_host: "c \<notin> set host \<Longrightarrow> rsplit_once c (ui @ c # host) = Some (ui, host)"
proof -
  assume "c \<notin> set host"
  then have "dropWhile (\<lambda>x. x \<noteq> c) (rev host @ c # rev ui) = c # rev ui"
    "takeWhile (\<lambda>x. x \<noteq> c) (rev host @ c # rev ui) = rev host"
    by (simp_all add: dropWhile_append takeWhile_append)
  then show ?thesis by (simp add: rsplit_once_def)
qed

lemma authority_split:
  assumes "\<not> list_ex P a" "rest = [] \<or> P (hd rest)"
  shows "takeWhile (\<lambda>c. \<not> P c) (a @ rest) = a" "dropWhile (\<lambda>c. \<not> P c) (a @ rest) = rest"
  using assms by (induction a) (cases rest; auto)+

text \<open>
  Nothing of the user part of a URL is left in its redacted form: the result depends only on the
  scheme, the host and the rest, and, if there is a backslash before the path, not even on the host.
\<close>

lemma redaction_hides_userinfo:
  assumes "ch_colon \<notin> set scheme" "\<not> list_ex ends_authority (userinfo @ host)" "ch_at \<notin> set host"
    "rest = [] \<or> ends_authority (hd rest)"
  shows "redact_remote_url (scheme @ lit ''://'' @ userinfo @ [ch_at] @ host @ rest) =
    (if ch_backslash \<in> set (userinfo @ host) then scheme @ lit ''://[redacted]'' @ rest
     else scheme @ lit ''://[redacted]@'' @ host @ rest)"
proof -
  let ?a = "userinfo @ [ch_at] @ host"
  have "\<not> list_ex ends_authority ?a" using assms(2) by (auto simp: ends_authority_def)
  then have a: "takeWhile (\<lambda>c. \<not> ends_authority c) (?a @ rest) = ?a" "dropWhile (\<lambda>c. \<not> ends_authority c) (?a @ rest) = rest"
    using authority_split [of ends_authority ?a rest] assms(4) by blast+
  have s: "split_once_str (lit ''://'') (scheme @ lit ''://'' @ (?a @ rest)) = Some (scheme, ?a @ rest)"
    using split_once_scheme [OF assms(1)] by blast
  have r: "rsplit_once ch_at ?a = Some (userinfo, host)" using rsplit_host [OF assms(3)] by simp
  have "redact_remote_url (scheme @ lit ''://'' @ (?a @ rest)) =
      (if ch_backslash \<in> set ?a then scheme @ lit ''://[redacted]'' @ rest else scheme @ lit ''://[redacted]@'' @ host @ rest)"
    unfolding redact_remote_url_def s option.case prod.case Let_def a r by auto
  then show ?thesis by simp
qed

lemma redaction_hides_userinfo_witness:
  "redact_remote_url (lit ''https'' @ lit ''://'' @ lit ''user:ghp_token@x'' @ [ch_at] @ lit ''github.com'' @ lit ''/o/r'') =
   lit ''https://[redacted]@github.com/o/r''"
proof -
  have "\<not> list_ex ends_authority (lit ''user:ghp_token@x'' @ lit ''github.com'')" "ch_colon \<notin> set (lit ''https'')"
    "ch_at \<notin> set (lit ''github.com'')" "ends_authority (hd (lit ''/o/r''))"
    "ch_backslash \<notin> set (lit ''user:ghp_token@x'' @ lit ''github.com'')"
    by code_simp+
  then show ?thesis using redaction_hides_userinfo [of "lit ''https''" "lit ''user:ghp_token@x''" "lit ''github.com''" "lit ''/o/r''"]
    by simp
qed

section \<open>Names\<close>

lemma segment_chars:
  assumes "is_identity_segment v"
  shows "\<not> list_ex (\<lambda>c. c = ch_slash) v" "\<not> list_ex (\<lambda>c. c = 63 \<or> c = ch_hash) v" "\<not> list_ex ends_authority v" "v \<noteq> []"
proof -
  have "list_all (\<lambda>b. is_ascii_alphanumeric b \<or> b \<in> set (lit ''._-'')) v" "v \<noteq> []"
    using assms by (auto simp: is_identity_segment_def)
  then show "\<not> list_ex (\<lambda>c. c = ch_slash) v" "\<not> list_ex (\<lambda>c. c = 63 \<or> c = ch_hash) v"
    "\<not> list_ex ends_authority v" "v \<noteq> []"
    by (auto simp: list_all_iff list_ex_iff ascii_defs ends_authority_def)
qed

lemma owner_name_split:
  assumes "is_identity_segment owner" "is_identity_segment name" "query = [] \<or> hd query \<in> {63, ch_hash}"
    "\<not> list_ex (\<lambda>c. c = 63 \<or> c = ch_hash) t"
  shows "hd (split_on (\<lambda>c. c = 63 \<or> c = ch_hash) ((owner @ ch_slash # name @ t) @ query)) = owner @ ch_slash # name @ t"
proof -
  have n: "\<not> list_ex (\<lambda>c. c = 63 \<or> c = ch_hash) (owner @ ch_slash # name @ t)"
    using segment_chars(2) [OF assms(1)] segment_chars(2) [OF assms(2)] assms(4) by auto
  show ?thesis
  proof (cases query)
    case Nil
    then show ?thesis using split_on_none [OF n] by simp
  next
    case (Cons c q)
    then show ?thesis using split_on_append [OF n, of c q] assms(3) by simp
  qed
qed

lemma strip_suffix_git: "strip_suffix p (s @ p) = Some s"
  by (simp add: strip_suffix_Some)

lemma no_final_slash:
  assumes "is_identity_segment name"
  shows "strip_suffix [ch_slash] (a @ name) = None"
proof -
  have "ch_slash \<notin> set name" "name \<noteq> []" using segment_chars(1,4) [OF assms] by (auto simp: list_ex_iff)
  then show ?thesis by (cases name rule: rev_cases) (auto simp: strip_suffix_def suffix_def)
qed

text \<open>Plain repository paths: with or without \<open>.git\<close>, a final slash and a query.\<close>

lemma owner_name_plain:
  assumes "is_identity_segment owner" "is_identity_segment raw" "\<not> starts_with (lit ''-'') owner"
    "query = [] \<or> hd query \<in> {63, ch_hash}" "slash = [] \<or> slash = [ch_slash]" "is_identity_segment (drop_git raw)"
  shows "github_owner_name ((owner @ ch_slash # raw @ slash) @ query) = Some (owner, drop_git raw)"
proof -
  have h: "hd (split_on (\<lambda>c. c = 63 \<or> c = ch_hash) ((owner @ ch_slash # raw @ slash) @ query)) = owner @ ch_slash # raw @ slash"
    using assms(5) by (intro owner_name_split [OF assms(1,2,4)]) auto
  have c: "(case strip_suffix [ch_slash] (owner @ ch_slash # raw @ slash) of Some p \<Rightarrow> p | None \<Rightarrow> owner @ ch_slash # raw @ slash)
      = owner @ ch_slash # raw"
    using assms(5) no_final_slash [OF assms(2), of "owner @ [ch_slash]"] strip_suffix_git [of "[ch_slash]" "owner @ ch_slash # raw"]
    by auto
  have p: "split_on (\<lambda>c. c = ch_slash) (owner @ ch_slash # raw) = [owner, raw]"
    using split_on_append [OF segment_chars(1) [OF assms(1)], of ch_slash raw] split_on_none [OF segment_chars(1) [OF assms(2)]]
    by simp
  show ?thesis unfolding github_owner_name_def Let_def h c p using assms(1,3,6) by simp
qed

lemma github_owner_name_safe:
  "github_owner_name path = Some (owner, name) \<Longrightarrow>
   is_identity_segment owner \<and> is_identity_segment name \<and> \<not> starts_with (lit ''-'') owner"
  by (auto simp: github_owner_name_def Let_def split: if_splits option.splits)

text \<open>The host is the domain or below it: in any letter case and with or without the final dot.\<close>

lemma suffix_join: "length b = length d \<Longrightarrow> suffix (c # d) (a @ b) \<longleftrightarrow> suffix [c] a \<and> b = d"
proof -
  assume len: "length b = length d"
  have "a @ b = z @ c # d \<longleftrightarrow> a = z @ [c] \<and> b = d" for z
    using append_eq_append_conv [of a "z @ [c]" b d] len by simp
  then show ?thesis by (auto simp: suffix_def)
qed

lemma suffix_single: "suffix [c] a \<longleftrightarrow> a \<noteq> [] \<and> a ! (length a - 1) = c"
  by (cases a rule: rev_cases) (auto simp: suffix_def nth_append)

lemma host_split:
  assumes "length d \<le> length h"
  shows "(map f h = map f d \<or> suffix (f k # map f d) (map f h)) \<longleftrightarrow>
    map f (drop (length h - length d) h) = map f d \<and>
    (length h - length d = 0 \<or> f (h ! (length h - length d - 1)) = f k)"
proof -
  let ?n = "length h - length d"
  have h: "map f h = map f (take ?n h) @ map f (drop ?n h)" by (metis append_take_drop_id map_append)
  have len: "length (map f (drop ?n h)) = length (map f d)" using assms by simp
  have "map f h = map f d \<longleftrightarrow> ?n = 0 \<and> map f (drop ?n h) = map f d"
    using assms by (metis diff_is_0_eq' drop0 le_refl length_map)
  moreover have "suffix (f k # map f d) (map f h) \<longleftrightarrow>
      0 < ?n \<and> f (h ! (?n - 1)) = f k \<and> map f (drop ?n h) = map f d"
    unfolding h suffix_join [OF len] suffix_single by (cases "?n = 0") auto
  ultimately show ?thesis by auto
qed

lemma host_matches_iff:
  "host_matches_provider_domain host domain \<longleftrightarrow>
   (let h = to_ascii_lowercase (case strip_suffix [ch_dot] host of Some x \<Rightarrow> x | None \<Rightarrow> host); d = to_ascii_lowercase domain
    in h = d \<or> ends_with (ch_dot # d) h)"
proof -
  define h where "h = (case strip_suffix [ch_dot] host of Some x \<Rightarrow> x | None \<Rightarrow> host)"
  have low: "to_ascii_lower c = ch_dot \<longleftrightarrow> c = ch_dot" for c by (auto simp: ascii_defs)
  have dot: "to_ascii_lower ch_dot = ch_dot" by (simp add: low)
  show ?thesis
  proof (cases "length h < length domain")
    case True
    then have "map to_ascii_lower h \<noteq> map to_ascii_lower domain" by (metis length_map nat_neq_iff)
    then show ?thesis using True unfolding host_matches_provider_domain_def Let_def h_def [symmetric]
      by (auto simp: ends_with_def to_ascii_lowercase_def dest: suffix_length_le)
  next
    case False
    then show ?thesis using host_split [of domain h to_ascii_lower ch_dot]
      unfolding host_matches_provider_domain_def Let_def h_def [symmetric]
      by (auto simp: ends_with_def to_ascii_lowercase_def eq_ignore_ascii_case_def low dot)
  qed
qed

text \<open>No host is of two providers.\<close>

lemma suffixes_same_end: "suffix a s \<Longrightarrow> suffix b s \<Longrightarrow> length a \<le> length b \<Longrightarrow> suffix a b"
  by (rule suffix_length_suffix)

lemma domain_end: "host_matches_provider_domain host domain \<Longrightarrow>
  suffix (to_ascii_lowercase domain) (to_ascii_lowercase (case strip_suffix [ch_dot] host of Some x \<Rightarrow> x | None \<Rightarrow> host))"
  unfolding host_matches_iff Let_def ends_with_def by (auto dest: suffix_ConsD)

lemma one_provider:
  assumes "host_matches_provider_domain host (lit ''github.com'')"
  shows "\<not> host_matches_provider_domain host (lit ''dev.azure.com'')"
    "\<not> host_matches_provider_domain host (lit ''visualstudio.com'')"
proof -
  have g: "to_ascii_lowercase (lit ''github.com'') = lit ''github.com''" by code_simp
  show "\<not> host_matches_provider_domain host (lit ''dev.azure.com'')"
  proof
    assume "host_matches_provider_domain host (lit ''dev.azure.com'')"
    from suffixes_same_end [OF domain_end [OF assms] domain_end [OF this]]
    have "suffix (to_ascii_lowercase (lit ''github.com'')) (to_ascii_lowercase (lit ''dev.azure.com''))"
      by (simp add: to_ascii_lowercase_def)
    moreover have "\<not> suffix (to_ascii_lowercase (lit ''github.com'')) (to_ascii_lowercase (lit ''dev.azure.com''))" by code_simp
    ultimately show False by contradiction
  qed
  show "\<not> host_matches_provider_domain host (lit ''visualstudio.com'')"
  proof
    assume "host_matches_provider_domain host (lit ''visualstudio.com'')"
    from suffixes_same_end [OF domain_end [OF assms] domain_end [OF this]]
    have "suffix (to_ascii_lowercase (lit ''github.com'')) (to_ascii_lowercase (lit ''visualstudio.com''))"
      by (simp add: to_ascii_lowercase_def)
    moreover have "\<not> suffix (to_ascii_lowercase (lit ''github.com'')) (to_ascii_lowercase (lit ''visualstudio.com''))" by code_simp
    ultimately show False by contradiction
  qed
qed

section \<open>URLs\<close>

lemma scheme_no_colon: "is_scheme scheme \<Longrightarrow> ch_colon \<notin> set scheme"
  by (auto simp: is_scheme_def list_all_iff ascii_defs)

lemma userinfo_chars: "list_all is_userinfo_byte ui \<Longrightarrow> ch_at \<notin> set ui \<and> \<not> list_ex ends_authority_parse ui"
  by (auto simp: is_userinfo_byte_def list_all_iff list_ex_iff ascii_defs ends_authority_parse_def ends_authority_def)

definition host_text :: "rstring \<Rightarrow> bool" where
  "host_text h = (h \<noteq> [] \<and> \<not> list_ex ends_authority_parse h \<and> ch_at \<notin> set h \<and> ch_colon \<notin> set h \<and> hd h \<noteq> 91)"

definition port_text :: "rstring \<Rightarrow> bool" where
  "port_text t = (t = [] \<or> hd t = ch_colon \<and> \<not> list_ex ends_authority_parse t \<and> ch_at \<notin> set t)"

definition user_text :: "rstring \<Rightarrow> bool" where
  "user_text u = (u = [] \<or> last u = ch_at \<and> butlast u \<noteq> [] \<and> list_all is_userinfo_byte (butlast u))"

lemma split_user:
  assumes "user_text u" "ch_at \<notin> set h"
  shows "split_userinfo (u @ h) = Some h"
proof (cases u rule: rev_cases)
  case Nil
  then show ?thesis using assms(2) split_once_None [of ch_at h] by (simp add: split_userinfo_def)
next
  case (snoc ui c)
  then have c: "c = ch_at" and ui: "ui \<noteq> []" "list_all is_userinfo_byte ui" using assms(1) by (auto simp: user_text_def)
  have "split_once ch_at (u @ h) = Some (ui, h)" using split_once_at [of ch_at ui h] userinfo_chars [OF ui(2)] snoc c by simp
  then show ?thesis using ui assms(2) by (simp add: split_userinfo_def)
qed

lemma host_port:
  assumes "host_text host" "port_text port"
  shows "host_of_port (host @ port) = host"
proof -
  have "strip_prefix (lit ''['') (host @ port) = None"
    using assms(1) by (cases host) (auto simp: host_text_def strip_prefix_def)
  moreover have "(case split_once ch_colon (host @ port) of Some (h, _) \<Rightarrow> h | None \<Rightarrow> host @ port) = host"
  proof (cases port)
    case Nil
    then show ?thesis using assms(1) split_once_None [of ch_colon host] by (simp add: host_text_def)
  next
    case (Cons c t)
    then show ?thesis using assms split_once_at [of ch_colon host t] by (simp add: host_text_def port_text_def)
  qed
  ultimately show ?thesis by (simp add: host_of_port_def)
qed

lemma url_parts_of:
  assumes "is_scheme scheme" "user_text user" "host_text host" "port_text port"
  shows "remote_url_parts (scheme @ lit ''://'' @ user @ host @ port @ ch_slash # path) = Some \<lparr>up_host = host, up_path = path\<rparr>"
proof -
  define a where "a = user @ host @ port"
  have u: "\<not> list_ex ends_authority_parse user"
    using assms(2) userinfo_chars [of "butlast user"]
    by (cases user rule: rev_cases) (auto simp: user_text_def ends_authority_parse_def ends_authority_def)
  have a: "\<not> list_ex ends_authority_parse a" using u assms(3,4) by (auto simp: a_def host_text_def port_text_def)
  have r: "ends_authority_parse ch_slash" by (simp add: ends_authority_parse_def ends_authority_def)
  have t: "takeWhile (\<lambda>c. \<not> ends_authority_parse c) (a @ ch_slash # path) = a"
    "dropWhile (\<lambda>c. \<not> ends_authority_parse c) (a @ ch_slash # path) = ch_slash # path"
    using authority_split [of ends_authority_parse a "ch_slash # path"] a r by simp_all
  have "split_userinfo a = Some (host @ port)"
    using split_user [OF assms(2), of "host @ port"] assms(3,4) by (auto simp: a_def host_text_def port_text_def)
  moreover have "host \<noteq> []" "a \<noteq> []" using assms(3) by (simp_all add: host_text_def a_def)
  moreover have "strip_prefix [ch_slash] (ch_slash # path) = Some path" by (simp add: strip_prefix_def)
  ultimately have "url_form scheme (a @ ch_slash # path) = Some \<lparr>up_host = host, up_path = path\<rparr>"
    using assms(1) host_port [OF assms(3,4)] by (simp add: url_form_def Let_def t)
  moreover have "split_once_str (lit ''://'') (scheme @ lit ''://'' @ (a @ ch_slash # path)) = Some (scheme, a @ ch_slash # path)"
    by (rule split_once_scheme [OF scheme_no_colon [OF assms(1)]])
  ultimately show ?thesis by (simp add: remote_url_parts_def a_def)
qed

text \<open>
  An Azure path whose name is only a suffix or a query: the code asks for a name before it cuts them off, so the
  name is the empty text instead of the fallback.
\<close>

lemma azure_empty_name:
  "azure_owner_name_from_path (lit ''org/project/_git/.git'') (lit ''fallback'') = (lit ''org/project'', [])"
  "azure_owner_name_from_path (lit ''org/project/_git/?version=GBmain'') (lit ''fallback'') = (lit ''org/project'', [])"
  by code_simp+

section \<open>Properties\<close>

text \<open>
  What a remote URL may look like and still name its GitHub repository: any scheme, a user part of the
  allowed characters, \<open>github.com\<close> in any case or a host below it, a port, \<open>.git\<close>, a final slash, a query
  or fragment.
\<close>

lemma github_url_recognised:
  assumes "is_scheme scheme" "user_text user" "host_text host" "port_text port"
    "host_matches_provider_domain host (lit ''github.com'')"
    "is_identity_segment owner" "\<not> starts_with (lit ''-'') owner" "is_identity_segment raw" "is_identity_segment (drop_git raw)"
    "slash = [] \<or> slash = [ch_slash]" "query = [] \<or> hd query \<in> {63, ch_hash}"
  shows "github_repository_from_remote_url
      (scheme @ lit ''://'' @ user @ host @ port @ ch_slash # (owner @ ch_slash # raw @ slash) @ query) =
    Some (owner @ ch_slash # drop_git raw)"
proof -
  have "provider_from_remote_parts (Some \<lparr>up_host = host, up_path = p\<rparr>) = Git_hub" for p
    using assms(5) one_provider [OF assms(5)] by (simp add: provider_from_remote_parts_def)
  then show ?thesis
    using owner_name_plain [OF assms(6,8,7,11,10,9)]
    unfolding github_repository_from_remote_url_def url_parts_of [OF assms(1-4)] by simp
qed

lemma github_url_recognised_witness:
  "github_repository_from_remote_url
     (lit ''ssh'' @ lit ''://'' @ lit ''git@'' @ lit ''GitHub.com'' @ lit '':22'' @
      ch_slash # (lit ''rysweet'' @ ch_slash # lit ''amplihack-rs.git'' @ [ch_slash]) @ lit ''?tab=readme'') =
   Some (lit ''rysweet'' @ ch_slash # drop_git (lit ''amplihack-rs.git''))"
  by (rule github_url_recognised; code_simp)

text \<open>
  Where a URL has its host and its path: after the scheme and at most one user part, up to a slash, \<open>?\<close>, \<open>#\<close> or backslash, with
  a port or in brackets; or, without a scheme, after at most one user part and up to the first colon.
\<close>

definition url_reads :: "rstring \<Rightarrow> rstring \<Rightarrow> rstring \<Rightarrow> bool" where
  "url_reads url host path \<longleftrightarrow>
    (\<exists>scheme user hp rest. url = scheme @ lit ''://'' @ user @ hp @ rest \<and> is_scheme scheme \<and> user_text user \<and>
       \<not> list_ex ends_authority_parse hp \<and> ch_at \<notin> set hp \<and> (rest = [] \<or> ends_authority_parse (hd rest)) \<and>
       (rest = path \<or> rest = ch_slash # path) \<and>
       (hp = host \<or> (\<exists>port. hp = host @ ch_colon # port) \<or> (\<exists>x. hp = lit ''['' @ host @ lit '']'' @ x)))
    \<or> (\<exists>user. url = user @ host @ ch_colon # path \<and> user_text user \<and> \<not> str_contains (lit ''://'') url \<and>
         ch_colon \<notin> set (user @ host) \<and> ch_at \<notin> set host)"

text \<open>GitHub's host or one below it, in any letter case and with or without the final dot.\<close>

definition github_host :: "rstring \<Rightarrow> bool" where
  "github_host host \<longleftrightarrow>
    (\<exists>h. (host = h \<or> host = h @ lit ''.'') \<and>
      (to_ascii_lowercase h = lit ''github.com'' \<or> (\<exists>sub. to_ascii_lowercase h = sub @ lit ''.github.com'')))"

definition plain_segment :: "rstring \<Rightarrow> bool" where
  "plain_segment v \<longleftrightarrow> v \<noteq> [] \<and> v \<noteq> lit ''.'' \<and> v \<noteq> lit ''..'' \<and>
    (\<forall>c\<in>set v. c \<in> set (lit ''ABCDEFGHIJKLMNOPQRSTUVWXYZabcdefghijklmnopqrstuvwxyz0123456789._-''))"

lemma split_userinfo_Some:
  "split_userinfo a = Some h \<Longrightarrow> \<exists>u. a = u @ h \<and> user_text u \<and> ch_at \<notin> set h"
proof (cases "split_once ch_at a")
  case None
  assume "split_userinfo a = Some h"
  then show ?thesis using None split_once_None [of ch_at a] by (auto simp: split_userinfo_def user_text_def)
next
  case (Some uh)
  assume h: "split_userinfo a = Some h"
  obtain ui r where "uh = (ui, r)" by fastforce
  then have "a = (ui @ [ch_at]) @ h \<and> user_text (ui @ [ch_at]) \<and> ch_at \<notin> set h"
    using h Some split_once_Some(1) [of ch_at a ui r] by (auto simp: split_userinfo_def user_text_def split: if_splits)
  then show ?thesis by blast
qed

lemma host_of_port_reads:
  "hp = host_of_port hp \<or> (\<exists>port. hp = host_of_port hp @ ch_colon # port) \<or> (\<exists>x. hp = lit ''['' @ host_of_port hp @ lit '']'' @ x)"
proof (cases "Option.bind (strip_prefix (lit ''['') hp) (split_once 93)")
  case None
  show ?thesis
  proof (cases "split_once ch_colon hp")
    case (Some p)
    then show ?thesis using None split_once_Some(1) [of ch_colon hp] by (cases p) (auto simp: host_of_port_def)
  qed (use None in \<open>simp add: host_of_port_def\<close>)
next
  case (Some p)
  obtain host x where p: "p = (host, x)" by fastforce
  obtain r where "hp = lit ''['' @ r" "split_once 93 r = Some (host, x)"
    using Some p by (auto simp: bind_eq_Some_conv strip_prefix_Some)
  then have "hp = lit ''['' @ host @ lit '']'' @ x" using split_once_Some(1) [of 93 r host x] by simp
  moreover have h: "host_of_port hp = host" using Some p by (simp add: host_of_port_def)
  ultimately show ?thesis unfolding h by (intro disjI2 exI [of _ x])
qed

lemma split_once_str_None: "p \<noteq> [] \<Longrightarrow> split_once_str p s = None \<Longrightarrow> \<not> str_contains p s"
  by (induction s) (auto split: if_splits)

lemma remote_url_parts_reads:
  assumes "remote_url_parts url = Some parts" shows "url_reads url (up_host parts) (up_path parts)"
proof (cases "split_once_str (lit ''://'') url")
  case None
  have "scp_form url = Some parts" using assms None by (auto simp: remote_url_parts_def split: if_splits)
  then obtain hpart path host where s: "split_once ch_colon url = Some (hpart, path)" "split_userinfo hpart = Some host"
    "parts = \<lparr>up_host = host, up_path = path\<rparr>"
    by (auto simp: scp_form_def split: option.splits if_splits)
  obtain u where u: "hpart = u @ host" "user_text u" "ch_at \<notin> set host" using split_userinfo_Some [OF s(2)] by blast
  have "url = hpart @ ch_colon # path" "ch_colon \<notin> set hpart" using split_once_Some [OF s(1)] by auto
  moreover have "\<not> str_contains (lit ''://'') url" using split_once_str_None [OF _ None] by simp
  ultimately show ?thesis unfolding url_reads_def s(3) using u by (intro disjI2 exI [of _ u]) simp
next
  case (Some p)
  obtain scheme after where p: "p = (scheme, after)" by fastforce
  define a where "a = takeWhile (\<lambda>c. \<not> ends_authority_parse c) after"
  define rest where "rest = dropWhile (\<lambda>c. \<not> ends_authority_parse c) after"
  have "url_form scheme after = Some parts" using assms Some p by (auto simp: remote_url_parts_def split: if_splits)
  then obtain hp where s: "is_scheme scheme" "split_userinfo a = Some hp"
    "parts = \<lparr>up_host = host_of_port hp, up_path = (case strip_prefix [ch_slash] rest of Some p \<Rightarrow> p | None \<Rightarrow> rest)\<rparr>"
    by (auto simp: url_form_def a_def rest_def Let_def split: option.splits if_splits)
  obtain u where u: "a = u @ hp" "user_text u" "ch_at \<notin> set hp" using split_userinfo_Some [OF s(2)] by blast
  have "list_all (\<lambda>c. \<not> ends_authority_parse c) a" by (simp add: a_def list_all_takeWhile)
  then have "\<not> list_ex ends_authority_parse hp" by (simp add: u(1) list_all_iff list_ex_iff)
  moreover have after: "after = u @ hp @ rest"
    using takeWhile_dropWhile_id [of "\<lambda>c. \<not> ends_authority_parse c" after] u(1) unfolding a_def rest_def by simp
  moreover have "url = scheme @ lit ''://'' @ u @ hp @ rest"
    using split_once_str_Some [OF Some [unfolded p]] after by simp
  moreover have "rest = [] \<or> ends_authority_parse (hd rest)"
    unfolding rest_def using hd_dropWhile [of "\<lambda>c. \<not> ends_authority_parse c" after] by blast
  moreover have "rest = up_path parts \<or> rest = ch_slash # up_path parts"
  proof (cases "strip_prefix [ch_slash] rest")
    case (Some x)
    then have "rest = ch_slash # up_path parts" using strip_prefix_Some [of "[ch_slash]" rest x] by (simp add: s(3))
    then show ?thesis ..
  qed (simp add: s(3))
  ultimately show ?thesis unfolding url_reads_def using s u(2,3) host_of_port_reads [of hp]
    by (intro disjI1 exI [of _ scheme] exI [of _ u] exI [of _ hp] exI [of _ rest]) (simp del: lit_Cons)
qed

lemma github_host_of: "host_matches_provider_domain host (lit ''github.com'') \<Longrightarrow> github_host host"
proof -
  assume m: "host_matches_provider_domain host (lit ''github.com'')"
  define h where "h = (case strip_suffix [ch_dot] host of Some x \<Rightarrow> x | None \<Rightarrow> host)"
  have g: "to_ascii_lowercase (lit ''github.com'') = lit ''github.com''" by code_simp
  have "to_ascii_lowercase h = lit ''github.com'' \<or> ends_with (ch_dot # lit ''github.com'') (to_ascii_lowercase h)"
    using m unfolding host_matches_iff Let_def h_def g .
  moreover have "host = h \<or> host = h @ lit ''.''"
  proof (cases "strip_suffix [ch_dot] host")
    case (Some x)
    then have "host = h @ [ch_dot]" using strip_suffix_Some [of "[ch_dot]" host x] by (simp add: h_def)
    then show ?thesis by simp
  qed (simp add: h_def)
  moreover have "ch_dot # lit ''github.com'' = lit ''.github.com''" by simp
  ultimately show ?thesis unfolding github_host_def ends_with_def suffix_def by metis
qed

lemma plain_segment_of: "is_identity_segment v \<Longrightarrow> plain_segment v"
proof -
  have e: "c \<in> set (lit ''ABCDEFGHIJKLMNOPQRSTUVWXYZabcdefghijklmnopqrstuvwxyz0123456789._-'')"
    if "is_ascii_alphanumeric c \<or> c \<in> set (lit ''._-'')" for c
  proof -
    have "\<forall>c\<in>set [0..<123]. is_ascii_alphanumeric c \<or> c \<in> set (lit ''._-'') \<longrightarrow>
        c \<in> set (lit ''ABCDEFGHIJKLMNOPQRSTUVWXYZabcdefghijklmnopqrstuvwxyz0123456789._-'')" by code_simp
    moreover have "c < 123" using that by (auto simp: ascii_defs)
    then have "c \<in> set [0..<123]" by simp
    ultimately show ?thesis using that by blast
  qed
  assume "is_identity_segment v"
  then have "v \<noteq> []" "v \<noteq> lit ''.''" "v \<noteq> lit ''..''" and a: "\<And>c. c \<in> set v \<Longrightarrow> is_ascii_alphanumeric c \<or> c \<in> set (lit ''._-'')"
    unfolding is_identity_segment_def list_all_iff by auto
  moreover have "\<forall>c\<in>set v. c \<in> set (lit ''ABCDEFGHIJKLMNOPQRSTUVWXYZabcdefghijklmnopqrstuvwxyz0123456789._-'')"
    by (intro ballI e a)
  ultimately show "plain_segment v" unfolding plain_segment_def by blast
qed

lemma split_on_Cons:
  "split_on P s = w # ws \<Longrightarrow> \<not> list_ex P w \<and> (ws = [] \<and> s = w \<or> (\<exists>c t. P c \<and> s = w @ c # t \<and> split_on P t = ws))"
proof (induction s arbitrary: w)
  case (Cons c s)
  show ?case
  proof (cases "P c")
    case False
    obtain v vs where v: "split_on P s = v # vs" using split_on_not_Nil list.exhaust by metis
    then have "w = c # v" "ws = vs" using Cons.prems False by auto
    then show ?thesis using Cons.IH [of v] v False by auto
  qed (use Cons.prems in auto)
qed auto

text \<open>What the owner and the name are in the path: its first two segments.\<close>

definition path_names :: "rstring \<Rightarrow> rstring \<Rightarrow> rstring \<Rightarrow> bool" where
  "path_names path owner name \<longleftrightarrow>
    (\<exists>tail. (path = owner @ ch_slash # name @ tail \<or> path = owner @ ch_slash # name @ lit ''.git'' @ tail) \<and>
      (tail = [] \<or> hd tail \<in> {ch_slash, 63, ch_hash}))"

lemma github_owner_name_path:
  assumes "github_owner_name path0 = Some (owner, name)" shows "path_names path0 owner name"
proof -
  define path1 where "path1 = hd (split_on (\<lambda>c. c = 63 \<or> c = ch_hash) path0)"
  define path where "path = (case strip_suffix [ch_slash] path1 of Some p \<Rightarrow> p | None \<Rightarrow> path1)"
  obtain q where q: "path0 = path1 @ q" "q = [] \<or> hd q \<in> {63, ch_hash}"
    using split_on_Cons [of "\<lambda>c. c = 63 \<or> c = ch_hash" path0 path1 "tl (split_on (\<lambda>c. c = 63 \<or> c = ch_hash) path0)"]
    by (auto simp: path1_def)
  obtain z where z: "path1 = path @ z" "z = [] \<or> z = [ch_slash]"
    unfolding path_def by (cases "strip_suffix [ch_slash] path1") (auto simp: strip_suffix_Some)
  define parts where "parts = split_on (\<lambda>c. c = ch_slash) path"
  define raw where "raw = (case tl parts of [] \<Rightarrow> [] | n # _ \<Rightarrow> n)"
  have o: "owner = hd parts" and n: "is_identity_segment name" and r: "name = drop_git raw \<and> drop 2 parts = [] \<or> name = raw"
    using assms by (auto simp: github_owner_name_def Let_def path1_def path_def parts_def raw_def split: if_splits option.splits)
  have "raw \<noteq> []" using r n by (auto simp: is_identity_segment_def drop_git_def strip_suffix_Some split: option.splits)
  then obtain rest where p: "parts = owner # raw # rest"
    using o unfolding raw_def by (cases parts; cases "tl parts") auto
  obtain t where t: "path = owner @ ch_slash # t" "split_on (\<lambda>c. c = ch_slash) t = raw # rest"
    using split_on_Cons [OF p [unfolded parts_def]] by auto
  obtain e where e: "t = raw @ e" "e = [] \<or> hd e = ch_slash" using split_on_Cons [OF t(2)] by auto
  have "raw = name \<or> raw = name @ lit ''.git''"
    using r unfolding drop_git_def by (cases "strip_suffix (lit ''.git'') raw") (auto simp: strip_suffix_Some simp del: lit_Cons)
  moreover have "path0 = owner @ ch_slash # raw @ (e @ z @ q)" using q(1) z(1) t(1) e(1) by simp
  moreover have "e @ z @ q = [] \<or> hd (e @ z @ q) \<in> {ch_slash, 63, ch_hash}"
    using q(2) z(2) e(2) by (cases e; cases z; cases q) auto
  ultimately show ?thesis unfolding path_names_def by (metis append.assoc)
qed



text \<open>A path with a colon after a slash, which git takes for a directory, is read as a host: the name of a directory decides it.\<close>

lemma slash_before_colon_read:
  "github_repository_from_remote_url (lit ''/srv/x.github.com:o/r'') = Some (lit ''o/r'')"
  "github_repository_from_remote_url (lit ''https://evilgithub.com/o/r'') = None"
  by code_simp+

end
