(* ===== verification/Private_Files.thy ===== *)
theory Private_Files
  imports Rust_Num "HOL-Library.Word"
begin

text \<open>
  Private files (\<open>amplihack-utils/src/secure_files.rs\<close> and \<open>secure_files/unix.rs\<close>) over a small file
  system.  A path is the list of names below the profile root (the root is \<open>[]\<close>), a state of the file system maps
  paths to nodes.  What the operating system decides is in the record of the process: its user, its umask, the
  private group, the lock, and which calls fail.  A failing call changes nothing; a temporary file is left
  out, since every failure removes it.
\<close>

unbundle bit_operations_syntax

section \<open>The file system\<close>

type_synonym path = "rstring list"

record meta =
  m_uid :: nat
  m_gid :: nat
  m_mode :: "32 word"
  m_nlink :: nat
  m_mtime :: int

datatype node = Dir meta | File meta "nat list" | Symlink meta | Special meta

type_synonym files = "path \<Rightarrow> node option"

fun node_meta :: "node \<Rightarrow> meta" where
  "node_meta (Dir m) = m"
| "node_meta (File m _) = m"
| "node_meta (Symlink m) = m"
| "node_meta (Special m) = m"

definition is_dir :: "node \<Rightarrow> bool" where
  "is_dir n = (case n of Dir _ \<Rightarrow> True | _ \<Rightarrow> False)"

definition is_file :: "node \<Rightarrow> bool" where
  "is_file n = (case n of File _ _ \<Rightarrow> True | _ \<Rightarrow> False)"

datatype file_error = Not_found | Already_exists | Invalid_data | Invalid_input | Timed_out | Other_error

datatype syscall = Sys_stat | Sys_open | Sys_read | Sys_create | Sys_mkdir | Sys_sync | Sys_sync_dir
  | Sys_write | Sys_rename | Sys_unlink | Sys_list

record proc_env =
  p_euid :: nat
  p_gid :: nat
  p_umask :: "32 word"
  p_private_group :: "nat \<Rightarrow> bool"
  p_clock :: int
  p_lock :: bool
  p_fails :: "syscall \<Rightarrow> path \<Rightarrow> bool"

section \<open>Checks on metadata\<close>

definition owned_by_euid :: "proc_env \<Rightarrow> meta \<Rightarrow> bool" where
  "owned_by_euid pr m = (m_uid m = p_euid pr)"

definition mode_lets_others_write :: "32 word \<Rightarrow> bool \<Rightarrow> bool" where
  "mode_lets_others_write mode group_is_private = (mode AND 2 \<noteq> 0 \<or> (mode AND 16 \<noteq> 0 \<and> \<not> group_is_private))"

definition writable_by_others :: "proc_env \<Rightarrow> meta \<Rightarrow> bool" where
  "writable_by_others pr m =
    mode_lets_others_write (m_mode m) (m_mode m AND 16 \<noteq> 0 \<and> p_private_group pr (m_gid m))"

text \<open>The octal modes: \<open>0o600\<close>, \<open>0o700\<close>, and the masks \<open>0o002\<close> (2), \<open>0o020\<close> (16), \<open>0o077\<close> (63).\<close>

abbreviation mode_600 :: "32 word" where "mode_600 \<equiv> 384"
abbreviation mode_700 :: "32 word" where "mode_700 \<equiv> 448"

definition private_mode :: "32 word \<Rightarrow> bool" where
  "private_mode mode = (mode AND 63 = 0)"

definition check_private_file :: "proc_env \<Rightarrow> node \<Rightarrow> (file_error, unit) result" where
  "check_private_file pr n =
    (if \<not> is_file n then Inl Invalid_data
     else if \<not> owned_by_euid pr (node_meta n) then Inl Invalid_data
     else if m_nlink (node_meta n) \<noteq> 1 then Inl Invalid_data
     else if \<not> private_mode (m_mode (node_meta n)) then Inl Invalid_data
     else Inr ())"

section \<open>Calls\<close>

definition lstat :: "proc_env \<Rightarrow> files \<Rightarrow> path \<Rightarrow> (file_error, node) result" where
  "lstat pr fs p =
    (if p_fails pr Sys_stat p then Inl Other_error
     else (case fs p of None \<Rightarrow> Inl Not_found | Some n \<Rightarrow> Inr n))"

definition read_bounded_nofollow ::
  "proc_env \<Rightarrow> files \<Rightarrow> path \<Rightarrow> nat \<Rightarrow> (file_error, (nat list \<times> meta) option) result" where
  "read_bounded_nofollow pr fs p limit =
    (if p_fails pr Sys_open p then Inl Other_error
     else (case fs p of
             None \<Rightarrow> Inr None
           | Some (File m bytes) \<Rightarrow>
               if p_fails pr Sys_read p then Inl Other_error
               else if limit < length bytes then Inl Invalid_data
               else Inr (Some (bytes, m))
           | Some _ \<Rightarrow> Inl Invalid_data))"

definition has_parent :: "files \<Rightarrow> path \<Rightarrow> bool" where
  "has_parent fs p = (p \<noteq> [] \<and> (case fs (butlast p) of Some n \<Rightarrow> is_dir n | None \<Rightarrow> False))"

definition new_meta :: "proc_env \<Rightarrow> 32 word \<Rightarrow> meta" where
  "new_meta pr mode =
    \<lparr>m_uid = p_euid pr, m_gid = p_gid pr, m_mode = mode AND NOT (p_umask pr), m_nlink = 1, m_mtime = p_clock pr\<rparr>"

definition open_private_nofollow :: "proc_env \<Rightarrow> files \<Rightarrow> path \<Rightarrow> (file_error, unit) result \<times> files" where
  "open_private_nofollow pr fs p =
    (if p_fails pr Sys_open p then (Inl Other_error, fs)
     else (case fs p of
             Some (Symlink _) \<Rightarrow> (Inl Invalid_data, fs)
           | Some n \<Rightarrow> (check_private_file pr n, fs)
           | None \<Rightarrow>
               if has_parent fs p
               then (check_private_file pr (File (new_meta pr mode_600) []), fs(p \<mapsto> File (new_meta pr mode_600) []))
               else (Inl Not_found, fs)))"

text \<open>\<open>OpenOptions::create_new(true).mode(0o600).open(p)\<close>\<close>

definition create_new :: "proc_env \<Rightarrow> files \<Rightarrow> path \<Rightarrow> (file_error, unit) result \<times> files" where
  "create_new pr fs p =
    (if p_fails pr Sys_create p then (Inl Other_error, fs)
     else if fs p \<noteq> None then (Inl Already_exists, fs)
     else if has_parent fs p then (Inr (), fs(p \<mapsto> File (new_meta pr mode_600) []))
     else (Inl Not_found, fs))"

definition fsync_dir :: "proc_env \<Rightarrow> files \<Rightarrow> path \<Rightarrow> (file_error, unit) result" where
  "fsync_dir pr fs p =
    (if p_fails pr Sys_sync_dir p then Inl Other_error
     else (case fs p of Some (Dir _) \<Rightarrow> Inr () | None \<Rightarrow> Inl Not_found | Some _ \<Rightarrow> Inl Other_error))"

definition check_replaceable :: "proc_env \<Rightarrow> files \<Rightarrow> path \<Rightarrow> (file_error, meta option) result" where
  "check_replaceable pr fs p =
    (case lstat pr fs p of
       Inl e \<Rightarrow> if e = Not_found then Inr None else Inl e
     | Inr n \<Rightarrow>
         if \<not> is_file n then Inl Invalid_data
         else if \<not> owned_by_euid pr (node_meta n) then Inl Invalid_data
         else Inr (Some (node_meta n)))"

definition write_atomic ::
  "proc_env \<Rightarrow> files \<Rightarrow> path \<Rightarrow> rstring \<Rightarrow> nat list \<Rightarrow> 32 word \<Rightarrow> bool \<Rightarrow> (file_error, unit) result \<times> files" where
  "write_atomic pr fs dir name bytes mode sync =
    (let p = dir @ [name]
     in if \<not> has_parent fs p \<or> p_fails pr Sys_write p then (Inl Other_error, fs)
        else if p_fails pr Sys_rename p then (Inl Other_error, fs)
        else (let fs' = fs(p \<mapsto> File ((new_meta pr mode)\<lparr>m_mode := mode\<rparr>) bytes)
              in (if sync then fsync_dir pr fs' dir else Inr (), fs')))"

definition write_private_atomic ::
  "proc_env \<Rightarrow> files \<Rightarrow> path \<Rightarrow> rstring \<Rightarrow> nat list \<Rightarrow> (file_error, unit) result \<times> files" where
  "write_private_atomic pr fs dir name bytes =
    (case check_replaceable pr fs (dir @ [name]) of
       Inl e \<Rightarrow> (Inl e, fs) | Inr _ \<Rightarrow> write_atomic pr fs dir name bytes mode_600 True)"

definition write_private_atomic_nosync ::
  "proc_env \<Rightarrow> files \<Rightarrow> path \<Rightarrow> rstring \<Rightarrow> nat list \<Rightarrow> (file_error, unit) result \<times> files" where
  "write_private_atomic_nosync pr fs dir name bytes =
    (case check_replaceable pr fs (dir @ [name]) of
       Inl e \<Rightarrow> (Inl e, fs) | Inr _ \<Rightarrow> write_atomic pr fs dir name bytes mode_600 False)"

definition check_private_dir :: "proc_env \<Rightarrow> files \<Rightarrow> path \<Rightarrow> (file_error, unit) result" where
  "check_private_dir pr fs p =
    (case lstat pr fs p of
       Inl e \<Rightarrow> Inl e
     | Inr n \<Rightarrow>
         if \<not> is_dir n then Inl Invalid_data
         else if \<not> owned_by_euid pr (node_meta n) \<or> \<not> private_mode (m_mode (node_meta n)) then Inl Invalid_data
         else Inr ())"

definition ensure_private_dir :: "proc_env \<Rightarrow> files \<Rightarrow> path \<Rightarrow> (file_error, unit) result \<times> files" where
  "ensure_private_dir pr fs p =
    (if p_fails pr Sys_mkdir p then (Inl Other_error, fs)
     else if fs p \<noteq> None then (check_private_dir pr fs p, fs)
     else if has_parent fs p
     then (let fs' = fs(p \<mapsto> Dir (new_meta pr mode_700)) in (fsync_dir pr fs' (butlast p), fs'))
     else (Inl Not_found, fs))"

definition lock_exclusive_timeout :: "proc_env \<Rightarrow> (file_error, unit) result" where
  "lock_exclusive_timeout pr = (if p_lock pr then Inr () else Inl Timed_out)"

section \<open>Facts\<close>

text \<open>Each operation touches at most the path it names.\<close>

named_theorems frame \<open>what the file operations leave alone\<close>

lemma ensure_private_dir_other [frame]: "q \<noteq> p \<Longrightarrow> snd (ensure_private_dir pr fs p) q = fs q"
  by (simp add: ensure_private_dir_def Let_def)

lemma ensure_private_dir_keeps [frame]: "fs q = Some n \<Longrightarrow> snd (ensure_private_dir pr fs p) q = Some n"
  by (auto simp: ensure_private_dir_def Let_def)

lemma open_private_other [frame]: "q \<noteq> p \<Longrightarrow> snd (open_private_nofollow pr fs p) q = fs q"
  by (auto simp: open_private_nofollow_def split: option.splits node.splits)

lemma open_private_keeps [frame]: "fs q = Some n \<Longrightarrow> snd (open_private_nofollow pr fs p) q = Some n"
  by (auto simp: open_private_nofollow_def split: option.splits node.splits)

lemma create_new_other [frame]: "q \<noteq> p \<Longrightarrow> snd (create_new pr fs p) q = fs q"
  by (simp add: create_new_def)

lemma create_new_ok: "create_new pr fs p = (Inr (), fs') \<Longrightarrow> fs p = None \<and> fs' = fs(p \<mapsto> File (new_meta pr mode_600) [])"
  by (auto simp: create_new_def split: if_splits)

lemma write_atomic_other [frame]: "q \<noteq> dir @ [name] \<Longrightarrow> snd (write_atomic pr fs dir name bytes mode sync) q = fs q"
  by (simp add: write_atomic_def Let_def)

lemma write_private_other [frame]: "q \<noteq> dir @ [name] \<Longrightarrow> snd (write_private_atomic pr fs dir name bytes) q = fs q"
  by (auto simp: write_private_atomic_def frame split: sum.splits)

lemma write_nosync_other [frame]: "q \<noteq> dir @ [name] \<Longrightarrow> snd (write_private_atomic_nosync pr fs dir name bytes) q = fs q"
  by (auto simp: write_private_atomic_nosync_def frame split: sum.splits)

text \<open>Even when the write reports an error, the file holds the old or the new bytes.\<close>

lemma write_private_atomic_all_or_nothing:
  "write_private_atomic pr fs dir name bytes = (r, fs') \<Longrightarrow>
   fs' = fs \<and> r \<noteq> Inr () \<or> fs' = fs(dir @ [name] \<mapsto> File ((new_meta pr mode_600)\<lparr>m_mode := mode_600\<rparr>) bytes)"
  by (auto simp: write_private_atomic_def write_atomic_def Let_def split: sum.splits if_splits)

lemma private_600: "private_mode mode_600"
  by (simp add: private_mode_def)

section \<open>A sample\<close>

text \<open>A profile root of the user with nothing in it, and a process in which nothing fails.\<close>

definition sample_proc :: proc_env where
  "sample_proc = \<lparr>p_euid = 1000, p_gid = 1000, p_umask = 18, p_private_group = (\<lambda>_. False), p_clock = 1700000000,
     p_lock = True, p_fails = (\<lambda>_ _. False)\<rparr>"

definition sample_root :: files where
  "sample_root = (\<lambda>p. if p = [] then Some (Dir (new_meta sample_proc mode_700)) else None)"

end
