(* ===== verification/Switch_Toggle.thy ===== *)
theory Switch_Toggle
  imports Private_Files Rust_Path "HOL-Library.List_Lexorder"
begin

text \<open>
  The auto-switch toggle file: its grammar (\<open>amplihack-utils/src/rotator_status/gate.rs\<close>), the settings the CLI
  keeps in it and writes back (\<open>amplihack-cli/src/commands/profile/auto_switch/config.rs\<close>), the kind of a profile
  (\<open>profile/kind.rs\<close>) and the overflow tiers (\<open>profile/overflow.rs\<close>).  A wrong reading of this file costs
  money: it says which logins may be used and which of them are billed.
\<close>

section \<open>Names\<close>

definition max_name :: nat where "max_name = 64"

definition reserved_names :: "rstring list" where
  "reserved_names = map lit [''CON'', ''PRN'', ''AUX'', ''NUL'', ''CONIN$'', ''CONOUT$'']"

definition to_ascii_uppercase :: "rstring \<Rightarrow> rstring" where
  "to_ascii_uppercase s = map (\<lambda>c. if is_ascii_lowercase c then c - 32 else c) s"

definition is_windows_reserved :: "rstring \<Rightarrow> bool" where
  "is_windows_reserved name =
    (let stem = to_ascii_uppercase (hd (split_on (\<lambda>c. c = ch_dot) name))
     in stem \<in> set reserved_names \<or>
        list_ex (\<lambda>p. case strip_prefix p stem of Some [d] \<Rightarrow> 49 \<le> d \<and> d \<le> 57 | _ \<Rightarrow> False) [lit ''COM'', lit ''LPT''])"

definition valid_live_name :: "rstring \<Rightarrow> bool" where
  "valid_live_name raw =
    (case raw of
       [] \<Rightarrow> False
     | first # rest \<Rightarrow>
         utf8_len raw \<le> max_name \<and> is_ascii_alphanumeric first \<and>
         list_all (\<lambda>c. is_ascii_alphanumeric c \<or> c \<in> {ch_dot, ch_underscore, ch_dash}) rest \<and>
         \<not> str_contains (lit ''..'') raw \<and> \<not> ends_with [ch_dot] raw \<and> \<not> is_windows_reserved raw)"

section \<open>The grammar of the toggle file\<close>

definition max_toggle_bytes :: nat where "max_toggle_bytes = 4096"
definition default_threshold :: nat where "default_threshold = 90"
definition default_tier :: nat where "default_tier = 1"

record toggle =
  tg_enabled :: bool
  tg_threshold :: nat
  tg_exclude :: "rstring list"
  tg_overflow :: "(rstring \<times> nat) list"
  tg_kind :: "(rstring \<times> rstring) list"
  tg_unknown_kind :: bool

datatype 'a file_state = Missing | Valid 'a | Corrupt

datatype env_switch = Env_unset | Env_on | Env_off | Env_invalid

definition env_toggle :: "rstring option \<Rightarrow> env_switch" where
  "env_toggle raw =
    (case raw of None \<Rightarrow> Env_unset
     | Some v \<Rightarrow> if v = [] then Env_unset else if v = lit ''1'' then Env_on
         else if v = lit ''0'' then Env_off else Env_invalid)"

definition kind_value :: "rstring \<Rightarrow> rstring option" where
  "kind_value raw =
    (if raw = lit ''platform'' \<or> raw = lit ''api-key'' then Some (lit ''platform'')
     else if raw = lit ''subscription'' then Some (lit ''subscription'') else None)"

text \<open>One entry: the entries kept, whether one was skipped, and the names seen.\<close>

definition kind_step ::
  "(rstring \<times> rstring) list \<times> bool \<times> rstring list \<Rightarrow> rstring \<Rightarrow>
   (rstring, (rstring \<times> rstring) list \<times> bool \<times> rstring list) result" where
  "kind_step st raw =
    (case st of (out, unknown, seen) \<Rightarrow>
     (case split_once ch_colon raw of
        None \<Rightarrow> Inl (lit ''kind entry without '' @ [ch_squote, ch_colon, ch_squote])
      | Some (name, kind) \<Rightarrow>
          if \<not> valid_live_name name then Inl (lit ''invalid profile name in kind'')
          else if name \<in> set seen then Inl (lit ''repeated profile name in kind'')
          else (case kind_value kind of
                  Some k \<Rightarrow> Inr (out @ [(name, k)], unknown, seen @ [name])
                | None \<Rightarrow> Inr (out, True, seen @ [name]))))"

definition parse_kind :: "rstring \<Rightarrow> (rstring, (rstring \<times> rstring) list \<times> bool) result" where
  "parse_kind v =
    (if v = [] then Inr ([], False)
     else (case try_fold kind_step ([], False, []) (split_on (\<lambda>c. c = 44) v) of
             Inl e \<Rightarrow> Inl e | Inr (out, unknown, _) \<Rightarrow> Inr (out, unknown)))"

definition parse_threshold :: "rstring \<Rightarrow> (rstring, nat) result" where
  "parse_threshold v =
    (case parse_digits 8 v of
       Some n \<Rightarrow> if 1 \<le> n \<and> n \<le> 100 then Inr n else Inl (lit ''threshold must be a whole number from 1 to 100'')
     | None \<Rightarrow> Inl (lit ''threshold must be a whole number from 1 to 100''))"

definition parse_exclude :: "rstring \<Rightarrow> (rstring, rstring list) result" where
  "parse_exclude v =
    (if v = [] then Inr []
     else try_map (\<lambda>n. if valid_live_name n then Inr n else Inl (lit ''invalid profile name in exclude''))
       (split_on (\<lambda>c. c = 44) v))"

definition parse_overflow_entry :: "rstring \<Rightarrow> (rstring, rstring \<times> nat) result" where
  "parse_overflow_entry raw =
    and_then
      (case split_once ch_colon raw of
         None \<Rightarrow> Inr (raw, default_tier)
       | Some (name, t) \<Rightarrow>
           (case utf8_bytes t of
              [d] \<Rightarrow> if 49 \<le> d \<and> d \<le> 57 then Inr (name, d - 48) else Inl (lit ''overflow tier must be a digit from 1 to 9'')
            | _ \<Rightarrow> Inl (lit ''overflow tier must be a digit from 1 to 9'')))
      (\<lambda>(name, tier). if valid_live_name name then Inr (name, tier) else Inl (lit ''invalid profile name in overflow''))"

definition overflow_step ::
  "(rstring \<times> nat) list \<Rightarrow> rstring \<Rightarrow> (rstring, (rstring \<times> nat) list) result" where
  "overflow_step out raw =
    and_then (parse_overflow_entry raw)
      (\<lambda>entry. if fst entry \<in> fst ` set out then Inl (lit ''repeated profile name in overflow'') else Inr (out @ [entry]))"

definition parse_overflow :: "rstring \<Rightarrow> (rstring, (rstring \<times> nat) list) result" where
  "parse_overflow v = (if v = [] then Inr [] else try_fold overflow_step [] (split_on (\<lambda>c. c = 44) v))"

text \<open>What the keys read so far gave.\<close>

record toggle_keys =
  tk_enabled :: "bool option"
  tk_threshold :: "nat option"
  tk_exclude :: "rstring list option"
  tk_overflow :: "(rstring \<times> nat) list option"
  tk_kind :: "((rstring \<times> rstring) list \<times> bool) option"

definition no_keys :: toggle_keys where
  "no_keys = \<lparr>tk_enabled = None, tk_threshold = None, tk_exclude = None, tk_overflow = None, tk_kind = None\<rparr>"

text \<open>\<open>slot.replace(v).is_some()\<close> with the error of a repeated key.\<close>

definition put_once :: "'a option \<Rightarrow> 's \<Rightarrow> (rstring, 's) result" where
  "put_once old st = (if old \<noteq> None then Inl (lit ''repeated key'') else Inr st)"

definition toggle_line :: "toggle_keys \<Rightarrow> rstring \<Rightarrow> (rstring, toggle_keys) result" where
  "toggle_line st line =
    (case split_once ch_eq line of
       None \<Rightarrow> Inl (lit ''line without '' @ [ch_squote, ch_eq, ch_squote])
     | Some (key, v) \<Rightarrow>
         if key = lit ''enabled'' then
           (if v = lit ''on'' then put_once (tk_enabled st) (st\<lparr>tk_enabled := Some True\<rparr>)
            else if v = lit ''off'' then put_once (tk_enabled st) (st\<lparr>tk_enabled := Some False\<rparr>)
            else Inl (lit ''enabled must be on or off''))
         else if key = lit ''threshold'' then
           and_then (parse_threshold v) (\<lambda>n. put_once (tk_threshold st) (st\<lparr>tk_threshold := Some n\<rparr>))
         else if key = lit ''exclude'' then
           and_then (parse_exclude v) (\<lambda>ns. put_once (tk_exclude st) (st\<lparr>tk_exclude := Some ns\<rparr>))
         else if key = lit ''overflow'' then
           and_then (parse_overflow v) (\<lambda>es. put_once (tk_overflow st) (st\<lparr>tk_overflow := Some es\<rparr>))
         else if key = lit ''kind'' then
           and_then (parse_kind v) (\<lambda>ks. put_once (tk_kind st) (st\<lparr>tk_kind := Some ks\<rparr>))
         else Inl (lit ''unknown key''))"

definition option_or :: "'a \<Rightarrow> 'a option \<Rightarrow> 'a" where
  "option_or d x = (case x of Some v \<Rightarrow> v | None \<Rightarrow> d)"

definition toggle_of :: "toggle_keys \<Rightarrow> (rstring, toggle) result" where
  "toggle_of st =
    (case tk_enabled st of
       None \<Rightarrow> Inl (lit ''missing enabled'')
     | Some e \<Rightarrow> Inr \<lparr>tg_enabled = e, tg_threshold = option_or default_threshold (tk_threshold st),
         tg_exclude = option_or [] (tk_exclude st), tg_overflow = option_or [] (tk_overflow st),
         tg_kind = fst (option_or ([], False) (tk_kind st)), tg_unknown_kind = snd (option_or ([], False) (tk_kind st))\<rparr>)"

definition parse_toggle :: "nat list \<Rightarrow> (rstring, toggle) result" where
  "parse_toggle raw =
    (if max_toggle_bytes < length raw then Inl (lit ''file too large'')
     else (case from_utf8 raw of
             None \<Rightarrow> Inl (lit ''not valid UTF-8'')
           | Some text0 \<Rightarrow>
               (let body = (case strip_suffix [ch_nl] text0 of Some b \<Rightarrow> b | None \<Rightarrow> text0)
                in and_then (try_fold toggle_line no_keys (split_on (\<lambda>c. c = ch_nl) body)) toggle_of)))"


definition toggle_file :: rstring where "toggle_file = lit ''.auto-switch''"

definition read_toggle :: "proc_env \<Rightarrow> files \<Rightarrow> toggle file_state" where
  "read_toggle pr fs =
    (case read_bounded_nofollow pr fs [toggle_file] max_toggle_bytes of
       Inr None \<Rightarrow> Missing
     | Inr (Some (raw, m)) \<Rightarrow>
         if owned_by_euid pr m \<and> \<not> writable_by_others pr m
         then (case parse_toggle raw of Inr t \<Rightarrow> Valid t | Inl _ \<Rightarrow> Corrupt)
         else Corrupt
     | Inl _ \<Rightarrow> Corrupt)"

definition auto_switch_on_from :: "proc_env \<Rightarrow> rstring option \<Rightarrow> files \<Rightarrow> bool" where
  "auto_switch_on_from pr env fs =
    (case env_toggle env of
       Env_on \<Rightarrow> True
     | Env_off \<Rightarrow> False
     | _ \<Rightarrow> (case read_toggle pr fs of Valid t \<Rightarrow> tg_enabled t | _ \<Rightarrow> False))"

section \<open>The settings of the CLI\<close>

datatype kind = Subscription | Platform

definition kind_stored :: "kind \<Rightarrow> rstring" where
  "kind_stored k = (case k of Subscription \<Rightarrow> lit ''subscription'' | Platform \<Rightarrow> lit ''platform'')"

definition kind_parse :: "rstring \<Rightarrow> kind option" where
  "kind_parse raw =
    (if raw = lit ''subscription'' then Some Subscription
     else if raw = lit ''platform'' \<or> raw = lit ''api-key'' then Some Platform else None)"

record overflow_entry =
  oe_name :: rstring
  oe_tier :: nat

text \<open>A \<open>BTreeMap\<close> is its entries in key order.\<close>

fun btree_insert :: "'k::linorder \<Rightarrow> 'v \<Rightarrow> ('k \<times> 'v) list \<Rightarrow> ('k \<times> 'v) list" where
  "btree_insert k v [] = [(k, v)]"
| "btree_insert k v ((k', v') # r) =
    (if k < k' then (k, v) # (k', v') # r else if k = k' then (k, v) # r else (k', v') # btree_insert k v r)"

record config =
  c_enabled :: bool
  c_threshold :: nat
  c_exclude :: "rstring list"
  c_overflow :: "overflow_entry list"
  c_kind :: "(rstring \<times> kind) list"

definition default_config :: config where
  "default_config = \<lparr>c_enabled = False, c_threshold = default_threshold, c_exclude = [], c_overflow = [], c_kind = []\<rparr>"

text \<open>\<open>ProfileName::parse\<close>; a profile name is its text.\<close>

definition profile_name_parse :: "rstring \<Rightarrow> (rstring, rstring) result" where
  "profile_name_parse raw = (if \<not> valid_live_name raw then Inl raw else Inr raw)"

definition map_err :: "('e \<Rightarrow> 'f) \<Rightarrow> ('e, 'a) result \<Rightarrow> ('f, 'a) result" where
  "map_err f r = (case r of Inl e \<Rightarrow> Inl (f e) | Inr x \<Rightarrow> Inr x)"

definition kind_entry :: "(rstring \<times> kind) list \<Rightarrow> rstring \<times> rstring \<Rightarrow> (rstring, (rstring \<times> kind) list) result" where
  "kind_entry ks nk =
    and_then (map_err (\<lambda>_. lit ''invalid profile name in kind'') (profile_name_parse (fst nk)))
      (\<lambda>name. case kind_parse (snd nk) of None \<Rightarrow> Inl (lit ''unknown kind'') | Some k \<Rightarrow> Inr (btree_insert name k ks))"

definition from_toggle :: "toggle \<Rightarrow> (rstring, config) result" where
  "from_toggle t =
    and_then (try_map (\<lambda>n. map_err (\<lambda>_. lit ''invalid profile name in exclude'') (profile_name_parse n)) (tg_exclude t)) (\<lambda>exclude.
    and_then (try_map (\<lambda>(n, tier). map_err (\<lambda>_. lit ''invalid profile name in overflow'')
        (and_then (profile_name_parse n) (\<lambda>name. Inr \<lparr>oe_name = name, oe_tier = tier\<rparr>))) (tg_overflow t)) (\<lambda>overflow.
    if tg_unknown_kind t then Inl (lit ''unknown kind'')
    else and_then (try_fold kind_entry [] (tg_kind t)) (\<lambda>kind.
      Inr \<lparr>c_enabled = tg_enabled t, c_threshold = tg_threshold t, c_exclude = exclude, c_overflow = overflow, c_kind = kind\<rparr>)))"

definition render_overflow :: "overflow_entry \<Rightarrow> rstring" where
  "render_overflow e =
    (if oe_tier e = default_tier then oe_name e else oe_name e @ [ch_colon] @ show_radix 10 (oe_tier e))"

definition render_kind :: "rstring \<times> kind \<Rightarrow> rstring" where
  "render_kind nk = fst nk @ [ch_colon] @ kind_stored (snd nk)"

definition render :: "config \<Rightarrow> rstring" where
  "render c =
    lit ''enabled='' @ (if c_enabled c then lit ''on'' else lit ''off'') @ [ch_nl] @
    lit ''threshold='' @ show_radix 10 (c_threshold c) @ [ch_nl] @
    lit ''exclude='' @ join (lit '','') (c_exclude c) @ [ch_nl] @
    (if c_overflow c \<noteq> [] then lit ''overflow='' @ join (lit '','') (map render_overflow (c_overflow c)) @ [ch_nl] else []) @
    (if c_kind c \<noteq> [] then lit ''kind='' @ join (lit '','') (map render_kind (c_kind c)) @ [ch_nl] else [])"

definition read_config :: "proc_env \<Rightarrow> files \<Rightarrow> config file_state" where
  "read_config pr fs =
    (case read_toggle pr fs of
       Missing \<Rightarrow> Missing
     | Valid t \<Rightarrow> (case from_toggle t of Inl _ \<Rightarrow> Corrupt | Inr c \<Rightarrow> Valid c)
     | Corrupt \<Rightarrow> Corrupt)"

datatype source = From_env | From_file | From_default | From_corrupt

record effective =
  ef_on :: bool
  ef_source :: source
  ef_config :: config

definition effective_from :: "env_switch \<Rightarrow> config file_state \<Rightarrow> effective" where
  "effective_from env file =
    (let config = (case file of Valid c \<Rightarrow> c | _ \<Rightarrow> default_config);
         (on, source) =
           (case env of
              Env_on \<Rightarrow> (True, From_env)
            | Env_off \<Rightarrow> (False, From_env)
            | _ \<Rightarrow> (case file of Valid c \<Rightarrow> (c_enabled c, From_file) | Missing \<Rightarrow> (False, From_default)
                     | Corrupt \<Rightarrow> (False, From_corrupt)))
     in \<lparr>ef_on = on, ef_source = source, ef_config = config\<rparr>)"

datatype read_mode = Default_on_invalid | Editable

datatype 'e profile_error = Auto_switch_config rstring | State_error | Edit_error 'e

definition read_editable :: "proc_env \<Rightarrow> files \<Rightarrow> ('e profile_error, config) result" where
  "read_editable pr fs =
    (case read_config pr fs of
       Valid c \<Rightarrow> Inr c
     | Missing \<Rightarrow> Inr default_config
     | Corrupt \<Rightarrow> Inl (Auto_switch_config (lit ''.auto-switch is unreadable or invalid'')))"

text \<open>The root must be a real directory of the user that others cannot write (\<open>fsx::check_root_private\<close>).\<close>

definition check_root_private :: "proc_env \<Rightarrow> files \<Rightarrow> bool" where
  "check_root_private pr fs =
    (case lstat pr fs [] of
       Inl _ \<Rightarrow> False
     | Inr n \<Rightarrow> is_dir n \<and> owned_by_euid pr (node_meta n) \<and> \<not> writable_by_others pr (node_meta n))"

definition write_config :: "proc_env \<Rightarrow> files \<Rightarrow> config \<Rightarrow> ('e profile_error, unit) result \<times> files" where
  "write_config pr fs c =
    (if \<not> check_root_private pr fs then (Inl (Auto_switch_config (lit ''profile root'')), fs)
     else (case write_private_atomic pr fs [] toggle_file (utf8_bytes (render c)) of
             (Inl _, fs') \<Rightarrow> (Inl (Auto_switch_config (lit ''.auto-switch'')), fs')
           | (Inr _, fs') \<Rightarrow> (Inr (), fs')))"

text \<open>Where an edit starts: the settings before (if the file has some) and the ones to change.\<close>

definition edit_start :: "proc_env \<Rightarrow> files \<Rightarrow> read_mode \<Rightarrow> ('e profile_error, config option \<times> config) result" where
  "edit_start pr fs rmode =
    (case rmode of
       Editable \<Rightarrow>
         (case (read_editable pr fs :: ('e profile_error, config) result) of
            Inl _ \<Rightarrow> Inl (Auto_switch_config (lit ''.auto-switch is unreadable or invalid; not changed''))
          | Inr c \<Rightarrow> Inr (Some c, c))
     | Default_on_invalid \<Rightarrow>
         (case read_config pr fs of Valid c \<Rightarrow> Inr (Some c, c) | _ \<Rightarrow> Inr (None, default_config)))"

text \<open>
  \<open>update_within\<close> under the state lock: \<open>locked\<close> is what taking it gave (\<open>None\<close>: no state directory,
  \<open>Some False\<close>: held by another process).  The line in the change log is left out.
\<close>

definition update_within ::
  "proc_env \<Rightarrow> files \<Rightarrow> bool option \<Rightarrow> read_mode \<Rightarrow> (config \<Rightarrow> ('e, config) result) \<Rightarrow>
   ('e profile_error, config) result \<times> files" where
  "update_within pr fs locked rmode f =
    (case locked of
       None \<Rightarrow> (Inl State_error, fs)
     | Some False \<Rightarrow> (Inl (Auto_switch_config (lit ''.auto-switch is being changed by another process'')), fs)
     | Some True \<Rightarrow>
         (case edit_start pr fs rmode of
            Inl e \<Rightarrow> (Inl e, fs)
          | Inr (before, c0) \<Rightarrow>
              (case f c0 of
                 Inl e \<Rightarrow> (Inl (Edit_error e), fs)
               | Inr c \<Rightarrow>
                   if before = Some c then (Inr c, fs)
                   else if max_toggle_bytes < utf8_len (render c)
                   then (Inl (Auto_switch_config (lit ''.auto-switch would be larger than 4096 bytes; not changed'')), fs)
                   else (case write_config pr fs c of
                           (Inl e, fs') \<Rightarrow> (Inl e, fs')
                         | (Inr _, fs') \<Rightarrow> (Inr c, fs')))))"

section \<open>Kinds\<close>

datatype login_kind = Login_missing | Login_oauth | Login_no_oauth | Login_unreadable

record evidence =
  ev_override :: "kind option"
  ev_own_login :: login_kind
  ev_home_login :: "login_kind option"
  ev_key_setting :: bool

datatype kind_source = Override | Detected rstring

record resolved =
  rv_kind :: kind
  rv_source :: kind_source
  rv_own_oauth :: bool
  rv_key_setting :: bool

definition resolve_from :: "evidence \<Rightarrow> resolved" where
  "resolve_from e =
    (let done = (\<lambda>k src. \<lparr>rv_kind = k, rv_source = src, rv_own_oauth = (ev_own_login e = Login_oauth),
           rv_key_setting = ev_key_setting e\<rparr>)
     in (case ev_override e of
           Some k \<Rightarrow> done k Override
         | None \<Rightarrow>
             (let (k, why) =
               (case ev_own_login e of
                  Login_oauth \<Rightarrow> (Subscription, lit ''oauth login'')
                | Login_no_oauth \<Rightarrow> (Platform, lit ''login file has no oauth login'')
                | Login_unreadable \<Rightarrow> (Subscription, lit ''login file unreadable'')
                | Login_missing \<Rightarrow>
                    (case ev_home_login e of
                       Some Login_oauth \<Rightarrow> (Subscription, lit ''live in ~/.claude (oauth login)'')
                     | Some Login_no_oauth \<Rightarrow> (Platform, lit ''live in ~/.claude (no oauth login)'')
                     | Some _ \<Rightarrow> (Subscription, lit ''live in ~/.claude (login file unreadable)'')
                     | None \<Rightarrow> if ev_key_setting e then (Platform, lit ''api key setting'') else (Subscription, lit ''no login'')))
              in done k (Detected why))))"

definition warn_key_setting :: "resolved \<Rightarrow> bool" where
  "warn_key_setting r = (rv_source r \<noteq> Override \<and> rv_kind r = Subscription \<and> rv_own_oauth r \<and> rv_key_setting r)"

definition may_be_live :: "resolved \<Rightarrow> bool" where
  "may_be_live r = (rv_kind r = Platform \<or> rv_own_oauth r)"

definition kind_guard :: "resolved \<Rightarrow> bool \<Rightarrow> bool" where
  "kind_guard r held = (\<not> (rv_kind r = Subscription \<and> \<not> rv_own_oauth r \<and> \<not> held))"

text \<open>\<open>Ctx::evidence_with\<close>: the key settings are read only when the kind depends on them, or when asked.\<close>

definition evidence_with ::
  "(rstring \<times> kind) list option \<Rightarrow> rstring option \<Rightarrow> login_kind option \<Rightarrow> rstring \<Rightarrow> login_kind option \<Rightarrow> bool \<Rightarrow> bool \<Rightarrow> evidence" where
  "evidence_with overrides ledger_live home_login name own keys all_keys =
    (let over = Option.bind overrides (\<lambda>m. map_of m name);
         own_login = (case own of None \<Rightarrow> Login_missing | Some l \<Rightarrow> l);
         home = (if ledger_live = Some name then home_login else None);
         needed = all_keys \<or> (over = None \<and> own_login = Login_missing \<and> home = None)
     in \<lparr>ev_override = over, ev_own_login = own_login, ev_home_login = home,
         ev_key_setting = (needed \<and> own \<noteq> None \<and> keys)\<rparr>)"

definition launch_guard :: "bool \<Rightarrow> resolved \<Rightarrow> bool \<Rightarrow> bool" where
  "launch_guard corrupt r held =
    (let checked = (if corrupt then r\<lparr>rv_kind := Subscription\<rparr> else r)
     in if \<not> kind_guard checked False then kind_guard checked held else True)"

definition platforms_of :: "(rstring \<times> resolved) list \<Rightarrow> rstring list" where
  "platforms_of all = map fst (filter (\<lambda>(_, r). rv_kind r = Platform) all)"

section \<open>Overflow tiers\<close>

definition platform_tier :: nat where "platform_tier = 10"

definition is_overflow :: "config \<Rightarrow> rstring \<Rightarrow> bool" where
  "is_overflow c name = list_ex (\<lambda>e. oe_name e = name) (c_overflow c)"

text \<open>A stable sort by tier.\<close>

definition overflow_order :: "config \<Rightarrow> overflow_entry list" where
  "overflow_order c = sort_key oe_tier (c_overflow c)"

definition tiers_of :: "overflow_entry list \<Rightarrow> rstring list \<Rightarrow> overflow_entry list \<times> rstring list" where
  "tiers_of marked platforms =
    (let keys = remdups_adj (sort (map oe_name (filter (\<lambda>e. oe_name e \<in> set platforms) marked)));
         plain = filter (\<lambda>e. oe_name e \<notin> set platforms) marked
     in (case keys of
           [] \<Rightarrow> (plain, [])
         | first # rest \<Rightarrow> (plain @ [\<lparr>oe_name = first, oe_tier = platform_tier\<rparr>], rest)))"

definition tiers_detail ::
  "config file_state \<Rightarrow> bool \<Rightarrow> rstring list option \<Rightarrow> overflow_entry list \<times> rstring list" where
  "tiers_detail file kinds_corrupt platforms =
    (case file of
       Corrupt \<Rightarrow> ([], [])
     | _ \<Rightarrow>
         (let marked = (case file of Valid c \<Rightarrow> overflow_order c | _ \<Rightarrow> [])
          in if kinds_corrupt then ([], [])
             else (case platforms of Some ps \<Rightarrow> tiers_of marked ps | None \<Rightarrow> ([], []))))"

definition gate_far :: "bool \<Rightarrow> nat \<Rightarrow> int option \<Rightarrow> int \<Rightarrow> bool" where
  "gate_far unknown_reset wait earliest now =
    (case earliest of
       None \<Rightarrow> unknown_reset
     | Some t \<Rightarrow> max (- (2 ^ 63)) (min (2 ^ 63 - 1) (t - now)) > min (int wait) (2 ^ 63 - 1))"

end
