(* ===== verification/Switch_Toggle_Facts.thy ===== *)
theory Switch_Toggle_Facts
  imports Switch_Toggle
begin

text \<open>
  What the toggle file guarantees: whatever parses is well formed, what the CLI writes reads back as the same
  settings, an edit is all or nothing, and no login is billed by a guess.
\<close>

section \<open>Well-formed settings\<close>

definition overflow_wf :: "(rstring \<times> nat) list \<Rightarrow> bool" where
  "overflow_wf es = (distinct (map fst es) \<and> list_all (\<lambda>(n, t). valid_live_name n \<and> 1 \<le> t \<and> t \<le> 9) es)"

definition toggle_wf :: "toggle \<Rightarrow> bool" where
  "toggle_wf t =
    (1 \<le> tg_threshold t \<and> tg_threshold t \<le> 100 \<and> list_all valid_live_name (tg_exclude t) \<and>
     overflow_wf (tg_overflow t) \<and> distinct (map fst (tg_kind t)) \<and>
     list_all (\<lambda>(n, k). valid_live_name n \<and> kind_parse k \<noteq> None \<and> kind_value k = Some k) (tg_kind t))"

definition config_wf :: "config \<Rightarrow> bool" where
  "config_wf c =
    (1 \<le> c_threshold c \<and> c_threshold c \<le> 100 \<and> list_all valid_live_name (c_exclude c) \<and>
     overflow_wf (map (\<lambda>e. (oe_name e, oe_tier e)) (c_overflow c)) \<and>
     sorted (map fst (c_kind c)) \<and> distinct (map fst (c_kind c)) \<and> list_all valid_live_name (map fst (c_kind c)))"

section \<open>What parses is well formed\<close>

lemma and_then_Inr: "and_then r f = Inr y \<longleftrightarrow> (\<exists>x. r = Inr x \<and> f x = Inr y)"
  by (cases r) auto

lemma put_once_Inr: "put_once old st = Inr st' \<longleftrightarrow> old = None \<and> st' = st"
  by (auto simp: put_once_def)

lemma parse_threshold_bounds: "parse_threshold v = Inr n \<Longrightarrow> 1 \<le> n \<and> n \<le> 100"
  by (auto simp: parse_threshold_def split: option.splits if_splits)

lemma parse_exclude_valid: "parse_exclude v = Inr ns \<Longrightarrow> list_all valid_live_name ns"
  by (auto simp: parse_exclude_def try_map_Inr list_all2_conv_all_nth list_all_length split: if_splits)

lemma parse_overflow_entry_wf: "parse_overflow_entry raw = Inr (n, t) \<Longrightarrow> valid_live_name n \<and> 1 \<le> t \<and> t \<le> 9"
  by (auto simp: parse_overflow_entry_def default_tier_def and_then_Inr split: option.splits list.splits if_splits)

lemma overflow_step_wf:
  assumes "overflow_wf es" "overflow_step es raw = Inr es'"
  shows "overflow_wf es'"
proof -
  obtain n t where "parse_overflow_entry raw = Inr (n, t)" "n \<notin> fst ` set es" "es' = es @ [(n, t)]"
    using assms(2) by (auto simp: overflow_step_def and_then_Inr split: if_splits)
  then show ?thesis using assms(1) parse_overflow_entry_wf [of raw n t] by (simp add: overflow_wf_def)
qed

lemma parse_overflow_wf:
  assumes "parse_overflow v = Inr es"
  shows "overflow_wf es"
proof (cases "v = []")
  case False
  then have "try_fold overflow_step [] (split_on (\<lambda>c. c = 44) v) = Inr es" using assms by (simp add: parse_overflow_def)
  then show ?thesis by (rule try_fold_invariant [where I = overflow_wf]) (auto simp: overflow_wf_def [of "[]"] intro: overflow_step_wf)
qed (use assms in \<open>simp add: parse_overflow_def overflow_wf_def\<close>)

lemma kind_value_stored: "kind_value k = Some k' \<Longrightarrow> kind_parse k' \<noteq> None \<and> kind_value k' = Some k'"
  unfolding kind_value_def kind_parse_def by (simp split: if_splits del: lit_Cons)

definition kind_list_wf :: "(rstring \<times> rstring) list \<Rightarrow> bool" where
  "kind_list_wf ks = (distinct (map fst ks) \<and>
    list_all (\<lambda>(n, k). valid_live_name n \<and> kind_parse k \<noteq> None \<and> kind_value k = Some k) ks)"

text \<open>A step keeps the entries or adds one with a new name.\<close>

lemma kind_step_Inr:
  assumes "kind_step (out, u, seen) raw = Inr (out', u', seen')"
  obtains name k where "valid_live_name name" "name \<notin> set seen" "seen' = seen @ [name]"
    "out' = out \<or> out' = out @ [(name, k)] \<and> kind_parse k \<noteq> None \<and> kind_value k = Some k"
proof -
  obtain name kd where sp: "split_once ch_colon raw = Some (name, kd)" and v: "valid_live_name name" "name \<notin> set seen"
    using assms unfolding kind_step_def by (simp split: option.splits if_splits prod.splits del: lit_Cons)
  show thesis
  proof (cases "kind_value kd")
    case None
    then have "out' = out" "seen' = seen @ [name]" using assms sp v by (simp_all add: kind_step_def)
    then show thesis using that [of name] v by blast
  next
    case (Some k)
    then have "out' = out @ [(name, k)]" "seen' = seen @ [name]" using assms sp v by (simp_all add: kind_step_def)
    then show thesis using that [of name k] v kind_value_stored [OF Some] by blast
  qed
qed

definition kind_state_wf :: "(rstring \<times> rstring) list \<times> bool \<times> rstring list \<Rightarrow> bool" where
  "kind_state_wf st = (kind_list_wf (fst st) \<and> fst ` set (fst st) \<subseteq> set (snd (snd st)))"

lemma kind_step_wf:
  assumes "kind_state_wf st" "kind_step st raw = Inr st'"
  shows "kind_state_wf st'"
proof -
  obtain out u seen out' u' seen' where e: "st = (out, u, seen)" "st' = (out', u', seen')" by (metis prod_cases3)
  obtain name k where k: "valid_live_name name" "name \<notin> set seen" "seen' = seen @ [name]"
    "out' = out \<or> out' = out @ [(name, k)] \<and> kind_parse k \<noteq> None \<and> kind_value k = Some k"
    using kind_step_Inr [OF assms(2) [unfolded e]] by blast
  have w: "kind_list_wf out" "fst ` set out \<subseteq> set seen" using assms(1) e by (auto simp: kind_state_wf_def)
  then have "name \<notin> fst ` set out" using k(2) by blast
  then show ?thesis using k(4,1,3) w 
    by (simp only: e kind_state_wf_def kind_list_wf_def fst_conv snd_conv) (elim disjE; auto)
qed

lemma parse_kind_wf:
  assumes "parse_kind v = Inr (ks, u)"
  shows "kind_list_wf ks"
proof (cases "v = []")
  case False
  then obtain seen where "try_fold kind_step ([], False, []) (split_on (\<lambda>c. c = 44) v) = Inr (ks, u, seen)"
    using assms by (auto simp: parse_kind_def split: sum.splits)
  then have "kind_state_wf (ks, u, seen)"
    by (rule try_fold_invariant [where I = kind_state_wf])
      (auto simp: kind_state_wf_def [of "([], False, [])"] kind_list_wf_def intro: kind_step_wf)
  then show ?thesis by (simp add: kind_state_wf_def)
qed (use assms in \<open>simp add: parse_kind_def kind_list_wf_def\<close>)

definition keys_wf :: "toggle_keys \<Rightarrow> bool" where
  "keys_wf st =
    ((\<forall>n. tk_threshold st = Some n \<longrightarrow> 1 \<le> n \<and> n \<le> 100) \<and> (\<forall>ns. tk_exclude st = Some ns \<longrightarrow> list_all valid_live_name ns) \<and>
     (\<forall>es. tk_overflow st = Some es \<longrightarrow> overflow_wf es) \<and> (\<forall>ks u. tk_kind st = Some (ks, u) \<longrightarrow> kind_list_wf ks))"

lemma toggle_line_wf: "keys_wf st \<Longrightarrow> toggle_line st line = Inr st' \<Longrightarrow> keys_wf st'"
  by (auto simp: toggle_line_def keys_wf_def and_then_Inr put_once_Inr parse_exclude_valid
      parse_overflow_wf parse_kind_wf dest!: parse_threshold_bounds split: option.splits if_splits)

lemma parse_toggle_wf:
  assumes "parse_toggle raw = Inr t"
  shows "toggle_wf t"
proof -
  obtain ls st where st: "try_fold toggle_line no_keys ls = Inr st" "toggle_of st = Inr t"
    using assms by (auto simp: parse_toggle_def Let_def and_then_Inr split: if_splits option.splits)
  have "keys_wf no_keys" by (simp add: keys_wf_def no_keys_def)
  then have "keys_wf st" by (rule try_fold_invariant [OF st(1)]) (rule toggle_line_wf)
  then show ?thesis using st(2)
    by (auto simp: toggle_of_def toggle_wf_def keys_wf_def kind_list_wf_def option_or_def default_threshold_def overflow_wf_def
        split: option.splits)
qed

section \<open>What is written reads back\<close>

lemma name_chars:
  assumes "valid_live_name n"
  shows "list_all (\<lambda>c. is_ascii_alphanumeric c \<or> c \<in> {ch_dot, ch_underscore, ch_dash}) n" "n \<noteq> []"
  using assms by (auto simp: valid_live_name_def split: list.splits)

lemma name_plain:
  assumes "valid_live_name n"
  shows "\<not> list_ex (\<lambda>c. c = 44) n" "\<not> list_ex (\<lambda>c. c = ch_nl) n" "ch_colon \<notin> set n" "list_all (\<lambda>c. c < 128) n"
  using name_chars(1) [OF assms] by (auto simp: list_all_iff list_ex_iff ascii_defs)

lemma join_chars: "list_all P (join sep ns) \<longleftrightarrow> list_all (list_all P) ns \<and> (2 \<le> length ns \<longrightarrow> list_all P sep)"
  by (induction sep ns rule: join.induct) auto

lemma join_neq_Nil: "ns \<noteq> [] \<Longrightarrow> hd ns \<noteq> [] \<Longrightarrow> join sep ns \<noteq> []"
  by (cases "(sep, ns)" rule: join.cases) auto

lemma exclude_roundtrip:
  assumes "list_all valid_live_name ns"
  shows "parse_exclude (join [44] ns) = Inr ns"
proof (cases "ns = []")
  case False
  have "hd ns \<noteq> []" using False assms name_chars(2) by (cases ns) auto
  then have v: "join [44] ns \<noteq> []" using False join_neq_Nil by blast
  have "split_on (\<lambda>c. c = 44) (join [44] ns) = ns"
    by (rule split_on_join [OF _ False]) (use assms in \<open>auto simp: list_all_iff dest: name_plain(1)\<close>)
  then show ?thesis using v assms by (auto simp: parse_exclude_def try_map_Inr list_all2_same list_all_iff)
qed (simp add: parse_exclude_def)

lemma overflow_entry_roundtrip:
  assumes "valid_live_name n" "1 \<le> t" "t \<le> 9"
  shows "parse_overflow_entry (render_overflow \<lparr>oe_name = n, oe_tier = t\<rparr>) = Inr (n, t)"
proof (cases "t = default_tier")
  case True
  then show ?thesis using assms name_plain(3) split_once_None [of ch_colon n]
    by (simp add: render_overflow_def parse_overflow_entry_def)
next
  case False
  have d: "show_radix 10 t = [48 + t]" using assms(3) by (subst show_radix.simps) (simp add: digit_char_def)
  have "utf8_bytes [48 + t] = [48 + t]" using assms(3) by (simp add: utf8_bytes_def utf8_char_def)
  then show ?thesis using False d assms name_plain(3) split_once_at [of ch_colon n "[48 + t]"]
    by (simp add: render_overflow_def parse_overflow_entry_def)
qed

lemma render_overflow_plain:
  assumes "valid_live_name (oe_name e)" "oe_tier e \<le> 9"
  shows "list_all (\<lambda>c. c < 128 \<and> c \<noteq> 44 \<and> c \<noteq> ch_nl) (render_overflow e)" "render_overflow e \<noteq> []"
proof -
  have d: "show_radix 10 (oe_tier e) = [48 + oe_tier e]"
    using assms(2) by (subst show_radix.simps) (simp add: digit_char_def)
  show "list_all (\<lambda>c. c < 128 \<and> c \<noteq> 44 \<and> c \<noteq> ch_nl) (render_overflow e)" "render_overflow e \<noteq> []"
    using d assms name_plain [OF assms(1)] name_chars(2) [OF assms(1)]
    by (auto simp: render_overflow_def list_all_iff list_ex_iff)
qed

lemma overflow_fold:
  assumes "overflow_wf (done @ map (\<lambda>e. (oe_name e, oe_tier e)) es)"
  shows "try_fold overflow_step done (map render_overflow es) = Inr (done @ map (\<lambda>e. (oe_name e, oe_tier e)) es)"
  using assms
proof (induction es arbitrary: "done")
  case (Cons e es)
  obtain n t where e: "e = \<lparr>oe_name = n, oe_tier = t\<rparr>" by (cases e) auto
  have "valid_live_name n" "1 \<le> t" "t \<le> 9" "n \<notin> fst ` set done" using Cons.prems e by (auto simp: overflow_wf_def)
  then show ?case using Cons.IH [of "done @ [(n, t)]"] Cons.prems overflow_entry_roundtrip
    by (simp add: e overflow_step_def)
qed simp

lemma overflow_roundtrip:
  assumes "overflow_wf (map (\<lambda>e. (oe_name e, oe_tier e)) es)" "es \<noteq> []"
  shows "parse_overflow (join [44] (map render_overflow es)) = Inr (map (\<lambda>e. (oe_name e, oe_tier e)) es)"
proof -
  have p: "list_all (\<lambda>c. c < 128 \<and> c \<noteq> 44 \<and> c \<noteq> ch_nl) (render_overflow e) \<and> render_overflow e \<noteq> []"
    if "e \<in> set es" for e
  proof -
    have "valid_live_name (oe_name e)" "oe_tier e \<le> 9" using assms(1) that by (auto simp: overflow_wf_def list_all_iff)
    then show ?thesis using render_overflow_plain [of e] by simp
  qed
  then have "hd (map render_overflow es) \<noteq> []" using assms(2) by (cases es) auto
  then have v: "join [44] (map render_overflow es) \<noteq> []" using assms(2) join_neq_Nil by blast
  have "split_on (\<lambda>c. c = 44) (join [44] (map render_overflow es)) = map render_overflow es"
    by (rule split_on_join) (use assms(2) p in \<open>auto simp: list_all_iff list_ex_iff\<close>)
  then show ?thesis using v overflow_fold [of "[]" es] assms(1) by (simp add: parse_overflow_def)
qed

lemma kind_stored_parse: "kind_value (kind_stored k) = Some (kind_stored k)" "kind_parse (kind_stored k) = Some k"
  by (cases k; simp add: kind_stored_def kind_value_def kind_parse_def)+

lemma kind_stored_plain: "list_all (\<lambda>c. c < 128 \<and> c \<noteq> 44 \<and> c \<noteq> ch_nl) (kind_stored k)"
  by (cases k) (simp_all add: kind_stored_def)

lemma kind_fold:
  assumes "distinct (seen @ map fst ks)" "list_all valid_live_name (map fst ks)"
  shows "try_fold kind_step (out, u, seen) (map render_kind ks) =
    Inr (out @ map (\<lambda>(n, k). (n, kind_stored k)) ks, u, seen @ map fst ks)"
  using assms
proof (induction ks arbitrary: out seen)
  case (Cons nk ks)
  obtain n k where nk: "nk = (n, k)" by (cases nk)
  have "split_once ch_colon (render_kind nk) = Some (n, kind_stored k)" "valid_live_name n" "n \<notin> set seen"
    using Cons.prems name_plain(3) [of n] by (auto simp: nk render_kind_def split_once_at)
  then have "kind_step (out, u, seen) (render_kind nk) = Inr (out @ [(n, kind_stored k)], u, seen @ [n])"
    by (simp add: kind_step_def kind_stored_parse)
  then show ?case using Cons.IH [of "seen @ [n]" "out @ [(n, kind_stored k)]"] Cons.prems by (simp add: nk)
qed simp

lemma kind_roundtrip:
  assumes "distinct (map fst ks)" "list_all valid_live_name (map fst ks)" "ks \<noteq> []"
  shows "parse_kind (join [44] (map render_kind ks)) = Inr (map (\<lambda>(n, k). (n, kind_stored k)) ks, False)"
proof -
  have p: "\<not> list_ex (\<lambda>c. c = 44) (render_kind nk) \<and> render_kind nk \<noteq> []" if "nk \<in> set ks" for nk
    using assms(2) that name_plain(1) [of "fst nk"] kind_stored_plain [of "snd nk"]
    by (auto simp: render_kind_def list_all_iff list_ex_iff)
  then have "hd (map render_kind ks) \<noteq> []" using assms(3) by (cases ks) auto
  then have v: "join [44] (map render_kind ks) \<noteq> []" using assms(3) join_neq_Nil by blast
  have "split_on (\<lambda>c. c = 44) (join [44] (map render_kind ks)) = map render_kind ks"
    by (rule split_on_join) (use assms(3) p in \<open>auto simp: list_all_iff\<close>)
  then show ?thesis using v kind_fold [of "[]" ks "[]" False] assms(1,2) by (simp add: parse_kind_def)
qed

lemma btree_insert_last:
  "sorted (map fst ks @ [n]) \<Longrightarrow> distinct (map fst ks @ [n]) \<Longrightarrow> btree_insert n k ks = ks @ [(n, k)]"
  by (induction ks) (auto simp: less_le_not_le)

lemma kind_entries_fold:
  assumes "sorted (map fst (acc @ ks))" "distinct (map fst (acc @ ks))" "list_all valid_live_name (map fst ks)"
  shows "try_fold kind_entry acc (map (\<lambda>(n, k). (n, kind_stored k)) ks) = Inr (acc @ ks)"
  using assms
proof (induction ks arbitrary: acc)
  case (Cons nk ks)
  obtain n k where nk: "nk = (n, k)" by (cases nk)
  have "sorted (map fst acc @ [n])" "distinct (map fst acc @ [n])" using Cons.prems(1,2) by (auto simp: nk sorted_append)
  then have "kind_entry acc (n, kind_stored k) = Inr (acc @ [(n, k)])"
    using Cons.prems(3) by (simp add: kind_entry_def map_err_def profile_name_parse_def nk kind_stored_parse btree_insert_last)
  then show ?case using Cons.IH [of "acc @ [(n, k)]"] Cons.prems by (simp add: nk)
qed simp

text \<open>The lines of the file.\<close>

definition config_lines :: "config \<Rightarrow> rstring list" where
  "config_lines c =
    [lit ''enabled'' @ ch_eq # (if c_enabled c then lit ''on'' else lit ''off''),
     lit ''threshold'' @ ch_eq # show_radix 10 (c_threshold c),
     lit ''exclude'' @ ch_eq # join [44] (c_exclude c)] @
    (if c_overflow c \<noteq> [] then [lit ''overflow'' @ ch_eq # join [44] (map render_overflow (c_overflow c))] else []) @
    (if c_kind c \<noteq> [] then [lit ''kind'' @ ch_eq # join [44] (map render_kind (c_kind c))] else [])"

lemma render_lines: "render c = join [ch_nl] (config_lines c) @ [ch_nl]"
  by (simp add: render_def config_lines_def)

lemma config_text:
  assumes "config_wf c"
  shows "list_all (list_all (\<lambda>b. b < 128 \<and> b \<noteq> ch_nl)) (config_lines c)"
proof -
  have d: "list_all (\<lambda>b. b < 128 \<and> b \<noteq> ch_nl) (show_radix 10 (c_threshold c))"
    using show_radix_digits(1) [of "c_threshold c"] by (auto simp: list_all_iff is_ascii_digit_def)
  have n: "list_all (\<lambda>b. b < 128 \<and> b \<noteq> ch_nl) n" if "valid_live_name n" for n
    using name_plain(2,4) [OF that] by (auto simp: list_all_iff list_ex_iff)
  have x: "list_all (\<lambda>b. b < 128 \<and> b \<noteq> ch_nl) (join [44] (c_exclude c))"
    unfolding join_chars using assms n by (auto simp: config_wf_def list_all_iff)
  have "list_all (\<lambda>b. b < 128 \<and> b \<noteq> ch_nl) (render_overflow e)" if "e \<in> set (c_overflow c)" for e
  proof -
    have "valid_live_name (oe_name e)" "oe_tier e \<le> 9"
      using assms that by (auto simp: config_wf_def overflow_wf_def list_all_iff)
    then show ?thesis using render_overflow_plain(1) [of e] by (simp add: list_all_iff)
  qed
  then have o: "list_all (\<lambda>b. b < 128 \<and> b \<noteq> ch_nl) (join [44] (map render_overflow (c_overflow c)))"
    unfolding join_chars by (simp add: list_all_iff)
  have "list_all (\<lambda>b. b < 128 \<and> b \<noteq> ch_nl) (render_kind nk)" if "nk \<in> set (c_kind c)" for nk
  proof -
    have "valid_live_name (fst nk)" using assms that by (auto simp: config_wf_def list_all_iff)
    from n [OF this] show ?thesis using kind_stored_plain [of "snd nk"] by (auto simp: render_kind_def list_all_iff)
  qed
  then have k: "list_all (\<lambda>b. b < 128 \<and> b \<noteq> ch_nl) (join [44] (map render_kind (c_kind c)))"
    unfolding join_chars by (simp add: list_all_iff)
  show ?thesis using d x o k by (simp add: config_lines_def)
qed

lemma line_split: "ch_eq \<notin> set key \<Longrightarrow> split_once ch_eq (key @ ch_eq # v) = Some (key, v)"
  by (rule split_once_at)

definition config_keys :: "config \<Rightarrow> toggle_keys" where
  "config_keys c = \<lparr>tk_enabled = Some (c_enabled c), tk_threshold = Some (c_threshold c), tk_exclude = Some (c_exclude c),
    tk_overflow = (if c_overflow c = [] then None else Some (map (\<lambda>e. (oe_name e, oe_tier e)) (c_overflow c))),
    tk_kind = (if c_kind c = [] then None else Some (map (\<lambda>(n, k). (n, kind_stored k)) (c_kind c), False))\<rparr>"

lemma lines_fold:
  assumes "config_wf c"
  shows "try_fold toggle_line no_keys (config_lines c) = Inr (config_keys c)"
proof -
  have t: "parse_threshold (show_radix 10 (c_threshold c)) = Inr (c_threshold c)"
    using assms parse_show_digits [of "c_threshold c" 8] by (simp add: config_wf_def parse_threshold_def)
  have x: "parse_exclude (join [44] (c_exclude c)) = Inr (c_exclude c)"
    using assms exclude_roundtrip by (simp add: config_wf_def)
  have o: "c_overflow c \<noteq> [] \<Longrightarrow> parse_overflow (join [44] (map render_overflow (c_overflow c))) =
      Inr (map (\<lambda>e. (oe_name e, oe_tier e)) (c_overflow c))"
    using assms overflow_roundtrip by (simp add: config_wf_def)
  have k: "c_kind c \<noteq> [] \<Longrightarrow> parse_kind (join [44] (map render_kind (c_kind c))) =
      Inr (map (\<lambda>(n, k). (n, kind_stored k)) (c_kind c), False)"
    using assms kind_roundtrip by (simp add: config_wf_def)
  have l: "toggle_line st (lit ''enabled'' @ ch_eq # (if c_enabled c then lit ''on'' else lit ''off'')) =
        put_once (tk_enabled st) (st\<lparr>tk_enabled := Some (c_enabled c)\<rparr>)"
    "toggle_line st (lit ''threshold'' @ ch_eq # show_radix 10 (c_threshold c)) =
        put_once (tk_threshold st) (st\<lparr>tk_threshold := Some (c_threshold c)\<rparr>)"
    "toggle_line st (lit ''exclude'' @ ch_eq # join [44] (c_exclude c)) =
        put_once (tk_exclude st) (st\<lparr>tk_exclude := Some (c_exclude c)\<rparr>)"
    "c_overflow c \<noteq> [] \<Longrightarrow> toggle_line st (lit ''overflow'' @ ch_eq # join [44] (map render_overflow (c_overflow c))) =
        put_once (tk_overflow st) (st\<lparr>tk_overflow := Some (map (\<lambda>e. (oe_name e, oe_tier e)) (c_overflow c))\<rparr>)"
    "c_kind c \<noteq> [] \<Longrightarrow> toggle_line st (lit ''kind'' @ ch_eq # join [44] (map render_kind (c_kind c))) =
        put_once (tk_kind st) (st\<lparr>tk_kind := Some (map (\<lambda>(n, k). (n, kind_stored k)) (c_kind c), False)\<rparr>)" for st
    unfolding toggle_line_def by (subst line_split; simp add: t x o k)+
  show ?thesis
    by (simp add: config_lines_def l no_keys_def put_once_def config_keys_def del: lit_Cons)
qed

lemma from_keys:
  assumes "config_wf c"
  shows "and_then (toggle_of (config_keys c)) from_toggle = Inr c"
proof -
  have x: "try_map (\<lambda>n. map_err (\<lambda>_. lit ''invalid profile name in exclude'') (profile_name_parse n)) (c_exclude c) = Inr (c_exclude c)"
    using assms by (auto simp: try_map_Inr list_all2_same config_wf_def list_all_iff profile_name_parse_def map_err_def)
  have o: "try_map (\<lambda>(n, tier). map_err (\<lambda>_. lit ''invalid profile name in overflow'')
        (and_then (profile_name_parse n) (\<lambda>name. Inr \<lparr>oe_name = name, oe_tier = tier\<rparr>)))
      (map (\<lambda>e. (oe_name e, oe_tier e)) (c_overflow c)) = Inr (c_overflow c)"
    using assms by (auto simp: try_map_Inr list_all2_map1 list_all2_same config_wf_def overflow_wf_def list_all_iff
        profile_name_parse_def map_err_def)
  have k: "try_fold kind_entry [] (map (\<lambda>(n, k). (n, kind_stored k)) (c_kind c)) = Inr (c_kind c)"
    using assms kind_entries_fold [of "[]" "c_kind c"] by (simp add: config_wf_def)
  show ?thesis using x o k
    by (cases "c_overflow c = []"; cases "c_kind c = []")
      (simp_all add: toggle_of_def config_keys_def from_toggle_def option_or_def del: lit_Cons)
qed

lemma parse_render:
  assumes "config_wf c" "utf8_len (render c) \<le> max_toggle_bytes"
  shows "and_then (parse_toggle (utf8_bytes (render c))) from_toggle = Inr c"
proof -
  have a: "list_all (\<lambda>b. b < 128) (render c)"
    unfolding render_lines list_all_append join_chars using config_text [OF assms(1)] by (auto simp: list_all_iff)
  have ls: "split_on (\<lambda>c. c = ch_nl) (join [ch_nl] (config_lines c)) = config_lines c"
    by (rule split_on_join) (use config_text [OF assms(1)] in \<open>auto simp: config_lines_def list_all_iff list_ex_iff\<close>)
  have s: "strip_suffix [ch_nl] (render c) = Some (join [ch_nl] (config_lines c))"
    by (simp add: strip_suffix_Some render_lines)
  have "parse_toggle (utf8_bytes (render c)) = toggle_of (config_keys c)"
    using assms(2) a utf8_bytes_ascii [OF a] from_utf8_ascii [OF a] utf8_len_ascii [OF a] lines_fold [OF assms(1)]
    by (simp add: parse_toggle_def s ls)
  then show ?thesis using from_keys [OF assms(1)] by simp
qed

section \<open>Settings on disk\<close>

lemma btree_insert_keys: "fst ` set (btree_insert k v ks) = insert k (fst ` set ks)"
proof (induction ks)
  case (Cons a ks)
  then show ?case by (cases a) (simp add: insert_commute)
qed simp

lemma btree_insert_sorted:
  "sorted (map fst ks) \<Longrightarrow> distinct (map fst ks) \<Longrightarrow>
   sorted (map fst (btree_insert k v ks)) \<and> distinct (map fst (btree_insert k v ks))"
proof (induction ks)
  case (Cons a ks)
  have keys: "set (map fst (btree_insert k v ks)) = insert k (fst ` set ks)" by (simp add: btree_insert_keys)
  obtain k' v' where a: "a = (k', v')" by (cases a)
  show ?case
  proof (cases "k < k'")
    case True
    then show ?thesis using Cons.prems a by (force simp: less_imp_le)
  next
    case False
    then show ?thesis using Cons a keys by (auto simp: not_less)
  qed
qed simp

definition kinds_wf :: "(rstring \<times> kind) list \<Rightarrow> bool" where
  "kinds_wf ks = (sorted (map fst ks) \<and> distinct (map fst ks) \<and> list_all valid_live_name (map fst ks))"

lemma kind_entry_wf: "kinds_wf ks \<Longrightarrow> kind_entry ks nk = Inr ks' \<Longrightarrow> kinds_wf ks'"
proof -
  assume w: "kinds_wf ks" and e: "kind_entry ks nk = Inr ks'"
  obtain k where v: "valid_live_name (fst nk)" and ks': "ks' = btree_insert (fst nk) k ks"
    using e by (auto simp: kind_entry_def and_then_Inr map_err_def profile_name_parse_def split: sum.splits option.splits if_splits)
  have "list_all valid_live_name (map fst ks')"
    using w v btree_insert_keys [of "fst nk" k ks] by (auto simp: ks' kinds_wf_def list_all_iff)
  then show ?thesis using w btree_insert_sorted [of ks "fst nk" k] by (simp add: kinds_wf_def ks')
qed

lemma from_toggle_wf:
  assumes "toggle_wf t" "from_toggle t = Inr c"
  shows "config_wf c"
proof -
  obtain xs os ks where x: "try_map (\<lambda>n. map_err (\<lambda>_. lit ''invalid profile name in exclude'') (profile_name_parse n)) (tg_exclude t) = Inr xs"
    and o: "try_map (\<lambda>(n, tier). map_err (\<lambda>_. lit ''invalid profile name in overflow'')
        (and_then (profile_name_parse n) (\<lambda>name. Inr \<lparr>oe_name = name, oe_tier = tier\<rparr>))) (tg_overflow t) = Inr os"
    and k: "try_fold kind_entry [] (tg_kind t) = Inr ks"
    and c: "c = \<lparr>c_enabled = tg_enabled t, c_threshold = tg_threshold t, c_exclude = xs, c_overflow = os, c_kind = ks\<rparr>"
    using assms(2) by (auto simp: from_toggle_def and_then_Inr split: if_splits)
  have "list_all2 (\<lambda>n y. y = n) (tg_exclude t) xs"
    using x unfolding try_map_Inr by (rule list_all2_mono) (auto simp: map_err_def profile_name_parse_def split: sum.splits if_splits)
  then have xs: "xs = tg_exclude t" by (simp add: list_all2_conv_all_nth list_eq_iff_nth_eq)
  have "list_all2 (\<lambda>e y. (oe_name y, oe_tier y) = e) (tg_overflow t) os"
    using o unfolding try_map_Inr by (rule list_all2_mono) (auto simp: map_err_def profile_name_parse_def split: sum.splits if_splits)
  then have os: "map (\<lambda>e. (oe_name e, oe_tier e)) os = tg_overflow t" by (simp add: list_all2_conv_all_nth list_eq_iff_nth_eq)
  have "kinds_wf []" by (simp add: kinds_wf_def)
  then have "kinds_wf ks" by (rule try_fold_invariant [OF k]) (rule kind_entry_wf)
  then show ?thesis using assms(1) xs os by (simp add: c config_wf_def toggle_wf_def kinds_wf_def)
qed

lemma read_config_wf:
  assumes "read_config pr fs = Valid c"
  shows "config_wf c"
proof -
  obtain raw t where "parse_toggle raw = Inr t" "from_toggle t = Inr c"
    using assms by (auto simp: read_config_def read_toggle_def split: file_state.splits sum.splits option.splits if_splits)
  then show ?thesis using parse_toggle_wf from_toggle_wf by blast
qed

lemma mode_600_safe: "\<not> mode_lets_others_write mode_600 b"
  by (simp add: mode_lets_others_write_def)

lemma written_reads:
  assumes "config_wf c" "utf8_len (render c) \<le> max_toggle_bytes"
    "\<not> p_fails pr Sys_open [toggle_file]" "\<not> p_fails pr Sys_read [toggle_file]"
  shows "read_config pr (fs([toggle_file] \<mapsto> File ((new_meta pr mode_600)\<lparr>m_mode := mode_600\<rparr>) (utf8_bytes (render c)))) = Valid c"
proof -
  obtain t where t: "parse_toggle (utf8_bytes (render c)) = Inr t" "from_toggle t = Inr c"
    using parse_render [OF assms(1,2)] by (auto simp: and_then_Inr)
  then show ?thesis using assms(2-4) mode_600_safe
    by (simp add: read_config_def read_toggle_def read_bounded_nofollow_def owned_by_euid_def new_meta_def
        writable_by_others_def length_utf8_bytes)
qed

lemma write_config_cases:
  assumes "write_config pr fs c = (r, fs')" "config_wf c" "utf8_len (render c) \<le> max_toggle_bytes"
    "\<not> p_fails pr Sys_open [toggle_file]" "\<not> p_fails pr Sys_read [toggle_file]"
  shows "fs' = fs \<and> r \<noteq> Inr () \<or> read_config pr fs' = Valid c"
proof (cases "check_root_private pr fs")
  case True
  obtain r2 fs2 where w: "write_private_atomic pr fs [] toggle_file (utf8_bytes (render c)) = (r2, fs2)" by (metis surj_pair)
  have "fs' = fs2" "r = Inr () \<longrightarrow> r2 = Inr ()"
    using assms(1) True w by (auto simp: write_config_def split: sum.splits)
  then show ?thesis using write_private_atomic_all_or_nothing [OF w] written_reads [OF assms(2-5), of fs] by auto
qed (use assms(1) in \<open>auto simp: write_config_def\<close>)

lemma edit_start_Inr:
  assumes "edit_start pr fs rmode = (Inr (before, c0) :: ('e profile_error, config option \<times> config) result)"
  shows "config_wf c0" "\<not> (rmode = Editable \<and> read_config pr fs = Corrupt)"
    "c0 = (case read_config pr fs of Valid c \<Rightarrow> c | _ \<Rightarrow> default_config)"
    "before \<noteq> None \<Longrightarrow> before = Some c0 \<and> read_editable pr fs = (Inr c0 :: ('e profile_error, config) result)"
proof -
  have d: "config_wf default_config" by (simp add: config_wf_def default_config_def default_threshold_def overflow_wf_def)
  show "config_wf c0" "\<not> (rmode = Editable \<and> read_config pr fs = Corrupt)"
    "c0 = (case read_config pr fs of Valid c \<Rightarrow> c | _ \<Rightarrow> default_config)"
    "before \<noteq> None \<Longrightarrow> before = Some c0 \<and> read_editable pr fs = (Inr c0 :: ('e profile_error, config) result)"
    using assms d read_config_wf [of pr fs]
    by (auto simp: edit_start_def read_editable_def split: read_mode.splits file_state.splits)
qed


definition switch_on :: "config \<Rightarrow> (unit, config) result" where
  "switch_on c = Inr (c\<lparr>c_enabled := True\<rparr>)"


section \<open>Kinds and billing\<close>

text \<open>A profile is an API-key profile only when it was said so, or when a readable login or a setting shows it.\<close>

lemma platform_iff:
  "rv_kind (resolve_from e) = Platform \<longleftrightarrow>
   ev_override e = Some Platform \<or>
   ev_override e = None \<and>
     (ev_own_login e = Login_no_oauth \<or>
      ev_own_login e = Login_missing \<and>
        (ev_home_login e = Some Login_no_oauth \<or> ev_home_login e = None \<and> ev_key_setting e))"
  by (auto simp: resolve_from_def Let_def split: option.splits login_kind.splits kind.splits)

lemma own_oauth_iff [simp]: "rv_own_oauth (resolve_from e) \<longleftrightarrow> ev_own_login e = Login_oauth"
  by (auto simp: resolve_from_def Let_def split: option.splits login_kind.splits)

text \<open>
  The launch guard lets a profile start exactly when it has its own OAuth login, or its login is held for
  it, or, with readable settings, it is an API-key profile by override or by proof; an unreadable login file is no
  proof, and with damaged settings no API-key profile starts at all.
\<close>

lemma launch_allowed_iff:
  "launch_guard corrupt (resolve_from e) held \<longleftrightarrow>
   ev_own_login e = Login_oauth \<or> held \<or>
   \<not> corrupt \<and>
     (ev_override e = Some Platform \<or>
      ev_override e = None \<and>
        (ev_own_login e = Login_no_oauth \<or>
         ev_own_login e = Login_missing \<and>
           (ev_home_login e = Some Login_no_oauth \<or> ev_home_login e = None \<and> ev_key_setting e)))"
proof -
  have "rv_kind (resolve_from e) = Subscription \<longleftrightarrow> rv_kind (resolve_from e) \<noteq> Platform" by (cases "rv_kind (resolve_from e)") auto
  then show ?thesis unfolding launch_guard_def Let_def kind_guard_def using platform_iff [of e]
    by (cases corrupt; cases held) auto
qed

lemma sorted_distinct_adj: "sorted xs \<Longrightarrow> distinct (remdups_adj xs)" for xs :: "'a::linorder list"
  by (induction xs rule: remdups_adj.induct) auto

lemma sorted_remdups_adj_hd:
  fixes xs :: "'a::linorder list"
  assumes "sorted xs" "remdups_adj xs = y # ys"
  shows "y \<in> set xs" "\<And>x. x \<in> set xs \<Longrightarrow> y \<le> x" "y \<notin> set ys" "set xs = insert y (set ys)"
proof -
  have s: "set xs = insert y (set ys)" using arg_cong [OF assms(2), of set] by simp
  have "sorted (y # ys)" "distinct (y # ys)"
    using assms sorted_remdups_adj [of xs] sorted_distinct_adj [of xs] by simp_all
  then show "y \<in> set xs" "\<And>x. x \<in> set xs \<Longrightarrow> y \<le> x" "y \<notin> set ys" "set xs = insert y (set ys)"
    using s by auto
qed

lemma tiers_of_cases:
  assumes "tiers_of marked ps = (ts, rest)"
  shows "ts = filter (\<lambda>e. oe_name e \<notin> set ps) marked \<and> rest = [] \<and> (\<forall>e \<in> set marked. oe_name e \<notin> set ps) \<or>
    (\<exists>k. ts = filter (\<lambda>e. oe_name e \<notin> set ps) marked @ [\<lparr>oe_name = k, oe_tier = platform_tier\<rparr>] \<and> k \<in> set ps \<and>
      k \<in> oe_name ` set marked \<and> (\<forall>e \<in> set marked. oe_name e \<in> set ps \<longrightarrow> k \<le> oe_name e))"
proof -
  let ?ks = "sort (map oe_name (filter (\<lambda>e. oe_name e \<in> set ps) marked))"
  show ?thesis
  proof (cases "remdups_adj ?ks")
    case Nil
    then have "?ks = []" by (simp only: remdups_adj_Nil_iff)
    then have "set ?ks = {}" by (simp only: list.set)
    then have "\<forall>e \<in> set marked. oe_name e \<notin> set ps" by auto
    then show ?thesis using assms Nil by (simp add: tiers_of_def)
  next
    case (Cons k ks)
    note h = sorted_remdups_adj_hd(1,2) [OF sorted_sort Cons]
    have "k \<in> set ps" "k \<in> oe_name ` set marked" using h(1) by auto
    moreover have "\<forall>e \<in> set marked. oe_name e \<in> set ps \<longrightarrow> k \<le> oe_name e" using h(2) by auto
    moreover have "ts = filter (\<lambda>e. oe_name e \<notin> set ps) marked @ [\<lparr>oe_name = k, oe_tier = platform_tier\<rparr>]"
      using assms Cons by (simp add: tiers_of_def)
    ultimately show ?thesis by blast
  qed
qed

text \<open>
  Money is spent only where the settings say so: every overflow tier is a profile marked in a readable file,
  the tiers are in order, and an API key is at most one tier, the last, the first marked key by name.
\<close>

lemma tiers_need_a_mark:
  assumes "tiers_detail (read_config pr fs) corrupt platforms = (ts, rest)" "e \<in> set ts"
  shows "\<exists>c ps. read_config pr fs = Valid c \<and> \<not> corrupt \<and> platforms = Some ps \<and> is_overflow c (oe_name e) \<and>
    sorted (map oe_tier ts) \<and>
    (if oe_name e \<in> set ps
     then e = last ts \<and> oe_tier e = platform_tier \<and> (\<forall>k \<in> set ps. is_overflow c k \<longrightarrow> oe_name e \<le> k)
     else e \<in> set (c_overflow c))"
proof -
  obtain c ps where c: "read_config pr fs = Valid c" "\<not> corrupt" "platforms = Some ps" "tiers_of (overflow_order c) ps = (ts, rest)"
    using assms by (auto simp: tiers_detail_def tiers_of_def split: file_state.splits if_splits option.splits)
  have m: "set (overflow_order c) = set (c_overflow c)" by (simp add: overflow_order_def)
  have ov: "is_overflow c k \<longleftrightarrow> k \<in> oe_name ` set (c_overflow c)" for k by (auto simp: is_overflow_def list_ex_iff)
  have t: "oe_tier x \<le> platform_tier" if "x \<in> set (c_overflow c)" for x
    using read_config_wf [OF c(1)] that by (force simp: config_wf_def overflow_wf_def list_all_iff platform_tier_def)
  have "sorted (map oe_tier (overflow_order c))" by (simp add: overflow_order_def)
  then have so: "sorted (map oe_tier (filter (\<lambda>e. oe_name e \<notin> set ps) (overflow_order c)))"
    by (rule sorted_filter)
  from tiers_of_cases [OF c(4)] show ?thesis
  proof
    assume *: "ts = filter (\<lambda>e. oe_name e \<notin> set ps) (overflow_order c) \<and> rest = [] \<and>
      (\<forall>e \<in> set (overflow_order c). oe_name e \<notin> set ps)"
    then show ?thesis using c(1-3) so assms(2) m ov by auto
  next
    assume "\<exists>k. ts = filter (\<lambda>e. oe_name e \<notin> set ps) (overflow_order c) @ [\<lparr>oe_name = k, oe_tier = platform_tier\<rparr>] \<and>
      k \<in> set ps \<and> k \<in> oe_name ` set (overflow_order c) \<and>
      (\<forall>e \<in> set (overflow_order c). oe_name e \<in> set ps \<longrightarrow> k \<le> oe_name e)"
    then obtain k where k: "ts = filter (\<lambda>e. oe_name e \<notin> set ps) (overflow_order c) @ [\<lparr>oe_name = k, oe_tier = platform_tier\<rparr>]"
      "k \<in> set ps" "k \<in> oe_name ` set (c_overflow c)" "\<forall>e \<in> set (c_overflow c). oe_name e \<in> set ps \<longrightarrow> k \<le> oe_name e"
      unfolding m by blast
    have "sorted (map oe_tier ts)" using so t by (auto simp: k(1) sorted_append m)
    then show ?thesis using c(1-3) assms(2) m ov k by (intro exI [of _ c] exI [of _ ps]) auto
  qed
qed

definition sample_toggle :: files where
  "sample_toggle = sample_root([toggle_file] \<mapsto> File (new_meta sample_proc mode_600)
     (lit ''enabled=on'' @ [ch_nl] @ lit ''overflow=spare:2,key'' @ [ch_nl]))"

lemma tiers_need_a_mark_witness:
  "\<exists>c. read_config sample_proc sample_toggle = Valid c \<and> is_overflow c (lit ''key'')"
proof -
  have "tiers_detail (read_config sample_proc sample_toggle) False (Some [lit ''key'']) =
      ([\<lparr>oe_name = lit ''spare'', oe_tier = 2\<rparr>, \<lparr>oe_name = lit ''key'', oe_tier = 10\<rparr>], [])"
    by code_simp
  from tiers_need_a_mark [OF this, of "\<lparr>oe_name = lit ''key'', oe_tier = 10\<rparr>"] show ?thesis
    by (auto simp del: lit_Cons)
qed

end
