(* ===== verification/Rotator_Ledger.thy ===== *)
theory Rotator_Ledger
  imports Switch_Toggle Json_Value
begin

text \<open>
  What the hooks read of the login rotator (\<open>amplihack-utils/src/rotator_status/ledger.rs\<close> and \<open>daemon.rs\<close>):
  its ledger, read loosely, and whether it runs.  Parsing JSON is \<open>serde_json\<close>'s work and the parameter
  \<open>from_slice\<close>; \<open>/proc\<close> is a second file system.
\<close>

section \<open>Numbers of JSON\<close>

definition json_as_u64 :: "json \<Rightarrow> nat option" where
  "json_as_u64 v = (case v of J_num s \<Rightarrow> parse_digits 64 s | _ \<Rightarrow> None)"

text \<open>A negative zero is a float.\<close>

definition json_as_i64 :: "json \<Rightarrow> int option" where
  "json_as_i64 v =
    (case v of
       J_num s \<Rightarrow>
         (case strip_prefix [ch_dash] s of
            None \<Rightarrow> map_option int (parse_digits 63 s)
          | Some ds \<Rightarrow>
              (case parse_digits 64 ds of
                 Some n \<Rightarrow> if 0 < n \<and> n \<le> 2 ^ 63 then Some (- int n) else None
               | None \<Rightarrow> None))
     | _ \<Rightarrow> None)"

definition json_is_obj :: "json \<Rightarrow> bool" where
  "json_is_obj v = (case v of J_obj _ \<Rightarrow> True | _ \<Rightarrow> False)"

section \<open>The ledger\<close>

definition ledger_version :: nat where "ledger_version = 1"
definition max_ledger_bytes :: nat where "max_ledger_bytes = 65536"
definition max_skew_secs :: int where "max_skew_secs = 300"
definition fresh_margin_secs :: int where "fresh_margin_secs = 60"

definition i64_max :: int where "i64_max = 9223372036854775807"
definition i64_min :: int where "i64_min = -9223372036854775808"

definition saturating_add :: "int \<Rightarrow> int \<Rightarrow> int" where
  "saturating_add a b = max i64_min (min i64_max (a + b))"

record cycle_status =
  cs_at :: "int option"
  cs_measured_at :: "int option"
  cs_outcome :: "rstring option"
  cs_alert :: bool
  cs_live :: "rstring option"
  cs_overflow :: "rstring option"
  cs_platform_live :: bool

definition has_capacity :: "cycle_status \<Rightarrow> bool" where
  "has_capacity s =
    (\<not> cs_alert s \<and> cs_outcome s \<in> {Some (lit ''swapped''), Some (lit ''stayed''), Some (lit ''switched'')})"

definition on_overflow :: "cycle_status \<Rightarrow> bool" where
  "on_overflow s = (cs_overflow s \<in> {Some (lit ''in''), Some (lit ''on'')})"

definition cycle_fresh_capacity :: "cycle_status \<Rightarrow> int \<Rightarrow> bool" where
  "cycle_fresh_capacity s start =
    (has_capacity s \<and>
     (case cs_measured_at s of
        Some measured \<Rightarrow> measured > start
      | None \<Rightarrow> (case cs_at s of Some at \<Rightarrow> at > saturating_add start fresh_margin_secs | None \<Rightarrow> False)))"

definition option_filter :: "('a \<Rightarrow> bool) \<Rightarrow> 'a option \<Rightarrow> 'a option" where
  "option_filter p x = (case x of Some v \<Rightarrow> if p v then Some v else None | None \<Rightarrow> None)"

lemma option_filter_Some [simp]: "option_filter p x = Some v \<longleftrightarrow> x = Some v \<and> p v"
  by (auto simp: option_filter_def split: option.splits)

definition parse_cycle :: "(nat list \<Rightarrow> json option) \<Rightarrow> nat list \<Rightarrow> int \<Rightarrow> cycle_status option" where
  "parse_cycle from_slice raw now =
    (if max_ledger_bytes < length raw then None
     else (case from_slice raw of
             None \<Rightarrow> None
           | Some v \<Rightarrow>
               if \<not> json_is_obj v then None
               else if Option.bind (json_get (lit ''version'') v) json_as_u64 \<noteq> Some ledger_version then None
               else (let last_cycle = option_filter json_is_obj (json_get (lit ''last_cycle'') v);
                         field = (\<lambda>key. Option.bind last_cycle (json_get key));
                         time = (\<lambda>key. option_filter (\<lambda>t. t > 0 \<and> t \<le> saturating_add now max_skew_secs)
                           (Option.bind (field key) json_as_i64));
                         live = option_filter valid_live_name (Option.bind (json_get (lit ''live'') v) json_as_str)
                     in Some \<lparr>cs_at = time (lit ''at''), cs_measured_at = time (lit ''measured_at''),
                          cs_outcome = Option.bind (field (lit ''outcome'')) json_as_str,
                          cs_alert = (case json_get (lit ''alert'') v of None \<Rightarrow> False | Some a \<Rightarrow> a \<noteq> J_null),
                          cs_live = live,
                          cs_overflow = option_filter (\<lambda>t. t \<in> {lit ''in'', lit ''out'', lit ''on''})
                            (Option.bind (field (lit ''overflow'')) json_as_str),
                          cs_platform_live = (live \<noteq> None \<and>
                            Option.bind (json_get (lit ''live_kind'') v) json_as_str = Some (lit ''platform''))\<rparr>)))"

datatype ledger = Ledger_missing | Ledger_unreadable | Ledger_read cycle_status

definition rotate_dir :: path where
  "rotate_dir = [lit ''.auto-switch.d'', lit ''rotate'']"

definition ledger_path :: path where
  "ledger_path = rotate_dir @ [lit ''ledger.json'']"

definition read_ledger :: "(nat list \<Rightarrow> json option) \<Rightarrow> proc_env \<Rightarrow> files \<Rightarrow> int \<Rightarrow> ledger" where
  "read_ledger from_slice pr fs now =
    (case read_bounded_nofollow pr fs ledger_path max_ledger_bytes of
       Inr None \<Rightarrow> Ledger_missing
     | Inr (Some (raw, m)) \<Rightarrow>
         if owned_by_euid pr m \<and> \<not> writable_by_others pr m
         then (case parse_cycle from_slice raw now of None \<Rightarrow> Ledger_unreadable | Some s \<Rightarrow> Ledger_read s)
         else Ledger_unreadable
     | Inl _ \<Rightarrow> Ledger_unreadable)"

definition read_cycle :: "(nat list \<Rightarrow> json option) \<Rightarrow> proc_env \<Rightarrow> files \<Rightarrow> int \<Rightarrow> cycle_status option" where
  "read_cycle from_slice pr fs now = (case read_ledger from_slice pr fs now of Ledger_read s \<Rightarrow> Some s | _ \<Rightarrow> None)"

section \<open>The daemon\<close>

definition max_pid_file :: nat where "max_pid_file = 32"

datatype daemon_state = Running nat | Stopped | Stale | Unverifiable

definition pid_path :: path where
  "pid_path = rotate_dir @ [lit ''rotate.pid'']"

definition parse_pid :: "nat list \<Rightarrow> nat \<Rightarrow> nat option" where
  "parse_pid bytes own =
    (if max_pid_file < length bytes then None
     else (let digits = (case strip_suffix [ch_nl] bytes of Some d \<Rightarrow> d | None \<Rightarrow> bytes)
           in (case parse_digits 32 digits of
                 Some pid \<Rightarrow> if pid > 1 \<and> pid \<noteq> own then Some pid else None
               | None \<Rightarrow> None)))"

definition is_rotator :: "nat list \<Rightarrow> rstring option \<Rightarrow> bool" where
  "is_rotator cmdline exe_name =
    (case filter (\<lambda>a. a \<noteq> []) (split_on (\<lambda>b. b = 0) cmdline) of
       [] \<Rightarrow> False
     | argv0 # rest \<Rightarrow>
         (case exe_name of None \<Rightarrow> True | Some n \<Rightarrow> file_name (path_components argv0) = Some n) \<and>
         list_all (\<lambda>w. w \<in> set rest) [lit ''profile'', lit ''rotate'', lit ''watch''])"

definition pid_dir :: "nat \<Rightarrow> path" where
  "pid_dir pid = [show_radix 10 pid]"

definition verified :: "proc_env \<Rightarrow> files \<Rightarrow> nat \<Rightarrow> rstring option \<Rightarrow> bool" where
  "verified pr proc_root pid exe_name =
    ((case lstat pr proc_root (pid_dir pid) of Inr n \<Rightarrow> owned_by_euid pr (node_meta n) | Inl _ \<Rightarrow> False) \<and>
     (case read_bounded_nofollow pr proc_root (pid_dir pid @ [lit ''cmdline'']) 65536 of
        Inr (Some (raw, _)) \<Rightarrow> is_rotator raw exe_name | _ \<Rightarrow> False))"

definition daemon_state :: "proc_env \<Rightarrow> nat \<Rightarrow> files \<Rightarrow> files \<Rightarrow> rstring option \<Rightarrow> daemon_state" where
  "daemon_state pr own fs proc_root exe_name =
    (case read_bounded_nofollow pr fs pid_path max_pid_file of
       Inr None \<Rightarrow> Stopped
     | Inl _ \<Rightarrow> Stale
     | Inr (Some (raw, _)) \<Rightarrow>
         if \<not> (case proc_root [] of Some n \<Rightarrow> is_dir n | None \<Rightarrow> False) then Unverifiable
         else (case parse_pid raw own of
                 Some pid \<Rightarrow> if verified pr proc_root pid exe_name then Running pid else Stale
               | None \<Rightarrow> Stale))"

definition rotator_down_at :: "(nat list \<Rightarrow> json option) \<Rightarrow> proc_env \<Rightarrow> nat \<Rightarrow> files \<Rightarrow> files \<Rightarrow> int \<Rightarrow> bool" where
  "rotator_down_at from_slice pr own fs proc_root now =
    (case daemon_state pr own fs proc_root None of
       Running _ \<Rightarrow> read_ledger from_slice pr fs now = Ledger_unreadable
     | Unverifiable \<Rightarrow> read_ledger from_slice pr fs now = Ledger_unreadable
     | _ \<Rightarrow> True)"

section \<open>Facts\<close>

text \<open>What a cycle tells is within bounds, and an alert of any type means no capacity.\<close>

lemma parse_cycle_wf:
  assumes "parse_cycle from_slice raw now = Some s"
  shows "\<And>t. cs_at s = Some t \<Longrightarrow> 0 < t \<and> t \<le> saturating_add now max_skew_secs"
    "\<And>t. cs_measured_at s = Some t \<Longrightarrow> 0 < t \<and> t \<le> saturating_add now max_skew_secs"
    "\<And>n. cs_live s = Some n \<Longrightarrow> valid_live_name n"
    "cs_platform_live s \<Longrightarrow> cs_live s \<noteq> None"
  using assms by (auto simp: parse_cycle_def Let_def simp del: lit_Cons split: if_splits option.splits)

lemma any_alert_blocks:
  assumes "parse_cycle from_slice raw now = Some s" "from_slice raw = Some v" "json_get (lit ''alert'') v = Some a" "a \<noteq> J_null"
  shows "\<not> has_capacity s"
  using assms by (auto simp: parse_cycle_def Let_def has_capacity_def simp del: lit_Cons split: if_splits)

end
