(* ===== verification/Resume_Guard.thy ===== *)
theory Resume_Guard
  imports Private_Files Rust_Path
begin

text \<open>
  The loop guard of \<open>limit-resume\<close> (\<open>amplihack-hooks/src/limit_resume/guard.rs\<close>): what is kept on disk below
  \<open>.auto-switch.d/resume\<close> and the operations on it.  Every system call may fail; a commit runs under the file lock
  and is one step.
\<close>

section \<open>Paths and constants\<close>

definition max_resumes_per_session :: nat where "max_resumes_per_session = 3"
definition day_secs :: int where "day_secs = 86400"
definition marker_retention_secs :: int where "marker_retention_secs = 7 * day_secs"
definition max_wait_secs :: int where "max_wait_secs = 604800"
definition prompted_retention_secs :: int where "prompted_retention_secs = max_wait_secs + 3600"
definition max_session_bytes :: nat where "max_session_bytes = 4096"
definition max_prompted_bytes :: nat where "max_prompted_bytes = 64"

datatype commit_error = Ce_cap | Ce_duplicate | Ce_io

definition state_dir :: path where "state_dir = [lit ''.auto-switch.d'']"
definition resume_dir :: path where "resume_dir = state_dir @ [lit ''resume'']"

definition sub_dir :: "rstring \<Rightarrow> path" where "sub_dir s = resume_dir @ [s]"

abbreviation "events_dir \<equiv> sub_dir (lit ''events'')"
abbreviation "sessions_dir \<equiv> sub_dir (lit ''sessions'')"
abbreviation "prompted_dir \<equiv> sub_dir (lit ''prompted'')"

definition is_key :: "rstring \<Rightarrow> bool" where
  "is_key s = (utf8_len s = 64 \<and> list_all (\<lambda>b. is_ascii_digit b \<or> 97 \<le> b \<and> b \<le> 102) s)"

definition check_key :: "rstring \<Rightarrow> (file_error, unit) result" where
  "check_key s = (if is_key s then Inr () else Inl Invalid_input)"

section \<open>Records\<close>

text \<open>One positive number of seconds per line; \<open>None\<close> is malformed.\<close>

definition session_line :: "rstring \<Rightarrow> int option" where
  "session_line line =
    (if line = [] \<or> \<not> list_all is_ascii_digit line then None
     else (case parse_digits 63 line of Some n \<Rightarrow> if int n > 0 then Some (int n) else None | None \<Rightarrow> None))"

definition parse_session :: "nat list \<Rightarrow> int list option" where
  "parse_session raw =
    (case from_utf8 raw of
       None \<Rightarrow> None
     | Some t \<Rightarrow>
         (let body = (case strip_suffix [ch_nl] t of Some b \<Rightarrow> b | None \<Rightarrow> t)
          in if body = [] then Some []
             else (let ls = map session_line (split_on (\<lambda>c. c = ch_nl) body)
                   in if None \<in> set ls then None else Some (map the ls))))"

text \<open>\<open>format!("{t}\n")\<close>\<close>

definition show_int :: "int \<Rightarrow> rstring" where
  "show_int t = (if t < 0 then ch_dash # show_radix 10 (nat (- t)) else show_radix 10 (nat t))"

definition session_record :: "int list \<Rightarrow> rstring" where
  "session_record ts = concat (map (\<lambda>t. show_int t @ [ch_nl]) ts)"

definition recent :: "int list \<Rightarrow> int \<Rightarrow> int list" where
  "recent ts now = filter (\<lambda>t. now - t < day_secs) ts"

section \<open>Directories\<close>

definition check_root :: "proc_env \<Rightarrow> files \<Rightarrow> (file_error, unit) result" where
  "check_root pr fs =
    (case lstat pr fs [] of
       Inl e \<Rightarrow> Inl e
     | Inr n \<Rightarrow>
         if \<not> is_dir n then Inl Invalid_data
         else if \<not> owned_by_euid pr (node_meta n) \<or> writable_by_others pr (node_meta n) then Inl Invalid_data
         else Inr ())"

text \<open>A step that may fail, threading the files.\<close>

definition and_next ::
  "(file_error, 'a) result \<times> files \<Rightarrow> (files \<Rightarrow> ('e, 'b) result \<times> files) \<Rightarrow> (file_error \<Rightarrow> 'e) \<Rightarrow> ('e, 'b) result \<times> files" where
  "and_next r f err = (case r of (Inl e, fs) \<Rightarrow> (Inl (err e), fs) | (Inr _, fs) \<Rightarrow> f fs)"

definition ensure_resume_dir :: "proc_env \<Rightarrow> files \<Rightarrow> (file_error, unit) result \<times> files" where
  "ensure_resume_dir pr fs =
    and_next (check_root pr fs, fs) (\<lambda>fs.
    and_next (ensure_private_dir pr fs state_dir) (\<lambda>fs.
    ensure_private_dir pr fs resume_dir) id) id"

text \<open>The loop over the directories: each must be private; a missing one ends it.\<close>

fun existing_dirs :: "proc_env \<Rightarrow> files \<Rightarrow> path list \<Rightarrow> (file_error, bool) result" where
  "existing_dirs pr fs [] = Inr True"
| "existing_dirs pr fs (d # ds) =
    (case lstat pr fs d of
       Inl e \<Rightarrow> if e = Not_found then Inr False else Inl e
     | Inr _ \<Rightarrow> (case check_private_dir pr fs d of Inl e \<Rightarrow> Inl e | Inr _ \<Rightarrow> existing_dirs pr fs ds))"

definition existing_subdir :: "proc_env \<Rightarrow> files \<Rightarrow> rstring \<Rightarrow> (file_error, path option) result" where
  "existing_subdir pr fs sub =
    (case check_root pr fs of
       Inl e \<Rightarrow> Inl e
     | Inr _ \<Rightarrow>
         (let dirs = [state_dir, resume_dir] @ (if sub \<noteq> [] then [sub_dir sub] else [])
          in (case existing_dirs pr fs dirs of
                Inl e \<Rightarrow> Inl e
              | Inr b \<Rightarrow> Inr (if b then Some (last dirs) else None))))"

text \<open>\<open>prune_dir\<close>: the regular files of the user named like a key whose time is over.\<close>

definition prune_dir :: "proc_env \<Rightarrow> files \<Rightarrow> path \<Rightarrow> int \<Rightarrow> int \<Rightarrow> files" where
  "prune_dir pr fs dir now retention =
    (if p_fails pr Sys_list dir then fs
     else (\<lambda>p. if p \<noteq> [] \<and> butlast p = dir \<and> is_key (last p) \<and> \<not> p_fails pr Sys_stat p \<and> \<not> p_fails pr Sys_unlink p \<and>
                  (case fs p of
                     Some n \<Rightarrow> is_file n \<and> owned_by_euid pr (node_meta n) \<and> m_mtime (node_meta n) < now - retention
                   | None \<Rightarrow> False)
               then None else fs p))"

text \<open>\<open>None\<close>: no record; \<open>Some None\<close>: a malformed one.\<close>

definition read_session :: "proc_env \<Rightarrow> files \<Rightarrow> path \<Rightarrow> (file_error, int list option option) result" where
  "read_session pr fs p =
    (case read_bounded_nofollow pr fs p max_session_bytes of
       Inl e \<Rightarrow> Inl e
     | Inr None \<Rightarrow> Inr None
     | Inr (Some (raw, m)) \<Rightarrow>
         if \<not> owned_by_euid pr m \<or> \<not> private_mode (m_mode m) \<or> m_nlink m \<noteq> 1 then Inl Invalid_data
         else Inr (Some (parse_session raw)))"

section \<open>Operations of the store\<close>

definition record_prompt :: "proc_env \<Rightarrow> files \<Rightarrow> rstring \<Rightarrow> int \<Rightarrow> (file_error, unit) result \<times> files" where
  "record_prompt pr fs session now =
    (case check_key session of
       Inl e \<Rightarrow> (Inl e, fs)
     | Inr _ \<Rightarrow>
         (case existing_subdir pr fs [] of
            Inl e \<Rightarrow> (Inl e, fs)
          | Inr None \<Rightarrow> (Inr (), fs)
          | Inr (Some dir) \<Rightarrow>
              and_next (ensure_private_dir pr fs (dir @ [lit ''prompted'']))
                (\<lambda>fs. write_private_atomic_nosync pr fs (dir @ [lit ''prompted'']) session
                   (utf8_bytes (show_int now @ [ch_nl]))) id))"

definition guard_seen :: "proc_env \<Rightarrow> files \<Rightarrow> rstring \<Rightarrow> (file_error, bool) result" where
  "guard_seen pr fs event =
    (case check_key event of
       Inl e \<Rightarrow> Inl e
     | Inr _ \<Rightarrow>
         (case existing_subdir pr fs (lit ''events'') of
            Inl e \<Rightarrow> Inl e
          | Inr None \<Rightarrow> Inr False
          | Inr (Some events) \<Rightarrow>
              (case lstat pr fs (events @ [event]) of
                 Inr _ \<Rightarrow> Inr True
               | Inl e \<Rightarrow> if e = Not_found then Inr False else Inl e)))"

definition guard_resumes :: "proc_env \<Rightarrow> files \<Rightarrow> rstring \<Rightarrow> int \<Rightarrow> (file_error, nat) result" where
  "guard_resumes pr fs session now =
    (case check_key session of
       Inl e \<Rightarrow> Inl e
     | Inr _ \<Rightarrow>
         (case existing_subdir pr fs (lit ''sessions'') of
            Inl e \<Rightarrow> Inl e
          | Inr None \<Rightarrow> Inr 0
          | Inr (Some sessions) \<Rightarrow>
              (case read_session pr fs (sessions @ [session]) of
                 Inl e \<Rightarrow> Inl e
               | Inr None \<Rightarrow> Inr 0
               | Inr (Some None) \<Rightarrow> Inr max_resumes_per_session
               | Inr (Some (Some ts)) \<Rightarrow> Inr (length (recent ts now)))))"

definition guard_prepare :: "proc_env \<Rightarrow> files \<Rightarrow> int \<Rightarrow> (file_error, unit) result \<times> files" where
  "guard_prepare pr fs now =
    and_next (ensure_resume_dir pr fs) (\<lambda>fs.
    and_next (ensure_private_dir pr fs prompted_dir) (\<lambda>fs.
    (Inr (), prune_dir pr fs prompted_dir now prompted_retention_secs)) id) id"

definition guard_prompted_at :: "proc_env \<Rightarrow> files \<Rightarrow> rstring \<Rightarrow> (file_error, int option) result" where
  "guard_prompted_at pr fs session =
    (case check_key session of
       Inl e \<Rightarrow> Inl e
     | Inr _ \<Rightarrow>
         (case existing_subdir pr fs (lit ''prompted'') of
            Inl e \<Rightarrow> Inl e
          | Inr None \<Rightarrow> Inr None
          | Inr (Some prompted) \<Rightarrow>
              (case read_bounded_nofollow pr fs (prompted @ [session]) max_prompted_bytes of
                 Inl e \<Rightarrow> Inl e
               | Inr None \<Rightarrow> Inr None
               | Inr (Some (raw, m)) \<Rightarrow>
                   if \<not> owned_by_euid pr m \<or> \<not> private_mode (m_mode m) then Inl Invalid_data
                   else (case parse_session raw of
                           Some [t] \<Rightarrow> Inr (Some t)
                         | Some [] \<Rightarrow> Inr None
                         | _ \<Rightarrow> Inl Invalid_data))))"

text \<open>What the record of the session allows: the times to keep, or why not.\<close>

definition commit_times :: "int list option option \<Rightarrow> int \<Rightarrow> int \<Rightarrow> (commit_error, int list) result" where
  "commit_times record start now =
    and_then
      (case record of
         None \<Rightarrow> Inr []
       | Some None \<Rightarrow> Inl Ce_cap
       | Some (Some ts) \<Rightarrow> if list_ex (\<lambda>t. t > start) ts then Inl Ce_duplicate else Inr (recent ts now))
      (\<lambda>ts. if length ts \<ge> max_resumes_per_session then Inl Ce_cap else Inr ts)"

text \<open>The writes: the marker, synced with its directory, then the record.\<close>

definition commit_write ::
  "proc_env \<Rightarrow> files \<Rightarrow> rstring \<Rightarrow> rstring \<Rightarrow> int list \<Rightarrow> (commit_error, unit) result \<times> files" where
  "commit_write pr fs event session ts =
    (case create_new pr fs (events_dir @ [event]) of
       (Inl e, fs) \<Rightarrow> (Inl (if e = Already_exists then Ce_duplicate else Ce_io), fs)
     | (Inr _, fs) \<Rightarrow>
         if p_fails pr Sys_sync (events_dir @ [event]) then (Inl Ce_io, fs)
         else and_next (fsync_dir pr fs events_dir, fs) (\<lambda>fs.
              and_next (write_private_atomic pr fs sessions_dir session (utf8_bytes (session_record ts)))
                (\<lambda>fs. (Inr (), fs)) (\<lambda>_. Ce_io)) (\<lambda>_. Ce_io))"

text \<open>What happens once the lock is held.\<close>

definition commit_locked ::
  "proc_env \<Rightarrow> files \<Rightarrow> rstring \<Rightarrow> rstring \<Rightarrow> int \<Rightarrow> int \<Rightarrow> (commit_error, unit) result \<times> files" where
  "commit_locked pr fs0 event session start now =
    (let fs = prune_dir pr (prune_dir pr fs0 events_dir now marker_retention_secs) prompted_dir now prompted_retention_secs
     in (case lstat pr fs (events_dir @ [event]) of
           Inr _ \<Rightarrow> (Inl Ce_duplicate, fs)
         | Inl e \<Rightarrow>
             if e \<noteq> Not_found then (Inl Ce_io, fs)
             else (case read_session pr fs (sessions_dir @ [session]) of
                     Inl _ \<Rightarrow> (Inl Ce_io, fs)
                   | Inr record \<Rightarrow>
                       (case commit_times record start now of
                          Inl err \<Rightarrow> (Inl err, fs)
                        | Inr ts \<Rightarrow> commit_write pr fs event session (ts @ [now])))))"

definition guard_commit ::
  "proc_env \<Rightarrow> files \<Rightarrow> rstring \<Rightarrow> rstring \<Rightarrow> int \<Rightarrow> int \<Rightarrow> (commit_error, unit) result \<times> files" where
  "guard_commit pr fs event session start now =
    and_next (check_key event, fs) (\<lambda>fs.
    and_next (check_key session, fs) (\<lambda>fs.
    and_next (ensure_resume_dir pr fs) (\<lambda>fs.
    and_next (ensure_private_dir pr fs events_dir) (\<lambda>fs.
    and_next (ensure_private_dir pr fs sessions_dir) (\<lambda>fs.
    and_next (open_private_nofollow pr fs (sub_dir (lit ''lock''))) (\<lambda>fs.
    and_next (lock_exclusive_timeout pr, fs) (\<lambda>fs.
    commit_locked pr fs event session start now)
      (\<lambda>_. Ce_io)) (\<lambda>_. Ce_io)) (\<lambda>_. Ce_io)) (\<lambda>_. Ce_io)) (\<lambda>_. Ce_io)) (\<lambda>_. Ce_io)) (\<lambda>_. Ce_io)"

end
