(* ===== verification/Resume_Hook.thy ===== *)
theory Resume_Hook
  imports Resume_Guard Rotator_Ledger Hook_Input "HOL-Library.State_Monad"
begin

text \<open>
  The \<open>limit-resume\<close> hook (\<open>amplihack-hooks/src/limit_resume/mod.rs\<close>, \<open>decide.rs\<close> and \<open>log.rs\<close>): the decision whether a
  stopped session waits, the wait for a fresh cycle of the login rotator, and the wake.  The trait \<open>Deps\<close> is a record of
  state-monad operations over a world \<open>'w\<close>; the wait is a \<open>partial_function\<close>, so a wait that never ends has no result.
  SHA-256 and the parser of JSON are parameters; a panic of the world is left out.
\<close>

section \<open>Keys\<close>

definition max_session_id_bytes :: nat where "max_session_id_bytes = 256"

definition is_limit :: "rstring option \<Rightarrow> bool" where
  "is_limit error = (error = Some (lit ''rate_limit''))"

definition be_bytes64 :: "nat \<Rightarrow> nat list" where
  "be_bytes64 n = map (\<lambda>i. n div 256 ^ (7 - i) mod 256) [0..<8]"

definition field_bytes :: "rstring option \<Rightarrow> nat list" where
  "field_bytes f = (case f of None \<Rightarrow> [0] | Some s \<Rightarrow> 1 # be_bytes64 (utf8_len s) @ utf8_bytes s)"

definition digest_input :: "rstring \<Rightarrow> rstring option list \<Rightarrow> nat list" where
  "digest_input domain fs = utf8_bytes domain @ [0] @ concat (map field_bytes fs)"

definition hex_byte :: "nat \<Rightarrow> rstring" where
  "hex_byte b = (if b < 16 then lit ''0'' @ show_radix 16 b else show_radix 16 b)"

definition hex_digest :: "(nat list \<Rightarrow> nat list) \<Rightarrow> rstring \<Rightarrow> rstring option list \<Rightarrow> rstring" where
  "hex_digest sha domain fs = concat (map hex_byte (sha (digest_input domain fs)))"

definition event_key ::
  "(nat list \<Rightarrow> nat list) \<Rightarrow> rstring \<Rightarrow> rstring option \<Rightarrow> rstring option \<Rightarrow> rstring option \<Rightarrow> rstring option \<Rightarrow> rstring" where
  "event_key sha session_id error details message live =
    hex_digest sha (lit ''amplihack-limit-resume-event-v2'') [Some session_id, error, details, message, live]"

definition session_key :: "(nat list \<Rightarrow> nat list) \<Rightarrow> rstring \<Rightarrow> rstring" where
  "session_key sha session_id = hex_digest sha (lit ''amplihack-limit-resume-session-v1'') [Some session_id]"

definition session_id_ok :: "rstring option \<Rightarrow> bool" where
  "session_id_ok session_id =
    (case session_id of Some s \<Rightarrow> s \<noteq> [] \<and> utf8_len s \<le> max_session_id_bytes | None \<Rightarrow> False)"

section \<open>The gate\<close>

record gate_facts =
  gf_enabled :: bool
  gf_limit :: bool
  gf_session_ok :: bool
  gf_stop_hook_active :: bool
  gf_duplicate :: bool
  gf_capped :: bool

datatype gate_answer = Gate_disabled | Gate_not_limit | Gate_stop_hook_active | Gate_duplicate | Gate_cap | Gate_proceed

definition gate_of :: "gate_facts \<Rightarrow> gate_answer" where
  "gate_of f =
    (if \<not> gf_enabled f then Gate_disabled
     else if \<not> gf_limit f \<or> \<not> gf_session_ok f then Gate_not_limit
     else if gf_stop_hook_active f then Gate_stop_hook_active
     else if gf_duplicate f then Gate_duplicate
     else if gf_capped f then Gate_cap
     else Gate_proceed)"

definition fresh_capacity :: "cycle_status option \<Rightarrow> int \<Rightarrow> bool" where
  "fresh_capacity status start = (case status of Some s \<Rightarrow> cycle_fresh_capacity s start | None \<Rightarrow> False)"

definition poll_interval_secs :: nat where "poll_interval_secs = 15"
definition slow_poll_after :: int where "slow_poll_after = 3600"
definition slow_poll_interval :: nat where "slow_poll_interval = 300"

definition poll_interval :: "int \<Rightarrow> nat" where
  "poll_interval elapsed = (if elapsed < slow_poll_after then poll_interval_secs else slow_poll_interval)"

section \<open>Outcomes and the world\<close>

datatype outcome = Resumed | No_capacity_timeout | Moved_on | Out_duplicate | Out_cap | Out_stop_hook_active
  | Session_gone | Rotator_down | Guard_failed | Out_disabled | Out_not_limit

definition outcome_text :: "outcome \<Rightarrow> rstring" where
  "outcome_text x =
    lit (case x of
       Resumed \<Rightarrow> ''resumed'' | No_capacity_timeout \<Rightarrow> ''no-capacity-timeout'' | Moved_on \<Rightarrow> ''moved-on''
     | Out_duplicate \<Rightarrow> ''duplicate'' | Out_cap \<Rightarrow> ''cap'' | Out_stop_hook_active \<Rightarrow> ''stop-hook-active''
     | Session_gone \<Rightarrow> ''session-gone'' | Rotator_down \<Rightarrow> ''rotator-down'' | Guard_failed \<Rightarrow> ''guard-failed''
     | Out_disabled \<Rightarrow> ''disabled'' | Out_not_limit \<Rightarrow> ''not-limit'')"

definition outcome_exit :: "outcome \<Rightarrow> nat" where
  "outcome_exit x = (if x = Resumed then 2 else 0)"

record log_entry =
  le_session :: rstring
  le_event :: rstring
  le_outcome :: outcome
  le_live :: "rstring option"
  le_cycle :: "rstring option"

record 'w deps =
  d_auto_switch_on :: "('w, bool) state"
  d_now :: "('w, int) state"
  d_sleep :: "nat \<Rightarrow> ('w, unit) state"
  d_read_cycle :: "int \<Rightarrow> ('w, cycle_status option) state"
  d_seen :: "rstring \<Rightarrow> ('w, (file_error, bool) result) state"
  d_resumes :: "rstring \<Rightarrow> int \<Rightarrow> ('w, (file_error, nat) result) state"
  d_prepare :: "int \<Rightarrow> ('w, (file_error, unit) result) state"
  d_prompted_at :: "rstring \<Rightarrow> ('w, (file_error, int option) result) state"
  d_commit :: "rstring \<Rightarrow> rstring \<Rightarrow> int \<Rightarrow> int \<Rightarrow> ('w, (commit_error, unit) result) state"
  d_log :: "int \<Rightarrow> log_entry \<Rightarrow> ('w, unit) state"
  d_session_alive :: "('w, bool) state"
  d_rotator_down :: "int \<Rightarrow> ('w, bool) state"

section \<open>The run\<close>

definition log_key_chars :: nat where "log_key_chars = 12"

text \<open>The event, the session and the start of one invocation.\<close>

record wait_ctx =
  wc_event :: rstring
  wc_session :: rstring
  wc_start :: int

definition finish :: "'w deps \<Rightarrow> wait_ctx \<Rightarrow> int \<Rightarrow> outcome \<Rightarrow> cycle_status option \<Rightarrow> ('w, outcome) state" where
  "finish deps c now out status = do {
     _ \<leftarrow> d_log deps now \<lparr>le_session = take log_key_chars (wc_session c), le_event = take log_key_chars (wc_event c),
       le_outcome = out, le_live = Option.bind status cs_live, le_cycle = Option.bind status cs_outcome\<rparr>;
     State_Monad.return out }"

definition moved_on :: "'w deps \<Rightarrow> wait_ctx \<Rightarrow> ('w, (file_error, bool) result) state" where
  "moved_on deps c = do {
     r \<leftarrow> d_prompted_at deps (wc_session c);
     State_Monad.return (map_sum id (\<lambda>t. case t of Some t \<Rightarrow> t > wc_start c | None \<Rightarrow> False) r) }"

text \<open>Before the wait: an outcome, or the context to wait in.\<close>

definition stop_with :: "('w, outcome) state \<Rightarrow> ('w, outcome + wait_ctx) state" where
  "stop_with m = do { x \<leftarrow> m; State_Monad.return (Inl x) }"

definition run_checks :: "'w deps \<Rightarrow> gate_facts \<Rightarrow> wait_ctx \<Rightarrow> cycle_status option \<Rightarrow> ('w, outcome + wait_ctx) state" where
  "run_checks deps f c first =
    (if gate_of f = Gate_stop_hook_active then stop_with (finish deps c (wc_start c) Out_stop_hook_active None)
     else do {
       seen \<leftarrow> d_seen deps (wc_event c);
       (case seen of
          Inl _ \<Rightarrow> stop_with (finish deps c (wc_start c) Guard_failed None)
        | Inr duplicate \<Rightarrow> do {
            n \<leftarrow> d_resumes deps (wc_session c) (wc_start c);
            (case n of
               Inl _ \<Rightarrow> stop_with (finish deps c (wc_start c) Guard_failed None)
             | Inr n \<Rightarrow>
                 (case gate_of (f\<lparr>gf_duplicate := duplicate, gf_capped := (n \<ge> max_resumes_per_session)\<rparr>) of
                    Gate_duplicate \<Rightarrow> stop_with (finish deps c (wc_start c) Out_duplicate None)
                  | Gate_cap \<Rightarrow> stop_with (finish deps c (wc_start c) Out_cap None)
                  | _ \<Rightarrow> do {
                      down \<leftarrow> d_rotator_down deps (wc_start c);
                      (if down then stop_with (finish deps c (wc_start c) Rotator_down first)
                       else do {
                         prepared \<leftarrow> d_prepare deps (wc_start c);
                         (if is_ok prepared then State_Monad.return (Inr c)
                          else stop_with (finish deps c (wc_start c) Guard_failed None)) }) })) }) })"

definition run_begin :: "'w deps \<Rightarrow> (nat list \<Rightarrow> nat list) \<Rightarrow> hook_message \<Rightarrow> ('w, outcome + wait_ctx) state" where
  "run_begin deps sha inp = do {
     enabled \<leftarrow> d_auto_switch_on deps;
     (case inp of
        In_stop_failure session_id error details message active _ _ \<Rightarrow>
          (let f = \<lparr>gf_enabled = enabled, gf_limit = is_limit error, gf_session_ok = session_id_ok session_id,
                 gf_stop_hook_active = (active = Some True), gf_duplicate = False, gf_capped = False\<rparr>
           in if gate_of f = Gate_disabled then State_Monad.return (Inl Out_disabled)
              else if gate_of f = Gate_not_limit then State_Monad.return (Inl Out_not_limit)
              else (let sid = (case session_id of Some s \<Rightarrow> s | None \<Rightarrow> [])
                    in do {
                      start \<leftarrow> d_now deps;
                      first \<leftarrow> d_read_cycle deps start;
                      run_checks deps f
                        \<lparr>wc_event = event_key sha sid error details message (Option.bind first cs_live),
                         wc_session = session_key sha sid, wc_start = start\<rparr> first }))
      | _ \<Rightarrow> State_Monad.return (Inl (if enabled then Out_not_limit else Out_disabled))) }"

text \<open>One turn of the loop: the wait ends without a wake, the ledger decides, or the hook sleeps.\<close>

datatype poll_end = Poll_stop outcome int | Poll_break int "cycle_status option" | Poll_sleep nat

definition deadline :: "wait_ctx \<Rightarrow> int" where
  "deadline c = saturating_add (wc_start c) max_wait_secs"

definition wait_poll :: "'w deps \<Rightarrow> wait_ctx \<Rightarrow> ('w, poll_end) state" where
  "wait_poll deps c = do {
     now \<leftarrow> d_now deps;
     on \<leftarrow> d_auto_switch_on deps;
     (if \<not> on then State_Monad.return (Poll_stop Out_disabled now)
      else do {
        alive \<leftarrow> d_session_alive deps;
        (if \<not> alive then State_Monad.return (Poll_stop Session_gone now)
         else do {
           moved \<leftarrow> moved_on deps c;
           (case moved of
              Inl _ \<Rightarrow> State_Monad.return (Poll_stop Guard_failed now)
            | Inr True \<Rightarrow> State_Monad.return (Poll_stop Moved_on now)
            | Inr False \<Rightarrow> do {
                status \<leftarrow> d_read_cycle deps now;
                State_Monad.return
                  (if fresh_capacity status (wc_start c) \<or> now \<ge> deadline c then Poll_break now status
                   else Poll_sleep (min (poll_interval (now - wc_start c)) (nat (deadline c - now)))) }) }) }) }"

partial_function (option) wait_loop :: "'w deps \<Rightarrow> wait_ctx \<Rightarrow> 'w \<Rightarrow> (poll_end \<times> 'w) option" where
  "wait_loop deps c w =
    (case run_state (wait_poll deps c) w of
       (r, w1) \<Rightarrow>
         (case r of
            Poll_sleep d \<Rightarrow> wait_loop deps c (snd (run_state (d_sleep deps d) w1))
          | _ \<Rightarrow> Some (r, w1)))"

definition commit_outcome :: "(commit_error, unit) result \<Rightarrow> outcome" where
  "commit_outcome r =
    (case r of Inr _ \<Rightarrow> Resumed | Inl Ce_duplicate \<Rightarrow> Out_duplicate | Inl Ce_cap \<Rightarrow> Out_cap | Inl Ce_io \<Rightarrow> Guard_failed)"

definition run_end :: "'w deps \<Rightarrow> wait_ctx \<Rightarrow> poll_end \<Rightarrow> ('w, outcome) state" where
  "run_end deps c r =
    (case r of
       Poll_stop out now \<Rightarrow> finish deps c now out None
     | Poll_break now status \<Rightarrow>
         if \<not> fresh_capacity status (wc_start c) then finish deps c now No_capacity_timeout status
         else do {
           moved \<leftarrow> moved_on deps c;
           (case moved of
              Inl _ \<Rightarrow> finish deps c now Guard_failed status
            | Inr True \<Rightarrow> finish deps c now Moved_on status
            | Inr False \<Rightarrow> do {
                done \<leftarrow> d_commit deps (wc_event c) (wc_session c) (wc_start c) now;
                finish deps c now (commit_outcome done) status }) }
     | Poll_sleep _ \<Rightarrow> State_Monad.return No_capacity_timeout)"

definition run_with :: "'w deps \<Rightarrow> (nat list \<Rightarrow> nat list) \<Rightarrow> hook_message \<Rightarrow> 'w \<Rightarrow> (outcome \<times> 'w) option" where
  "run_with deps sha inp w =
    (case run_state (run_begin deps sha inp) w of
       (Inl out, w1) \<Rightarrow> Some (out, w1)
     | (Inr c, w1) \<Rightarrow> map_option (\<lambda>(r, w2). run_state (run_end deps c r) w2) (wait_loop deps c w1))"

section \<open>Standard input and the exit code\<close>

definition max_stdin_bytes :: nat where "max_stdin_bytes = 1048576"

definition resume_msg :: rstring where
  "resume_msg = lit ''amplihack: the login rotator reports a login with capacity. '' @
    lit ''Continue the task you were working on; if the usage limit is still in place, stop and wait.''"

text \<open>The payload is \<open>None\<close> when reading it fails.  The result: the exit code and the lines on standard error.\<close>

definition run_with_io ::
  "'w deps \<Rightarrow> (nat list \<Rightarrow> nat list) \<Rightarrow> (nat list \<Rightarrow> json option) \<Rightarrow> (rstring \<Rightarrow> json option) \<Rightarrow> nat list option \<Rightarrow> 'w \<Rightarrow>
   (nat \<times> rstring list \<times> 'w) option" where
  "run_with_io deps sha from_slice from_str stdin w =
    (case stdin of
       None \<Rightarrow> Some (0, [], w)
     | Some raw \<Rightarrow>
         if max_stdin_bytes < length raw then Some (0, [], w)
         else (case Option.bind (from_slice raw) (\<lambda>v. case hook_deserialize from_str v of Inr m \<Rightarrow> Some m | Inl _ \<Rightarrow> None) of
                 None \<Rightarrow> Some (0, [], w)
               | Some inp \<Rightarrow>
                   map_option (\<lambda>(out, w1). (outcome_exit out, if out = Resumed then [resume_msg] else [], w1))
                     (run_with deps sha inp w)))"

end
