(* ===== verification/Resume_Wait.thy ===== *)
theory Resume_Wait
  imports Resume_Hook
begin

text \<open>
  What the \<open>limit-resume\<close> hook promises over any world that keeps the laws of \<open>resume_world\<close>: a clock that does not go
  back, a sleep that is not shorter than asked, and a relation that every operation keeps, the commit only with the times
  the hook passes to it.  Under them the wait ends, within 2245 reads of the ledger, and the whole run keeps the relation.
\<close>

section \<open>Polling with fuel\<close>

text \<open>The same wait, given up after \<open>n\<close> turns.\<close>

fun wait_within :: "nat \<Rightarrow> 'w deps \<Rightarrow> wait_ctx \<Rightarrow> 'w \<Rightarrow> (poll_end \<times> 'w) option" where
  "wait_within 0 deps c w = None"
| "wait_within (Suc n) deps c w =
    (case run_state (wait_poll deps c) w of
       (Poll_sleep d, w1) \<Rightarrow> wait_within n deps c (snd (run_state (d_sleep deps d) w1))
     | (r, w1) \<Rightarrow> Some (r, w1))"

lemma wait_within_loop: "wait_within n deps c w = Some x \<Longrightarrow> wait_loop deps c w = Some x"
proof (induction n arbitrary: w)
  case (Suc n)
  then show ?case
    by (subst wait_loop.simps) (auto split: prod.splits poll_end.splits)
qed simp

lemma wait_within_mono: "wait_within m deps c w = Some x \<Longrightarrow> m \<le> n \<Longrightarrow> wait_within n deps c w = Some x"
proof (induction m arbitrary: n w)
  case (Suc m)
  then obtain k where "n = Suc k" "m \<le> k" by (cases n) auto
  then show ?case using Suc.prems Suc.IH by (fastforce split: prod.splits poll_end.splits)
qed simp

definition run_within :: "nat \<Rightarrow> 'w deps \<Rightarrow> (nat list \<Rightarrow> nat list) \<Rightarrow> hook_message \<Rightarrow> 'w \<Rightarrow> (outcome \<times> 'w) option" where
  "run_within n deps sha inp w =
    (case run_state (run_begin deps sha inp) w of
       (Inl out, w1) \<Rightarrow> Some (out, w1)
     | (Inr c, w1) \<Rightarrow> map_option (\<lambda>(r, w2). run_state (run_end deps c r) w2) (wait_within n deps c w1))"

text \<open>How many turns are left \<open>e\<close> seconds into a wait of \<open>span\<close> seconds.\<close>

definition polls_left :: "int \<Rightarrow> int \<Rightarrow> nat" where
  "polls_left span e =
    (if span \<le> e then 1
     else if e < slow_poll_after then nat ((slow_poll_after - e + 14) div 15) + 2004 + 1
     else nat ((span - e + 299) div 300) + 1)"

lemmas poll_times = poll_interval_secs_def slow_poll_after_def slow_poll_interval_def max_wait_secs_def

lemma polls_left_antimono: "0 \<le> e \<Longrightarrow> e \<le> e' \<Longrightarrow> span \<le> max_wait_secs \<Longrightarrow> polls_left span e' \<le> polls_left span e"
  unfolding polls_left_def poll_times by (auto; linarith)

lemma polls_left_step:
  assumes "0 \<le> e" "e < span" "span \<le> max_wait_secs"
    "e' \<ge> e + int (min (poll_interval e) (nat (span - e)))"
  shows "polls_left span e' < polls_left span e"
proof (cases "span \<le> e'")
  case True
  have "0 < polls_left span e" "e < slow_poll_after \<Longrightarrow> 1 < polls_left span e" "polls_left span e' = 1"
    using True assms(2) by (simp_all add: polls_left_def poll_times)
  moreover have "1 < polls_left span e" if "slow_poll_after \<le> e"
  proof -
    have "0 < (span - e + 299) div 300" using assms(2) by linarith
    then show ?thesis using that assms(2) by (simp add: polls_left_def)
  qed
  ultimately show ?thesis by linarith
next
  case False
  have s: "int (min (poll_interval e) (nat (span - e))) = int (poll_interval e)"
    using assms(2,4) False by (simp add: min_def split: if_splits)
  show ?thesis
  proof (cases "e < slow_poll_after")
    case True
    have e: "e + 15 \<le> e'" using assms(4) [unfolded s] True by (simp add: poll_interval_def poll_times)
    show ?thesis
    proof (cases "e' < slow_poll_after")
      case True
      have "(slow_poll_after - e' + 14) div 15 < (slow_poll_after - e + 14) div 15" "0 < (slow_poll_after - e + 14) div 15"
        using e True \<open>e < slow_poll_after\<close> by linarith+
      then show ?thesis using True False \<open>e < slow_poll_after\<close> assms(2) by (simp add: polls_left_def)
    next
      case late: False
      have "(span - e' + 299) div 300 \<le> 2004" "0 < (slow_poll_after - e + 14) div 15"
        using late assms(3) True unfolding poll_times by linarith+
      then show ?thesis using late False True assms(2) by (simp add: polls_left_def)
    qed
  next
    case late: False
    have e: "e + 300 \<le> e'" using assms(4) [unfolded s] late by (simp add: poll_interval_def poll_times)
    have "(span - e' + 299) div 300 < (span - e + 299) div 300" "0 < (span - e + 299) div 300"
      using e assms(2) by linarith+
    then show ?thesis using late False e assms(2) by (simp add: polls_left_def)
  qed
qed

lemma polls_left_start: "span \<le> max_wait_secs \<Longrightarrow> 0 \<le> e \<Longrightarrow> polls_left span e \<le> 2245"
  unfolding polls_left_def poll_times by (auto; linarith)

section \<open>Operations that respect a relation\<close>

definition keeps :: "('w \<Rightarrow> 'w \<Rightarrow> bool) \<Rightarrow> ('w, 'a) state \<Rightarrow> bool" where
  "keeps rel m = (\<forall>w. rel w (snd (run_state m w)))"

lemma keepsD: "keeps rel m \<Longrightarrow> run_state m w = (x, w') \<Longrightarrow> rel w w'"
  unfolding keeps_def by (metis snd_conv)

lemma keeps_return: "(\<And>w. rel w w) \<Longrightarrow> keeps rel (State_Monad.return x)"
  by (simp add: keeps_def)

lemma keeps_bind:
  assumes "\<And>a b c. rel a b \<Longrightarrow> rel b c \<Longrightarrow> rel a c" "keeps rel m" "\<And>x. keeps rel (f x)"
  shows "keeps rel (m \<bind> f)"
  using assms unfolding keeps_def by (auto split: prod.split) (metis fst_conv snd_conv)

section \<open>The laws of the world\<close>

locale resume_world =
  fixes deps :: "'w deps" and time :: "'w \<Rightarrow> int" and rel :: "'w \<Rightarrow> 'w \<Rightarrow> bool"
  assumes rel_refl: "rel w w"
    and rel_trans: "rel w1 w2 \<Longrightarrow> rel w2 w3 \<Longrightarrow> rel w1 w3"
    and rel_time: "rel w w' \<Longrightarrow> time w \<le> time w'"
    and epoch: "0 \<le> time w"
    and now_law: "run_state (d_now deps) w = (t, w') \<Longrightarrow> rel w w' \<and> time w \<le> t \<and> t \<le> time w'"
    and sleep_law: "run_state (d_sleep deps d) w = (u, w') \<Longrightarrow> rel w w' \<and> time w + int d \<le> time w'"
    and quiet_laws: "keeps rel (d_auto_switch_on deps)" "keeps rel (d_session_alive deps)"
      "keeps rel (d_read_cycle deps now)" "keeps rel (d_seen deps k)" "keeps rel (d_resumes deps k now)"
      "keeps rel (d_prepare deps now)" "keeps rel (d_prompted_at deps k)" "keeps rel (d_log deps now e)"
      "keeps rel (d_rotator_down deps now)"
    and commit_law: "start \<le> now \<Longrightarrow> now \<le> time w \<Longrightarrow> run_state (d_commit deps ev k start now) w = (x, w') \<Longrightarrow> rel w w'"
begin

lemma keeps_now: "keeps rel (d_now deps)"
  unfolding keeps_def using now_law by (metis prod.collapse)

lemma bindI: "keeps rel m \<Longrightarrow> (\<And>x. keeps rel (f x)) \<Longrightarrow> keeps rel (m \<bind> f)"
  using keeps_bind rel_trans by blast

lemma returnI: "keeps rel (State_Monad.return x)"
  by (rule keeps_return) (rule rel_refl)

lemma keeps_finish: "keeps rel (finish deps c now out status)"
  unfolding finish_def by (intro bindI returnI quiet_laws)

lemma keeps_moved: "keeps rel (moved_on deps c)"
  unfolding moved_on_def by (intro bindI returnI quiet_laws)

lemma keeps_stop: "keeps rel m \<Longrightarrow> keeps rel (stop_with m)"
  unfolding stop_with_def by (intro bindI returnI)

lemma keeps_checks: "keeps rel (run_checks deps f c first)"
  unfolding run_checks_def
  by (auto intro!: bindI returnI keeps_stop keeps_finish quiet_laws split: sum.split gate_answer.split)

lemma keeps_begin: "keeps rel (run_begin deps sha inp)"
  unfolding run_begin_def Let_def
  by (auto intro!: bindI returnI keeps_checks quiet_laws keeps_now split: hook_message.split)

lemma poll_law:
  assumes "run_state (wait_poll deps c) w = (r, w1)"
  shows "rel w w1"
    "\<And>t s. r = Poll_break t s \<Longrightarrow> time w \<le> t \<and> t \<le> time w1"
    "\<And>d. r = Poll_sleep d \<Longrightarrow> \<exists>t. time w \<le> t \<and> t \<le> time w1 \<and> t < deadline c \<and>
       d = min (poll_interval (t - wc_start c)) (nat (deadline c - t))"
proof -
  obtain t wa on wb alive wc mv wd st we where
    s: "run_state (d_now deps) w = (t, wa)" "run_state (d_auto_switch_on deps) wa = (on, wb)"
      "run_state (d_session_alive deps) wb = (alive, wc)" "run_state (moved_on deps c) wc = (mv, wd)"
      "run_state (d_read_cycle deps t) wd = (st, we)"
    by (metis surj_pair)
  note n = now_law [OF s(1)]
  have q: "rel wa wb" "rel wb wc" "rel wc wd" "rel wd we"
    using keepsD [OF quiet_laws(1) s(2)] keepsD [OF quiet_laws(2) s(3)] keepsD [OF keeps_moved s(4)]
      keepsD [OF quiet_laws(3) s(5)] by blast+
  have r: "rel w wa" "rel w wb" "rel w wc" "rel w wd" "rel w we" "rel wa we"
    using n q rel_trans by blast+
  show "rel w w1" using assms s r by (auto simp: wait_poll_def split: sum.splits bool.splits if_splits)
  show "time w \<le> t' \<and> t' \<le> time w1" if "r = Poll_break t' s'" for t' s'
    using assms s that n rel_time [OF r(6)] by (auto simp: wait_poll_def split: sum.splits bool.splits if_splits)
  show "\<exists>t. time w \<le> t \<and> t \<le> time w1 \<and> t < deadline c \<and> d = min (poll_interval (t - wc_start c)) (nat (deadline c - t))"
    if "r = Poll_sleep d" for d
    using assms s that n rel_time [OF r(6)] by (auto simp: wait_poll_def split: sum.splits bool.splits if_splits)
qed

lemma deadline_bound: "0 \<le> wc_start c \<Longrightarrow> deadline c - wc_start c \<le> max_wait_secs"
  by (simp add: deadline_def saturating_add_def i64_max_def i64_min_def max_wait_secs_def)

text \<open>The wait ends before the turns counted by \<open>polls_left\<close> are used up.\<close>

lemma wait_within_left:
  assumes "0 \<le> wc_start c" "wc_start c \<le> time w" "polls_left (deadline c - wc_start c) (time w - wc_start c) \<le> n"
  shows "\<exists>r w'. wait_within n deps c w = Some (r, w') \<and> rel w w' \<and> (\<forall>d. r \<noteq> Poll_sleep d) \<and>
    (\<forall>t s. r = Poll_break t s \<longrightarrow> wc_start c \<le> t \<and> t \<le> time w')"
  using assms(2,3)
proof (induction n arbitrary: w)
  case 0
  then show ?case by (simp add: polls_left_def split: if_splits)
next
  case (Suc n)
  let ?span = "deadline c - wc_start c"
  obtain r w1 where p: "run_state (wait_poll deps c) w = (r, w1)" by (metis surj_pair)
  note law = poll_law [OF p]
  show ?case
  proof (cases r)
    case (Poll_sleep d)
    obtain t where t: "time w \<le> t" "t \<le> time w1" "t < deadline c"
      "d = min (poll_interval (t - wc_start c)) (nat (deadline c - t))" using law(3) [OF Poll_sleep] by blast
    obtain u w2 where s: "run_state (d_sleep deps d) w1 = (u, w2)" by (metis surj_pair)
    note sl = sleep_law [OF s]
    have "polls_left ?span (time w2 - wc_start c) < polls_left ?span (t - wc_start c)"
      by (rule polls_left_step) (use Suc.prems(1) t sl deadline_bound [OF assms(1)] in auto)
    also have "\<dots> \<le> polls_left ?span (time w - wc_start c)"
      by (rule polls_left_antimono) (use Suc.prems(1) t deadline_bound [OF assms(1)] in auto)
    finally have "polls_left ?span (time w2 - wc_start c) \<le> n" using Suc.prems(2) by linarith
    moreover have "wc_start c \<le> time w2" using Suc.prems(1) t sl by linarith
    ultimately obtain r' w' where "wait_within n deps c w2 = Some (r', w')" "rel w2 w'" "\<forall>d. r' \<noteq> Poll_sleep d"
      "\<forall>t s. r' = Poll_break t s \<longrightarrow> wc_start c \<le> t \<and> t \<le> time w'" using Suc.IH by blast
    moreover have "rel w w'" using law(1) sl calculation(2) rel_trans by blast
    ultimately show ?thesis using p s Poll_sleep by simp
  qed (use p law Suc.prems(1) in \<open>fastforce+\<close>)
qed

lemma wait_returns:
  assumes "0 \<le> wc_start c" "wc_start c \<le> time w"
  shows "\<exists>r w'. wait_within 2245 deps c w = Some (r, w') \<and> wait_loop deps c w = Some (r, w') \<and> rel w w' \<and>
    (\<forall>d. r \<noteq> Poll_sleep d) \<and> (\<forall>t s. r = Poll_break t s \<longrightarrow> wc_start c \<le> t \<and> t \<le> time w')"
  using wait_within_left [OF assms, of 2245] polls_left_start [of "deadline c - wc_start c" "time w - wc_start c"]
    deadline_bound [OF assms(1)] assms(2) wait_within_loop by (metis diff_ge_0_iff_ge)

lemma run_end_rel:
  assumes "run_state (run_end deps c r) w = (out, w')" "\<And>t s. r = Poll_break t s \<Longrightarrow> wc_start c \<le> t \<and> t \<le> time w"
  shows "rel w w'"
proof (cases r)
  case (Poll_break t s)
  have f: "rel a b" if "run_state (finish deps c t o' s') a = (x, b)" for a b o' s' x
    using keepsD [OF keeps_finish that] .
  obtain mv w1 where m: "run_state (moved_on deps c) w = (mv, w1)" by (metis surj_pair)
  have r1: "rel w w1" using keepsD [OF keeps_moved m] .
  obtain dn w2 where d: "run_state (d_commit deps (wc_event c) (wc_session c) (wc_start c) t) w1 = (dn, w2)" by (metis surj_pair)
  have "rel w1 w2" using commit_law [OF _ _ d] assms(2) [OF Poll_break] rel_time [OF r1] by linarith
  then have "rel w w2" using r1 rel_trans by blast
  note r2 = this
  have "\<exists>wx o' s'. rel w wx \<and> run_state (finish deps c t o' s') wx = (out, w')"
  proof (cases "fresh_capacity s (wc_start c)")
    case True
    then show ?thesis
    proof (cases mv)
      case (Inr b)
      then show ?thesis using True assms(1) m d r1 r2 by (cases b) (auto simp: run_end_def Poll_break)
    qed (use True assms(1) m r1 in \<open>auto simp: run_end_def Poll_break\<close>)
  qed (use assms(1) rel_refl in \<open>auto simp: run_end_def Poll_break\<close>)
  then show ?thesis using f rel_trans by blast
qed (use assms(1) rel_refl in \<open>auto simp: run_end_def dest: keepsD [OF keeps_finish]\<close>)

end

section \<open>What starts a wait and what ends it in a wake\<close>

text \<open>The payload is a usage limit of a session with a usable id, not of a session a stop hook keeps running.\<close>

definition wakeable :: "(nat list \<Rightarrow> nat list) \<Rightarrow> hook_message \<Rightarrow> wait_ctx \<Rightarrow> bool" where
  "wakeable sha inp c =
    (case inp of
       In_stop_failure (Some sid) error details message active _ _ \<Rightarrow>
         error = Some (lit ''rate_limit'') \<and> active \<noteq> Some True \<and> session_id_ok (Some sid) \<and>
         wc_session c = session_key sha sid
     | _ \<Rightarrow> False)"

lemma run_checks_proceed:
  assumes "run_state (run_checks deps f c first) w = (Inr c', w')"
  shows "c' = c \<and> gate_of f \<noteq> Gate_stop_hook_active"
  using assms
  by (auto simp: run_checks_def stop_with_def split: if_splits sum.splits gate_answer.splits prod.splits)

context resume_world
begin

lemma run_begin_ctx:
  assumes "run_state (run_begin deps sha inp) w = (Inr c, w1)"
  shows "wakeable sha inp c" "time w \<le> wc_start c" "wc_start c \<le> time w1"
proof -
  obtain on wa where a: "run_state (d_auto_switch_on deps) w = (on, wa)" by (metis surj_pair)
  obtain t wb where t: "run_state (d_now deps) wa = (t, wb)" by (metis surj_pair)
  obtain st wc where l: "run_state (d_read_cycle deps t) wb = (st, wc)" by (metis surj_pair)
  note n = now_law [OF t]
  have ra: "time w \<le> time wa" "time wb \<le> time wc"
    using keepsD [OF quiet_laws(1) a] keepsD [OF quiet_laws(3) l] rel_time by blast+
  have "\<exists>f c0. run_state (run_checks deps f c0 st) wc = (Inr c, w1) \<and> wc_start c0 = t \<and>
      (gate_of f \<noteq> Gate_stop_hook_active \<longrightarrow> wakeable sha inp c0)"
  proof (cases inp)
    case (In_stop_failure sid error details message active tp extra)
    let ?f = "\<lparr>gf_enabled = on, gf_limit = is_limit error, gf_session_ok = session_id_ok sid,
        gf_stop_hook_active = (active = Some True), gf_duplicate = False, gf_capped = False\<rparr>"
    let ?sid = "case sid of Some s \<Rightarrow> s | None \<Rightarrow> []"
    let ?c = "\<lparr>wc_event = event_key sha ?sid error details message (Option.bind st cs_live),
        wc_session = session_key sha ?sid, wc_start = t\<rparr>"
    have g: "gate_of ?f \<noteq> Gate_disabled" "gate_of ?f \<noteq> Gate_not_limit"
      using assms a In_stop_failure by (auto simp: run_begin_def split: if_splits)
    then have "run_state (run_checks deps ?f ?c st) wc = (Inr c, w1)"
      using assms a t l by (simp add: run_begin_def In_stop_failure Let_def)
    moreover have "on" "is_limit error" "session_id_ok sid"
      using g by (auto simp: gate_of_def split: if_splits)
    then have "gate_of ?f \<noteq> Gate_stop_hook_active \<longrightarrow> wakeable sha inp ?c"
      by (auto simp: In_stop_failure gate_of_def wakeable_def is_limit_def session_id_ok_def split: option.splits)
    ultimately show ?thesis by (intro exI [of _ ?f] exI [of _ ?c]) simp
  qed (use assms a in \<open>simp_all add: run_begin_def\<close>)
  then obtain f where r: "run_state (run_checks deps f c st) wc = (Inr c, w1)" "wc_start c = t" "wakeable sha inp c"
    using run_checks_proceed by metis
  show "wakeable sha inp c" "time w \<le> wc_start c" "wc_start c \<le> time w1"
    using r n ra rel_time [OF keepsD [OF keeps_checks r(1)]] by auto
qed

text \<open>Every run decides, and respects the relation.\<close>

lemma run_decides:
  "\<exists>out w'. run_within 2245 deps sha inp w = Some (out, w') \<and> run_with deps sha inp w = Some (out, w') \<and> rel w w'"
proof -
  obtain r w1 where b: "run_state (run_begin deps sha inp) w = (r, w1)" by (metis surj_pair)
  have r1: "rel w w1" using keepsD [OF keeps_begin b] .
  show ?thesis
  proof (cases r)
    case (Inr c)
    note ctx = run_begin_ctx [OF b [unfolded Inr]]
    obtain p w2 where l: "wait_loop deps c w1 = Some (p, w2)" "rel w1 w2" "wait_within 2245 deps c w1 = Some (p, w2)"
      "\<forall>t s. p = Poll_break t s \<longrightarrow> wc_start c \<le> t \<and> t \<le> time w2"
      using wait_returns [of c w1] ctx epoch order_trans by blast
    obtain out w' where e: "run_state (run_end deps c p) w2 = (out, w')" by (metis surj_pair)
    have "rel w2 w'" using run_end_rel [OF e] l(4) by blast
    then have "rel w w'" using r1 l(2) rel_trans by blast
    moreover have "run_with deps sha inp w = Some (out, w')" "run_within 2245 deps sha inp w = Some (out, w')"
      using b Inr l(1,3) e by (simp_all add: run_with_def run_within_def)
    ultimately show ?thesis by blast
  qed (use b r1 in \<open>simp add: run_with_def run_within_def\<close>)
qed

end

lemma wait_loop_poll:
  assumes "wait_loop deps c w = Some x" shows "\<exists>v. run_state (wait_poll deps c) v = x"
  using assms
proof (rule wait_loop.raw_induct [rotated])
  fix wl :: "'a deps \<Rightarrow> wait_ctx \<Rightarrow> 'a \<Rightarrow> (poll_end \<times> 'a) option" and deps c w x
  assume "\<And>deps c w x. wl deps c w = Some x \<Longrightarrow> \<exists>v. run_state (wait_poll deps c) v = x"
    and "(case run_state (wait_poll deps c) w of
         (r, w1) \<Rightarrow> case r of Poll_sleep d \<Rightarrow> wl deps c (snd (run_state (d_sleep deps d) w1)) | _ \<Rightarrow> Some (r, w1)) = Some x"
  then show "\<exists>v. run_state (wait_poll deps c) v = x" by (auto split: prod.splits poll_end.splits)
qed

lemma poll_stops:
  assumes "run_state (wait_poll deps c) w = (Poll_stop x t, w')"
  shows "x \<in> {Out_disabled, Session_gone, Guard_failed, Moved_on}"
proof -
  obtain t wa on wb alive wc mv wd st we where
    "run_state (d_now deps) w = (t, wa)" "run_state (d_auto_switch_on deps) wa = (on, wb)"
    "run_state (d_session_alive deps) wb = (alive, wc)" "run_state (moved_on deps c) wc = (mv, wd)"
    "run_state (d_read_cycle deps t) wd = (st, we)"
    by (metis surj_pair)
  then show ?thesis using assms by (auto simp: wait_poll_def split: sum.splits bool.splits if_splits)
qed

text \<open>
  What a wake rests on, in any world: the commit recorded it, just before the session had no newer prompt, and the
  ledger, read at the time of the commit, held capacity measured after the hook started.
\<close>

lemma resumed_justified:
  assumes "run_with deps sha inp w = Some (Resumed, w')"
  shows "\<exists>c w1 now status w2 w3 w4.
    run_state (run_begin deps sha inp) w = (Inr c, w1) \<and> wait_loop deps c w1 = Some (Poll_break now status, w2) \<and>
    fresh_capacity status (wc_start c) \<and> run_state (moved_on deps c) w2 = (Inr False, w3) \<and>
    run_state (d_commit deps (wc_event c) (wc_session c) (wc_start c) now) w3 = (Inr (), w4) \<and>
    run_state (finish deps c now Resumed status) w4 = (Resumed, w')"
proof -
  have fin: "run_state (finish deps c now x status) u = (Resumed, u') \<Longrightarrow> x = Resumed" for c now x status u u'
    by (auto simp: finish_def split: prod.splits)
  have begin_not: "run_state (run_begin deps sha inp) w \<noteq> (Inl Resumed, w1)" for w1
    using fin
    by (fastforce simp: run_begin_def run_checks_def stop_with_def Let_def
        split: hook_message.splits if_splits sum.splits gate_answer.splits prod.splits)
  obtain c w1 p w2 where b: "run_state (run_begin deps sha inp) w = (Inr c, w1)" "wait_loop deps c w1 = Some (p, w2)"
    "run_state (run_end deps c p) w2 = (Resumed, w')"
    using assms begin_not by (auto simp: run_with_def split: prod.splits sum.splits)
  show ?thesis
  proof (cases p)
    case (Poll_stop x t)
    have "x \<noteq> Resumed"
      using wait_loop_poll [OF b(2)] unfolding Poll_stop by (auto dest: poll_stops)
    then show ?thesis using b Poll_stop fin by (auto simp: run_end_def)
  next
    case (Poll_break t s)
    have e: "run_state (run_end deps c (Poll_break t s)) w2 = (Resumed, w')" using b(3) Poll_break by simp
    obtain mv w3 where m: "run_state (moved_on deps c) w2 = (mv, w3)" by (metis surj_pair)
    obtain dn w4 where d: "run_state (d_commit deps (wc_event c) (wc_session c) (wc_start c) t) w3 = (dn, w4)" by (metis surj_pair)
    have "fresh_capacity s (wc_start c)" "mv = Inr False"
      using e m by (auto simp: run_end_def dest: fin split: if_splits sum.splits bool.splits)
    moreover from this have f: "run_state (finish deps c t (commit_outcome dn) s) w4 = (Resumed, w')"
      using e m d by (simp add: run_end_def)
    moreover have "commit_outcome dn = Resumed" using fin [OF f] .
    moreover from this have "dn = Inr ()" by (auto simp: commit_outcome_def split: sum.splits commit_error.splits)
    ultimately show ?thesis using b(1,2) Poll_break m d
      by (intro exI [of _ c] exI [of _ w1] exI [of _ t] exI [of _ s] exI [of _ w2] exI [of _ w3] exI [of _ w4]) simp
  qed (use b in \<open>simp add: run_end_def\<close>)
qed

end
