(* ===== verification/Resume_Guard_Facts.thy ===== *)
theory Resume_Guard_Facts
  imports Resume_Guard
begin

text \<open>
  What the loop guard promises, however the hooks, the prompts and the failing system calls interleave: at most
  three resumes of a session in any day, one per waiting hook, one per event within a week.
\<close>

section \<open>Records read back\<close>

lemma session_line_show: "session_line (show_int t) = (if 0 < t \<and> t < 2 ^ 63 then Some t else None)"
proof (cases "t < 0")
  case True
  then show ?thesis by (simp add: session_line_def show_int_def is_ascii_digit_def)
next
  case False
  note d = show_radix_digits [of "nat t"]
  have v: "dec_value (show_radix 10 (nat t)) = nat t"
    using dec_value_read [OF d(1)] read_show_radix [of 10 "nat t"] by simp
  have "nat t < 2 ^ 63 \<longleftrightarrow> t < 2 ^ 63" using False by (simp add: nat_less_iff)
  then show ?thesis using False d v by (auto simp: session_line_def show_int_def parse_digits_def)
qed

lemma show_int_chars: "list_all (\<lambda>c. c < 128 \<and> c \<noteq> ch_nl) (show_int t)" "show_int t \<noteq> []"
proof -
  have "list_all (\<lambda>c. c < 128 \<and> c \<noteq> ch_nl) (show_radix 10 n)" for n
    using show_radix_digits(1) [of n] by (auto simp: list_all_iff is_ascii_digit_def)
  then show "list_all (\<lambda>c. c < 128 \<and> c \<noteq> ch_nl) (show_int t)" "show_int t \<noteq> []"
    using show_radix_digits(2) by (auto simp: show_int_def)
qed

lemma record_join: "ts \<noteq> [] \<Longrightarrow> session_record ts = join [ch_nl] (map show_int ts) @ [ch_nl]"
proof (induction ts)
  case (Cons t ts)
  then show ?case by (cases ts) (simp_all add: session_record_def)
qed simp

lemma parse_record:
  assumes "parse_session (utf8_bytes (session_record ts)) = Some us"
  shows "us = ts"
proof (cases "ts = []")
  case True
  then show ?thesis using assms
    by (simp add: session_record_def utf8_bytes_def parse_session_def strip_suffix_def)
next
  case False
  have a: "list_all (\<lambda>b. b < 128) (session_record ts)"
    using show_int_chars(1) by (auto simp: session_record_def list_all_iff)
  have b: "join [ch_nl] (map show_int ts) \<noteq> []" using False show_int_chars(2) by (cases ts; cases "tl ts") auto
  have s: "split_on (\<lambda>c. c = ch_nl) (join [ch_nl] (map show_int ts)) = map show_int ts"
    by (rule split_on_join) (use False show_int_chars(1) in \<open>auto simp: list_all_iff list_ex_iff\<close>)
  have "from_utf8 (utf8_bytes (session_record ts)) = Some (join [ch_nl] (map show_int ts) @ [ch_nl])"
    using from_utf8_ascii [OF a] utf8_bytes_ascii [OF a] record_join [OF False] by simp
  moreover have "strip_suffix [ch_nl] (join [ch_nl] (map show_int ts) @ [ch_nl]) = Some (join [ch_nl] (map show_int ts))"
    by (simp add: strip_suffix_Some)
  ultimately have "None \<notin> session_line ` show_int ` set ts" "us = map (\<lambda>t. the (session_line (show_int t))) ts"
    using assms b s by (auto simp: parse_session_def split: if_splits)
  then have n: "session_line (show_int t) \<noteq> None" if "t \<in> set ts" for t using that by (metis image_eqI)
  have "the (session_line (show_int t)) = t" if "t \<in> set ts" for t
    using n [OF that] unfolding session_line_show by (simp split: if_splits del: not_None_eq)
  then show ?thesis using \<open>us = _\<close> by (simp add: map_idI)
qed

section \<open>What the operations leave alone\<close>

abbreviation "event_path e \<equiv> events_dir @ [e]"
abbreviation "session_path s \<equiv> sessions_dir @ [s]"

text \<open>Markers and session records are the same.\<close>

definition quiet :: "files \<Rightarrow> files \<Rightarrow> bool" where
  "quiet fs fs' = (\<forall>k. fs' (event_path k) = fs (event_path k) \<and> fs' (session_path k) = fs (session_path k))"

lemma quiet_refl [simp]: "quiet fs fs"
  by (simp add: quiet_def)

lemma quiet_trans: "quiet a b \<Longrightarrow> quiet b c \<Longrightarrow> quiet a c"
  by (simp add: quiet_def)

lemma path_lengths: "length state_dir = 1" "length resume_dir = 2" "length (sub_dir s) = 3"
  by (simp_all add: state_dir_def resume_dir_def sub_dir_def)

lemma sub_dir_eq [simp]: "sub_dir a = sub_dir b \<longleftrightarrow> a = b"
  by (simp add: sub_dir_def)

lemma dirs_distinct: "event_path k \<noteq> session_path j" "prompted_dir @ [k] \<noteq> event_path j" "prompted_dir @ [k] \<noteq> session_path j"
  by (auto simp: sub_dir_def)

lemma quiet_ensure [intro]: "quiet fs fs1 \<Longrightarrow> length p \<noteq> 4 \<Longrightarrow> quiet fs (snd (ensure_private_dir pr fs1 p))"
  by (rule quiet_trans) (auto simp: quiet_def path_lengths intro!: ensure_private_dir_other)

lemma quiet_open [intro]: "quiet fs fs1 \<Longrightarrow> length p \<noteq> 4 \<Longrightarrow> quiet fs (snd (open_private_nofollow pr fs1 p))"
  by (rule quiet_trans) (auto simp: quiet_def path_lengths intro!: open_private_other)

lemma quiet_prompt_write [intro]:
  "quiet fs fs1 \<Longrightarrow> quiet fs (snd (write_private_atomic_nosync pr fs1 prompted_dir k bytes))"
  by (rule quiet_trans) (use dirs_distinct(2,3) in \<open>auto simp: quiet_def intro!: write_nosync_other\<close>)

lemma quiet_prune_prompted [intro]: "quiet fs fs1 \<Longrightarrow> quiet fs (prune_dir pr fs1 prompted_dir now ret)"
  by (rule quiet_trans) (auto simp: quiet_def prune_dir_def)

lemma quiet_next [intro]:
  "quiet fs (snd r) \<Longrightarrow> (\<And>fs1. quiet fs fs1 \<Longrightarrow> quiet fs (snd (f fs1))) \<Longrightarrow> quiet fs (snd (and_next r f err))"
  by (cases r) (auto simp: and_next_def split: sum.splits)

lemma quiet_resume_dir [intro]: "quiet fs fs1 \<Longrightarrow> quiet fs (snd (ensure_resume_dir pr fs1))"
  unfolding ensure_resume_dir_def by (intro quiet_next quiet_ensure) (simp_all add: path_lengths)

lemma quiet_prepare: "quiet fs (snd (guard_prepare pr fs now))"
  unfolding guard_prepare_def
  by (intro quiet_next quiet_ensure quiet_resume_dir) (simp_all add: path_lengths quiet_prune_prompted del: lit_Cons)

lemma existing_root: "existing_subdir pr fs [] = Inr (Some dir) \<Longrightarrow> dir = resume_dir"
  by (auto simp: existing_subdir_def split: sum.splits if_splits)

lemma quiet_prompt: "quiet fs (snd (record_prompt pr fs session now))"
proof (cases "check_key session")
  case (Inr u)
  show ?thesis
  proof (cases "existing_subdir pr fs []")
    case (Inr d)
    show ?thesis
    proof (cases d)
      case (Some dir)
      then have e: "existing_subdir pr fs [] = Inr (Some dir)" "dir @ [lit ''prompted''] = prompted_dir"
        using Inr existing_root [of pr fs dir] by (simp_all add: sub_dir_def)
      have "quiet fs (snd (and_next (ensure_private_dir pr fs prompted_dir)
          (\<lambda>fs. write_private_atomic_nosync pr fs prompted_dir session (utf8_bytes (show_int now @ [ch_nl]))) id))"
        by (intro quiet_next quiet_ensure quiet_prompt_write) (auto simp: path_lengths)
      then show ?thesis unfolding record_prompt_def \<open>check_key session = Inr u\<close> e
        by (simp add: e(2) del: lit_Cons)
    qed (simp add: record_prompt_def \<open>check_key session = Inr u\<close> Inr)
  qed (simp add: record_prompt_def Inr)
qed (simp add: record_prompt_def)

section \<open>A commit\<close>

text \<open>A commit changes nothing that counts and fails with an I/O error, or runs under the lock.\<close>

definition commits_as :: "files \<Rightarrow> (files \<Rightarrow> (commit_error, unit) result \<times> files) \<Rightarrow> (commit_error, unit) result \<times> files \<Rightarrow> bool" where
  "commits_as fs locked r = (quiet fs (snd r) \<and> fst r = Inl Ce_io \<or> (\<exists>fs1. quiet fs fs1 \<and> r = locked fs1))"

lemma commits_next:
  assumes "quiet fs (snd r)" "\<And>fs1. quiet fs fs1 \<Longrightarrow> commits_as fs locked (f fs1)"
  shows "commits_as fs locked (and_next r f (\<lambda>_. Ce_io))"
  using assms by (cases r) (auto simp: and_next_def commits_as_def split: sum.splits)

lemma commit_cases: "commits_as fs (\<lambda>fs. commit_locked pr fs event session start now) (guard_commit pr fs event session start now)"
proof -
  have "commits_as fs (\<lambda>fs. commit_locked pr fs event session start now) (commit_locked pr fs1 event session start now)"
    if "quiet fs fs1" for fs1
    using that by (auto simp: commits_as_def)
  then show ?thesis unfolding guard_commit_def
    by (intro commits_next) (auto simp: path_lengths)
qed

text \<open>The writes, whether they succeed or not.\<close>

definition record_file :: "proc_env \<Rightarrow> int list \<Rightarrow> node" where
  "record_file pr ts = File ((new_meta pr mode_600)\<lparr>m_mode := mode_600\<rparr>) (utf8_bytes (session_record ts))"

definition marker_file :: "proc_env \<Rightarrow> node" where
  "marker_file pr = File (new_meta pr mode_600) []"

lemma commit_write_shape:
  assumes "commit_write pr fs event session ts = (x, fs')"
  shows "fs' = fs \<and> x \<noteq> Inr () \<or>
    fs (event_path event) = None \<and>
      (fs' = fs(event_path event \<mapsto> marker_file pr) \<and> x \<noteq> Inr () \<or>
       fs' = fs(event_path event \<mapsto> marker_file pr, session_path session \<mapsto> record_file pr ts))"
proof -
  obtain r1 fs1 where c: "create_new pr fs (event_path event) = (r1, fs1)" by (metis surj_pair)
  have c1: "r1 \<noteq> Inr () \<Longrightarrow> fs1 = fs"
    and c2: "r1 = Inr () \<Longrightarrow> fs (event_path event) = None \<and> fs1 = fs(event_path event \<mapsto> marker_file pr)"
    using c by (auto simp: create_new_def marker_file_def split: if_splits)
  obtain r2 fs2 where w: "write_private_atomic pr fs1 sessions_dir session (utf8_bytes (session_record ts)) = (r2, fs2)"
    by (metis surj_pair)
  have w2: "fs2 = fs1 \<and> r2 \<noteq> Inr () \<or> fs2 = fs1(session_path session \<mapsto> record_file pr ts)"
    using write_private_atomic_all_or_nothing [OF w] by (simp add: record_file_def)
  have "(fs' = fs1 \<and> x \<noteq> Inr ()) \<or> (r1 = Inr () \<and> fs' = fs2 \<and> (x = Inr () \<longrightarrow> r2 = Inr ()))"
    using assms c w by (auto simp: commit_write_def and_next_def split: sum.splits if_splits)
  then show ?thesis using c1 c2 w2 by (cases "r1 = Inr ()") (auto simp del: lit_Cons)
qed

lemma commit_write_effect:
  assumes "commit_write pr fs event session ts = (x, fs')"
  shows "\<And>k. fs' (event_path k) = fs (event_path k) \<or>
      k = event \<and> fs (event_path k) = None \<and> fs' (event_path k) = Some (marker_file pr)"
    "\<And>k. fs' (session_path k) = fs (session_path k) \<or> k = session \<and> fs' (session_path k) = Some (record_file pr ts)"
    "x = Inr () \<Longrightarrow> fs' (event_path event) = Some (marker_file pr) \<and> fs' (session_path session) = Some (record_file pr ts)"
  using commit_write_shape [OF assms] dirs_distinct(1) dirs_distinct(1) [THEN not_sym]
  by (auto simp del: lit_Cons split: if_splits)

text \<open>There is no marker, or one whose time is over.\<close>

definition lapsed :: "files \<Rightarrow> rstring \<Rightarrow> int \<Rightarrow> bool" where
  "lapsed fs k now =
    (fs (event_path k) = None \<or>
     (\<exists>n. fs (event_path k) = Some n \<and> m_mtime (node_meta n) < now - marker_retention_secs))"

text \<open>A commit that writes has seen a record without a time after its start.\<close>

lemma commit_locked_effect:
  assumes "commit_locked pr fs event session start now = (x, fs')"
  shows "\<And>k. fs' (session_path k) = fs (session_path k) \<or>
      k = session \<and> (\<exists>record us. read_session pr fs (session_path session) = Inr record \<and>
        commit_times record start now = Inr us \<and> fs' (session_path k) = Some (record_file pr (us @ [now])))"
    "x = Inr () \<Longrightarrow> (\<exists>record us. read_session pr fs (session_path session) = Inr record \<and>
        commit_times record start now = Inr us \<and> fs' (session_path session) = Some (record_file pr (us @ [now])))"
    "\<And>k. fs' (event_path k) = fs (event_path k) \<or>
      lapsed fs k now \<and> (fs' (event_path k) = None \<or> k = event \<and> fs' (event_path k) = Some (marker_file pr))"
    "x = Inr () \<Longrightarrow> fs' (event_path event) = Some (marker_file pr) \<and> lapsed fs event now"
proof -
  define fp where "fp = prune_dir pr (prune_dir pr fs events_dir now marker_retention_secs) prompted_dir now prompted_retention_secs"
  have ps: "fp (session_path k) = fs (session_path k)" for k by (auto simp: fp_def prune_dir_def simp del: lit_Cons) (simp_all)
  have pe: "fp (event_path k) = fs (event_path k) \<or> fp (event_path k) = None \<and> lapsed fs k now" for k
    by (auto simp: fp_def prune_dir_def lapsed_def simp del: lit_Cons split: option.splits if_splits) (simp_all)
  have rs: "read_session pr fp (session_path k) = read_session pr fs (session_path k)" for k
    by (simp only: read_session_def read_bounded_nofollow_def ps)
  consider "fs' = fp" "x \<noteq> Inr ()"
    | rc us where "lstat pr fp (event_path event) = Inl Not_found" "read_session pr fs (session_path session) = Inr rc"
        "commit_times rc start now = Inr us" "commit_write pr fp event session (us @ [now]) = (x, fs')"
    using assms rs unfolding commit_locked_def Let_def fp_def [symmetric]
    by (auto split: sum.splits if_splits)
  note cases = this
  show "fs' (session_path k) = fs (session_path k) \<or>
      k = session \<and> (\<exists>record us. read_session pr fs (session_path session) = Inr record \<and>
        commit_times record start now = Inr us \<and> fs' (session_path k) = Some (record_file pr (us @ [now])))" for k
    using cases by cases (use ps commit_write_effect(2) in metis)+
  show "x = Inr () \<Longrightarrow> (\<exists>record us. read_session pr fs (session_path session) = Inr record \<and>
        commit_times record start now = Inr us \<and> fs' (session_path session) = Some (record_file pr (us @ [now])))"
    using cases by cases (use commit_write_effect(3) in metis)+
  show "fs' (event_path k) = fs (event_path k) \<or>
      lapsed fs k now \<and> (fs' (event_path k) = None \<or> k = event \<and> fs' (event_path k) = Some (marker_file pr))" for k
  proof -
    have "fs' (event_path k) = fp (event_path k) \<or>
        k = event \<and> fp (event_path k) = None \<and> fs' (event_path k) = Some (marker_file pr)"
      using cases
    proof cases
      case (2 rc us)
      then show ?thesis using commit_write_effect(1) [OF 2(4), of k] by blast
    qed (simp del: lit_Cons)
    then show ?thesis using pe [of k] unfolding lapsed_def by metis
  qed
  have l: "lstat pr fp p = Inl Not_found \<Longrightarrow> fp p = None" for p
    by (auto simp: lstat_def split: if_splits option.splits)
  show "fs' (event_path event) = Some (marker_file pr) \<and> lapsed fs event now"
    if ok: "x = Inr ()"
    using cases
  proof cases
    case (2 rc us)
    have "lapsed fs event now" using pe [of event] l [OF 2(1)] unfolding lapsed_def by metis
    then show ?thesis using commit_write_effect(3) [OF 2(4) ok] by blast
  qed (use ok in simp)
qed

text \<open>The same for the whole commit.\<close>

definition commit_did ::
  "proc_env \<Rightarrow> files \<Rightarrow> files \<Rightarrow> rstring \<Rightarrow> rstring \<Rightarrow> int \<Rightarrow> int \<Rightarrow> bool \<Rightarrow> bool" where
  "commit_did pr fs fs' event session start now ok =
    ((\<forall>k. fs' (session_path k) = fs (session_path k) \<or>
        k = session \<and> (\<exists>rc us. read_session pr fs (session_path session) = Inr rc \<and>
          commit_times rc start now = Inr us \<and> fs' (session_path k) = Some (record_file pr (us @ [now])))) \<and>
     (ok \<longrightarrow> (\<exists>rc us. read_session pr fs (session_path session) = Inr rc \<and>
          commit_times rc start now = Inr us \<and> fs' (session_path session) = Some (record_file pr (us @ [now])))) \<and>
     (\<forall>k. fs' (event_path k) = fs (event_path k) \<or>
        lapsed fs k now \<and> (fs' (event_path k) = None \<or> k = event \<and> fs' (event_path k) = Some (marker_file pr))) \<and>
     (ok \<longrightarrow> fs' (event_path event) = Some (marker_file pr) \<and>
lapsed fs event now))"

lemma commit_effect:
  assumes "guard_commit pr fs event session start now = (x, fs')"
  shows "commit_did pr fs fs' event session start now (x = Inr ())"
proof -
  from commit_cases [of fs pr event session start now] consider
      "quiet fs fs'" "x \<noteq> Inr ()"
    | fs1 where "quiet fs fs1" "commit_locked pr fs1 event session start now = (x, fs')"
    using assms by (auto simp: commits_as_def)
  then show ?thesis
  proof cases
    case 1
    then show ?thesis by (simp add: commit_did_def quiet_def del: lit_Cons)
  next
    case (2 fs1)
    have p: "fs1 (session_path k) = fs (session_path k)" "fs1 (event_path k) = fs (event_path k)" for k
      using 2(1) by (simp_all add: quiet_def del: lit_Cons)
    have r: "read_session pr fs1 (session_path k) = read_session pr fs (session_path k)" for k
      by (simp only: read_session_def read_bounded_nofollow_def p)
    have la: "lapsed fs1 k t = lapsed fs k t" for k t by (simp only: lapsed_def p)
    note e = commit_locked_effect [OF 2(2), unfolded p r la]
    show ?thesis unfolding commit_did_def using e by blast
  qed
qed

lemma commit_times_ok:
  assumes "commit_times rc start now = Inr us"
  shows "length us < max_resumes_per_session"
    "rc = None \<and> us = [] \<or> (\<exists>ts. rc = Some (Some ts) \<and> us = recent ts now \<and> (\<forall>t \<in> set ts. t \<le> start))"
  using assms by (auto simp: commit_times_def and_then_def list_ex_iff not_less split: option.splits if_splits)

lemma recent_recent: "now \<le> later \<Longrightarrow> recent (recent ts now) later = recent ts later"
  by (auto simp: recent_def intro!: filter_cong)

section \<open>Hooks, prompts and others together\<close>

text \<open>A wake of a session: the event, the session, the hook's start, its time, and the time of the machine.\<close>

record wake =
  wk_event :: rstring
  wk_session :: rstring
  wk_start :: int
  wk_now :: int
  wk_real :: int

text \<open>
  The steps on the state of a profile root, the machine's clock and the wakes so far: a commit of any hook (its time
  was read before the step and after its start), a prompt, the preparation of a wait, and anything else that leaves
  the markers and records alone.  The clock does not go back; the faults of each step are in its own \<open>pr\<close>.
\<close>

inductive guard_step :: "files \<times> int \<times> wake list \<Rightarrow> files \<times> int \<times> wake list \<Rightarrow> bool" where
  commit: "guard_step (fs, clock, ws) (fs', clock', if x = Inr () then ws @ [\<lparr>wk_event = event, wk_session = session,
      wk_start = start, wk_now = now, wk_real = clock'\<rparr>] else ws)"
  if "guard_commit pr fs event session start now = (x, fs')" "start \<le> now" "now \<le> p_clock pr" "now \<le> clock'" "clock \<le> clock'"
| prompt: "guard_step (fs, clock, ws) (snd (record_prompt pr fs session now), clock', ws)" if "clock \<le> clock'"
| prepare: "guard_step (fs, clock, ws) (snd (guard_prepare pr fs now), clock', ws)" if "clock \<le> clock'"
| other: "guard_step (fs, clock, ws) (fs', clock', ws)" if "quiet fs fs'" "clock \<le> clock'"

text \<open>A step commits or keeps what counts.\<close>

lemma guard_step_cases:
  assumes "guard_step (fs, clock, ws) (fs', clock', ws')"
  obtains pr event session start now ok where "commit_did pr fs fs' event session start now ok" "start \<le> now"
      "now \<le> p_clock pr" "now \<le> clock'" "clock \<le> clock'"
      "ws' = (if ok then ws @ [\<lparr>wk_event = event, wk_session = session, wk_start = start, wk_now = now, wk_real = clock'\<rparr>] else ws)"
    | "quiet fs fs'" "clock \<le> clock'" "ws' = ws"
  using assms
proof (cases rule: guard_step.cases)
  case (commit pr event session start now x)
  then show thesis using that(1) [OF commit_effect [OF commit(2)]] by blast
qed (use that(2) quiet_prompt quiet_prepare in blast)+

definition session_times :: "rstring \<Rightarrow> wake list \<Rightarrow> int list" where
  "session_times s ws = map wk_now (filter (\<lambda>w. wk_session w = s) ws)"

text \<open>The record on disk counts at least the wakes of the session that are recent, and ends no earlier than the last.\<close>

definition record_covers :: "files \<Rightarrow> rstring \<Rightarrow> int list \<Rightarrow> bool" where
  "record_covers fs s hs =
    (hs = [] \<or>
     (\<exists>m ts. fs (session_path s) = Some (File m (utf8_bytes (session_record ts))) \<and> ts \<noteq> [] \<and>
        (\<forall>t \<in> set hs. t \<le> last ts) \<and> (\<forall>later \<ge> last ts. length (recent hs later) \<le> length (recent ts later))))"

definition windows_bounded :: "int list \<Rightarrow> bool" where
  "windows_bounded hs = (\<forall>w. length (filter (\<lambda>t. w \<le> t \<and> t < w + day_secs) hs) \<le> max_resumes_per_session)"

definition session_inv :: "files \<Rightarrow> wake list \<Rightarrow> bool" where
  "session_inv fs ws =
    ((\<forall>s. record_covers fs s (session_times s ws) \<and> windows_bounded (session_times s ws)) \<and>
     sorted_wrt (\<lambda>a b. wk_session a = wk_session b \<longrightarrow> wk_now a \<le> wk_start b) ws)"

lemma covers_quiet: "record_covers fs s hs \<Longrightarrow> fs' (session_path s) = fs (session_path s) \<Longrightarrow> record_covers fs' s hs"
  by (simp add: record_covers_def del: lit_Cons)

text \<open>What a commit reads of a record that covers the wakes.\<close>

lemma covers_read:
  assumes "record_covers fs s hs" "hs \<noteq> []" "read_session pr fs (session_path s) = Inr rc" "commit_times rc start now = Inr us"
  obtains ts where "us = recent ts now" "\<forall>t \<in> set ts. t \<le> start" "ts \<noteq> []" "\<forall>t \<in> set hs. t \<le> last ts"
    "\<forall>later \<ge> last ts. length (recent hs later) \<le> length (recent ts later)"
proof -
  obtain m ts where f: "fs (session_path s) = Some (File m (utf8_bytes (session_record ts)))" and
    c: "ts \<noteq> []" "\<forall>t \<in> set hs. t \<le> last ts" "\<forall>later \<ge> last ts. length (recent hs later) \<le> length (recent ts later)"
    using assms(1,2) unfolding record_covers_def by metis
  have "rc = Some (parse_session (utf8_bytes (session_record ts)))"
    using assms(3) f by (auto simp: read_session_def read_bounded_nofollow_def simp del: lit_Cons split: if_splits)
  moreover obtain us' where u: "rc = Some (Some us')" "us = recent us' now" "\<forall>t \<in> set us'. t \<le> start"
    using commit_times_ok(2) [OF assms(4)] calculation by auto
  ultimately have "us' = ts" using parse_record by simp
  then show thesis using u that c by blast
qed

text \<open>A record written by a commit covers the wakes, with or without the new one.\<close>

lemma covers_write:
  assumes "record_covers fs s hs" "read_session pr fs (session_path s) = Inr rc" "commit_times rc start now = Inr us"
    "start \<le> now" "fs' (session_path s) = Some (record_file pr (us @ [now]))"
  shows "record_covers fs' s hs" "record_covers fs' s (hs @ [now])" "\<forall>t \<in> set hs. t \<le> start"
    "length (recent hs now) \<le> length us"
proof -
  have m: "length (recent hs later) \<le> length (recent us later) \<and> (\<forall>t \<in> set hs. t \<le> start)" if "now \<le> later" for later
  proof (cases "hs = []")
    case False
    obtain ts where "us = recent ts now" "\<forall>t \<in> set ts. t \<le> start" "ts \<noteq> []" "\<forall>t \<in> set hs. t \<le> last ts"
      "\<forall>later \<ge> last ts. length (recent hs later) \<le> length (recent ts later)"
      using covers_read [OF assms(1) False assms(2,3)] by blast
    moreover then have "last ts \<le> start" by simp
    ultimately show ?thesis using that assms(4) recent_recent [OF that, of ts] by fastforce
  qed (simp add: recent_def)
  have le: "\<forall>t \<in> set hs. t \<le> now" using m [of now] assms(4) by fastforce
  have r: "recent (xs @ [now]) later = recent xs later @ recent [now] later" for xs later by (simp add: recent_def)
  show "record_covers fs' s hs" "record_covers fs' s (hs @ [now])"
    using assms(5) le m unfolding record_covers_def record_file_def
    by (auto simp: r simp del: lit_Cons intro!: exI [of _ "us @ [now]"]) (metis trans_le_add1)
  show "\<forall>t \<in> set hs. t \<le> start" using m by blast
  have "recent us now = us"
    using commit_times_ok(2) [OF assms(3)] recent_recent [of now now] by (auto simp: recent_def)
  then show "length (recent hs now) \<le> length us" using m [of now] by simp
qed

lemma windows_step:
  assumes "windows_bounded hs" "\<forall>t \<in> set hs. t \<le> now" "length (recent hs now) < max_resumes_per_session"
  shows "windows_bounded (hs @ [now])"
  unfolding windows_bounded_def
proof
  fix w
  show "length (filter (\<lambda>t. w \<le> t \<and> t < w + day_secs) (hs @ [now])) \<le> max_resumes_per_session"
  proof (cases "w \<le> now \<and> now < w + day_secs")
    case True
    have "filter (\<lambda>t. w \<le> t \<and> t < w + day_secs) hs = filter (\<lambda>t. w \<le> t \<and> t < w + day_secs) (recent hs now)"
      using True by (auto simp: recent_def intro!: filter_cong)
    then have "length (filter (\<lambda>t. w \<le> t \<and> t < w + day_secs) hs) \<le> length (recent hs now)" by simp
    then show ?thesis using True assms(3) by simp
  qed (use assms(1) in \<open>auto simp: windows_bounded_def\<close>)
qed

lemma session_times_append: "session_times s (ws @ [w]) = session_times s ws @ (if wk_session w = s then [wk_now w] else [])"
  by (simp add: session_times_def)

lemma session_inv_step:
  assumes "session_inv fs ws" "guard_step (fs, clock, ws) (fs', clock', ws')"
  shows "session_inv fs' ws'"
  using assms(2)
proof (cases rule: guard_step_cases)
  case (1 pr event session start now ok)
  let ?w = "\<lparr>wk_event = event, wk_session = session, wk_start = start, wk_now = now, wk_real = clock'\<rparr>"
  have inv: "record_covers fs s (session_times s ws)" "windows_bounded (session_times s ws)" for s
    using assms(1) by (simp_all add: session_inv_def)
  have other: "record_covers fs' s (session_times s ws)" if "s \<noteq> session" for s
    using 1(1) that covers_quiet [OF inv(1)] unfolding commit_did_def by blast
  have this_file: "fs' (session_path session) = fs (session_path session) \<or>
      (\<exists>rc us. read_session pr fs (session_path session) = Inr rc \<and> commit_times rc start now = Inr us \<and>
        fs' (session_path session) = Some (record_file pr (us @ [now])))"
    using 1(1) unfolding commit_did_def by blast
  have same: "record_covers fs' session (session_times session ws)"
    using this_file covers_quiet [OF inv(1)] covers_write(1) [OF inv(1) _ _ 1(2)] by blast
  show ?thesis
  proof (cases ok)
    case True
    then obtain rc us where c: "read_session pr fs (session_path session) = Inr rc" "commit_times rc start now = Inr us"
      "fs' (session_path session) = Some (record_file pr (us @ [now]))"
      using 1(1) unfolding commit_did_def by blast
    note w = covers_write [where fs' = fs', OF inv(1) [of session] c(1,2) 1(2) c(3)]
    have le: "\<forall>t \<in> set (session_times session ws). t \<le> now" using w(3) 1(2) by fastforce
    have b: "windows_bounded (session_times session ws @ [now])"
      using windows_step [OF inv(2) le] w(4) commit_times_ok(1) [OF c(2)] by linarith
    have "\<forall>a \<in> set ws. wk_session a = session \<longrightarrow> wk_now a \<le> start" using w(3) by (auto simp: session_times_def)
    then show ?thesis using 1(6) True other w(2) b inv(2) assms(1)
      by (auto simp: session_inv_def session_times_append sorted_wrt_append)
  next
    case False
    then show ?thesis using 1(6) other same assms(1) unfolding session_inv_def by metis
  qed
next
  case 2
  have "record_covers fs' s (session_times s ws)" for s
    using assms(1) 2(1) covers_quiet [of fs s _ fs'] by (simp add: session_inv_def quiet_def del: lit_Cons)
  then show ?thesis using assms(1) 2(3) by (simp add: session_inv_def)
qed

definition marker_retained :: "files \<Rightarrow> int \<Rightarrow> wake \<Rightarrow> bool" where
  "marker_retained fs clock w =
    (wk_now w + marker_retention_secs < clock \<or>
     (\<exists>n. fs (event_path (wk_event w)) = Some n \<and> wk_now w \<le> m_mtime (node_meta n)))"

definition event_inv :: "files \<Rightarrow> int \<Rightarrow> wake list \<Rightarrow> bool" where
  "event_inv fs clock ws =
    ((\<forall>w \<in> set ws. marker_retained fs clock w) \<and>
     sorted_wrt (\<lambda>a b. wk_event a = wk_event b \<longrightarrow> wk_now a + marker_retention_secs < wk_real b) ws)"

lemma event_inv_step:
  assumes "event_inv fs clock ws" "guard_step (fs, clock, ws) (fs', clock', ws')"
  shows "event_inv fs' clock' ws'"
  using assms(2)
proof (cases rule: guard_step_cases)
  case (1 pr event session start now ok)
  let ?w = "\<lparr>wk_event = event, wk_session = session, wk_start = start, wk_now = now, wk_real = clock'\<rparr>"
  have gone: "wk_now w + marker_retention_secs < clock'" if "w \<in> set ws" "lapsed fs (wk_event w) now" for w
    using assms(1) that 1(4,5) unfolding event_inv_def marker_retained_def lapsed_def by fastforce
  have keep: "marker_retained fs' clock' w" if "w \<in> set ws" for w
  proof (cases "lapsed fs (wk_event w) now")
    case False
    then have "fs' (event_path (wk_event w)) = fs (event_path (wk_event w))" using 1(1) unfolding commit_did_def by metis
    then show ?thesis using assms(1) that 1(5) unfolding event_inv_def marker_retained_def by fastforce
  qed (use gone [OF that] in \<open>simp add: marker_retained_def\<close>)
  show ?thesis
  proof (cases ok)
    case True
    have "fs' (event_path event) = Some (marker_file pr)" "lapsed fs event now"
      using 1(1) True unfolding commit_did_def by blast+
    moreover then have "marker_retained fs' clock' ?w"
      using 1(3) by (simp add: marker_retained_def marker_file_def new_meta_def)
    ultimately show ?thesis using True keep gone assms(1) 1(6) by (auto simp: event_inv_def sorted_wrt_append)
  qed (use keep assms(1) 1(6) in \<open>simp add: event_inv_def\<close>)
next
  case 2
  then show ?thesis using assms(1) unfolding event_inv_def marker_retained_def quiet_def by fastforce
qed

section \<open>A sample run\<close>

definition sample_event :: rstring where "sample_event = replicate 64 97"
definition sample_event2 :: rstring where "sample_event2 = replicate 64 99"
definition sample_session :: rstring where "sample_session = replicate 64 98"

definition sample_wake :: "rstring \<Rightarrow> int \<Rightarrow> int \<Rightarrow> wake" where
  "sample_wake e start now = \<lparr>wk_event = e, wk_session = sample_session, wk_start = start, wk_now = now, wk_real = 1700000000\<rparr>"

lemma sample_guard_run:
  "\<exists>fs. guard_step\<^sup>*\<^sup>* (sample_root, 0, [])
     (fs, 1700000000, [sample_wake sample_event 1699999000 1699999100, sample_wake sample_event2 1699999200 1699999300])"
proof -
  obtain fs1 where c1: "guard_commit sample_proc sample_root sample_event sample_session 1699999000 1699999100 = (Inr (), fs1)"
    and c2: "fst (guard_commit sample_proc fs1 sample_event2 sample_session 1699999200 1699999300) = Inr ()"
  proof -
    have "fst (guard_commit sample_proc sample_root sample_event sample_session 1699999000 1699999100) = Inr ()"
      "fst (guard_commit sample_proc (snd (guard_commit sample_proc sample_root sample_event sample_session 1699999000 1699999100))
        sample_event2 sample_session 1699999200 1699999300) = Inr ()"
      by code_simp+
    then show thesis using that by (metis prod.collapse)
  qed
  obtain fs2 where c2': "guard_commit sample_proc fs1 sample_event2 sample_session 1699999200 1699999300 = (Inr (), fs2)"
    using c2 by (metis prod.collapse)
  have k: "p_clock sample_proc = 1700000000" by (simp add: sample_proc_def)
  have "guard_step (sample_root, 0, []) (fs1, 1700000000, [sample_wake sample_event 1699999000 1699999100])"
    using guard_step.commit [OF c1, of 1700000000 0 "[]"] k by (simp add: sample_wake_def)
  moreover have "guard_step (fs1, 1700000000, [sample_wake sample_event 1699999000 1699999100])
      (fs2, 1700000000, [sample_wake sample_event 1699999000 1699999100, sample_wake sample_event2 1699999200 1699999300])"
    using guard_step.commit [OF c2', of 1700000000 1700000000 "[sample_wake sample_event 1699999000 1699999100]"] k
    by (simp add: sample_wake_def)
  ultimately show ?thesis by (meson rtranclp.rtrancl_into_rtrancl rtranclp.rtrancl_refl)
qed

section \<open>Properties\<close>

lemma guard_invariants:
  assumes "guard_step\<^sup>*\<^sup>* (fs0, clock0, []) (fs, clock, ws)"
  shows "session_inv fs ws \<and> event_inv fs clock ws"
proof -
  define I where "I = (\<lambda>st. session_inv (fst st) (snd (snd st)) \<and> event_inv (fst st) (fst (snd st)) (snd (snd st)))"
  have start: "I (fs0, clock0, [])"
    by (simp add: I_def session_inv_def event_inv_def session_times_def record_covers_def windows_bounded_def)
  have step: "I st'" if "I st" "guard_step st st'" for st st'
  proof -
    obtain fs clock ws fs' clock' ws' where "st = (fs, clock, ws)" "st' = (fs', clock', ws')" by (metis prod_cases3)
    then show ?thesis using that session_inv_step [of fs ws clock fs' clock' ws'] event_inv_step [of fs clock ws fs' clock' ws']
      by (simp add: I_def)
  qed
  have "I (fs, clock, ws)" using assms by (induction rule: rtranclp_induct) (use start step in blast)+
  then show ?thesis by (simp add: I_def)
qed

text \<open>
  However hooks, prompts and failing calls interleave, no session is woken more than three times in any
  24 hours.
\<close>

lemma resumes_capped:
  assumes "guard_step\<^sup>*\<^sup>* (fs0, clock0, []) (fs, clock, ws)"
  shows "length (filter (\<lambda>w. wk_session w = s \<and> from \<le> wk_now w \<and> wk_now w < from + day_secs) ws) \<le> max_resumes_per_session"
proof -
  have "filter (\<lambda>w. wk_session w = s \<and> from \<le> wk_now w \<and> wk_now w < from + day_secs) ws =
      filter (\<lambda>w. from \<le> wk_now w \<and> wk_now w < from + day_secs) (filter (\<lambda>w. wk_session w = s) ws)"
    by (auto intro: filter_cong)
  then have "length (filter (\<lambda>w. wk_session w = s \<and> from \<le> wk_now w \<and> wk_now w < from + day_secs) ws) =
      length (filter (\<lambda>t. from \<le> t \<and> t < from + day_secs) (session_times s ws))"
    by (simp add: session_times_def filter_map comp_def)
  then show ?thesis using guard_invariants [OF assms] by (simp add: session_inv_def windows_bounded_def)
qed

lemma resumes_capped_witness:
  "length (filter (\<lambda>w. wk_session w = sample_session \<and> 1699999000 \<le> wk_now w \<and> wk_now w < 1699999000 + day_secs)
     [sample_wake sample_event 1699999000 1699999100, sample_wake sample_event2 1699999200 1699999300]) \<le> max_resumes_per_session"
  using sample_guard_run resumes_capped by blast

text \<open>An event whose marker is kept is refused, whatever session asks for it.\<close>

lemma marked_refused:
  assumes "fs (event_path event) = Some n" "now - marker_retention_secs \<le> m_mtime (node_meta n)"
  shows "fst (commit_locked pr fs event session start now) =
      Inl (if p_fails pr Sys_stat (event_path event) then Ce_io else Ce_duplicate)"
    "fst (guard_commit pr fs event session start now) \<in> {Inl Ce_duplicate, Inl Ce_io}"
proof -
  have locked: "fst (commit_locked pr fs1 event session start now) =
      Inl (if p_fails pr Sys_stat (event_path event) then Ce_io else Ce_duplicate)"
    if "fs1 (event_path event) = Some n" for fs1
  proof -
    define fp where "fp = prune_dir pr (prune_dir pr fs1 events_dir now marker_retention_secs) prompted_dir now prompted_retention_secs"
    have "fp (event_path event) = prune_dir pr fs1 events_dir now marker_retention_secs (event_path event)"
      by (auto simp: fp_def prune_dir_def simp del: lit_Cons) (simp_all)
    also have "\<dots> = Some n" using that assms(2) by (simp add: prune_dir_def del: lit_Cons)
    finally have "lstat pr fp (event_path event) = (if p_fails pr Sys_stat (event_path event) then Inl Other_error else Inr n)"
      by (simp add: lstat_def del: lit_Cons)
    then show ?thesis unfolding commit_locked_def Let_def fp_def [symmetric] by (simp del: lit_Cons)
  qed
  then show "fst (commit_locked pr fs event session start now) =
      Inl (if p_fails pr Sys_stat (event_path event) then Ce_io else Ce_duplicate)" using assms(1) .
  show "fst (guard_commit pr fs event session start now) \<in> {Inl Ce_duplicate, Inl Ce_io}"
    using commit_cases [of fs pr event session start now] locked assms(1)
    unfolding commits_as_def quiet_def by auto
qed

text \<open>
  C23. A hook wakes its session only if no other hook woke it since the hook started, and an event is not resumed again
  for the seven days its marker is kept: until then every further commit of that event, by whatever hook, is refused, as a
  duplicate once it holds the lock (unless the look at the marker itself fails), and by an I/O error if it does not get so far.
\<close>

theorem one_wake_per_wait:
  assumes "guard_step\<^sup>*\<^sup>* (fs0, clock0, []) (fs, clock, ws)"
  shows "(i < j \<and> j < length ws \<longrightarrow>
      (wk_session (ws ! i) = wk_session (ws ! j) \<longrightarrow> wk_now (ws ! i) \<le> wk_start (ws ! j)) \<and>
      (wk_event (ws ! i) = wk_event (ws ! j) \<longrightarrow> wk_now (ws ! i) + marker_retention_secs < wk_real (ws ! j))) \<and>
    (i < length ws \<and> clock \<le> wk_now (ws ! i) + marker_retention_secs \<and> now \<le> clock \<longrightarrow>
      fst (guard_commit pr fs (wk_event (ws ! i)) session start now) \<in> {Inl Ce_duplicate, Inl Ce_io} \<and>
      fst (commit_locked pr fs (wk_event (ws ! i)) session start now) =
        Inl (if p_fails pr Sys_stat (event_path (wk_event (ws ! i))) then Ce_io else Ce_duplicate))"
proof -
  note inv = guard_invariants [OF assms]
  have "fst (guard_commit pr fs (wk_event (ws ! i)) session start now) \<in> {Inl Ce_duplicate, Inl Ce_io} \<and>
      fst (commit_locked pr fs (wk_event (ws ! i)) session start now) =
        Inl (if p_fails pr Sys_stat (event_path (wk_event (ws ! i))) then Ce_io else Ce_duplicate)"
    if i: "i < length ws" and t: "clock \<le> wk_now (ws ! i) + marker_retention_secs" "now \<le> clock"
  proof -
    have "marker_retained fs clock (ws ! i)" using inv i by (simp add: event_inv_def)
    then obtain n where "fs (event_path (wk_event (ws ! i))) = Some n" "wk_now (ws ! i) \<le> m_mtime (node_meta n)"
      using t(1) unfolding marker_retained_def by auto
    then show ?thesis using marked_refused [of fs "wk_event (ws ! i)" n now pr session start] t by auto
  qed
  then show ?thesis using inv by (auto simp: session_inv_def event_inv_def sorted_wrt_iff_nth_less)
qed

lemma one_wake_per_wait_witness:
  "wk_now (sample_wake sample_event 1699999000 1699999100) \<le> wk_start (sample_wake sample_event2 1699999200 1699999300) \<and>
   (\<exists>fs. fst (guard_commit sample_proc fs sample_event sample_session 1699999900 1700000000) \<in> {Inl Ce_duplicate, Inl Ce_io} \<and>
     fst (commit_locked sample_proc fs sample_event sample_session 1699999900 1700000000) = Inl Ce_duplicate)"
proof -
  obtain fs where r: "guard_step\<^sup>*\<^sup>* (sample_root, 0, [])
     (fs, 1700000000, [sample_wake sample_event 1699999000 1699999100, sample_wake sample_event2 1699999200 1699999300])"
    using sample_guard_run by blast
  have "marker_retention_secs = 604800" by (simp add: marker_retention_secs_def day_secs_def)
  then show ?thesis
    using one_wake_per_wait [OF r, of 0 1 1700000000 sample_proc sample_session 1699999900]
    by (auto simp: sample_wake_def sample_proc_def intro!: exI [of _ fs])
qed

end
