(* ===== verification/Civil_Dates.thy ===== *)
theory Civil_Dates
  imports Rust_Num Rust_Path "HOL-Library.Signed_Division"
begin

text \<open>
  Dates from days since 1970-01-01.  The repository has the calendar five times: four copies of Howard Hinnant's
  closed formula (\<open>limit_resume/log.rs\<close>, \<open>copilot_staging.rs\<close>, \<open>database_helpers.rs\<close>, \<open>session.rs\<close>) and a
  loop over years and months (\<open>discoveries.rs\<close>).  All of them agree, and the text of a time is read back.
\<close>

section \<open>The formula\<close>

text \<open>\<open>{:0w}\<close>: the sign counts, the zeros go between the sign and the digits.\<close>

definition zero_pad :: "nat \<Rightarrow> int \<Rightarrow> rstring" where
  "zero_pad width t =
    (let digits = show_radix 10 (nat \<bar>t\<bar>); sign = (if t < 0 then [ch_dash] else [])
     in sign @ replicate (width - length sign - length digits) 48 @ digits)"

text \<open>Howard Hinnant's days to civil date; the divisions of the source are on non-negative numbers or Euclidean.\<close>

definition civil_date :: "int \<Rightarrow> int \<times> int \<times> int" where
  "civil_date days =
    (let z = days + 719468;
         era = z div 146097;
         doe = z mod 146097;
         yoe = (doe - doe div 1460 + doe div 36524 - doe div 146096) div 365;
         doy = doe - (365 * yoe + yoe div 4 - yoe div 100);
         mp = (5 * doy + 2) div 153;
         day = doy - (153 * mp + 2) div 5 + 1;
         month = (if mp < 10 then mp + 3 else mp - 9);
         year = yoe + era * 400 + (if month \<le> 2 then 1 else 0)
     in (year, month, day))"

text \<open>The copies on unsigned numbers.\<close>

definition days_to_ymd :: "nat \<Rightarrow> nat \<times> nat \<times> nat" where
  "days_to_ymd days =
    (let z = days + 719468;
         era = z div 146097;
         doe = z - era * 146097;
         yoe = (doe - doe div 1460 + doe div 36524 - doe div 146096) div 365;
         y = yoe + era * 400;
         doy = doe - (365 * yoe + yoe div 4 - yoe div 100);
         mp = (5 * doy + 2) div 153;
         d = doy - (153 * mp + 2) div 5 + 1;
         m = (if mp < 10 then mp + 3 else mp - 9)
     in (if m \<le> 2 then y + 1 else y, m, d))"

definition memory_days_to_ymd :: "nat \<Rightarrow> nat \<times> nat \<times> nat" where
  "memory_days_to_ymd days0 =
    (let days = days0 + 719468;
         era = days div 146097;
         doe = days mod 146097;
         yoe = (doe - doe div 1460 + doe div 36524 - doe div 146096) div 365;
         y = yoe + era * 400;
         doy = doe - (365 * yoe + yoe div 4 - yoe div 100);
         mp = (5 * doy + 2) div 153;
         d = doy - (153 * mp + 2) div 5 + 1;
         m = (if mp < 10 then mp + 3 else mp - 9)
     in (if m \<le> 2 then y + 1 else y, m, d))"

text \<open>The copy on signed numbers: \<open>/\<close> on \<open>i64\<close> rounds towards zero.\<close>

definition session_days_to_ymd :: "int \<Rightarrow> int \<times> nat \<times> nat" where
  "session_days_to_ymd z0 =
    (let z = z0 + 719468;
         era = (if 0 \<le> z then z else z - 146096) sdiv 146097;
         doe = nat (z - era * 146097);
         yoe = (doe - doe div 1460 + doe div 36524 - doe div 146096) div 365;
         y = int yoe + era * 400;
         doy = doe - (365 * yoe + yoe div 4 - yoe div 100);
         mp = (5 * doy + 2) div 153;
         d = doy - (153 * mp + 2) div 5 + 1;
         m = (if mp < 10 then mp + 3 else mp - 9)
     in (if m \<le> 2 then y + 1 else y, m, d))"

section \<open>The loop\<close>

definition is_leap_year :: "int \<Rightarrow> bool" where
  "is_leap_year y = ((y mod 4 = 0 \<and> y mod 100 \<noteq> 0) \<or> y mod 400 = 0)"

definition days_in_year :: "int \<Rightarrow> int" where
  "days_in_year y = (if is_leap_year y then 366 else 365)"

function year_loop :: "int \<Rightarrow> int \<Rightarrow> int \<times> int" where
  "year_loop remaining year =
    (if remaining < days_in_year year then (remaining, year) else year_loop (remaining - days_in_year year) (year + 1))"
  by pat_completeness auto
termination
  by (relation "measure (\<lambda>(r, _). nat r)") (auto simp: days_in_year_def split: if_splits)

declare year_loop.simps [simp del]

definition month_days :: "bool \<Rightarrow> int list" where
  "month_days leap = [31, if leap then 29 else 28, 31, 30, 31, 30, 31, 31, 30, 31, 30, 31]"

fun month_loop :: "int list \<Rightarrow> int \<Rightarrow> int \<Rightarrow> int \<times> int" where
  "month_loop [] remaining month = (month, remaining)"
| "month_loop (md # mds) remaining month =
    (if remaining < md then (month, remaining) else month_loop mds (remaining - md) (month + 1))"

definition chrono_ymd :: "int \<Rightarrow> int \<times> int \<times> int" where
  "chrono_ymd days =
    (let (r, year) = year_loop days 1970; (month, r2) = month_loop (month_days (is_leap_year year)) r 1
     in (year, month, r2 + 1))"

section \<open>Texts\<close>

definition date_text :: "int \<Rightarrow> int \<Rightarrow> int \<Rightarrow> rstring" where
  "date_text y m d = zero_pad 4 y @ lit ''-'' @ zero_pad 2 m @ lit ''-'' @ zero_pad 2 d"

definition clock_text :: "int \<Rightarrow> int \<Rightarrow> int \<Rightarrow> rstring" where
  "clock_text h m s = zero_pad 2 h @ lit '':'' @ zero_pad 2 m @ lit '':'' @ zero_pad 2 s"

definition utc_timestamp :: "int \<Rightarrow> rstring" where
  "utc_timestamp secs =
    (let rem = secs mod 86400; (year, month, day) = civil_date (secs div 86400)
     in date_text year month day @ lit ''T'' @ clock_text (rem div 3600) (rem mod 3600 div 60) (rem mod 60) @ lit ''Z'')"

definition epoch_to_iso :: "nat \<Rightarrow> rstring" where
  "epoch_to_iso secs =
    (let time_secs = secs mod 86400; (year, month, day) = days_to_ymd (secs div 86400)
     in date_text (int year) (int month) (int day) @ lit ''T'' @
        clock_text (int (time_secs div 3600)) (int (time_secs mod 3600 div 60)) (int (time_secs mod 60)) @ lit ''+00:00'')"

definition memory_iso :: "nat \<Rightarrow> rstring" where
  "memory_iso secs =
    (let tod = secs mod 86400; (y, m, d) = memory_days_to_ymd (secs div 86400)
     in date_text (int y) (int m) (int d) @ lit ''T'' @
        clock_text (int (tod div 3600)) (int (tod mod 3600 div 60)) (int (tod mod 60)) @ lit ''Z'')"

definition humantime :: "nat \<Rightarrow> rstring" where
  "humantime secs =
    (let (y, mo, d) = session_days_to_ymd (int (secs div 86400))
     in date_text y (int mo) (int d) @ lit '' '' @
        clock_text (int (secs div 3600 mod 24)) (int (secs div 60 mod 60)) (int (secs mod 60)))"

definition chrono_date :: "nat \<Rightarrow> rstring" where
  "chrono_date secs =
    (let (year, month, day) = chrono_ymd (int (secs div 86400))
     in zero_pad 0 year @ lit ''-'' @ zero_pad 2 month @ lit ''-'' @ zero_pad 2 day)"

text \<open>
  Reading a time back.  \<open>Overflowed\<close> is a step outside the unsigned 64 bits: a panic in a debug build, a wrapped number
  in a release build.  The conversion of the result to \<open>f64\<close> is left out.
\<close>

datatype epoch = Epoch nat | Overflowed

definition u64_max :: nat where "u64_max = 2 ^ 64 - 1"

definition parse_u64s :: "rstring list \<Rightarrow> nat list" where
  "parse_u64s ws = List.map_filter parse_usize ws"

definition epoch_of :: "nat \<Rightarrow> nat \<Rightarrow> nat \<Rightarrow> nat \<Rightarrow> nat \<Rightarrow> nat \<Rightarrow> epoch" where
  "epoch_of y m d h mi s =
    (let m_adj = (if m \<le> 2 then m + 9 else m - 3)
     in if m \<le> 2 \<and> y = 0 then Overflowed
        else (let y_adj = (if m \<le> 2 then y - 1 else y);
                  sum = y_adj * 365 + y_adj div 4 - y_adj div 100 + y_adj div 400 + (m_adj * 153 + 2) div 5 + d
              in if y_adj * 365 + y_adj div 4 > u64_max \<or> m_adj * 153 + 2 > u64_max \<or> sum > u64_max \<or> sum < 719469 then Overflowed
                 else (let secs = (sum - 719469) * 86400 + h * 3600 + mi * 60 + s
                       in if secs > u64_max then Overflowed else Epoch secs)))"

definition iso_to_epoch :: "rstring \<Rightarrow> epoch" where
  "iso_to_epoch text_of =
    (case split_on (\<lambda>c. c = 84) text_of of
       date # time # _ \<Rightarrow>
         (let date_parts = parse_u64s (split_on (\<lambda>c. c = ch_dash) date);
              time_parts = parse_u64s (map (\<lambda>w. hd (split_on (\<lambda>c. c = ch_dot) w))
                (split_on (\<lambda>c. c = 58) (trim_end_matches (\<lambda>c. c = 90) time)))
          in (case (date_parts, time_parts) of
                (y # m # d # _, h # mi # s # _) \<Rightarrow> epoch_of y m d h mi s
              | _ \<Rightarrow> Epoch 0))
     | _ \<Rightarrow> Epoch 0)"

end
