(* ===== verification/Resume_Log.thy ===== *)
theory Resume_Log
  imports Resume_Hook Resume_Guard_Facts Civil_Dates
begin

text \<open>
  The log of the \<open>limit-resume\<close> hook (\<open>amplihack-hooks/src/limit_resume/log.rs\<close>): one line per decision, made of safe
  characters only, in a file that stays within its limit.
\<close>

section \<open>A line\<close>

definition log_max_bytes :: nat where "log_max_bytes = 65536"
definition max_field_chars :: nat where "max_field_chars = 64"

definition log_char :: "rchar \<Rightarrow> bool" where
  "log_char c = (is_ascii_alphanumeric c \<or> c \<in> set (lit ''._:-''))"

definition sanitize :: "rstring \<Rightarrow> rstring" where
  "sanitize s =
    (let out = map (\<lambda>c. if log_char c then c else ch_dash) (take max_field_chars s)
     in if out = [] then [ch_dash] else out)"

definition format_line :: "int \<Rightarrow> log_entry \<Rightarrow> rstring" where
  "format_line now e =
    utc_timestamp now @ lit '' resume session='' @ sanitize (le_session e) @ lit '' event='' @ sanitize (le_event e) @
    lit '' outcome='' @ sanitize (outcome_text (le_outcome e)) @
    lit '' live='' @ sanitize (case le_live e of Some l \<Rightarrow> l | None \<Rightarrow> []) @
    lit '' cycle='' @ sanitize (case le_cycle e of Some c \<Rightarrow> c | None \<Rightarrow> []) @ [ch_nl]"

section \<open>The file\<close>

definition log_path :: "path \<Rightarrow> path" where "log_path dir = dir @ [lit ''resume.log'']"

definition append_bytes :: "proc_env \<Rightarrow> files \<Rightarrow> path \<Rightarrow> nat list \<Rightarrow> files" where
  "append_bytes pr fs p bytes =
    (case fs p of
       Some (File m old) \<Rightarrow> if p_fails pr Sys_write p then fs else fs(p \<mapsto> File m (old @ bytes))
     | _ \<Rightarrow> fs)"

definition file_len :: "files \<Rightarrow> path \<Rightarrow> nat" where
  "file_len fs p = (case fs p of Some (File _ bytes) \<Rightarrow> length bytes | _ \<Rightarrow> 0)"

text \<open>The move of a full log, and the new one: whether to go on.\<close>

definition log_rotated :: "proc_env \<Rightarrow> files \<Rightarrow> path \<Rightarrow> bool \<times> files" where
  "log_rotated pr fs dir =
    (if p_fails pr Sys_rename (log_path dir) \<or>
        (case fs (dir @ [lit ''resume.log.1'']) of Some n \<Rightarrow> is_dir n | None \<Rightarrow> False) then (False, fs)
     else (case open_private_nofollow pr (fs(dir @ [lit ''resume.log.1''] := fs (log_path dir), log_path dir := None)) (log_path dir) of
             (r, fs1) \<Rightarrow> (is_ok r, fs1)))"

definition log_append :: "proc_env \<Rightarrow> files \<Rightarrow> path \<Rightarrow> rstring \<Rightarrow> files" where
  "log_append pr fs dir line =
    (if \<not> is_ok (check_private_dir pr fs dir) then fs
     else (case open_private_nofollow pr fs (dir @ [lit ''lock'']) of
             (Inl _, fs1) \<Rightarrow> fs1
           | (Inr _, fs1) \<Rightarrow>
               if \<not> is_ok (lock_exclusive_timeout pr) then fs1
               else (case open_private_nofollow pr fs1 (log_path dir) of
                       (Inl _, fs2) \<Rightarrow> fs2
                     | (Inr _, fs2) \<Rightarrow>
                         if p_fails pr Sys_stat (log_path dir) then fs2
                         else if file_len fs2 (log_path dir) + utf8_len line > log_max_bytes \<and> file_len fs2 (log_path dir) > 0
                         then (case log_rotated pr fs2 dir of
                                 (False, fs3) \<Rightarrow> fs3 | (True, fs3) \<Rightarrow> append_bytes pr fs3 (log_path dir) (utf8_bytes line))
                         else append_bytes pr fs2 (log_path dir) (utf8_bytes line))))"

section \<open>Facts\<close>

lemma sanitize_safe: "list_all log_char (sanitize s)" "sanitize s \<noteq> []" "length (sanitize s) \<le> max_field_chars"
  by (auto simp: sanitize_def list_all_iff log_char_def max_field_chars_def Let_def)

text \<open>The log stays within its limit as long as its lines do.\<close>

lemma open_private_len: "open_private_nofollow pr fs p = (r, fs1) \<Longrightarrow> file_len fs1 q = file_len fs q"
  by (auto simp: open_private_nofollow_def file_len_def split: option.splits node.splits if_splits)

lemma append_len: "file_len (append_bytes pr fs p bytes) p \<le> file_len fs p + length bytes"
  by (auto simp: append_bytes_def file_len_def split: option.splits node.splits)

lemma log_rotated_len:
  assumes "log_rotated pr fs dir = (b, fs1)"
  shows "file_len fs1 (log_path dir) \<le> file_len fs (log_path dir)" "b \<Longrightarrow> file_len fs1 (log_path dir) = 0"
proof -
  let ?moved = "fs(dir @ [lit ''resume.log.1''] := fs (log_path dir), log_path dir := None)"
  have "file_len ?moved (log_path dir) = 0" by (simp add: file_len_def)
  then have "fs1 = fs \<and> \<not> b \<or> file_len fs1 (log_path dir) = 0"
    using assms open_private_len [of pr ?moved "log_path dir" _ fs1 "log_path dir"]
    by (auto simp: log_rotated_def simp del: lit_Cons split: if_splits prod.splits)
  then show "file_len fs1 (log_path dir) \<le> file_len fs (log_path dir)" "b \<Longrightarrow> file_len fs1 (log_path dir) = 0" by auto
qed

lemma log_bounded:
  assumes "file_len fs (log_path dir) \<le> log_max_bytes" "utf8_len line \<le> log_max_bytes"
  shows "file_len (log_append pr fs dir line) (log_path dir) \<le> log_max_bytes"
proof -
  obtain r1 fs1 where o1: "open_private_nofollow pr fs (dir @ [lit ''lock'']) = (r1, fs1)" by (metis surj_pair)
  obtain r2 fs2 where o2: "open_private_nofollow pr fs1 (log_path dir) = (r2, fs2)" by (metis surj_pair)
  obtain b fs3 where o3: "log_rotated pr fs2 dir = (b, fs3)" by (metis surj_pair)
  let ?len = "\<lambda>fs. file_len fs (log_path dir)"
  have l: "?len fs1 = ?len fs" "?len fs2 = ?len fs" "?len fs3 \<le> ?len fs" "b \<Longrightarrow> ?len fs3 = 0"
    using open_private_len [OF o1] open_private_len [OF o2] log_rotated_len [OF o3] by simp_all
  have a: "?len (append_bytes pr fs2 (log_path dir) (utf8_bytes line)) \<le> ?len fs2 + utf8_len line"
    "?len (append_bytes pr fs3 (log_path dir) (utf8_bytes line)) \<le> ?len fs3 + utf8_len line"
    using append_len [of pr _ "log_path dir" "utf8_bytes line"] by (simp_all add: length_utf8_bytes)
  show ?thesis
    using l a assms by (auto simp: log_append_def o1 o2 o3 simp del: lit_Cons split: sum.split bool.split)
qed

text \<open>A line of the log is text of printable ASCII, with its newline at the end only.\<close>

definition printable :: "rchar \<Rightarrow> bool" where
  "printable c = (32 \<le> c \<and> c < 127)"

lemma zero_pad_printable: "list_all printable (zero_pad w t)"
  using show_radix_digits(1) [of "nat \<bar>t\<bar>"]
  by (fastforce simp: zero_pad_def Let_def printable_def list_all_iff is_ascii_digit_def)

lemma log_char_printable: "log_char c \<Longrightarrow> printable c"
  by (auto simp: log_char_def printable_def ascii_defs)

lemma sanitize_printable: "list_all printable (sanitize s)"
  using sanitize_safe(1) log_char_printable by (auto simp: list_all_iff)

lemma log_line_safe: "last (format_line now e) = ch_nl \<and> list_all printable (butlast (format_line now e))"
proof -
  have l: "list_all printable (lit '' resume session='')" "list_all printable (lit '' event='')"
    "list_all printable (lit '' outcome='')" "list_all printable (lit '' live='')" "list_all printable (lit '' cycle='')"
    "list_all printable (lit ''-'')" "list_all printable (lit ''T'')" "list_all printable (lit '':'')" "list_all printable (lit ''Z'')"
    by code_simp+
  have u: "list_all printable (utc_timestamp now)"
    using l zero_pad_printable
    by (simp add: utc_timestamp_def date_text_def clock_text_def Let_def del: lit_Cons split: prod.split)
  show ?thesis
    using l u sanitize_printable by (simp add: format_line_def butlast_append del: lit_Cons)
qed

end
