(* ===== verification/Resume_World.thy ===== *)
theory Resume_World
  imports Resume_Wait Resume_Log
begin

text \<open>
  The \<open>limit-resume\<close> hook on the machine (\<open>SystemDeps\<close> of \<open>limit_resume/mod.rs\<close>): its operations over the files of a
  profile root, with the other hooks, prompts and processes acting between any two of them.  It keeps the laws of
  \<open>resume_world\<close>, its steps are those of the guard, and so the caps of the guard hold for whole runs.
\<close>

section \<open>The machine\<close>

text \<open>
  The world of one run: the files, the clock, the number of operations so far, and every wake recorded on the root (by this
  hook or another).
\<close>

record sys_world =
  sw_files :: files
  sw_clock :: nat
  sw_calls :: nat
  sw_wakes :: "wake list"

text \<open>
  What others do between two operations: other hooks commit and prepare, the user prompts, anyone writes elsewhere (not the
  markers and records of the guard), time passes.
\<close>

datatype other_act =
    Act_commit proc_env rstring rstring int int
  | Act_prompt proc_env rstring int
  | Act_prepare proc_env int
  | Act_put path "node option"
  | Act_pass nat

definition record_commit ::
  "proc_env \<Rightarrow> rstring \<Rightarrow> rstring \<Rightarrow> int \<Rightarrow> int \<Rightarrow> sys_world \<Rightarrow> (commit_error, unit) result \<times> sys_world" where
  "record_commit pr event session start now w =
    (case guard_commit (pr\<lparr>p_clock := int (sw_clock w)\<rparr>) (sw_files w) event session start now of
       (x, fs) \<Rightarrow> (x, w\<lparr>sw_files := fs, sw_wakes := (if x = Inr () then sw_wakes w @
         [\<lparr>wk_event = event, wk_session = session, wk_start = start, wk_now = now, wk_real = int (sw_clock w)\<rparr>]
         else sw_wakes w)\<rparr>))"

fun act_on :: "other_act \<Rightarrow> sys_world \<Rightarrow> sys_world" where
  "act_on (Act_commit pr event session start now) w =
    (if start \<le> now \<and> now \<le> int (sw_clock w) then snd (record_commit pr event session start now w) else w)"
| "act_on (Act_prompt pr session now) w = w\<lparr>sw_files := snd (record_prompt pr (sw_files w) session now)\<rparr>"
| "act_on (Act_prepare pr now) w = w\<lparr>sw_files := snd (guard_prepare pr (sw_files w) now)\<rparr>"
| "act_on (Act_put p n) w =
    (if p \<noteq> [] \<and> butlast p \<in> {events_dir, sessions_dir} then w else w\<lparr>sw_files := (sw_files w)(p := n)\<rparr>)"
| "act_on (Act_pass secs) w = w\<lparr>sw_clock := sw_clock w + secs\<rparr>"

text \<open>The surroundings, by the number of the operation; \<open>se_parent\<close> is the hook's parent when it started.\<close>

record sys_env =
  se_others :: "nat \<Rightarrow> other_act list"
  se_proc :: "nat \<Rightarrow> proc_env"
  se_toggle :: "rstring option"
  se_proc_root :: "nat \<Rightarrow> files"
  se_pid :: nat
  se_parent :: nat
  se_parent_now :: "nat \<Rightarrow> nat"
  se_oversleep :: "nat \<Rightarrow> nat"
  se_from_slice :: "nat list \<Rightarrow> json option"

text \<open>One operation: the others first, then \<open>f\<close> with the process as it is then.\<close>

definition others_act :: "sys_env \<Rightarrow> sys_world \<Rightarrow> sys_world" where
  "others_act env w = (fold act_on (se_others env (sw_calls w)) w)\<lparr>sw_calls := sw_calls w + 1\<rparr>"

definition proc_at :: "sys_env \<Rightarrow> sys_world \<Rightarrow> proc_env" where
  "proc_at env w = (se_proc env (sw_calls w))\<lparr>p_clock := int (sw_clock w)\<rparr>"

definition look :: "sys_env \<Rightarrow> (sys_world \<Rightarrow> 'a) \<Rightarrow> (sys_world, 'a) state" where
  "look env f = State (\<lambda>w. (f (others_act env w), others_act env w))"

definition on_files :: "sys_env \<Rightarrow> (proc_env \<Rightarrow> files \<Rightarrow> 'a \<times> files) \<Rightarrow> (sys_world, 'a) state" where
  "on_files env f = State (\<lambda>w. let w1 = others_act env w in
     (case f (proc_at env w1) (sw_files w1) of (x, fs) \<Rightarrow> (x, w1\<lparr>sw_files := fs\<rparr>)))"

section \<open>The system's operations\<close>

definition sys_log :: "proc_env \<Rightarrow> files \<Rightarrow> int \<Rightarrow> log_entry \<Rightarrow> files" where
  "sys_log pr fs now e =
    (case ensure_resume_dir pr fs of
       (Inl _, fs1) \<Rightarrow> fs1 | (Inr _, fs1) \<Rightarrow> log_append pr fs1 resume_dir (format_line now e))"

definition sys_deps :: "sys_env \<Rightarrow> sys_world deps" where
  "sys_deps env =
    \<lparr>d_auto_switch_on = look env (\<lambda>w. auto_switch_on_from (proc_at env w) (se_toggle env) (sw_files w)),
     d_now = look env (\<lambda>w. int (sw_clock w)),
     d_sleep = (\<lambda>d. State (\<lambda>w. let w1 = others_act env w in ((), w1\<lparr>sw_clock := sw_clock w1 + d + se_oversleep env (sw_calls w)\<rparr>))),
     d_read_cycle = (\<lambda>now. look env (\<lambda>w. read_cycle (se_from_slice env) (proc_at env w) (sw_files w) now)),
     d_seen = (\<lambda>event. look env (\<lambda>w. guard_seen (proc_at env w) (sw_files w) event)),
     d_resumes = (\<lambda>session now. look env (\<lambda>w. guard_resumes (proc_at env w) (sw_files w) session now)),
     d_prepare = (\<lambda>now. on_files env (\<lambda>pr fs. guard_prepare pr fs now)),
     d_prompted_at = (\<lambda>session. look env (\<lambda>w. guard_prompted_at (proc_at env w) (sw_files w) session)),
     d_commit = (\<lambda>event session start now. State (\<lambda>w. let w1 = others_act env w in
       record_commit (proc_at env w1) event session start now w1)),
     d_log = (\<lambda>now e. on_files env (\<lambda>pr fs. ((), sys_log pr fs now e))),
     d_session_alive = look env (\<lambda>w. se_parent env \<noteq> 1 \<and> se_parent_now env (sw_calls w) = se_parent env),
     d_rotator_down = (\<lambda>now. look env (\<lambda>w. rotator_down_at (se_from_slice env) (proc_at env w) (se_pid env) (sw_files w)
       (se_proc_root env (sw_calls w)) now))\<rparr>"

definition record_prompt_at :: "(nat list \<Rightarrow> nat list) \<Rightarrow> proc_env \<Rightarrow> files \<Rightarrow> rstring option \<Rightarrow> int \<Rightarrow> files" where
  "record_prompt_at sha pr fs session_id now =
    (case session_id of
       Some sid \<Rightarrow> if session_id_ok session_id then snd (record_prompt pr fs (session_key sha sid) now) else fs
     | None \<Rightarrow> fs)"

section \<open>Its steps are those of the guard\<close>

definition guard_state :: "sys_world \<Rightarrow> files \<times> int \<times> wake list" where
  "guard_state w = (sw_files w, int (sw_clock w), sw_wakes w)"

definition guard_path :: "sys_world \<Rightarrow> sys_world \<Rightarrow> bool" where
  "guard_path w w' = guard_step\<^sup>*\<^sup>* (guard_state w) (guard_state w')"

lemma guard_path_refl: "guard_path w w"
  by (simp add: guard_path_def)

lemma guard_path_trans: "guard_path w1 w2 \<Longrightarrow> guard_path w2 w3 \<Longrightarrow> guard_path w1 w3"
  unfolding guard_path_def by (rule rtranclp_trans)

lemma guard_pathI: "guard_step (guard_state w) (guard_state w') \<Longrightarrow> guard_path w w'"
  unfolding guard_path_def by (rule r_into_rtranclp)

lemma guard_path_same: "guard_state w' = guard_state w \<Longrightarrow> guard_path w w'"
  by (simp add: guard_path_def)

lemma guard_step_grows:
  "guard_step (fs, clock, ws) (fs', clock', ws') \<Longrightarrow> clock \<le> clock' \<and> (\<exists>us. ws' = ws @ us)"
  by (cases rule: guard_step.cases) auto

lemma guard_path_grows:
  assumes "guard_path w w'"
  shows "sw_clock w \<le> sw_clock w' \<and> (\<exists>us. sw_wakes w' = sw_wakes w @ us)"
proof -
  have "fst (snd (guard_state w)) \<le> fst (snd st) \<and> (\<exists>us. snd (snd st) = snd (snd (guard_state w)) @ us)"
    if "guard_step\<^sup>*\<^sup>* (guard_state w) st" for st
    using that
  proof (induction rule: rtranclp_induct)
    case (step st st')
    obtain fs clock ws fs' clock' ws' where "st = (fs, clock, ws)" "st' = (fs', clock', ws')" by (metis prod_cases3)
    then show ?case using step guard_step_grows [of fs clock ws fs' clock' ws'] by auto
  qed simp
  then show ?thesis using assms by (fastforce simp: guard_path_def guard_state_def)
qed

lemma path_files: "quiet (sw_files w) fs \<Longrightarrow> guard_path w (w\<lparr>sw_files := fs\<rparr>)"
  by (rule guard_pathI) (simp add: guard_state_def guard_step.other)

lemma path_commit:
  assumes "record_commit pr event session start now w = (x, w')" "start \<le> now" "now \<le> int (sw_clock w)"
  shows "guard_path w w'"
proof -
  obtain fs where g: "guard_commit (pr\<lparr>p_clock := int (sw_clock w)\<rparr>) (sw_files w) event session start now = (x, fs)"
    using assms(1) by (auto simp: record_commit_def split: prod.splits)
  have "guard_step (guard_state w) (guard_state w')"
    using guard_step.commit [OF g assms(2), of "int (sw_clock w)" "int (sw_clock w)" "sw_wakes w"] assms(1,3) g
    by (auto simp: record_commit_def guard_state_def)
  then show ?thesis by (rule guard_pathI)
qed

lemma path_act: "guard_path w (act_on a w)"
proof (cases a)
  case (Act_commit pr event session start now)
  then show ?thesis
    using path_commit [of pr event session start now w] guard_path_refl by (cases "record_commit pr event session start now w") auto
next
  case (Act_put p n)
  have "quiet (sw_files w) ((sw_files w)(p := n))" if "\<not> (p \<noteq> [] \<and> butlast p \<in> {events_dir, sessions_dir})"
    using that by (auto simp: quiet_def simp del: lit_Cons)
  then show ?thesis using path_files guard_path_refl Act_put by simp
next
  case (Act_pass secs)
  then show ?thesis by (intro guard_pathI) (simp add: guard_state_def guard_step.other)
qed (use path_files quiet_prompt quiet_prepare in simp_all)

lemma path_acts: "guard_path w (fold act_on as w)"
  by (induction as arbitrary: w) (auto intro: guard_path_refl guard_path_trans path_act)

lemma path_others: "guard_path w (others_act env w)"
proof -
  have "guard_path (fold act_on (se_others env (sw_calls w)) w) (others_act env w)"
    by (rule guard_path_same) (simp add: others_act_def guard_state_def)
  then show ?thesis using path_acts guard_path_trans by blast
qed

lemma keeps_look: "keeps guard_path (look env f)"
  using path_others by (simp add: keeps_def look_def)

lemma keeps_files:
  assumes "\<And>pr fs. quiet fs (snd (f pr fs))" shows "keeps guard_path (on_files env f)"
  unfolding keeps_def
proof
  fix w
  have "guard_path (others_act env w) ((others_act env w)\<lparr>sw_files := snd (f (proc_at env (others_act env w)) (sw_files (others_act env w)))\<rparr>)"
    by (rule path_files) (rule assms)
  then show "guard_path w (snd (run_state (on_files env f) w))"
    using path_others guard_path_trans by (simp add: on_files_def Let_def case_prod_beta) blast
qed

lemma quiet_log_parts:
  "quiet fs fs1 \<Longrightarrow> quiet fs (append_bytes pr fs1 (log_path resume_dir) bytes)"
  "quiet fs fs1 \<Longrightarrow> quiet fs (snd (log_rotated pr fs1 resume_dir))"
proof -
  have n: "log_path resume_dir \<noteq> event_path k" "log_path resume_dir \<noteq> session_path k"
    "resume_dir @ [lit ''resume.log.1''] \<noteq> event_path k" "resume_dir @ [lit ''resume.log.1''] \<noteq> session_path k" for k
    by (simp_all add: log_path_def resume_dir_def state_dir_def sub_dir_def)
  show "quiet fs fs1 \<Longrightarrow> quiet fs (append_bytes pr fs1 (log_path resume_dir) bytes)"
    using n [THEN not_sym] by (auto simp: quiet_def append_bytes_def simp del: lit_Cons split: option.split node.split)
  let ?moved = "fs1(resume_dir @ [lit ''resume.log.1''] := fs1 (log_path resume_dir), log_path resume_dir := None)"
  have "length (log_path resume_dir) \<noteq> 4" by (simp add: log_path_def path_lengths)
  moreover have "quiet fs fs1 \<Longrightarrow> quiet fs ?moved"
    using n [THEN not_sym] by (simp add: quiet_def sub_dir_def del: lit_Cons)
  ultimately show "quiet fs fs1 \<Longrightarrow> quiet fs (snd (log_rotated pr fs1 resume_dir))"
    by (auto simp: log_rotated_def case_prod_beta simp del: lit_Cons intro!: quiet_open)
qed

lemma quiet_log_append: "quiet fs fs1 \<Longrightarrow> quiet fs (log_append pr fs1 resume_dir line)"
proof -
  assume q: "quiet fs fs1"
  obtain r2 fs2 where o2: "open_private_nofollow pr fs1 (resume_dir @ [lit ''lock'']) = (r2, fs2)" by (metis surj_pair)
  obtain r3 fs3 where o3: "open_private_nofollow pr fs2 (log_path resume_dir) = (r3, fs3)" by (metis surj_pair)
  obtain b fs4 where o4: "log_rotated pr fs3 resume_dir = (b, fs4)" by (metis surj_pair)
  have l: "length (resume_dir @ [lit ''lock'']) \<noteq> 4" "length (log_path resume_dir) \<noteq> 4"
    by (simp_all add: log_path_def path_lengths)
  have "quiet fs fs2" using quiet_open [OF q l(1), of pr] o2 by simp
  moreover from this have "quiet fs fs3" using quiet_open [of fs fs2, OF _ l(2), of pr] o3 by simp
  moreover from this have "quiet fs fs4" using quiet_log_parts(2) [of fs fs3 pr] o4 by simp
  ultimately show ?thesis
    using q quiet_log_parts(1) by (auto simp: log_append_def o2 o3 o4 simp del: lit_Cons split: sum.split bool.split)
qed

lemma quiet_sys_log: "quiet fs (sys_log pr fs now e)"
  using quiet_resume_dir [OF quiet_refl, of fs pr] quiet_log_append
  by (auto simp: sys_log_def split: prod.split sum.split)

text \<open>The machine keeps the laws the wait needs.\<close>

interpretation machine: resume_world "sys_deps env" "\<lambda>w. int (sw_clock w)" guard_path for env
proof
  show "guard_path w w" for w by (rule guard_path_refl)
  show "guard_path w1 w2 \<Longrightarrow> guard_path w2 w3 \<Longrightarrow> guard_path w1 w3" for w1 w2 w3 by (rule guard_path_trans)
  show "guard_path w w' \<Longrightarrow> int (sw_clock w) \<le> int (sw_clock w')" for w w' using guard_path_grows by simp
  show "0 \<le> int (sw_clock w)" for w by simp
  show "guard_path w w' \<and> int (sw_clock w) \<le> t \<and> t \<le> int (sw_clock w')"
    if "run_state (d_now (sys_deps env)) w = (t, w')" for w t w'
    using that path_others [of w env] guard_path_grows [of w "others_act env w"] by (auto simp: sys_deps_def look_def)
  show "guard_path w w' \<and> int (sw_clock w) + int d \<le> int (sw_clock w')"
    if "run_state (d_sleep (sys_deps env) d) w = (u, w')" for d w u w'
  proof -
    have w': "w' = (others_act env w)\<lparr>sw_clock := sw_clock (others_act env w) + d + se_oversleep env (sw_calls w)\<rparr>"
      using that by (simp add: sys_deps_def Let_def)
    have "guard_path (others_act env w) w'"
      by (rule guard_pathI) (simp add: w' guard_state_def guard_step.other)
    then show ?thesis using path_others [of w env] guard_path_trans guard_path_grows [of w "others_act env w"] w' by auto
  qed
  show "guard_path w w'" if "start \<le> now" "now \<le> int (sw_clock w)"
    "run_state (d_commit (sys_deps env) ev k start now) w = (x, w')" for start now w ev k x w'
  proof -
    have "record_commit (proc_at env (others_act env w)) ev k start now (others_act env w) = (x, w')"
      using that(3) by (simp add: sys_deps_def Let_def)
    moreover have "now \<le> int (sw_clock (others_act env w))"
      using that(2) guard_path_grows [OF path_others, of w env] by linarith
    ultimately have "guard_path (others_act env w) w'" using path_commit that(1) by blast
    then show ?thesis using path_others guard_path_trans by blast
  qed
qed (simp_all add: sys_deps_def keeps_look keeps_files quiet_prepare quiet_sys_log)

end
