(* ===== verification/Resume_Runs.thy ===== *)
theory Resume_Runs
  imports Resume_World
begin

text \<open>
  Whole runs of the \<open>limit-resume\<close> hook on the machine: they decide, the caps hold across them, and a wake is justified.
  A sample run that wakes its session ends the theory.
\<close>

section \<open>Properties\<close>

text \<open>
  C19. The hook always decides, after at most 2245 reads of the ledger, whatever the files, the faults, the clock that
  does not go back and the other processes do; and when no session has been woken before, no session is woken more than
  three times in any 24 hours, by this hook or by another.
\<close>

theorem limit_resume_decides:
  assumes "sw_wakes w = []"
  shows "\<exists>out w'. run_within 2245 (sys_deps env) sha inp w = Some (out, w') \<and>
    run_with (sys_deps env) sha inp w = Some (out, w') \<and>
    length (filter (\<lambda>k. wk_session k = s \<and> from \<le> wk_now k \<and> wk_now k < from + day_secs) (sw_wakes w')) \<le>
      max_resumes_per_session"
proof -
  obtain out w' where r: "run_within 2245 (sys_deps env) sha inp w = Some (out, w')"
    "run_with (sys_deps env) sha inp w = Some (out, w')" "guard_path w w'"
    using machine.run_decides by blast
  have "guard_step\<^sup>*\<^sup>* (sw_files w, int (sw_clock w), []) (sw_files w', int (sw_clock w'), sw_wakes w')"
    using r(3) assms by (simp add: guard_path_def guard_state_def)
  from resumes_capped [OF this, of s "from"] show ?thesis using r(1,2) by blast
qed

text \<open>Where the ledger of a poll comes from.\<close>

lemma poll_reads:
  assumes "run_state (wait_poll (sys_deps env) c) w = (Poll_break now status, w')"
  shows "status = read_cycle (se_from_slice env) (proc_at env w') (sw_files w') now"
proof -
  have "\<exists>u. (status, w') = run_state (d_read_cycle (sys_deps env) now) u"
  proof -
    obtain t wa on wb alive wc mv wd st we where s:
      "run_state (d_now (sys_deps env)) w = (t, wa)" "run_state (d_auto_switch_on (sys_deps env)) wa = (on, wb)"
      "run_state (d_session_alive (sys_deps env)) wb = (alive, wc)" "run_state (moved_on (sys_deps env) c) wc = (mv, wd)"
      "run_state (d_read_cycle (sys_deps env) t) wd = (st, we)"
      by (metis surj_pair)
    then have "t = now \<and> st = status \<and> we = w'" using assms by (auto simp: wait_poll_def split: sum.splits bool.splits if_splits)
    then show ?thesis using s(5) by metis
  qed
  then show ?thesis by (auto simp: sys_deps_def look_def)
qed

text \<open>
  C20. A session is woken only for a usage limit with a usable session id that no stop hook keeps running: the run's wait ended
  on a read of the ledger that showed capacity measured after the hook started, the session had no newer prompt when the run
  looked once more after that read, and only then did a commit of this run record the wake on the root for this event and session,
  at the clock of that read.
\<close>

theorem resumed_recorded:
  assumes "run_with (sys_deps env) sha inp w = Some (Resumed, w')"
  shows "\<exists>c w1 status w2 w3 k us vs. wakeable sha inp c \<and> int (sw_clock w) \<le> wc_start c \<and>
    run_state (run_begin (sys_deps env) sha inp) w = (Inr c, w1) \<and>
    wait_loop (sys_deps env) c w1 = Some (Poll_break (wk_now k) status, w2) \<and>
    status = read_cycle (se_from_slice env) (proc_at env w2) (sw_files w2) (wk_now k) \<and> fresh_capacity status (wc_start c) \<and>
    run_state (moved_on (sys_deps env) c) w2 = (Inr False, w3) \<and>
    sw_wakes w' = sw_wakes w @ us @ k # vs \<and> sw_wakes (others_act env w3) = sw_wakes w @ us \<and>
    wk_event k = wc_event c \<and> wk_session k = wc_session c \<and> wk_start k = wc_start c"
proof -
  obtain c w1 now status w2 w3 w4 where
    b: "run_state (run_begin (sys_deps env) sha inp) w = (Inr c, w1)"
    and l: "wait_loop (sys_deps env) c w1 = Some (Poll_break now status, w2)" and f: "fresh_capacity status (wc_start c)"
    and m: "run_state (moved_on (sys_deps env) c) w2 = (Inr False, w3)"
    and d: "run_state (d_commit (sys_deps env) (wc_event c) (wc_session c) (wc_start c) now) w3 = (Inr (), w4)"
    and e: "run_state (finish (sys_deps env) c now Resumed status) w4 = (Resumed, w')"
    using resumed_justified [OF assms] by blast
  note ctx = machine.run_begin_ctx [OF b]
  have "status = read_cycle (se_from_slice env) (proc_at env w2) (sw_files w2) now"
    using wait_loop_poll [OF l] poll_reads by blast
  moreover have "guard_path w (others_act env w3)"
  proof -
    have "guard_path w1 w2" using machine.wait_returns [of c w1 env] ctx(2,3) l by fastforce
    moreover have "guard_path w w1" using keepsD [OF machine.keeps_begin b] .
    moreover have "guard_path w2 w3" using keepsD [OF machine.keeps_moved m] .
    ultimately show ?thesis using path_others guard_path_trans by blast
  qed
  then obtain us where "sw_wakes (others_act env w3) = sw_wakes w @ us" using guard_path_grows by blast
  moreover obtain vs where "sw_wakes w' = sw_wakes w4 @ vs"
    using guard_path_grows [OF keepsD [OF machine.keeps_finish e]] by blast
  moreover have "sw_wakes w4 = sw_wakes (others_act env w3) @ [\<lparr>wk_event = wc_event c, wk_session = wc_session c,
      wk_start = wc_start c, wk_now = now, wk_real = int (sw_clock (others_act env w3))\<rparr>]"
    using d by (auto simp: sys_deps_def Let_def record_commit_def split: prod.splits)
  ultimately show ?thesis using ctx(1,2) b l f m
    by (intro exI [of _ c] exI [of _ w1] exI [of _ status] exI [of _ w2] exI [of _ w3] exI [of _ "\<lparr>wk_event = wc_event c,
      wk_session = wc_session c, wk_start = wc_start c, wk_now = now, wk_real = int (sw_clock (others_act env w3))\<rparr>"]
      exI [of _ us] exI [of _ vs]) simp
qed

section \<open>A run\<close>

definition sample_rotating :: files where
  "sample_rotating = sample_root(
     state_dir \<mapsto> Dir (new_meta sample_proc mode_700), rotate_dir \<mapsto> Dir (new_meta sample_proc mode_700),
     pid_path \<mapsto> File (new_meta sample_proc mode_600) (lit ''4242''),
     ledger_path \<mapsto> File (new_meta sample_proc mode_600) [])"

definition sample_ledger :: json where
  "sample_ledger = J_obj [(lit ''version'', J_num (lit ''1'')),
     (lit ''last_cycle'', J_obj [(lit ''measured_at'', J_num (lit ''1700000100'')), (lit ''outcome'', J_str (lit ''swapped''))])]"

definition sample_env :: sys_env where
  "sample_env = \<lparr>se_others = (\<lambda>_. []), se_proc = (\<lambda>_. sample_proc), se_toggle = Some (lit ''1''), se_proc_root = (\<lambda>_ _. None),
     se_pid = 77, se_parent = 50, se_parent_now = (\<lambda>_. 50), se_oversleep = (\<lambda>_. 0), se_from_slice = (\<lambda>_. Some sample_ledger)\<rparr>"

definition sample_stop :: hook_message where
  "sample_stop = In_stop_failure (Some (lit ''s1'')) (Some (lit ''rate_limit'')) None None None None (J_obj [])"

definition sample_sha :: "nat list \<Rightarrow> nat list" where
  "sample_sha m = replicate 32 (if length m < 60 then 171 else 205)"

definition quiet_world :: "nat \<Rightarrow> files \<Rightarrow> sys_world" where
  "quiet_world k fs = \<lparr>sw_files = fs, sw_clock = 1700000000, sw_calls = k, sw_wakes = []\<rparr>"

definition sample_ctx :: wait_ctx where
  "sample_ctx = \<lparr>wc_event = event_key sample_sha (lit ''s1'') (Some (lit ''rate_limit'')) None None None,
     wc_session = session_key sample_sha (lit ''s1''), wc_start = 1700000000\<rparr>"

definition sample_prepared :: files where
  "sample_prepared = snd (guard_prepare sample_proc sample_rotating 1700000000)"

definition sample_status :: cycle_status where
  "sample_status = the (read_cycle (\<lambda>_. Some sample_ledger) sample_proc sample_rotating 1700000000)"

lemma quiet_step:
  "others_act sample_env (quiet_world k fs) = quiet_world (k + 1) fs" "proc_at sample_env (quiet_world k fs) = sample_proc"
  "run_state (look sample_env f) (quiet_world k fs) = (f (quiet_world (k + 1) fs), quiet_world (k + 1) fs)"
  by (simp_all add: others_act_def proc_at_def look_def quiet_world_def sample_env_def sample_proc_def)

lemma sample_values:
  "auto_switch_on_from sample_proc (Some (lit ''1'')) fs"
  "read_cycle (\<lambda>_. Some sample_ledger) sample_proc sample_rotating 1700000000 = Some sample_status"
  "cs_live sample_status = None" "fresh_capacity (Some sample_status) 1700000000"
  "guard_seen sample_proc sample_rotating (wc_event sample_ctx) = Inr False"
  "guard_resumes sample_proc sample_rotating (wc_session sample_ctx) 1700000000 = Inr 0"
  "\<not> rotator_down_at (\<lambda>_. Some sample_ledger) sample_proc 77 sample_rotating (\<lambda>_. None) 1700000000"
  "fst (guard_prepare sample_proc sample_rotating 1700000000) = Inr ()"
  by code_simp+

lemma sample_later:
  "guard_prompted_at sample_proc sample_prepared (wc_session sample_ctx) = Inr None"
  "read_cycle (\<lambda>_. Some sample_ledger) sample_proc sample_prepared 1700000000 = Some sample_status"
  "fst (guard_commit sample_proc sample_prepared (wc_event sample_ctx) (wc_session sample_ctx) 1700000000 1700000000) = Inr ()"
  by code_simp+

lemma env_fields: "se_toggle sample_env = Some (lit ''1'')" "se_from_slice sample_env = (\<lambda>_. Some sample_ledger)"
  "se_pid sample_env = 77" "se_proc_root sample_env k = (\<lambda>_. None)" "se_parent sample_env = 50" "se_parent_now sample_env k = 50"
  by (simp_all add: sample_env_def)

lemma world_fields: "sw_files (quiet_world k fs) = fs" "sw_clock (quiet_world k fs) = 1700000000" "sw_wakes (quiet_world k fs) = []"
  "quiet_world k fs\<lparr>sw_files := fs'\<rparr> = quiet_world k fs'"
  by (simp_all add: quiet_world_def)

lemma sample_prepare: "guard_prepare sample_proc sample_rotating 1700000000 = (Inr (), sample_prepared)"
  using sample_values(8) unfolding sample_prepared_def by (metis prod.collapse)

lemma sample_gate_idle: "is_limit (Some (lit ''rate_limit''))" "session_id_ok (Some (lit ''s1''))"
  by code_simp+

lemma sample_ops:
  "run_state (d_auto_switch_on (sys_deps sample_env)) (quiet_world k fs) = (True, quiet_world (k + 1) fs)"
  "run_state (d_now (sys_deps sample_env)) (quiet_world k fs) = (1700000000, quiet_world (k + 1) fs)"
  "run_state (d_session_alive (sys_deps sample_env)) (quiet_world k fs) = (True, quiet_world (k + 1) fs)"
  by (simp_all add: sys_deps_def quiet_step env_fields world_fields sample_values del: lit_Cons)

lemma sample_reads:
  "run_state (d_read_cycle (sys_deps sample_env) 1700000000) (quiet_world k sample_rotating) =
    (Some sample_status, quiet_world (k + 1) sample_rotating)"
  "run_state (d_read_cycle (sys_deps sample_env) 1700000000) (quiet_world k sample_prepared) =
    (Some sample_status, quiet_world (k + 1) sample_prepared)"
  by (simp_all add: sys_deps_def quiet_step env_fields world_fields sample_values sample_later del: lit_Cons)

lemma sample_guard:
  "run_state (d_seen (sys_deps sample_env) (wc_event sample_ctx)) (quiet_world k sample_rotating) =
    (Inr False, quiet_world (k + 1) sample_rotating)"
  "run_state (d_resumes (sys_deps sample_env) (wc_session sample_ctx) 1700000000) (quiet_world k sample_rotating) =
    (Inr 0, quiet_world (k + 1) sample_rotating)"
  "run_state (d_rotator_down (sys_deps sample_env) 1700000000) (quiet_world k sample_rotating) =
    (False, quiet_world (k + 1) sample_rotating)"
  "run_state (d_prepare (sys_deps sample_env) 1700000000) (quiet_world k sample_rotating) =
    (Inr (), quiet_world (k + 1) sample_prepared)"
  "run_state (d_prompted_at (sys_deps sample_env) (wc_session sample_ctx)) (quiet_world k sample_prepared) =
    (Inr None, quiet_world (k + 1) sample_prepared)"
  by (simp_all add: sys_deps_def on_files_def Let_def quiet_step env_fields world_fields sample_values sample_later
      sample_prepare del: lit_Cons)

lemma sample_ctx_is:
  "\<lparr>wc_event = event_key sample_sha (lit ''s1'') (Some (lit ''rate_limit'')) None None None,
    wc_session = session_key sample_sha (lit ''s1''), wc_start = 1700000000\<rparr> = sample_ctx" "wc_start sample_ctx = 1700000000"
  by (simp_all add: sample_ctx_def)

lemma sample_checks:
  assumes "gate_of f = Gate_proceed" "gate_of (f\<lparr>gf_duplicate := False, gf_capped := False\<rparr>) = Gate_proceed"
  shows "run_state (run_checks (sys_deps sample_env) f sample_ctx first) (quiet_world k sample_rotating) =
    (Inr sample_ctx, quiet_world (k + 4) sample_prepared)"
  using assms by (simp add: run_checks_def sample_guard sample_ctx_is max_resumes_per_session_def eval_nat_numeral del: lit_Cons)

lemma sample_begin:
  "run_state (run_begin (sys_deps sample_env) sample_sha sample_stop) (quiet_world 0 sample_rotating) =
    (Inr sample_ctx, quiet_world 7 sample_prepared)"
  by (simp add: run_begin_def sample_stop_def sample_ops sample_reads sample_gate_idle gate_of_def sample_values(3) sample_ctx_is
      Let_def sample_checks eval_nat_numeral del: lit_Cons)

lemma sample_moved:
  "run_state (moved_on (sys_deps sample_env) sample_ctx) (quiet_world k sample_prepared) = (Inr False, quiet_world (k + 1) sample_prepared)"
  by (simp add: moved_on_def sample_guard)

lemma sample_poll:
  "run_state (wait_poll (sys_deps sample_env) sample_ctx) (quiet_world k sample_prepared) =
    (Poll_break 1700000000 (Some sample_status), quiet_world (k + 5) sample_prepared)"
  by (simp add: wait_poll_def sample_ops sample_reads sample_moved sample_values(4) sample_ctx_is eval_nat_numeral)

lemma sample_commit:
  "\<exists>w. run_state (d_commit (sys_deps sample_env) (wc_event sample_ctx) (wc_session sample_ctx) 1700000000 1700000000)
     (quiet_world k sample_prepared) = (Inr (), w)"
proof -
  obtain fs where "guard_commit sample_proc sample_prepared (wc_event sample_ctx) (wc_session sample_ctx) 1700000000 1700000000 = (Inr (), fs)"
    using sample_later(3) by (metis prod.collapse)
  moreover have "sample_proc\<lparr>p_clock := 1700000000\<rparr> = sample_proc" by (simp add: sample_proc_def)
  ultimately show ?thesis by (simp add: sys_deps_def Let_def quiet_step record_commit_def world_fields)
qed

lemma sample_resumes: "\<exists>w'. run_with (sys_deps sample_env) sample_sha sample_stop (quiet_world 0 sample_rotating) = Some (Resumed, w')"
proof -
  obtain w4 where d: "run_state (d_commit (sys_deps sample_env) (wc_event sample_ctx) (wc_session sample_ctx) 1700000000 1700000000)
     (quiet_world 13 sample_prepared) = (Inr (), w4)" using sample_commit by blast
  have m: "run_state (moved_on (sys_deps sample_env) sample_ctx) (quiet_world 12 sample_prepared) = (Inr False, quiet_world 13 sample_prepared)"
    using sample_moved [of 12] by simp
  have "wait_loop (sys_deps sample_env) sample_ctx (quiet_world 7 sample_prepared) =
      Some (Poll_break 1700000000 (Some sample_status), quiet_world 12 sample_prepared)"
    by (subst wait_loop.simps) (simp add: sample_poll [of 7, simplified])
  then show ?thesis
    by (simp add: run_with_def sample_begin run_end_def sample_values(4) sample_ctx_is m d commit_outcome_def finish_def
        split: prod.split)
qed

lemma limit_resume_decides_witness:
  "\<exists>out w'. run_within 2245 (sys_deps sample_env) sample_sha sample_stop (quiet_world 0 sample_rotating) = Some (out, w') \<and>
    run_with (sys_deps sample_env) sample_sha sample_stop (quiet_world 0 sample_rotating) = Some (out, w') \<and>
    length (filter (\<lambda>k. wk_session k = wc_session sample_ctx \<and> 1700000000 \<le> wk_now k \<and> wk_now k < 1700000000 + day_secs)
      (sw_wakes w')) \<le> max_resumes_per_session"
  by (rule limit_resume_decides) (simp add: world_fields)

lemma resumed_recorded_witness:
  "\<exists>w'. run_with (sys_deps sample_env) sample_sha sample_stop (quiet_world 0 sample_rotating) = Some (Resumed, w') \<and> sw_wakes w' \<noteq> []"
proof -
  obtain w' where r: "run_with (sys_deps sample_env) sample_sha sample_stop (quiet_world 0 sample_rotating) = Some (Resumed, w')"
    using sample_resumes by blast
  then show ?thesis using resumed_recorded [OF r] by auto
qed

end
