(* ===== verification/Civil_Dates_Facts.thy ===== *)
theory Civil_Dates_Facts
  imports Civil_Dates
begin

text \<open>
  The closed formula is the Gregorian calendar: it gives the date that counting years and months gives, and its four
  copies agree.  A time written by the memory store is read back as the same second.
\<close>

section \<open>The formula is the calendar\<close>

definition yoe_num :: "int \<Rightarrow> int" where
  "yoe_num doe = doe - doe div 1460 + doe div 36524 - doe div 146096"

definition march_start :: "int \<Rightarrow> int" where
  "march_start y = 365 * y + y div 4 - y div 100"

definition leap_day :: "int \<Rightarrow> int" where
  "leap_day y = (if is_leap_year y then 1 else 0)"

lemma yoe_num_step: "yoe_num n \<le> yoe_num (n + 1)"
proof -
  have q: "k div 146096 = k div 36524 div 4" for k :: int
    using zdiv_zmult2_eq [of 4 k 36524] by simp
  have "(n + 1) div 1460 \<le> n div 1460 + 1" "n div 36524 \<le> (n + 1) div 36524" by linarith+
  moreover have "a - a div 4 \<le> b - b div 4" if "a \<le> b" for a b :: int using that by linarith
  from this [OF calculation(2)] calculation(1) show ?thesis unfolding yoe_num_def q by linarith
qed

lemma yoe_num_mono: "m \<le> n \<Longrightarrow> yoe_num m \<le> yoe_num n"
proof (induction n rule: int_ge_induct)
  case (step n)
  then show ?case using yoe_num_step [of n] by linarith
qed simp

lemma yoe_ends:
  "list_all (\<lambda>y. 365 * y \<le> yoe_num (march_start y) \<and> yoe_num (march_start y + 364 + leap_day (y + 1)) < 365 * (y + 1)) [0..399]"
  by code_simp


lemma leap_day_bounds: "0 \<le> leap_day y" "leap_day y \<le> 1"
  by (simp_all add: leap_day_def)

lemma div_pred:
  fixes y k :: int
  assumes "0 < k" shows "y div k - (y - 1) div k = (if k dvd y then 1 else 0)"
proof (cases "k dvd y")
  case True
  then obtain q where q: "y = k * q" by (elim dvdE)
  have "(y - 1) div k = q - 1" by (rule int_div_pos_eq [where r = "k - 1"]) (use assms q in \<open>simp_all add: algebra_simps\<close>)
  then show ?thesis using assms q by simp
next
  case False
  then have "y mod k \<noteq> 0" by (simp add: dvd_eq_mod_eq_0)
  then have "0 < y mod k" using assms pos_mod_sign [of k y] by linarith
  moreover have b: "y mod k < k" using assms by simp
  ultimately have "(y - 1) div k = y div k"
    by (intro int_div_pos_eq [where r = "y mod k - 1"]) (use assms b in \<open>simp_all add: algebra_simps\<close>)
  then show ?thesis using False by simp
qed

lemma leap_dvd: "leap_day y = (if (4 dvd y \<and> \<not> 100 dvd y) \<or> 400 dvd y then 1 else 0)"
  by (simp add: leap_day_def is_leap_year_def dvd_eq_mod_eq_0)

lemma leap_quotients: "leap_day y = y div 4 - (y - 1) div 4 - (y div 100 - (y - 1) div 100) + (y div 400 - (y - 1) div 400)"
proof -
  have "400 dvd y \<Longrightarrow> 100 dvd y" "100 dvd y \<Longrightarrow> 4 dvd y" by (rule dvd_trans; simp)+
  then show ?thesis unfolding leap_dvd using div_pred [of 4 y] div_pred [of 100 y] div_pred [of 400 y] by auto
qed

lemma march_next:
  assumes "0 \<le> y" "y < 399" shows "march_start (y + 1) = march_start y + 365 + leap_day (y + 1)"
  using assms leap_quotients [of "y + 1"] by (simp add: march_start_def algebra_simps)

lemma leap_day_period: "leap_day (y + 400 * e) = leap_day y"
proof -
  have "4 dvd 400 * e" "100 dvd 400 * e" "400 dvd 400 * e" by (intro dvd_mult2; simp)+
  then show ?thesis by (simp add: leap_dvd dvd_add_left_iff)
qed

text \<open>A day of the era: its year, counted from March, and the day of that year.\<close>

lemma era_split:
  assumes "0 \<le> doe" "doe < 146097"
  defines "y \<equiv> yoe_num doe div 365"
  shows "0 \<le> y" "y < 400" "march_start y \<le> doe" "doe \<le> march_start y + 364 + leap_day (y + 1)"
proof -
  have e: "365 * k \<le> yoe_num (march_start k)" "yoe_num (march_start k + 364 + leap_day (k + 1)) < 365 * (k + 1)"
    if "0 \<le> k" "k < 400" for k
    using yoe_ends that by (auto simp: list_all_iff)
  have b: "yoe_num 0 = 0" "yoe_num 146096 < 146000" by code_simp+
  show y0: "0 \<le> y" using yoe_num_mono [OF assms(1)] b(1) by (simp add: y_def)
  show y4: "y < 400" using yoe_num_mono [of doe 146096] assms(2) b(2) unfolding y_def by linarith
  obtain m where "yoe_num doe = 365 * y + m" "0 \<le> m" "m < 365"
    using that [of "yoe_num doe mod 365"] by (simp add: y_def)
  then have d: "365 * y \<le> yoe_num doe \<and> yoe_num doe < 365 * (y + 1)" by simp
  show "march_start y \<le> doe"
  proof (rule ccontr)
    assume l: "\<not> march_start y \<le> doe"
    show False
    proof (cases "y = 0")
      case True
      then show False using l assms(1) by (simp add: march_start_def)
    next
      case False
      then have "march_start y = march_start (y - 1) + 365 + leap_day y"
        using march_next [of "y - 1"] y0 y4 by simp
      then have "yoe_num doe \<le> yoe_num (march_start (y - 1) + 364 + leap_day (y - 1 + 1))"
        using l by (intro yoe_num_mono) simp
      then show False using e(2) [of "y - 1"] d y0 y4 False by auto
    qed
  qed
  show "doe \<le> march_start y + 364 + leap_day (y + 1)"
  proof (rule ccontr)
    assume l: "\<not> doe \<le> march_start y + 364 + leap_day (y + 1)"
    show False
    proof (cases "y = 399")
      case True
      have "march_start 399 + 364 + leap_day 400 = 146096" by code_simp
      then show False using l True assms(2) by simp
    next
      case False
      then have "march_start (y + 1) \<le> doe" using march_next [of y] y0 y4 l by simp
      then have "365 * (y + 1) \<le> yoe_num doe" using e(1) [of "y + 1"] yoe_num_mono False y0 y4 by fastforce
      then show False using d by simp
    qed
  qed
qed


text \<open>The loop over the years: what is left lies in its year.\<close>

definition year_start :: "int \<Rightarrow> int" where
  "year_start y = 365 * (y - 1970) + (y - 1) div 4 - (y - 1) div 100 + (y - 1) div 400 - 477"

lemma days_in_year_leap: "days_in_year y = 365 + leap_day y"
  by (simp add: days_in_year_def leap_day_def)

lemma year_start_next: "year_start (y + 1) = year_start y + days_in_year y"
  using leap_quotients [of y] by (simp add: year_start_def days_in_year_leap)

lemma year_start_later: "y < y' \<Longrightarrow> year_start y + days_in_year y \<le> year_start y'"
proof (induction y' rule: int_gr_induct)
  case (step y')
  then show ?case using year_start_next [of y'] leap_day_bounds(1) [of y'] by (simp add: days_in_year_leap)
qed (simp add: year_start_next)

lemma year_unique:
  assumes "year_start y + r = year_start y' + r'" "0 \<le> r" "r < days_in_year y" "0 \<le> r'" "r' < days_in_year y'"
  shows "y = y' \<and> r = r'"
  using assms year_start_later [of y y'] year_start_later [of y' y] by (cases y y' rule: linorder_cases) auto

lemma year_loop_spec:
  "0 \<le> r \<Longrightarrow> year_loop r y = (r', y') \<Longrightarrow> 0 \<le> r' \<and> r' < days_in_year y' \<and> year_start y + r = year_start y' + r'"
proof (induction r y rule: year_loop.induct)
  case (1 r y)
  show ?case
  proof (cases "r < days_in_year y")
    case True
    then show ?thesis using "1.prems" by (simp add: year_loop.simps [of r y])
  next
    case False
    then have "0 \<le> r' \<and> r' < days_in_year y' \<and> year_start (y + 1) + (r - days_in_year y) = year_start y' + r'"
      using "1.IH" "1.prems" by (simp add: year_loop.simps [of r y])
    then show ?thesis using year_start_next [of y] by simp
  qed
qed

lemma year_loop_date:
  assumes "0 \<le> days" "days = year_start y + r" "0 \<le> r" "r < days_in_year y"
  shows "year_loop days 1970 = (r, y)"
proof -
  obtain r' y' where l: "year_loop days 1970 = (r', y')" by (metis surj_pair)
  have "year_start 1970 = 0" by code_simp
  then have "year_start y' + r' = year_start y + r" using year_loop_spec [OF assms(1) l] assms(2) by simp
  then show ?thesis using year_unique [of y' r' y r] year_loop_spec [OF assms(1) l] assms(3,4) l by simp
qed

text \<open>The months: a table of 366 days for each kind of year.\<close>

definition march_month :: "int \<Rightarrow> bool \<Rightarrow> bool" where
  "march_month doy leap =
    (let mp = (5 * doy + 2) div 153; day = doy - (153 * mp + 2) div 5
     in if mp < 10 then doy < 306 \<and> month_loop (month_days leap) (doy + 59 + (if leap then 1 else 0)) 1 = (mp + 3, day)
        else doy \<ge> 306 \<and> mp - 9 \<le> 2 \<and>
          (doy - 306 < 59 + (if leap then 1 else 0) \<longrightarrow> month_loop (month_days leap) (doy - 306) 1 = (mp - 9, day)))"

lemma march_months: "list_all (\<lambda>doy. march_month doy False \<and> march_month doy True) [0..365]"
  by code_simp

lemma march_monthD: "0 \<le> doy \<Longrightarrow> doy \<le> 365 \<Longrightarrow> march_month doy leap"
  using march_months by (cases leap) (auto simp: list_all_iff)

lemma year_start_march:
  assumes "0 \<le> y" "y < 400"
  shows "year_start (y + era * 400 + 1) = march_start y + 146097 * era - 719162"
proof -
  have s: "y + era * 400 = y + (era * 100) * 4" "y + era * 400 = y + (era * 4) * 100" by simp_all
  have d: "(y + era * 400) div 4 = era * 100 + y div 4" unfolding s(1) by (rule div_mult_self1) simp
  have e: "(y + era * 400) div 100 = era * 4 + y div 100" unfolding s(2) by (rule div_mult_self1) simp
  have f: "(y + era * 400) div 400 = era" using div_mult_self1 [of 400 y era] div_pos_pos_trivial [OF assms] by simp
  show ?thesis unfolding year_start_def march_start_def add_diff_cancel_right' d e f by (simp only: algebra_simps)
qed

text \<open>The formula in terms of the March years.\<close>

definition march_date :: "int \<Rightarrow> int \<Rightarrow> int \<times> int \<times> int" where
  "march_date y doy =
    (let mp = (5 * doy + 2) div 153; m = (if mp < 10 then mp + 3 else mp - 9)
     in (y + (if m \<le> 2 then 1 else 0), m, doy - (153 * mp + 2) div 5 + 1))"

lemma civil_march:
  obtains y doy where "civil_date days = march_date y doy" "days = year_start (y + 1) - 306 + doy"
    "0 \<le> doy" "doy \<le> 364 + leap_day (y + 1)" "0 \<le> days \<Longrightarrow> 1969 \<le> y"
    "y = yoe_num ((days + 719468) mod 146097) div 365 + (days + 719468) div 146097 * 400"
    "doy = (days + 719468) mod 146097 - march_start (yoe_num ((days + 719468) mod 146097) div 365)"
proof -
  define era where "era = (days + 719468) div 146097"
  define doe where "doe = (days + 719468) mod 146097"
  define y where "y = yoe_num doe div 365"
  define doy where "doy = doe - march_start y"
  have doe: "0 \<le> doe" "doe < 146097" "days = 146097 * era + doe - 719468"
    by (simp_all add: doe_def era_def)
  note y = era_split [OF doe(1,2), folded y_def]
  let ?Y = "y + era * 400"
  have doy: "0 \<le> doy" "doy \<le> 364 + leap_day (?Y + 1)"
    using y leap_day_period [of "y + 1" era] by (simp_all add: doy_def algebra_simps)
  have start: "days = year_start (?Y + 1) - 306 + doy"
    using year_start_march [OF y(1,2), of era] doe(3) by (simp add: doy_def)
  have "year_start 1969 = - 365" by code_simp
  have early: "1969 \<le> ?Y" if "0 \<le> days"
  proof (rule ccontr)
    assume "\<not> 1969 \<le> ?Y"
    then have "year_start (?Y + 1) \<le> - 365"
      using \<open>year_start 1969 = - 365\<close> year_start_later [of "?Y + 1" 1969] leap_day_bounds(1) [of "?Y + 1"]
      by (cases "?Y + 1 = 1969") (simp_all add: days_in_year_leap)
    then show False using start doy(2) leap_day_bounds(2) [of "?Y + 1"] that by linarith
  qed
  have date: "civil_date days = march_date ?Y doy"
    unfolding civil_date_def march_date_def Let_def doy_def y_def doe_def era_def yoe_num_def march_start_def by (rule refl)
  show thesis
    by (rule that [OF date start doy early]) (simp_all only: doy_def y_def doe_def era_def)
qed

text \<open>The formula against the loop.\<close>

lemma civil_date_calendar:
  assumes "0 \<le> days" shows "civil_date days = chrono_ymd days"
proof -
  obtain y doy where c: "civil_date days = march_date y doy" "days = year_start (y + 1) - 306 + doy"
    and doy: "0 \<le> doy" "doy \<le> 364 + leap_day (y + 1)"
    using civil_march [of days] by metis
  define mp where "mp = (5 * doy + 2) div 153"
  have mp: "0 \<le> mp" unfolding mp_def using doy(1) by (intro pos_imp_zdiv_nonneg_iff [THEN iffD2]) auto
  have mm: "march_month doy leap" for leap
    by (rule march_monthD) (use doy leap_day_bounds(2) [of "y + 1"] in linarith)+
  note defs = chrono_ymd_def march_month_def march_date_def Let_def mp_def [symmetric] leap_day_def
  show ?thesis
  proof (cases "mp < 10")
    case True
    have "doy < 306" using mm [of True] True by (simp add: defs)
    have "days = year_start y + (doy + 59 + leap_day y)"
      using c(2) year_start_next [of y] by (simp add: days_in_year_leap)
    then have "year_loop days 1970 = (doy + 59 + leap_day y, y)"
      using assms doy(1) \<open>doy < 306\<close> leap_day_bounds [of y] by (intro year_loop_date) (simp_all add: days_in_year_leap)
    then show ?thesis using c(1) True mp mm [of "is_leap_year y"] by (simp add: defs)
  next
    case False
    have "306 \<le> doy" "mp - 9 \<le> 2" using mm [of True] False by (simp_all add: defs)
    have "days = year_start (y + 1) + (doy - 306)" using c(2) by simp
    then have "year_loop days 1970 = (doy - 306, y + 1)"
      using assms doy \<open>306 \<le> doy\<close> leap_day_bounds [of "y + 1"] by (intro year_loop_date) (simp_all add: days_in_year_leap)
    then show ?thesis using c(1) False mm [of "is_leap_year (y + 1)"] \<open>mp - 9 \<le> 2\<close> doy(2)
      by (simp add: defs split: if_splits)
  qed
qed

section \<open>The copies agree\<close>

lemma nat_era:
  assumes "doe < 146097"
  defines "yoe \<equiv> (doe - doe div 1460 + doe div 36524 - doe div 146096) div 365"
  defines "doy \<equiv> doe - (365 * yoe + yoe div 4 - yoe div 100)"
  shows "int yoe = yoe_num (int doe) div 365" "int doy = int doe - march_start (int yoe)"
proof -
  have "doe div 1460 \<le> doe" "doe div 146096 \<le> doe - doe div 1460 + doe div 36524"
    using div_le_mono2 [of 36524 146096 doe] by linarith+
  then have "int (doe - doe div 1460 + doe div 36524 - doe div 146096) = yoe_num (int doe)"
    by (simp add: yoe_num_def zdiv_int of_nat_diff)
  then show y: "int yoe = yoe_num (int doe) div 365" unfolding yoe_def zdiv_int by simp
  have "yoe div 100 \<le> yoe div 4" by (rule div_le_mono2) simp_all
  then have m: "int (365 * yoe + yoe div 4 - yoe div 100) = march_start (int yoe)"
    by (simp add: march_start_def zdiv_int of_nat_diff)
  then have "365 * yoe + yoe div 4 - yoe div 100 \<le> doe"
    using era_split(3) [of "int doe"] assms(1) y by simp
  then show "int doy = int doe - march_start (int yoe)" using m by (simp add: doy_def of_nat_diff)
qed

lemma nat_march:
  fixes doy :: nat
  defines "mp \<equiv> (5 * doy + 2) div 153"
  defines "m \<equiv> if mp < 10 then mp + 3 else mp - 9"
  shows "march_date y (int doy) =
    (if m \<le> 2 then y + 1 else y, int m, int (doy - (153 * mp + 2) div 5 + 1))"
proof -
  have "int mp = (5 * int doy + 2) div 153" by (simp add: mp_def zdiv_int)
  moreover have "(153 * mp + 2) div 5 \<le> doy" unfolding mp_def by linarith
  then have "int (doy - (153 * mp + 2) div 5 + 1) = int doy - (153 * int mp + 2) div 5 + 1"
    by (simp add: zdiv_int of_nat_diff)
  ultimately show ?thesis by (auto simp: march_date_def m_def Let_def)
qed

lemma civil_date_march:
  "civil_date days = (let z = days + 719468; doe = z mod 146097; yoe = yoe_num doe div 365
     in march_date (yoe + z div 146097 * 400) (doe - march_start yoe))"
  unfolding civil_date_def march_date_def Let_def yoe_num_def march_start_def by (rule refl)

lemma sdiv_era: "(if 0 \<le> z then z else z - 146096) sdiv 146097 = z div (146097 :: int)"
proof (cases "0 \<le> z")
  case True
  then show ?thesis by (cases "z = 0") (simp_all add: signed_divide_int_def)
next
  case False
  have "z - 146096 < 0" using False by simp
  then have "(z - 146096) sdiv 146097 = - ((146096 - z) div 146097)" by (simp add: signed_divide_int_def sgn_if)
  also have "\<dots> = z div 146097"
  proof -
    obtain q r where z: "z = 146097 * q + r" "0 \<le> r" "r < 146097" using that [of "z div 146097" "z mod 146097"] by simp
    have "(146096 - z) div 146097 = - q" by (rule int_div_pos_eq [where r = "146096 - r"]) (use z in auto)
    moreover have "z div 146097 = q" by (rule int_div_pos_eq [where r = r]) (use z in auto)
    ultimately show ?thesis by simp
  qed
  finally show ?thesis using False by simp
qed

lemma session_days_civil: "session_days_to_ymd days = (case civil_date days of (y, m, d) \<Rightarrow> (y, nat m, nat d))"
proof -
  let ?z = "days + 719468"
  define doe where "doe = nat (?z mod 146097)"
  have d: "int doe = ?z mod 146097" "doe < 146097" by (simp_all add: doe_def)
  note era = nat_era [OF d(2)]
  have "nat (?z - ?z div 146097 * 146097) = doe" by (simp add: doe_def minus_div_mult_eq_mod)
  then show ?thesis
    using nat_march [of "int ((doe - doe div 1460 + doe div 36524 - doe div 146096) div 365) + ?z div 146097 * 400"]
    unfolding session_days_to_ymd_def civil_date_march Let_def sdiv_era d(1) [symmetric] era [symmetric]
    by (simp only: prod.case nat_int)
qed

lemma memory_days_civil: "civil_date (int n) = (case memory_days_to_ymd n of (y, m, d) \<Rightarrow> (int y, int m, int d))"
proof -
  define doe where "doe = (n + 719468) mod 146097"
  define era where "era = (n + 719468) div 146097"
  define yoe where "yoe = (doe - doe div 1460 + doe div 36524 - doe div 146096) div 365"
  have z: "int n + 719468 = int (n + 719468)" by simp
  have d: "int doe = (int n + 719468) mod 146097" "int era = (int n + 719468) div 146097"
    unfolding z doe_def era_def by (simp_all add: zmod_int zdiv_int)
  have "doe < 146097" by (simp add: doe_def)
  note e = nat_era [OF this, folded yoe_def]
  have "civil_date (int n) = march_date (int (yoe + era * 400)) (int (doe - (365 * yoe + yoe div 4 - yoe div 100)))"
    unfolding civil_date_march Let_def d [symmetric] e [symmetric] by simp
  then show ?thesis
    unfolding memory_days_to_ymd_def Let_def doe_def [symmetric] era_def [symmetric] yoe_def [symmetric] nat_march
    by (simp split: if_splits)
qed

lemma days_to_ymd_memory: "days_to_ymd n = memory_days_to_ymd n"
  unfolding days_to_ymd_def memory_days_to_ymd_def Let_def minus_div_mult_eq_mod by (rule refl)

text \<open>
  C26. The repository's calendars agree on every day since 1970: the four copies of the closed formula, on their own
  number types, give the date that counting the days off year by year and month by month gives.
\<close>

theorem dates_agree:
  "civil_date (int n) = chrono_ymd (int n) \<and>
   (case days_to_ymd n of (y, m, d) \<Rightarrow> (int y, int m, int d)) = chrono_ymd (int n) \<and>
   (case memory_days_to_ymd n of (y, m, d) \<Rightarrow> (int y, int m, int d)) = chrono_ymd (int n) \<and>
   (case session_days_to_ymd (int n) of (y, m, d) \<Rightarrow> (y, int m, int d)) = chrono_ymd (int n)"
proof -
  have "civil_date (int n) = chrono_ymd (int n)" by (rule civil_date_calendar) simp
  then show ?thesis
    using memory_days_civil [of n] by (auto simp: session_days_civil days_to_ymd_memory split: prod.splits)
qed

section \<open>A time read back\<close>

lemma digits_fold: "foldl (\<lambda>a c. a * 10 + (c - 48)) 0 (replicate k 48 @ ds) = foldl (\<lambda>a c. a * 10 + (c - 48)) (0::nat) ds"
  by (induction k) simp_all

lemma parse_zero_pad:
  assumes "n < 2 ^ 64" shows "parse_usize (zero_pad w (int n)) = Some n"
proof -
  let ?d = "replicate (w - length (show_radix 10 n)) 48 @ show_radix 10 n"
  have z: "zero_pad w (int n) = ?d" by (simp add: zero_pad_def Let_def)
  have v: "foldl (\<lambda>a c. a * 10 + (c - 48)) 0 ?d = n"
    using digits_fold [of _ "show_radix 10 n"] dec_value_read [OF show_radix_digits(1), of n] read_show_radix [of 10 n]
    by (simp add: dec_value_def)
  have "?d \<noteq> []" using show_radix_digits(2) by simp
  moreover have "list_all is_ascii_digit ?d" using show_radix_digits(1) [of n] by (auto simp: list_all_iff is_ascii_digit_def)
  moreover have "\<not> starts_with (lit ''+'') ?d"
    using calculation by (cases ?d) (auto simp: starts_with_def is_ascii_digit_def)
  ultimately show ?thesis using assms v unfolding z parse_usize_def by simp
qed

lemma zero_pad_chars: "list_all is_ascii_digit (zero_pad w (int n))"
  using show_radix_digits(1) [of n] by (auto simp: zero_pad_def Let_def list_all_iff is_ascii_digit_def)

lemma clock_digits: "list_all (\<lambda>c. is_ascii_digit c \<or> c = 58) (clock_text (int h) (int m) (int s))"
  using zero_pad_chars by (auto simp: clock_text_def list_all_iff)

lemma date_digits: "list_all (\<lambda>c. is_ascii_digit c \<or> c = ch_dash) (date_text (int y) (int m) (int d))"
  using zero_pad_chars by (auto simp: date_text_def list_all_iff)

lemma split_date:
  "split_on (\<lambda>c. c = ch_dash) (date_text (int y) (int m) (int d)) = [zero_pad 4 (int y), zero_pad 2 (int m), zero_pad 2 (int d)]"
proof -
  have "list_all (\<lambda>n. \<not> list_ex (\<lambda>c. c = ch_dash) n) [zero_pad 4 (int y), zero_pad 2 (int m), zero_pad 2 (int d)]"
    using zero_pad_chars by (fastforce simp: list_all_iff list_ex_iff is_ascii_digit_def)
  from split_on_join [OF _ _ this, of ch_dash] show ?thesis by (simp add: date_text_def)
qed

lemma split_clock:
  "split_on (\<lambda>c. c = 58) (clock_text (int h) (int m) (int s)) = [zero_pad 2 (int h), zero_pad 2 (int m), zero_pad 2 (int s)]"
proof -
  have "list_all (\<lambda>n. \<not> list_ex (\<lambda>c. c = 58) n) [zero_pad 2 (int h), zero_pad 2 (int m), zero_pad 2 (int s)]"
    using zero_pad_chars by (fastforce simp: list_all_iff list_ex_iff is_ascii_digit_def)
  from split_on_join [OF _ _ this, of 58] show ?thesis by (simp add: clock_text_def)
qed

lemma no_dot: "hd (split_on (\<lambda>c. c = ch_dot) (zero_pad w (int n))) = zero_pad w (int n)"
  using zero_pad_chars [of w n] by (subst split_on_none) (auto simp: list_all_iff list_ex_iff is_ascii_digit_def)

lemma trim_z: "trim_end_matches (\<lambda>c. c = 90) (clock_text (int h) (int m) (int s) @ [90]) = clock_text (int h) (int m) (int s)"
proof -
  have "zero_pad 2 (int s) \<noteq> []" using show_radix_digits(2) by (simp add: zero_pad_def Let_def)
  then have "clock_text (int h) (int m) (int s) \<noteq> []" by (simp add: clock_text_def)
  moreover have "90 \<notin> set (clock_text (int h) (int m) (int s))" using clock_digits by (fastforce simp: list_all_iff is_ascii_digit_def)
  moreover have "t \<noteq> [] \<Longrightarrow> 90 \<notin> set t \<Longrightarrow> trim_end_matches (\<lambda>c. c = 90) (t @ [90]) = t" for t :: rstring
    by (cases t rule: rev_cases) (auto simp: trim_end_matches_def)
  ultimately show ?thesis by blast
qed

lemma read_iso:
  assumes "y < 2 ^ 64" "m < 2 ^ 64" "d < 2 ^ 64" "h < 2 ^ 64" "mi < 2 ^ 64" "s < 2 ^ 64"
  shows "iso_to_epoch (date_text (int y) (int m) (int d) @ lit ''T'' @ clock_text (int h) (int mi) (int s) @ lit ''Z'') =
    epoch_of y m d h mi s"
proof -
  have "list_all (\<lambda>n. \<not> list_ex (\<lambda>c. c = 84) n) [date_text (int y) (int m) (int d), clock_text (int h) (int mi) (int s) @ [90]]"
    using date_digits [of y m d] clock_digits [of h mi s] by (fastforce simp: list_all_iff list_ex_iff is_ascii_digit_def)
  from split_on_join [OF _ _ this, of 84]
  have "split_on (\<lambda>c. c = 84) (date_text (int y) (int m) (int d) @ lit ''T'' @ clock_text (int h) (int mi) (int s) @ lit ''Z'') =
    [date_text (int y) (int m) (int d), clock_text (int h) (int mi) (int s) @ [90]]" by simp
  then show ?thesis
    using assms parse_zero_pad
    by (simp add: iso_to_epoch_def split_date split_clock trim_z no_dot parse_u64s_def List.map_filter_simps)
qed

text \<open>The date of a day gives back the day.\<close>

lemma epoch_of_march:
  assumes "memory_days_to_ymd n = (y, m, d)" "n \<le> 2 ^ 47" "h * 3600 + mi * 60 + s < 86400"
  shows "epoch_of y m d h mi s = Epoch (n * 86400 + h * 3600 + mi * 60 + s)" "y < 2 ^ 51" "m \<le> 12" "d \<le> 366"
proof -
  obtain Y doy0 where c: "civil_date (int n) = march_date Y doy0" "int n = year_start (Y + 1) - 306 + doy0"
    "0 \<le> doy0" "doy0 \<le> 364 + leap_day (Y + 1)" "1969 \<le> Y"
    using civil_march [of "int n"] by (metis of_nat_0_le_iff)
  define doy where "doy = nat doy0"
  define yn where "yn = nat Y"
  define mp where "mp = (5 * doy + 2) div 153"
  have i: "int doy = doy0" "int yn = Y" "1969 \<le> yn" using c by (simp_all add: doy_def yn_def)
  have doy: "doy \<le> 365" using c(4) leap_day_bounds(2) [of "Y + 1"] i(1) by linarith
  have mp: "mp \<le> 11" unfolding mp_def using doy by linarith
  have le: "(153 * mp + 2) div 5 \<le> doy" unfolding mp_def by linarith
  have ymd: "m = (if mp < 10 then mp + 3 else mp - 9)" "d = doy - (153 * mp + 2) div 5 + 1" "y = (if m \<le> 2 then yn + 1 else yn)"
    using memory_days_civil [of n] c(1) nat_march [of Y doy] assms(1) i unfolding mp_def [symmetric]
    by (auto split: if_splits)
  have q: "int (yn div k) = Y div int k" for k using i(2) by (simp add: zdiv_int)
  have "yn div 100 \<le> yn div 4" by (rule div_le_mono2) simp_all
  define A where "A = yn * 365 + yn div 4 - yn div 100 + yn div 400"
  from \<open>yn div 100 \<le> yn div 4\<close> have a: "int A = 365 * Y + Y div 4 - Y div 100 + Y div 400"
    using q [of 4] q [of 100] q [of 400] i(2) by (simp add: A_def of_nat_diff)
  have "(153 * mp + 2) div 5 + d = doy + 1" using le ymd(2) by linarith
  moreover have "int A + (int doy + 1) = int n + 719469"
    using a c(2) i(1) unfolding year_start_def add_diff_cancel_right' by simp
  then have "A + (doy + 1) = n + 719469" by linarith
  ultimately have sum: "yn * 365 + yn div 4 - yn div 100 + yn div 400 + (153 * mp + 2) div 5 + d = n + 719469"
    by (simp only: A_def add.assoc)
  have "yn div 100 \<le> A" "yn * 365 + yn div 4 \<le> A + yn div 100"
    using \<open>yn div 100 \<le> yn div 4\<close> div_le_dividend [of yn 100] by (simp_all add: A_def)
  moreover have "A \<le> n + 719469" using sum by (simp add: A_def)
  moreover have "x \<le> a + q \<Longrightarrow> q \<le> a \<Longrightarrow> a \<le> b \<Longrightarrow> x \<le> 2 * b" for x a q b :: nat by linarith
  ultimately have bound: "yn * 365 + yn div 4 \<le> 2 * (n + 719469)" by blast
  have n: "n + 719469 \<le> 2 ^ 51" using assms(2) by simp
  show "y < 2 ^ 51"
  proof -
    have "yn + 1 < 2 ^ 51" using bound n i(3) by (simp add: algebra_simps)
    then show ?thesis using ymd(3) by simp
  qed
  show "m \<le> 12" using ymd(1) mp diff_le_self [of mp 9] by (simp split: if_splits)
  show "d \<le> 366"
  proof -
    have "doy - (153 * mp + 2) div 5 \<le> doy" by (rule diff_le_self)
    then show ?thesis unfolding ymd(2) using doy by linarith
  qed
  have ma: "(if m \<le> 2 then m + 9 else m - 3) = mp" "(if m \<le> 2 then y - 1 else y) = yn" using ymd mp by auto
  have "n * 86400 + h * 3600 + mi * 60 + s \<le> u64_max" using assms(2,3) by (simp add: u64_max_def)
  moreover have "\<not> (m \<le> 2 \<and> y = 0)" using i(3) ymd(3) by simp
  moreover have "\<not> (yn * 365 + yn div 4 > u64_max \<or> mp * 153 + 2 > u64_max \<or> n + 719469 > u64_max \<or> n + 719469 < 719469)"
    using bound n mp by (simp add: u64_max_def)
  moreover note sum' = sum [unfolded mult.commute [of 153 mp]]
  ultimately show "epoch_of y m d h mi s = Epoch (n * 86400 + h * 3600 + mi * 60 + s)"
    unfolding epoch_of_def Let_def ma sum' add_diff_cancel_right' by (simp only: if_False) simp
qed

text \<open>
  A time that the memory store writes is read back as the same second, for every second since 1970 that its
  result, a double, holds exactly.
\<close>

lemma memory_time_roundtrip:
  assumes "secs \<le> 2 ^ 53" shows "iso_to_epoch (memory_iso secs) = Epoch secs"
proof -
  obtain y m d where e: "memory_days_to_ymd (secs div 86400) = (y, m, d)" by (metis prod_cases3)
  define tod where "tod = secs mod 86400"
  have t: "tod div 3600 * 3600 + tod mod 3600 div 60 * 60 + tod mod 60 = tod"
  proof -
    have "tod mod 3600 mod 60 = tod mod 60" by (rule mod_mod_cancel) simp
    then have "tod mod 3600 div 60 * 60 + tod mod 60 = tod mod 3600" by (metis div_mult_mod_eq)
    then show ?thesis using div_mult_mod_eq [of tod 3600] by linarith
  qed
  have "tod < 86400" by (simp add: tod_def)
  note r = epoch_of_march [OF e _ _, of "tod div 3600" "tod mod 3600 div 60" "tod mod 60", unfolded t]
  have "secs div 86400 \<le> 2 ^ 53 div 86400" using assms by (rule div_le_mono)
  then have "secs div 86400 \<le> 2 ^ 47" by simp
  note r = r [OF this \<open>tod < 86400\<close>]
  have "iso_to_epoch (memory_iso secs) = epoch_of y m d (tod div 3600) (tod mod 3600 div 60) (tod mod 60)"
    unfolding memory_iso_def e Let_def prod.case append_assoc tod_def [symmetric]
    by (rule read_iso) (use r(2,3,4) \<open>tod < 86400\<close> in \<open>auto intro: le_less_trans [OF div_le_dividend]\<close>)
  also have "\<dots> = Epoch (secs div 86400 * 86400 + tod)" using r(1) t by (simp add: add.assoc)
  also have "secs div 86400 * 86400 + tod = secs" by (simp add: tod_def)
  finally show ?thesis .
qed

lemma memory_time_roundtrip_witness: "iso_to_epoch (memory_iso 1792592000) = Epoch 1792592000"
  by (rule memory_time_roundtrip) simp

text \<open>Before 1970, and in the year zero, the arithmetic leaves its range.\<close>

lemma early_times_overflow:
  "iso_to_epoch (lit ''1969-12-31T23:59:59Z'') = Overflowed" "iso_to_epoch (lit ''0000-01-01T00:00:00Z'') = Overflowed"
  by code_simp+

end
