(* ===== verification/Rust_Float.thy ===== *)
theory Rust_Float
  imports Prelude "HOL-Library.Word"
begin

text \<open>
  Rust's \<open>f64\<close> as its 64 bits: the comparisons, \<open>total_cmp\<close>, \<open>max\<close>, subtraction rounded to nearest with ties to even,
  \<open>floor\<close> and the conversion of an unsigned integer, with the infinities and the values that are not numbers.  A finite value
  is a whole number of units of \<open>2 ^ -1074\<close>, the smallest positive one.
\<close>

section \<open>The bits\<close>

type_synonym f64 = "64 word"

definition f_mag :: "f64 \<Rightarrow> nat" where "f_mag x = unat x mod 2 ^ 63"
definition f_neg :: "f64 \<Rightarrow> bool" where "f_neg x = (2 ^ 63 \<le> unat x)"
definition f_top :: nat where "f_top = 2047 * 2 ^ 52"

definition f_make :: "bool \<Rightarrow> nat \<Rightarrow> f64" where
  "f_make neg m = word_of_nat (if neg then 2 ^ 63 + m else m)"

definition is_nan :: "f64 \<Rightarrow> bool" where "is_nan x = (f_top < f_mag x)"
definition is_finite :: "f64 \<Rightarrow> bool" where "is_finite x = (f_mag x < f_top)"

lemma f_make_parts:
  assumes "m < 2 ^ 63" shows "f_mag (f_make neg m) = m" "f_neg (f_make neg m) = neg"
proof -
  have "unat (f_make neg m) = (if neg then 2 ^ 63 + m else m)"
    using assms by (simp add: f_make_def unsigned_of_nat take_bit_nat_eq_self_iff take_bit_nat_eq_self)
  then show "f_mag (f_make neg m) = m" "f_neg (f_make neg m) = neg"
    using assms by (simp_all add: f_mag_def f_neg_def)
qed

text \<open>The order of the numbers, where the two zeros are equal, and the total order of \<open>total_cmp\<close>, where they are not.\<close>

definition f_signed :: "f64 \<Rightarrow> int" where
  "f_signed x = (if f_neg x then - int (f_mag x) else int (f_mag x))"

definition f_lt :: "f64 \<Rightarrow> f64 \<Rightarrow> bool" where
  "f_lt a b = (\<not> is_nan a \<and> \<not> is_nan b \<and> f_signed a < f_signed b)"

definition f_le :: "f64 \<Rightarrow> f64 \<Rightarrow> bool" where
  "f_le a b = (\<not> is_nan a \<and> \<not> is_nan b \<and> f_signed a \<le> f_signed b)"

definition total_key :: "f64 \<Rightarrow> int" where
  "total_key x = (if f_neg x then - int (f_mag x) - 1 else int (f_mag x))"

definition f_max :: "f64 \<Rightarrow> f64 \<Rightarrow> f64" where
  "f_max a b = (if is_nan a then b else if is_nan b then a else if f_signed a < f_signed b then b else a)"

section \<open>Values and rounding\<close>

definition mag_units :: "nat \<Rightarrow> nat" where
  "mag_units l = (if l < 2 ^ 52 then l else (2 ^ 52 + l mod 2 ^ 52) * 2 ^ (l div 2 ^ 52 - 1))"

definition f_units :: "f64 \<Rightarrow> int" where
  "f_units x = (if f_neg x then - int (mag_units (f_mag x)) else int (mag_units (f_mag x)))"

fun bit_len :: "nat \<Rightarrow> nat" where
  "bit_len n = (if n = 0 then 0 else Suc (bit_len (n div 2)))"

declare bit_len.simps [simp del]

text \<open>The quotient by \<open>2 ^ s\<close>, to nearest, ties to even.\<close>

definition round_even :: "nat \<Rightarrow> nat \<Rightarrow> nat" where
  "round_even n s =
    (let q = n div 2 ^ s; r = n mod 2 ^ s
     in if 2 * r < 2 ^ s \<or> 2 * r = 2 ^ s \<and> even q then q else q + 1)"

definition mag_of_units :: "nat \<Rightarrow> nat" where
  "mag_of_units n =
    (let s = bit_len n - 53
     in if s = 0 then n else min f_top (s * 2 ^ 52 + round_even n s))"

definition f_of_units :: "int \<Rightarrow> f64" where
  "f_of_units v = f_make (v < 0) (mag_of_units (nat \<bar>v\<bar>))"

definition one_units :: nat where "one_units = 2 ^ 1074"

definition f_of_nat :: "nat \<Rightarrow> f64" where "f_of_nat n = f_of_units (int n * int one_units)"

definition f_nan :: f64 where "f_nan = f_make False (f_top + 2 ^ 51)"
definition f_inf :: "bool \<Rightarrow> f64" where "f_inf neg = f_make neg f_top"

definition f_sub :: "f64 \<Rightarrow> f64 \<Rightarrow> f64" where
  "f_sub a b =
    (if is_nan a then a else if is_nan b then b
     else if is_finite a \<and> is_finite b
     then if f_units a = 0 \<and> f_units b = 0 then f_make (f_neg a \<and> \<not> f_neg b) 0
       else f_of_units (f_units a - f_units b)
     else if is_finite a then f_inf (\<not> f_neg b)
     else if is_finite b then a
     else if f_neg a = f_neg b then f_nan else a)"

definition f_floor :: "f64 \<Rightarrow> f64" where
  "f_floor x = (if is_finite x \<and> f_units x \<noteq> 0 then f_of_units (f_units x div int one_units * int one_units) else x)"

text \<open>\<open>x.clamp(lo, hi)\<close>, and \<open>x as u8\<close>, which cuts off the fraction and saturates.\<close>

definition f_clamp :: "f64 \<Rightarrow> f64 \<Rightarrow> f64 \<Rightarrow> f64" where
  "f_clamp lo hi x = (if f_lt x lo then lo else if f_lt hi x then hi else x)"

definition f_as_u8 :: "f64 \<Rightarrow> nat" where
  "f_as_u8 x =
    (if is_nan x then 0
     else if f_neg x then 0
     else if is_finite x then min 255 (mag_units (f_mag x) div one_units) else 255)"

section \<open>Facts\<close>

lemma bit_len_bounds: "0 < n \<Longrightarrow> 2 ^ (bit_len n - 1) \<le> n \<and> n < 2 ^ bit_len n \<and> 0 < bit_len n"
proof (induction n rule: less_induct)
  case (less n)
  show ?case
  proof (cases "n div 2 = 0")
    case True
    with less.prems have "n = 1" by auto
    then show ?thesis by (simp add: bit_len.simps)
  next
    case False
    with less.IH [of "n div 2"] have
      ih: "2 ^ (bit_len (n div 2) - 1) \<le> n div 2" "n div 2 < 2 ^ bit_len (n div 2)" "0 < bit_len (n div 2)"
      by auto
    obtain k where k: "bit_len (n div 2) = Suc k" using ih(3) by (cases "bit_len (n div 2)") auto
    have "bit_len n = Suc (Suc k)" using False k by (subst bit_len.simps) auto
    then show ?thesis using ih k by auto
  qed
qed

lemma bit_len_le: assumes "n < 2 ^ k" shows "bit_len n \<le> k"
proof (cases "n = 0")
  case False
  with bit_len_bounds [of n] have b: "2 ^ (bit_len n - 1) \<le> n" "0 < bit_len n" by auto
  have "(2::nat) ^ (bit_len n - 1) < 2 ^ k" using b(1) assms by (rule le_less_trans)
  then have "bit_len n - 1 < k" by (rule power_less_imp_less_exp [rotated]) simp
  with b(2) show ?thesis by linarith
qed (simp add: bit_len.simps)

lemma bit_len_mono: "m \<le> n \<Longrightarrow> bit_len m \<le> bit_len n"
  using bit_len_le [of m "bit_len n"] bit_len_bounds [of n] by (cases "n = 0") auto

lemma mag_units_strict:
  assumes "l < l'" shows "mag_units l < mag_units l'"
proof -
  define e e' m m' where "e = l div 2 ^ 52" and "e' = l' div 2 ^ 52" and "m = l mod 2 ^ 52" and "m' = l' mod 2 ^ 52"
  have l: "l = e * 2 ^ 52 + m" "l' = e' * 2 ^ 52 + m'" and mm: "m < 2 ^ 52" "m' < 2 ^ 52"
    by (simp_all add: e_def e'_def m_def m'_def)
  have u: "mag_units l = (if e = 0 then m else (2 ^ 52 + m) * 2 ^ (e - 1))"
    "mag_units l' = (if e' = 0 then m' else (2 ^ 52 + m') * 2 ^ (e' - 1))"
    unfolding mag_units_def using e_def e'_def m_def m'_def by (auto simp: div_eq_0_iff)
  have ee: "e \<le> e'" using assms by (simp add: e_def e'_def div_le_mono)
  show ?thesis
  proof (cases "e = e'")
    case True
    then have "m < m'" using assms l by simp
    then show ?thesis using True by (simp add: u)
  next
    case False
    with ee have lt: "e < e'" by simp
    have "mag_units l < 2 ^ 53 * 2 ^ (e - 1)" if "0 < e" using that mm by (simp add: u)
    moreover have "2 ^ 53 * 2 ^ (e - 1) = (2::nat) ^ 52 * 2 ^ e" if "0 < e"
      using that by (cases e) simp_all
    moreover have "(2::nat) ^ 52 * 2 ^ e \<le> 2 ^ 52 * 2 ^ (e' - 1)" using lt by (intro mult_le_mono2 power_increasing) auto
    moreover have "mag_units l < 2 ^ 52" if "e = 0" using that mm by (simp add: u)
    moreover have "2 ^ 52 * 2 ^ (e' - 1) \<le> mag_units l'" using lt by (simp add: u)
    moreover have "(2::nat) ^ 52 \<le> 2 ^ 52 * 2 ^ (e' - 1)" by simp
    ultimately show ?thesis by (cases "e = 0") linarith+
  qed
qed

lemma mag_units_less: "mag_units l < mag_units l' \<longleftrightarrow> l < l'"
  using mag_units_strict [of l l'] mag_units_strict [of l' l] by (cases l l' rule: linorder_cases) auto

lemma mag_units_le: "mag_units l \<le> mag_units l' \<longleftrightarrow> l \<le> l'"
  using mag_units_less [of l' l] by (auto simp: not_less [symmetric])

text \<open>The rounding keeps the order, and keeps a number that needs at most 53 bits.\<close>

lemma round_even_bounds: "n div 2 ^ s \<le> round_even n s" "round_even n s \<le> n div 2 ^ s + 1"
  by (simp_all add: round_even_def Let_def)

lemma round_even_mono: assumes "m \<le> n" shows "round_even m s \<le> round_even n s"
proof (cases "m div 2 ^ s = n div 2 ^ s")
  case True
  have "m mod 2 ^ s \<le> n mod 2 ^ s"
    using assms True by (metis add_le_cancel_left mult_div_mod_eq)
  then show ?thesis using True by (auto simp: round_even_def Let_def)
next
  case False
  with assms have "m div 2 ^ s + 1 \<le> n div 2 ^ s" using div_le_mono [OF assms, of "2 ^ s"] by simp
  then show ?thesis using round_even_bounds [of m s] round_even_bounds [of n s] by linarith
qed

lemma quotient_bounds:
  assumes "53 < bit_len n"
  shows "2 ^ 52 \<le> n div 2 ^ (bit_len n - 53)" "n div 2 ^ (bit_len n - 53) < 2 ^ 53"
proof -
  define s where "s = bit_len n - 53"
  have "0 < n" using assms by (cases "n = 0") (simp_all add: bit_len.simps)
  with bit_len_bounds [of n] have "2 ^ (bit_len n - 1) \<le> n" "n < 2 ^ bit_len n" by auto
  moreover have "bit_len n - 1 = s + 52" "bit_len n = s + 53" using assms by (auto simp: s_def)
  ultimately have n: "2 ^ (s + 52) \<le> n" "n < 2 ^ (s + 53)" by metis+
  have "2 ^ (s + 52) div 2 ^ s \<le> n div 2 ^ s" using n(1) by (rule div_le_mono)
  then show "2 ^ 52 \<le> n div 2 ^ (bit_len n - 53)" by (simp add: s_def [symmetric] power_add)
  show "n div 2 ^ (bit_len n - 53) < 2 ^ 53"
    using n(2) by (simp add: s_def [symmetric] power_add less_mult_imp_div_less mult.commute)
qed

lemma mag_of_units_mono: assumes "m \<le> n" shows "mag_of_units m \<le> mag_of_units n"
proof -
  define s t where "s = bit_len m - 53" and "t = bit_len n - 53"
  have st: "s \<le> t" using bit_len_mono [OF assms] by (simp add: s_def t_def)
  have small: "k < 2 ^ 53" if "bit_len k - 53 = 0" for k
    using that bit_len_bounds [of k] power_increasing [of "bit_len k" 53 "2::nat"] by (cases "k = 0") auto
  have q: "2 ^ 52 \<le> round_even k (bit_len k - 53)" "round_even k (bit_len k - 53) \<le> 2 ^ 53" if "0 < bit_len k - 53" for k
    using that quotient_bounds [of k] round_even_bounds [of k "bit_len k - 53"] by linarith+
  consider "t = 0" | "s = 0" "0 < t" | "0 < s" "s < t" | "0 < s" "s = t" using st by linarith
  then show ?thesis
  proof cases
    case 1 then show ?thesis using st assms by (simp add: mag_of_units_def s_def t_def)
  next
    case 2
    have "m < 2 ^ 53" using 2 small [of m] by (simp add: s_def)
    moreover have "2 ^ 52 \<le> round_even n t" using q(1) [of n] 2 by (simp add: t_def)
    moreover have "2 ^ 52 \<le> t * 2 ^ 52" using 2 by simp
    ultimately show ?thesis using 2 by (simp add: mag_of_units_def s_def [symmetric] t_def [symmetric] f_top_def)
  next
    case 3
    have "round_even m s \<le> 2 ^ 53" using q(2) [of m] 3 by (simp add: s_def)
    moreover have "2 ^ 52 \<le> round_even n t" using q(1) [of n] 3 by (simp add: t_def)
    moreover have "(s + 1) * 2 ^ 52 \<le> t * 2 ^ 52" using 3 by (intro mult_le_mono1) simp
    ultimately have "s * 2 ^ 52 + round_even m s \<le> t * 2 ^ 52 + round_even n t" by simp
    then show ?thesis using 3 by (simp add: mag_of_units_def s_def [symmetric] t_def [symmetric] min.coboundedI1 min.coboundedI2 min_le_iff_disj)
  next
    case 4
    then show ?thesis using round_even_mono [OF assms, of s]
      by (simp add: mag_of_units_def s_def [symmetric] t_def [symmetric] min_le_iff_disj)
  qed
qed

lemma mag_of_units_top: "mag_of_units n \<le> f_top"
proof (cases "bit_len n - 53 = 0")
  case True
  then have "n < 2 ^ 53"
    using bit_len_bounds [of n] power_increasing [of "bit_len n" 53 "2::nat"] by (cases "n = 0") auto
  then show ?thesis using True by (simp add: mag_of_units_def f_top_def)
qed (simp add: mag_of_units_def Let_def)

lemma mag_of_units_exact:
  assumes "n < 2 ^ (53 + k)" "2 ^ k dvd n" "k \<le> 2000"
  shows "mag_units (mag_of_units n) = n" "mag_of_units n < f_top"
proof -
  define s where "s = bit_len n - 53"
  have sk: "s \<le> k" using bit_len_le [OF assms(1)] by (simp add: s_def)
  have "mag_units (mag_of_units n) = n \<and> mag_of_units n < f_top"
  proof (cases "s = 0")
    case True
    then have "n < 2 ^ 53"
      using bit_len_bounds [of n] power_increasing [of "bit_len n" 53 "2::nat"] by (cases "n = 0") (auto simp: s_def)
    moreover have "n = 2 ^ 52 + n mod 2 ^ 52" "n div 2 ^ 52 = 1" if "2 ^ 52 \<le> n" "n < 2 ^ 53"
      using that le_mod_geq [of "2 ^ 52" n] by (simp_all add: le_div_geq)
    ultimately show ?thesis
      using True by (cases "n < 2 ^ 52") (simp_all add: mag_of_units_def s_def [symmetric] mag_units_def f_top_def)
  next
    case False
    then have b: "53 < bit_len n" by (simp add: s_def)
    have "(2::nat) ^ s dvd 2 ^ k" using sk by (rule le_imp_power_dvd)
    then have d: "2 ^ s dvd n" using assms(2) by (rule dvd_trans)
    define q where "q = n div 2 ^ s"
    have nq: "n = q * 2 ^ s" using d by (simp add: q_def)
    have r: "round_even n s = q" using d by (simp add: round_even_def q_def dvd_imp_mod_0)
    have qb: "2 ^ 52 \<le> q" "q < 2 ^ 53" using quotient_bounds [OF b] by (simp_all add: q_def s_def)
    define l where "l = s * 2 ^ 52 + q"
    have l: "l = (s + 1) * 2 ^ 52 + (q - 2 ^ 52)" using qb by (simp add: l_def)
    have "q - 2 ^ 52 < 2 ^ 52" using qb by simp
    then have dm: "l div 2 ^ 52 = s + 1" "l mod 2 ^ 52 = q - 2 ^ 52" unfolding l by (simp_all del: mult_Suc)
    have "l < (s + 2) * 2 ^ 52" using qb by (simp add: l_def)
    also have "\<dots> \<le> 2002 * 2 ^ 52" using sk assms(3) by (intro mult_le_mono1) simp
    finally have top: "l < f_top" by (simp add: f_top_def)
    have "mag_of_units n = l" using False top r by (simp add: mag_of_units_def s_def [symmetric] l_def)
    moreover have "\<not> l < 2 ^ 52" using l by simp
    ultimately show ?thesis using dm qb top nq by (simp add: mag_units_def)
  qed
  then show "mag_units (mag_of_units n) = n" "mag_of_units n < f_top" by auto
qed

section \<open>Small whole numbers\<close>

lemma one_units_pos: "0 < one_units" by (simp add: one_units_def)

lemma top_bound: "m \<le> f_top \<Longrightarrow> m < 2 ^ 63" by (simp add: f_top_def)

lemma f_of_units_parts:
  "f_mag (f_of_units v) = mag_of_units (nat \<bar>v\<bar>)" "f_neg (f_of_units v) = (v < 0)" "\<not> is_nan (f_of_units v)"
  using f_make_parts [OF top_bound [OF mag_of_units_top]] mag_of_units_top
  by (auto simp: f_of_units_def is_nan_def not_less)

lemma whole_exact:
  assumes "n < 2 ^ 53"
  shows "mag_units (mag_of_units (n * one_units)) = n * one_units" "mag_of_units (n * one_units) < f_top"
proof -
  have "n * one_units < 2 ^ (53 + 1074)" 
    using assms unfolding one_units_def power_add by (rule mult_strict_right_mono) simp
  then show "mag_units (mag_of_units (n * one_units)) = n * one_units" "mag_of_units (n * one_units) < f_top"
    using mag_of_units_exact [of "n * one_units" 1074] by (simp_all only: one_units_def dvd_triv_right)
qed

lemma f_of_nat_parts:
  "f_mag (f_of_nat n) = mag_of_units (n * one_units)" "\<not> f_neg (f_of_nat n)" "\<not> is_nan (f_of_nat n)"
proof -
  have e: "int n * int one_units = int (n * one_units)" by simp
  show "f_mag (f_of_nat n) = mag_of_units (n * one_units)" "\<not> f_neg (f_of_nat n)" "\<not> is_nan (f_of_nat n)"
    using f_of_units_parts [of "int (n * one_units)"]
    by (simp_all only: f_of_nat_def e abs_of_nat nat_int of_nat_less_0_iff not_False_eq_True)
qed

lemma f_of_nat_whole:
  assumes "n < 2 ^ 53" shows "f_units (f_of_nat n) = int (n * one_units)" "is_finite (f_of_nat n)"
  using whole_exact [OF assms] f_of_nat_parts [of n] by (simp_all add: f_units_def is_finite_def)

lemma f_of_nat_less:
  assumes "a < 2 ^ 53" "b < 2 ^ 53" shows "f_lt (f_of_nat a) (f_of_nat b) \<longleftrightarrow> a < b"
proof -
  have "mag_of_units (a * one_units) < mag_of_units (b * one_units) \<longleftrightarrow> a * one_units < b * one_units"
    using mag_units_less [of "mag_of_units (a * one_units)" "mag_of_units (b * one_units)"] whole_exact assms by simp
  then show ?thesis using f_of_nat_parts one_units_pos by (simp add: f_lt_def f_signed_def)
qed

lemma f_le_iff: "f_le a b \<longleftrightarrow> \<not> is_nan a \<and> \<not> is_nan b \<and> \<not> f_lt b a"
  by (auto simp: f_le_def f_lt_def)

lemma f_of_nat_le: "a < 2 ^ 53 \<Longrightarrow> b < 2 ^ 53 \<Longrightarrow> f_le (f_of_nat a) (f_of_nat b) \<longleftrightarrow> a \<le> b"
  by (simp add: f_le_iff f_of_nat_less f_of_nat_parts not_less)

lemma f_lt_trans: "f_lt a b \<Longrightarrow> f_lt b c \<Longrightarrow> f_lt a c" by (auto simp: f_lt_def)
lemma f_lt_le_trans: "f_lt a b \<Longrightarrow> f_le b c \<Longrightarrow> f_lt a c" by (auto simp: f_lt_def f_le_def)
lemma f_le_lt_trans: "f_le a b \<Longrightarrow> f_lt b c \<Longrightarrow> f_lt a c" by (auto simp: f_lt_def f_le_def)

lemma total_key_le_lt: "total_key a \<le> total_key b \<Longrightarrow> f_lt b c \<Longrightarrow> \<not> is_nan a \<Longrightarrow> f_lt a c"
  by (auto simp: total_key_def f_lt_def f_signed_def split: if_splits)

lemma f_max_cases: "f_max a b = a \<or> f_max a b = b" by (simp add: f_max_def)

lemma f_max_ge: "\<not> is_nan a \<Longrightarrow> f_le a (f_max a b)" "\<not> is_nan b \<Longrightarrow> f_le b (f_max a b)"
  by (auto simp: f_max_def f_le_def)

lemma f_max_nan: "is_nan (f_max a b) \<longleftrightarrow> is_nan a \<and> is_nan b" by (auto simp: f_max_def)

section \<open>What is left of a whole number\<close>

text \<open>\<open>(n - x).floor().clamp(0.0, n) as u8\<close>.\<close>

definition floor_left :: "nat \<Rightarrow> f64 \<Rightarrow> nat" where
  "floor_left n x = f_as_u8 (f_clamp (f_of_nat 0) (f_of_nat n) (f_floor (f_sub (f_of_nat n) x)))"

lemma f_sub_nan: "is_nan (f_floor (f_sub (f_of_nat n) x)) \<longleftrightarrow> is_nan x" if "n < 2 ^ 53"
proof -
  have i: "\<not> is_nan (f_inf b)" for b
    using f_make_parts [of f_top b] by (simp add: f_inf_def is_nan_def f_top_def)
  have z: "\<not> is_nan (f_make b 0)" for b using f_make_parts [of 0 b] by (simp add: is_nan_def f_top_def)
  have fl: "is_nan (f_floor y) \<longleftrightarrow> is_nan y" for y
    using f_of_units_parts(3) by (auto simp: f_floor_def is_finite_def is_nan_def)
  show ?thesis using that f_of_nat_whole(2) [of n] f_of_nat_parts(3) [of n]
    by (auto simp: fl f_sub_def i z f_of_units_parts(3))
qed

lemma neg_left: assumes "f_neg y" "n \<le> 100" shows "f_as_u8 (f_clamp (f_of_nat 0) (f_of_nat n) y) = 0"
proof -
  have "mag_of_units 0 = 0" by (simp add: mag_of_units_def bit_len.simps)
  then have "f_as_u8 (f_of_nat 0) = 0"
    using f_of_nat_parts [of 0] by (simp add: f_as_u8_def is_finite_def f_top_def mag_units_def)
  moreover have "\<not> f_lt (f_of_nat n) y" using assms f_of_nat_parts [of n] by (simp add: f_lt_def f_signed_def)
  moreover have "f_as_u8 y = 0" using assms by (simp add: f_as_u8_def)
  ultimately show ?thesis by (simp add: f_clamp_def)
qed

lemma whole_left:
  assumes "j \<le> n" "n \<le> 100" shows "f_as_u8 (f_clamp (f_of_nat 0) (f_of_nat n) (f_of_nat j)) = j"
proof -
  have w: "k < 2 ^ 53" if "k \<le> 100" for k :: nat using that by simp
  have "f_as_u8 (f_of_nat j) = j"
    using assms f_of_nat_parts [of j] whole_exact [of j] one_units_pos
    by (simp add: f_as_u8_def is_finite_def)
  then show ?thesis using assms w by (simp add: f_clamp_def f_of_nat_less)
qed

lemma floor_left_formula:
  assumes x: "is_finite x" and n: "n \<le> 100" and d: "int (n * one_units) - f_units x = int d" "d \<le> n * one_units"
    and n0: "0 < n"
  shows "floor_left n x = mag_units (mag_of_units d) div one_units"
proof -
  have n53: "n < 2 ^ 53" using n by simp
  note N = f_of_nat_whole [OF n53] f_of_nat_parts [of n]
  have nz: "f_units (f_of_nat n) \<noteq> 0" using N n0 one_units_pos by simp
  define y where "y = f_of_units (int d)"
  have sub: "f_sub (f_of_nat n) x = y"
    using x N nz d by (simp add: f_sub_def y_def is_finite_def is_nan_def)
  have le: "mag_of_units d \<le> mag_of_units (n * one_units)" by (rule mag_of_units_mono [OF d(2)])
  have fin: "is_finite y" using f_of_units_parts [of "int d"] le whole_exact(2) [OF n53]
    by (simp add: y_def is_finite_def)
  have uy: "f_units y = int (mag_units (mag_of_units d))" using f_of_units_parts [of "int d"] by (simp add: y_def f_units_def)
  define j where "j = mag_units (mag_of_units d) div one_units"
  have "mag_units (mag_of_units d) \<le> n * one_units"
    using le whole_exact(1) [OF n53] mag_units_le [of "mag_of_units d" "mag_of_units (n * one_units)"] by simp
  then have jn: "j \<le> n" using div_le_mono [of "mag_units (mag_of_units d)" "n * one_units" one_units] one_units_pos
    by (simp add: j_def)
  show ?thesis
  proof (cases "f_units y = 0")
    case False
    then have "f_floor y = f_of_nat j"
      using fin uy by (simp add: f_floor_def f_of_nat_def j_def zdiv_int)
    then show ?thesis using whole_left [OF jn n] by (simp add: floor_left_def sub j_def)
  next
    case True
    have m0: "mag_units (mag_of_units d) = 0" using True uy by simp
    then have "mag_of_units d = 0" by (simp add: mag_units_def split: if_splits)
    moreover have "mag_of_units 0 = 0" by (simp add: mag_of_units_def bit_len.simps)
    ultimately have "f_of_units (int d) = f_of_nat 0" by (simp add: f_of_units_def f_of_nat_def)
    then have "f_floor y = f_of_nat 0" using True by (simp add: f_floor_def y_def)
    then show ?thesis using whole_left [of 0 n] n m0 by (simp add: floor_left_def sub)
  qed
qed

lemma floor_left_whole:
  assumes "a \<le> n" "n \<le> 100" "0 < n" shows "floor_left n (f_of_nat a) = n - a"
proof -
  have a: "a < 2 ^ 53" "n - a < 2 ^ 53" using assms by simp_all
  have "int (n * one_units) - f_units (f_of_nat a) = int ((n - a) * one_units)"
    using f_of_nat_whole(1) [OF a(1)] assms by (simp add: diff_mult_distrib of_nat_diff)
  then have "floor_left n (f_of_nat a) = mag_units (mag_of_units ((n - a) * one_units)) div one_units"
    using f_of_nat_whole(2) [OF a(1)] assms by (intro floor_left_formula) simp_all
  then show ?thesis using whole_exact(1) [OF a(2)] one_units_pos by simp
qed

lemma floor_left_le:
  assumes k: "f_le (f_of_nat k) x" "k \<le> n" and n: "n \<le> 100" "0 < n" shows "floor_left n x \<le> n - k"
proof (cases "is_finite x")
  case False
  have nn: "\<not> f_neg x" if "0 < f_mag x"
    using k that f_of_nat_parts [of k] by (auto simp: f_le_def f_signed_def split: if_splits)
  have "\<not> is_nan x" "0 < f_mag x" using k False by (auto simp: f_le_def is_finite_def f_top_def)
  then have "f_sub (f_of_nat n) x = f_inf True"
    using False n nn f_of_nat_whole(2) [of n] f_of_nat_parts(3) [of n] by (simp add: f_sub_def)
  moreover have "f_floor (f_inf True) = f_inf True"
    using f_make_parts [of f_top True] by (simp add: f_floor_def f_inf_def is_finite_def f_top_def)
  moreover have "f_neg (f_inf True)" using f_make_parts [of f_top True] by (simp add: f_inf_def f_top_def)
  ultimately show ?thesis using neg_left n by (simp add: floor_left_def)
next
  case True
  have w: "k < 2 ^ 53" "n < 2 ^ 53" "n - k < 2 ^ 53" using k n by simp_all
  have ge: "int (k * one_units) \<le> f_units x"
  proof (cases "f_neg x")
    case True
    then have m: "f_mag x = 0" "mag_of_units (k * one_units) = 0"
      using k f_of_nat_parts [of k] by (auto simp: f_le_def f_signed_def)
    then have "k * one_units = 0" using whole_exact(1) [OF w(1)] by (simp add: mag_units_def)
    with m True show ?thesis by (simp add: f_units_def mag_units_def del: of_nat_mult mult_eq_0_iff)
  next
    case False
    then have "mag_of_units (k * one_units) \<le> f_mag x"
      using k f_of_nat_parts [of k] by (simp add: f_le_def f_signed_def)
    then have "k * one_units \<le> mag_units (f_mag x)"
      using mag_units_le whole_exact(1) [OF w(1)] by metis
    then show ?thesis using False by (simp add: f_units_def del: of_nat_mult)
  qed
  show ?thesis
  proof (cases "f_units x \<le> int (n * one_units)")
    case le: True
    define d where "d = nat (int (n * one_units) - f_units x)"
    have d: "int (n * one_units) - f_units x = int d" using le by (simp add: d_def)
    have dk: "d \<le> (n - k) * one_units"
      using d ge k(2) by (simp add: diff_mult_distrib nat_le_iff of_nat_diff d_def del: of_nat_mult)
    have "d \<le> n * one_units" using dk by (simp add: diff_mult_distrib)
    then have "floor_left n x = mag_units (mag_of_units d) div one_units"
      using True n d by (intro floor_left_formula)
    moreover have "mag_units (mag_of_units d) \<le> (n - k) * one_units"
      using mag_of_units_mono [OF dk] whole_exact(1) [OF w(3)] mag_units_le by metis
    ultimately show ?thesis
      using div_le_mono [of "mag_units (mag_of_units d)" "(n - k) * one_units" one_units] one_units_pos by simp
  next
    case False
    define v where "v = int (n * one_units) - f_units x"
    have v: "v < 0" using False by (simp add: v_def)
    have "f_units (f_of_nat n) \<noteq> 0" using f_of_nat_whole(1) [OF w(2)] n one_units_pos by simp
    then have "f_sub (f_of_nat n) x = f_of_units v"
      using True f_of_nat_whole [OF w(2)] f_of_nat_parts(3) [of n] by (simp add: f_sub_def is_finite_def is_nan_def v_def)
    moreover have "f_neg (f_floor (f_of_units v))"
    proof (cases "is_finite (f_of_units v) \<and> f_units (f_of_units v) \<noteq> 0")
      case c: True
      then have "f_units (f_of_units v) < 0" using f_of_units_parts [of v] v by (simp add: f_units_def)
      then have "f_units (f_of_units v) div int one_units < 0"
        using one_units_pos by (metis pos_imp_zdiv_neg_iff of_nat_0_less_iff)
      then have "f_units (f_of_units v) div int one_units * int one_units < 0"
        using one_units_pos by (simp add: mult_neg_pos)
      then show ?thesis using c f_of_units_parts(2) by (simp add: f_floor_def)
    next
      case c: False
      then have "f_floor (f_of_units v) = f_of_units v" unfolding f_floor_def by (rule if_not_P)
      then show ?thesis using f_of_units_parts(2) [of v] v by simp
    qed
    ultimately show ?thesis using neg_left n by (simp add: floor_left_def)
  qed
qed

end
