(* ===== verification/Login_Decide.thy ===== *)
theory Login_Decide
  imports Rust_Float Rust_Num Rotator_Ledger "HOL-Library.Product_Lexorder"
begin

text \<open>
  The login rotator's decision: what one usage probe is reduced to, when the live login must be left, which candidate is
  taken, the damping of swaps made only because the live probe failed, and the plan-room choice
  (\<open>profile/rotate/decide.rs\<close>, \<open>damp.rs\<close>, \<open>plan_room.rs\<close>).
  Percentages are \<open>f64\<close>; times and durations are integers in the range of their type.
\<close>

section \<open>Least elements\<close>

text \<open>\<open>Iterator::min_by\<close>: the first of the least elements.\<close>

fun min_by :: "('a \<Rightarrow> 'a \<Rightarrow> bool) \<Rightarrow> 'a list \<Rightarrow> 'a option" where
  "min_by lt [] = None"
| "min_by lt (x # xs) = Some (foldl (\<lambda>m y. if lt y m then y else m) x xs)"

section \<open>Readings\<close>

datatype usage_state = Us_ok | Us_session_exhausted | Us_weekly_exhausted | Us_spend_limit | Us_not_logged_in
  | Us_timeout | Us_unparsed | Us_error

record usage_window =
  uw_label :: rstring
  uw_used :: f64
  uw_resets_text :: "rstring option"
  uw_resets_at :: "int option"

record usage_report =
  ur_state :: usage_state
  ur_session :: "usage_window option"
  ur_week_all :: "usage_window option"
  ur_week_models :: "usage_window list"
  ur_session_limit :: bool
  ur_observed_at :: "int option"

datatype reading = R_measured f64 f64 | R_exhausted "f64 option" "f64 option" | R_failed

definition full_window :: "usage_window option \<Rightarrow> f64 option" where
  "full_window w =
    Some (case w of
        Some x \<Rightarrow> if is_finite (uw_used x) then f_max (uw_used x) (f_of_nat 100) else f_of_nat 100
      | None \<Rightarrow> f_of_nat 100)"

definition reading_from_report :: "usage_report \<Rightarrow> reading" where
  "reading_from_report r =
    (case ur_state r of
       Us_session_exhausted \<Rightarrow> R_exhausted (full_window (ur_session r)) (map_option uw_used (ur_week_all r))
     | Us_weekly_exhausted \<Rightarrow> R_exhausted (map_option uw_used (ur_session r)) (full_window (ur_week_all r))
     | Us_ok \<Rightarrow>
         (case ur_week_all r of
            Some week \<Rightarrow> R_measured (case ur_session r of Some w \<Rightarrow> uw_used w | None \<Rightarrow> f_of_nat 0) (uw_used week)
          | None \<Rightarrow> R_failed)
     | _ \<Rightarrow> R_failed)"

definition headroom :: "reading \<Rightarrow> nat option" where
  "headroom r =
    (case r of
       R_failed \<Rightarrow> None
     | R_exhausted _ _ \<Rightarrow> Some 0
     | R_measured session week \<Rightarrow>
         (let left = f_floor (f_sub (f_of_nat 100) (f_max session week))
          in if is_nan left then None else Some (f_as_u8 (f_clamp (f_of_nat 0) (f_of_nat 100) left))))"

record win =
  w_used :: f64
  w_resets_at :: "int option"

record windows =
  ws_session :: "win option"
  ws_week :: "win option"
  ws_no_session_limit :: bool

definition win_of :: "usage_window \<Rightarrow> win" where
  "win_of w = \<lparr>w_used = uw_used w, w_resets_at = uw_resets_at w\<rparr>"

definition windows_from_report :: "usage_report \<Rightarrow> windows" where
  "windows_from_report r =
    \<lparr>ws_session = map_option win_of (ur_session r), ws_week = map_option win_of (ur_week_all r),
     ws_no_session_limit = (\<not> ur_session_limit r)\<rparr>"

definition no_windows :: windows where
  "no_windows = \<lparr>ws_session = None, ws_week = None, ws_no_session_limit = False\<rparr>"

record probed =
  p_reading :: reading
  p_windows :: windows
  p_spend_limit :: bool
  p_unknown :: bool
  p_still_running :: bool
  p_observed_at :: "int option"
  p_carried :: bool

definition probed_from_report :: "usage_report \<Rightarrow> probed" where
  "probed_from_report r =
    \<lparr>p_reading = reading_from_report r, p_windows = windows_from_report r,
     p_spend_limit = (ur_state r = Us_spend_limit),
     p_unknown = (ur_state r \<in> {Us_timeout, Us_error}),
     p_still_running = False, p_observed_at = ur_observed_at r, p_carried = False\<rparr>"

definition probed_platform :: probed where
  "probed_platform =
    \<lparr>p_reading = R_measured (f_of_nat 0) (f_of_nat 0), p_windows = no_windows, p_spend_limit = False, p_unknown = False,
     p_still_running = False, p_observed_at = None, p_carried = False\<rparr>"

definition probed_failed :: probed where
  "probed_failed =
    \<lparr>p_reading = R_failed, p_windows = no_windows, p_spend_limit = False, p_unknown = True,
     p_still_running = False, p_observed_at = None, p_carried = False\<rparr>"

record measured =
  m_name :: rstring
  m_reading :: reading
  m_windows :: windows
  m_spend_limit :: bool
  m_unknown :: bool

definition measured_new :: "rstring \<Rightarrow> probed \<Rightarrow> measured" where
  "measured_new name p =
    \<lparr>m_name = name, m_reading = p_reading p, m_windows = p_windows p, m_spend_limit = p_spend_limit p,
     m_unknown = p_unknown p\<rparr>"

section \<open>The decision\<close>

record settings =
  s_session_at :: nat
  s_week_at :: nat
  s_margin :: nat
  s_upgrade_margin :: nat
  s_hold :: nat
  s_interval :: nat
  s_overflow_wait :: nat
  s_overflow_unknown_reset :: bool

datatype reason = Threshold | Upgrade | Failed_probe | Overflow_in | Overflow_out | Plan_room

datatype decision = D_stay | D_swap rstring reason | D_alert

definition needs_swap :: "settings \<Rightarrow> reading \<Rightarrow> bool" where
  "needs_swap s live =
    (case live of
       R_failed \<Rightarrow> True
     | R_exhausted _ _ \<Rightarrow> True
     | R_measured session week \<Rightarrow> f_le (f_of_nat (s_session_at s)) session \<or> f_le (f_of_nat (s_week_at s)) week)"

definition is_exhausted :: "reading \<Rightarrow> bool" where
  "is_exhausted r = (case r of R_exhausted _ _ \<Rightarrow> True | _ \<Rightarrow> False)"

definition best_less :: "rstring \<times> nat \<Rightarrow> rstring \<times> nat \<Rightarrow> bool" where
  "best_less a b = (snd b < snd a \<or> snd a = snd b \<and> fst a < fst b)"

definition best :: "measured list \<Rightarrow> (rstring \<times> nat) option" where
  "best candidates =
    min_by best_less
      (List.map_filter (\<lambda>c. map_option (\<lambda>h. (m_name c, h)) (headroom (m_reading c)))
        (filter (\<lambda>c. \<not> is_exhausted (m_reading c)) candidates))"

definition saturating_sub :: "int \<Rightarrow> int \<Rightarrow> int" where
  "saturating_sub a b = max i64_min (min i64_max (a - b))"

definition held :: "nat \<Rightarrow> int option \<Rightarrow> int \<Rightarrow> bool" where
  "held hold swapped_at now =
    (0 < hold \<and> (case swapped_at of Some t \<Rightarrow> saturating_sub now t < min (int hold) i64_max | None \<Rightarrow> False))"

definition decide :: "settings \<Rightarrow> reading \<Rightarrow> measured list \<Rightarrow> int option \<Rightarrow> int \<Rightarrow> decision" where
  "decide s live candidates swapped_at now =
    (let live_h = int (case headroom live of Some h \<Rightarrow> h | None \<Rightarrow> 0);
         b = best candidates;
         gain = map_option (\<lambda>(_, h). int h - live_h) b
     in if needs_swap s live
        then (case (b, gain) of
            (Some (dest, _), Some g) \<Rightarrow> if int (s_margin s) \<le> g then D_swap dest Threshold else D_alert
          | _ \<Rightarrow> D_alert)
        else (case (b, gain) of
            (Some (dest, _), Some g) \<Rightarrow>
              if \<not> held (s_hold s) swapped_at now \<and> 0 < g \<and> int (s_upgrade_margin s) \<le> g then D_swap dest Upgrade else D_stay
          | _ \<Rightarrow> D_stay))"

section \<open>Failed live probes\<close>

definition failed_probe_limit :: nat where "failed_probe_limit = 3"

definition next_failed :: "nat \<Rightarrow> reading \<Rightarrow> nat" where
  "next_failed prev live = (case live of R_failed \<Rightarrow> min (2 ^ 32 - 1) (prev + 1) | _ \<Rightarrow> 0)"

definition stay_failed_probe :: "nat \<Rightarrow> nat \<Rightarrow> rstring" where
  "stay_failed_probe k limit =
    lit ''stay: live probe failed ('' @ show_radix 10 k @ lit ''/'' @ show_radix 10 limit @ lit '')''"

definition stay_held_failed :: "nat \<Rightarrow> rstring" where
  "stay_held_failed secs =
    lit ''stay: live probe failed; held after last swap ('' @ show_radix 10 secs @ lit ''s left)''"

definition stay_home_key :: "rstring \<Rightarrow> rstring" where
  "stay_home_key setting =
    lit ''stay: live probe failed; home key ('' @ setting
      @ lit '') applies to every login once live, a swap changes nothing''"

definition damp ::
  "decision \<Rightarrow> reading \<Rightarrow> nat \<Rightarrow> int option \<Rightarrow> int \<Rightarrow> settings \<Rightarrow> decision \<times> rstring option" where
  "damp d live consecutive_failed swapped_at now s =
    (case (live, d) of
       (R_failed, D_swap dest Threshold) \<Rightarrow>
         if consecutive_failed < failed_probe_limit
         then (D_stay, Some (stay_failed_probe consecutive_failed failed_probe_limit))
         else (case swapped_at of
             Some t \<Rightarrow>
               if held (s_hold s) swapped_at now
               then (D_stay, Some (stay_held_failed (s_hold s - nat (saturating_sub now t))))
               else (D_swap dest Failed_probe, None)
           | None \<Rightarrow> (D_swap dest Failed_probe, None))
     | _ \<Rightarrow> (d, None))"

definition is_failed_probe_swap :: "decision \<Rightarrow> bool" where
  "is_failed_probe_swap d = (case d of D_swap _ Failed_probe \<Rightarrow> True | _ \<Rightarrow> False)"

definition keep_for_home_key :: "decision \<Rightarrow> rstring option \<Rightarrow> rstring option \<Rightarrow> decision \<times> rstring option" where
  "keep_for_home_key d note setting =
    (case setting of
       Some name \<Rightarrow> if is_failed_probe_swap d then (D_stay, Some (stay_home_key name)) else (d, note)
     | None \<Rightarrow> (d, note))"

section \<open>Room\<close>

definition room :: "f64 \<Rightarrow> f64 \<Rightarrow> bool" where
  "room session week = (f_lt session (f_of_nat 100) \<and> f_lt week (f_of_nat 100))"

definition has_room :: "reading \<Rightarrow> bool" where
  "has_room r = (case r of R_measured session week \<Rightarrow> room session week | _ \<Rightarrow> False)"

definition room_entry :: "measured \<Rightarrow> (rstring \<times> f64 \<times> f64) option" where
  "room_entry m =
    (case m_reading m of
       R_measured session week \<Rightarrow> if room session week then Some (m_name m, session, week) else None
     | _ \<Rightarrow> None)"

definition room_key :: "rstring \<times> f64 \<times> f64 \<Rightarrow> int \<times> int \<times> rstring" where
  "room_key e = (total_key (snd (snd e)), total_key (fst (snd e)), fst e)"

definition room_choice :: "settings \<Rightarrow> measured option \<Rightarrow> measured list \<Rightarrow> rstring option" where
  "room_choice s live plan =
    (let pool = List.map_filter room_entry ((case live of Some l \<Rightarrow> [l] | None \<Rightarrow> []) @ plan);
         first_pass = filter (\<lambda>(_, session, _). f_lt session (f_of_nat (s_session_at s))) pool;
         pass = (if first_pass = [] then pool else first_pass)
     in case min_by (\<lambda>a b. room_key a < room_key b) pass of
          None \<Rightarrow> None
        | Some (winner, _, _) \<Rightarrow>
            if (case live of Some l \<Rightarrow> m_name l = winner | None \<Rightarrow> False) then None else Some winner)"

end
