(* ===== verification/Login_Overflow.thy ===== *)
theory Login_Overflow
  imports Login_Decide
begin

text \<open>
  The rotator's overflow policy (\<open>profile/rotate/overflow.rs\<close>, \<open>profile/overflow.rs\<close>, \<open>rotate/spend_blocks.rs\<close>): plan
  capacity, when a plan login is back, and the verdict of a cycle, with the profiles billed per use, their spend blocks and the
  API key.  A \<open>BTreeMap\<close> of blocks is a map; the ledger keeps its entries in a list.
\<close>

section \<open>The gate\<close>

record overflow_gate =
  g_wait :: nat
  g_unknown_reset :: bool
  g_session_at :: nat
  g_week_at :: nat

definition plan_capacity :: "overflow_gate \<Rightarrow> f64 \<Rightarrow> f64 \<Rightarrow> bool" where
  "plan_capacity g session week = (f_lt session (f_of_nat (g_session_at g)) \<and> f_lt week (f_of_nat (g_week_at g)))"

definition at_threshold :: "overflow_gate \<Rightarrow> f64 \<Rightarrow> f64 \<Rightarrow> bool \<times> bool" where
  "at_threshold g session week = (f_le (f_of_nat (g_session_at g)) session, f_le (f_of_nat (g_week_at g)) week)"

definition gate_of_settings :: "settings \<Rightarrow> overflow_gate" where
  "gate_of_settings s =
    \<lparr>g_wait = s_overflow_wait s, g_unknown_reset = s_overflow_unknown_reset s, g_session_at = s_session_at s,
     g_week_at = s_week_at s\<rparr>"

definition far :: "overflow_gate \<Rightarrow> int option \<Rightarrow> int \<Rightarrow> bool" where
  "far g earliest now = gate_far (g_unknown_reset g) (g_wait g) earliest now"

definition plan_usable :: "settings \<Rightarrow> reading \<Rightarrow> bool" where
  "plan_usable s r =
    (case r of R_measured session week \<Rightarrow> plan_capacity (gate_of_settings s) session week | _ \<Rightarrow> False)"

definition regains :: "settings \<Rightarrow> reading \<Rightarrow> windows \<Rightarrow> int option" where
  "regains s r w =
    (let used = (case r of
           R_failed \<Rightarrow> None
         | R_measured session week \<Rightarrow> Some (Some session, Some week)
         | R_exhausted _ _ \<Rightarrow> Some (map_option w_used (ws_session w), map_option w_used (ws_week w)))
     in case used of
          None \<Rightarrow> None
        | Some (session_used, week_used) \<Rightarrow>
            (let g = gate_of_settings s;
                 session_hit = (case session_used of Some u \<Rightarrow> fst (at_threshold g u (f_of_nat 0)) | None \<Rightarrow> False);
                 week_hit = (case week_used of Some u \<Rightarrow> snd (at_threshold g (f_of_nat 0) u) | None \<Rightarrow> False);
                 session_reset = Option.bind (ws_session w) w_resets_at;
                 week_reset = Option.bind (ws_week w) w_resets_at
             in if session_hit
                then (if week_hit
                  then (case (session_reset, week_reset) of (Some a, Some b) \<Rightarrow> Some (max a b) | _ \<Rightarrow> None)
                  else session_reset)
                else if week_hit then week_reset else None))"

definition earliest_plan_reset :: "settings \<Rightarrow> (reading \<times> windows) list \<Rightarrow> int option" where
  "earliest_plan_reset s pool = min_by (<) (List.map_filter (\<lambda>(r, w). regains s r w) pool)"

section \<open>Spend blocks\<close>

record overflow_block =
  b_at :: int
  b_until :: int
  b_reason :: rstring

type_synonym blocks = "rstring \<rightharpoonup> overflow_block"

definition block_active :: "blocks \<Rightarrow> rstring \<Rightarrow> int \<Rightarrow> bool" where
  "block_active blocks name now = (case blocks name of Some b \<Rightarrow> now < b_until b | None \<Rightarrow> False)"

section \<open>The verdict\<close>

datatype tag = In | Out | On

definition tag_str :: "tag \<Rightarrow> rstring" where
  "tag_str t = (case t of In \<Rightarrow> lit ''in'' | Out \<Rightarrow> lit ''out'' | On \<Rightarrow> lit ''on'')"

definition tag_on_overflow :: "tag option \<Rightarrow> bool" where
  "tag_on_overflow t = (t \<in> {Some In, Some On})"

record overflow_input =
  oi_settings :: settings
  oi_live_name :: "rstring option"
  oi_live :: probed
  oi_candidates :: "measured list"
  oi_unmeasured_plan :: "rstring list"
  oi_refused :: "rstring list"
  oi_overflow :: "overflow_entry list"
  oi_blocks :: blocks
  oi_platform_block :: "overflow_block option"
  oi_swapped_at :: "int option"
  oi_now :: int

record overflow_verdict =
  v_decision :: decision
  v_tag :: "tag option"
  v_new_blocks :: "rstring list"
  v_next_plan_reset :: "int option"
  v_unknown_plan :: "rstring list"
  v_key_held :: "rstring list"

text \<open>The values the verdict is computed from.\<close>

definition tier_order :: "overflow_input \<Rightarrow> rstring list" where
  "tier_order i = map oe_name (sort_key oe_tier (oi_overflow i))"

definition platform_name :: "overflow_input \<Rightarrow> rstring option" where
  "platform_name i =
    map_option oe_name (find (\<lambda>e. oe_tier e = platform_tier) (sort_key oe_tier (oi_overflow i)))"

definition is_over :: "overflow_input \<Rightarrow> rstring \<Rightarrow> bool" where
  "is_over i n = (n \<in> set (tier_order i))"

definition live_over :: "overflow_input \<Rightarrow> bool" where
  "live_over i = (case oi_live_name i of Some n \<Rightarrow> is_over i n | None \<Rightarrow> False)"

definition platform_blocked :: "overflow_input \<Rightarrow> bool" where
  "platform_blocked i = (case oi_platform_block i of Some b \<Rightarrow> oi_now i < b_until b | None \<Rightarrow> False)"

definition live_platform :: "overflow_input \<Rightarrow> bool" where
  "live_platform i = (platform_name i \<noteq> None \<and> oi_live_name i = platform_name i)"

definition new_blocks :: "overflow_input \<Rightarrow> rstring list" where
  "new_blocks i =
    (case oi_live_name i of
       Some live \<Rightarrow>
         if live_over i \<and> p_spend_limit (oi_live i) \<and> \<not> block_active (oi_blocks i) live (oi_now i) then [live] else []
     | None \<Rightarrow> [])
    @ filter (\<lambda>n. \<not> (Some n = oi_live_name i \<or> block_active (oi_blocks i) n (oi_now i))
        \<and> list_ex (\<lambda>c. m_name c = n \<and> m_spend_limit c) (oi_candidates i)) (tier_order i)"

definition blocked :: "overflow_input \<Rightarrow> rstring \<Rightarrow> bool" where
  "blocked i n =
    (block_active (oi_blocks i) n (oi_now i) \<or> n \<in> set (new_blocks i)
     \<or> platform_blocked i \<and> Some n = platform_name i)"

definition may_take :: "overflow_input \<Rightarrow> rstring \<Rightarrow> measured \<Rightarrow> bool" where
  "may_take i n c = (m_name c = n \<and> m_reading c \<noteq> R_failed \<and> \<not> m_spend_limit c)"

definition next_in :: "overflow_input \<Rightarrow> bool \<Rightarrow> rstring option" where
  "next_in i credit_only =
    map_option m_name
      (case List.map_filter (\<lambda>n. find (may_take i n) (oi_candidates i))
          (filter (\<lambda>n. Some n \<noteq> oi_live_name i \<and> \<not> blocked i n)
            (filter (\<lambda>n. \<not> (credit_only \<and> Some n = platform_name i)) (tier_order i))) of
         [] \<Rightarrow> None | c # _ \<Rightarrow> Some c)"

definition plan_logins :: "overflow_input \<Rightarrow> measured list" where
  "plan_logins i = filter (\<lambda>c. \<not> is_over i (m_name c)) (oi_candidates i)"

definition unknown_plan :: "overflow_input \<Rightarrow> rstring list" where
  "unknown_plan i =
    oi_unmeasured_plan i
    @ map m_name (filter (\<lambda>c. m_reading c = R_failed) (plan_logins i))
    @ filter (\<lambda>n. \<not> is_over i n) (oi_refused i)"

definition plain_verdict :: "overflow_input \<Rightarrow> decision \<Rightarrow> tag option \<Rightarrow> int option \<Rightarrow> overflow_verdict" where
  "plain_verdict i d t reset =
    \<lparr>v_decision = d, v_tag = t, v_new_blocks = new_blocks i, v_next_plan_reset = reset,
     v_unknown_plan = unknown_plan i, v_key_held = []\<rparr>"

definition next_paid :: "overflow_input \<Rightarrow> rstring option" where
  "next_paid i = next_in i (unknown_plan i \<noteq> [])"

definition no_move :: "overflow_input \<Rightarrow> decision \<Rightarrow> int option \<Rightarrow> overflow_verdict" where
  "no_move i d earliest =
    (let hold = far (gate_of_settings (oi_settings i)) earliest (oi_now i) \<and> next_in i True = None \<and> next_in i False \<noteq> None
     in (plain_verdict i d None None) \<lparr>v_key_held := (if hold then unknown_plan i else [])\<rparr>)"

definition pool_of :: "measured list \<Rightarrow> (reading \<times> windows) list" where
  "pool_of ms = map (\<lambda>c. (m_reading c, m_windows c)) ms"

text \<open>Off a live login that is no overflow profile.\<close>

definition decide_on_plan :: "overflow_input \<Rightarrow> overflow_verdict" where
  "decide_on_plan i =
    (let s = oi_settings i;
         live = p_reading (oi_live i);
         plan = plan_logins i;
         d = decide s live plan (oi_swapped_at i) (oi_now i);
         moving_without_capacity =
           (case d of
              D_alert \<Rightarrow> True
            | D_swap dest Threshold \<Rightarrow> \<not> list_ex (\<lambda>c. m_name c = dest \<and> plan_usable s (m_reading c)) plan
            | _ \<Rightarrow> False)
     in if \<not> moving_without_capacity \<or> live = R_failed then plain_verdict i d None None
        else
          (case room_choice s (map_option (\<lambda>n. measured_new n (oi_live i)) (oi_live_name i)) plan of
             Some dest \<Rightarrow>
               (let same = (case d of D_swap t _ \<Rightarrow> t = dest | _ \<Rightarrow> False)
                in plain_verdict i (if same then d else D_swap dest Plan_room) None None)
           | None \<Rightarrow>
               if list_ex has_room (live # map m_reading plan) then plain_verdict i D_alert None None
               else
                 (let hold = list_ex m_unknown plan \<or> list_ex (\<lambda>n. \<not> is_over i n) (oi_refused i);
                      earliest = earliest_plan_reset s ((live, p_windows (oi_live i)) # pool_of plan)
                  in if \<not> hold \<and> far (gate_of_settings s) earliest (oi_now i)
                     then (case next_paid i of
                         Some dest \<Rightarrow> plain_verdict i (D_swap dest Overflow_in) (Some In) earliest
                       | None \<Rightarrow> no_move i d earliest)
                     else no_move i d earliest)))"

text \<open>Off an overflow profile.\<close>

definition decide_on_over :: "overflow_input \<Rightarrow> overflow_verdict" where
  "decide_on_over i =
    (let s = oi_settings i;
         plan = plan_logins i;
         off = (\<lambda>dest. plain_verdict i (D_swap dest Overflow_out) (Some Out) None);
         earliest = earliest_plan_reset s (pool_of plan)
     in case best (filter (\<lambda>c. plan_usable s (m_reading c)) plan) of
          Some (dest, _) \<Rightarrow> off dest
        | None \<Rightarrow>
            (case room_choice s None plan of
               Some dest \<Rightarrow> off dest
             | None \<Rightarrow>
                 if live_platform i
                 then (case next_in i True of
                     Some dest \<Rightarrow> off dest
                   | None \<Rightarrow>
                       if platform_blocked i
                       then (case best plan of
                           Some (dest, _) \<Rightarrow> off dest
                         | None \<Rightarrow> plain_verdict i D_alert (Some On) None)
                       else plain_verdict i D_stay (Some On) earliest)
                 else if (case oi_live_name i of Some n \<Rightarrow> blocked i n | None \<Rightarrow> False)
                 then (case (if far (gate_of_settings s) earliest (oi_now i) then next_paid i else None) of
                     Some dest \<Rightarrow> plain_verdict i (D_swap dest Overflow_in) (Some In) earliest
                   | None \<Rightarrow>
                       (case best plan of
                          Some (dest, _) \<Rightarrow> off dest
                        | None \<Rightarrow> no_move i D_alert earliest))
                 else if p_reading (oi_live i) = R_failed
                 then (case decide s (p_reading (oi_live i)) plan (oi_swapped_at i) (oi_now i) of
                     D_swap dest r \<Rightarrow> plain_verdict i (D_swap dest r) (Some Out) None
                   | _ \<Rightarrow> plain_verdict i D_stay (Some On) earliest)
                 else plain_verdict i D_stay (Some On) earliest))"

definition decide_overflow :: "overflow_input \<Rightarrow> overflow_verdict" where
  "decide_overflow i = (if \<not> live_over i then decide_on_plan i else decide_on_over i)"

end
