(* ===== verification/Login_Facts.thy ===== *)
theory Login_Facts
  imports Login_Overflow
begin

text \<open>
  What the rotator's decisions promise: the least elements they take, the room a reading has, the ground of every decision,
  and the damping of swaps on failed live probes.
\<close>

section \<open>Least elements\<close>

lemma min_by_None [simp]: "min_by lt xs = None \<longleftrightarrow> xs = []"
  by (cases xs) auto

lemma fold_least:
  fixes k :: "'a \<Rightarrow> 'k::linorder"
  defines "f \<equiv> \<lambda>m y. if k y < k m then y else m"
  shows "foldl f x xs \<in> insert x (set xs)" "k (foldl f x xs) \<le> k x" "\<And>y. y \<in> set xs \<Longrightarrow> k (foldl f x xs) \<le> k y"
proof -
  have step: "f x y \<in> {x, y}" "k (f x y) \<le> k x" "k (f x y) \<le> k y" for x y by (auto simp: f_def)
  have "foldl f x xs \<in> insert x (set xs) \<and> k (foldl f x xs) \<le> k x \<and> (\<forall>y\<in>set xs. k (foldl f x xs) \<le> k y)"
  proof (induction xs arbitrary: x)
    case (Cons a xs)
    show ?case using step [of x a] Cons.IH [of "f x a"] by (auto intro: order_trans)
  qed simp
  then show "foldl f x xs \<in> insert x (set xs)" "k (foldl f x xs) \<le> k x" "\<And>y. y \<in> set xs \<Longrightarrow> k (foldl f x xs) \<le> k y"
    by auto
qed

lemma min_by_least:
  fixes k :: "'a \<Rightarrow> 'k::linorder"
  assumes "min_by (\<lambda>a b. k a < k b) xs = Some m"
  shows "m \<in> set xs" "\<And>y. y \<in> set xs \<Longrightarrow> k m \<le> k y"
proof -
  obtain x r where xs: "xs = x # r" using assms by (cases xs) auto
  then show "m \<in> set xs" "\<And>y. y \<in> set xs \<Longrightarrow> k m \<le> k y"
    using assms fold_least [where k = k and x = x and xs = r] by auto
qed

text \<open>With keys of their own the least element is one, whatever the order of the list.\<close>

lemma min_by_unique:
  fixes k :: "'a \<Rightarrow> 'k::linorder"
  assumes "min_by (\<lambda>a b. k a < k b) xs = Some m" "set ys = set xs" "inj_on k (set xs)"
  shows "min_by (\<lambda>a b. k a < k b) ys = Some m"
proof -
  have "ys \<noteq> []" using assms(1,2) by (cases xs) auto
  then obtain m' where m': "min_by (\<lambda>a b. k a < k b) ys = Some m'" by (cases "min_by (\<lambda>a b. k a < k b) ys") auto
  have "k m = k m'"
    using min_by_least [OF assms(1)] min_by_least [OF m'] assms(2) by (auto intro: antisym)
  then show ?thesis using m' assms(2,3) min_by_least(1) [OF assms(1)] min_by_least(1) [OF m'] by (auto dest: inj_onD)
qed

definition best_key :: "rstring \<times> nat \<Rightarrow> int \<times> rstring" where
  "best_key e = (- int (snd e), fst e)"

lemma best_less_key: "best_less = (\<lambda>a b. best_key a < best_key b)"
  by (intro ext) (auto simp: best_less_def best_key_def less_prod_def' less_le)

lemma in_map_filter: "x \<in> set (List.map_filter f xs) \<longleftrightarrow> (\<exists>y\<in>set xs. f y = Some x)"
  by (auto simp: List.map_filter_def split: option.splits) force

lemma map_filter_empty: "List.map_filter f xs = [] \<longleftrightarrow> (\<forall>y\<in>set xs. f y = None)"
  by (auto simp: List.map_filter_def filter_empty_conv)

lemma map_filter_set: "set xs = set ys \<Longrightarrow> set (List.map_filter f xs) = set (List.map_filter f ys)"
  by (simp add: set_eq_iff in_map_filter Bex_def)

section \<open>Room and headroom\<close>

lemma headroom_measured:
  "headroom (R_measured a b) = (if is_nan (f_max a b) then None else Some (floor_left 100 (f_max a b)))"
  by (simp add: headroom_def Let_def f_sub_nan floor_left_def)

lemma headroom_whole:
  assumes "a \<le> 100" "b \<le> 100" shows "headroom (R_measured (f_of_nat a) (f_of_nat b)) = Some (100 - max a b)"
proof -
  have "\<not> is_nan (f_of_nat n)" for n by (rule f_of_nat_parts(3))
  moreover have "f_max (f_of_nat a) (f_of_nat b) = f_of_nat (max a b)"
    using f_of_nat_less [of a b] assms calculation by (auto simp: f_max_def f_lt_def max_def)
  ultimately show ?thesis using assms by (simp add: headroom_measured floor_left_whole)
qed

lemma headroom_at:
  assumes "headroom (R_measured a b) = Some h" "f_le (f_of_nat k) a \<or> f_le (f_of_nat k) b" "k \<le> 100"
  shows "h \<le> 100 - k"
proof -
  have "f_le (f_of_nat k) (f_max a b)"
    using assms(2) f_max_ge(1) [of a b] f_max_ge(2) [of b a] f_max_nan [of a b] by (auto simp: f_le_def)
  then show ?thesis using assms(1,3) floor_left_le [of k "f_max a b" 100] by (auto simp: headroom_measured split: if_splits)
qed

lemma room_headroom: "has_room r \<Longrightarrow> \<exists>h. headroom r = Some h \<and> \<not> is_exhausted r"
  by (auto simp: has_room_def room_def f_lt_def headroom_measured f_max_nan is_exhausted_def split: reading.splits)

lemma capacity_room:
  assumes "plan_usable s r" "s_session_at s \<le> 100" "s_week_at s \<le> 100" shows "has_room r"
proof -
  have "f_le (f_of_nat (s_session_at s)) (f_of_nat 100)" "f_le (f_of_nat (s_week_at s)) (f_of_nat 100)"
    using assms f_of_nat_le [of _ 100] by simp_all
  then show ?thesis using assms(1)
    by (auto simp: plan_usable_def plan_capacity_def has_room_def room_def gate_of_settings_def
      split: reading.splits intro: f_lt_le_trans)
qed

lemma capacity_below: "plan_usable s r \<Longrightarrow> \<not> needs_swap s r"
  by (auto simp: plan_usable_def plan_capacity_def needs_swap_def gate_of_settings_def f_le_def f_lt_def split: reading.splits)

lemma below_capacity: "has_room r \<Longrightarrow> \<not> needs_swap s r \<Longrightarrow> plan_usable s r"
  using f_of_nat_parts(3)
  by (auto simp: plan_usable_def plan_capacity_def needs_swap_def gate_of_settings_def f_le_def f_lt_def has_room_def room_def
      split: reading.splits)

lemma ample_capacity:
  assumes "headroom r = Some h" "100 - s_session_at s < h" "100 - s_week_at s < h" "s_session_at s \<le> 100" "s_week_at s \<le> 100"
  shows "\<not> needs_swap s r" and "\<not> is_exhausted r \<Longrightarrow> r \<noteq> R_failed"
  using assms headroom_at [of _ _ h "s_session_at s"] headroom_at [of _ _ h "s_week_at s"]
  by (force simp: needs_swap_def headroom_def split: reading.splits)+

section \<open>The best candidate\<close>

lemma best_Some:
  assumes "best cs = Some (n, h)"
  shows "\<exists>c\<in>set cs. m_name c = n \<and> headroom (m_reading c) = Some h \<and> \<not> is_exhausted (m_reading c)"
    and "\<And>c h'. c \<in> set cs \<Longrightarrow> \<not> is_exhausted (m_reading c) \<Longrightarrow> headroom (m_reading c) = Some h' \<Longrightarrow> h' \<le> h"
proof -
  note b = assms [unfolded best_def best_less_key]
  show "\<exists>c\<in>set cs. m_name c = n \<and> headroom (m_reading c) = Some h \<and> \<not> is_exhausted (m_reading c)"
    using min_by_least(1) [OF b] by (auto simp: in_map_filter)
  show "h' \<le> h" if "c \<in> set cs" "\<not> is_exhausted (m_reading c)" "headroom (m_reading c) = Some h'" for c h'
    using min_by_least(2) [OF b, of "(m_name c, h')"] that
    by (fastforce simp: in_map_filter best_key_def less_eq_prod_def)
qed

lemma best_None: "best cs = None \<longleftrightarrow> (\<forall>c\<in>set cs. is_exhausted (m_reading c) \<or> headroom (m_reading c) = None)"
  by (auto simp: best_def best_less_key map_filter_empty)

lemma needs_swap_headroom:
  assumes "needs_swap s live" "live \<noteq> R_failed" "s_session_at s \<le> 100" "s_week_at s \<le> 100" "headroom live = Some h"
  shows "h \<le> 100 - s_session_at s \<or> h \<le> 100 - s_week_at s"
  using assms headroom_at [of _ _ h]
  by (auto simp: needs_swap_def headroom_def [of "R_exhausted _ _"] split: reading.splits)

lemma decide_swap:
  assumes "decide s live cs t now = D_swap dest r"
  shows "\<exists>c\<in>set cs. \<exists>h. m_name c = dest \<and> headroom (m_reading c) = Some h \<and> \<not> is_exhausted (m_reading c)
      \<and> (\<forall>c'\<in>set cs. \<forall>h'. \<not> is_exhausted (m_reading c') \<longrightarrow> headroom (m_reading c') = Some h' \<longrightarrow> h' \<le> h)
      \<and> (if needs_swap s live then r = Threshold \<and> int (s_margin s) \<le> int h - int (case headroom live of Some x \<Rightarrow> x | None \<Rightarrow> 0)
         else r = Upgrade \<and> \<not> held (s_hold s) t now \<and> 0 < int h - int (case headroom live of Some x \<Rightarrow> x | None \<Rightarrow> 0)
           \<and> int (s_upgrade_margin s) \<le> int h - int (case headroom live of Some x \<Rightarrow> x | None \<Rightarrow> 0))"
proof -
  obtain n h where b: "best cs = Some (n, h)"
    using assms by (auto simp: decide_def Let_def split: if_splits option.splits)
  have n: "n = dest" using assms b by (auto simp: decide_def Let_def split: if_splits option.splits)
  show ?thesis
    using best_Some [OF b] assms b n by (fastforce simp: decide_def Let_def split: if_splits option.splits)
qed

text \<open>
  The decision is \<open>D_alert\<close> only with the live login at a threshold and no candidate that gains the margin.
\<close>

lemma decide_alert:
  assumes "decide s live cs t now = D_alert"
  shows "needs_swap s live"
    and "\<And>c h. c \<in> set cs \<Longrightarrow> \<not> is_exhausted (m_reading c) \<Longrightarrow> headroom (m_reading c) = Some h \<Longrightarrow>
      int h - int (case headroom live of Some x \<Rightarrow> x | None \<Rightarrow> 0) < int (s_margin s)"
proof -
  show n: "needs_swap s live" using assms by (auto simp: decide_def Let_def split: if_splits option.splits)
  fix c h assume c: "c \<in> set cs" "\<not> is_exhausted (m_reading c)" "headroom (m_reading c) = Some h"
  have "best cs \<noteq> None" using c by (auto simp: best_None)
  then obtain m k where b: "best cs = Some (m, k)" by auto
  have "h \<le> k" using best_Some(2) [OF b c] .
  then show "int h - int (case headroom live of Some x \<Rightarrow> x | None \<Rightarrow> 0) < int (s_margin s)"
    using assms n b by (auto simp: decide_def Let_def split: if_splits)
qed

definition gain :: "reading \<Rightarrow> nat \<Rightarrow> int" where
  "gain live h = int h - int (case headroom live of Some x \<Rightarrow> x | None \<Rightarrow> 0)"

lemma decide_swapE:
  assumes "decide s live cs t now = D_swap dest r"
  obtains c h where "c \<in> set cs" "m_name c = dest" "headroom (m_reading c) = Some h" "\<not> is_exhausted (m_reading c)"
    "\<And>c' h'. c' \<in> set cs \<Longrightarrow> \<not> is_exhausted (m_reading c') \<Longrightarrow> headroom (m_reading c') = Some h' \<Longrightarrow> h' \<le> h"
    "needs_swap s live \<Longrightarrow> r = Threshold \<and> int (s_margin s) \<le> gain live h"
    "\<not> needs_swap s live \<Longrightarrow> r = Upgrade \<and> \<not> held (s_hold s) t now \<and> 0 < gain live h \<and> int (s_upgrade_margin s) \<le> gain live h"
proof -
  obtain c h where c: "c \<in> set cs" "m_name c = dest" "headroom (m_reading c) = Some h" "\<not> is_exhausted (m_reading c)"
    "\<forall>c'\<in>set cs. \<forall>h'. \<not> is_exhausted (m_reading c') \<longrightarrow> headroom (m_reading c') = Some h' \<longrightarrow> h' \<le> h"
    "if needs_swap s live then r = Threshold \<and> int (s_margin s) \<le> gain live h
     else r = Upgrade \<and> \<not> held (s_hold s) t now \<and> 0 < gain live h \<and> int (s_upgrade_margin s) \<le> gain live h"
    using decide_swap [OF assms] unfolding gain_def [symmetric] by blast
  show thesis by (rule that [OF c(1-4)]) (use c(5,6) in \<open>auto split: if_splits\<close>)
qed

section \<open>The plan-room choice\<close>

lemma room_entry_Some: "room_entry m = Some (n, a, b) \<longleftrightarrow> m_reading m = R_measured a b \<and> room a b \<and> n = m_name m"
  by (auto simp: room_entry_def split: reading.splits)

lemma room_entry_has: "has_room (m_reading m) \<longleftrightarrow> room_entry m \<noteq> None"
  by (auto simp: room_entry_def has_room_def split: reading.splits)

definition room_pool :: "settings \<Rightarrow> measured list \<Rightarrow> (rstring \<times> f64 \<times> f64) list" where
  "room_pool s ms =
    (let pool = List.map_filter room_entry ms;
         first_pass = filter (\<lambda>(_, session, _). f_lt session (f_of_nat (s_session_at s))) pool
     in if first_pass = [] then pool else first_pass)"

lemma room_choice_pool:
  "room_choice s live plan =
    (case min_by (\<lambda>a b. room_key a < room_key b) (room_pool s ((case live of Some l \<Rightarrow> [l] | None \<Rightarrow> []) @ plan)) of
       None \<Rightarrow> None
     | Some (w, _, _) \<Rightarrow> if (case live of Some l \<Rightarrow> m_name l = w | None \<Rightarrow> False) then None else Some w)"
  by (simp add: room_choice_def room_pool_def Let_def)

lemma room_pool_empty: "room_pool s ms = [] \<longleftrightarrow> (\<forall>m\<in>set ms. \<not> has_room (m_reading m))"
proof -
  have "room_pool s ms = [] \<longleftrightarrow> List.map_filter room_entry ms = []" by (auto simp: room_pool_def Let_def)
  then show ?thesis by (simp only: map_filter_empty room_entry_has not_not)
qed

lemma room_pool_subset: "e \<in> set (room_pool s ms) \<Longrightarrow> \<exists>m\<in>set ms. room_entry m = Some e"
  by (auto simp: room_pool_def Let_def in_map_filter split: if_splits)

lemma room_pool_set:
  assumes "set ms = set ms'" shows "set (room_pool s ms) = set (room_pool s ms')"
proof -
  have "set (List.map_filter room_entry ms) = set (List.map_filter room_entry ms')"
    by (rule map_filter_set [OF assms])
  then show ?thesis by (auto simp: room_pool_def Let_def filter_empty_conv)
qed

lemma room_choice_Some:
  assumes "room_choice s live plan = Some dest"
  shows "\<exists>c\<in>set plan. m_name c = dest \<and> has_room (m_reading c)" "\<And>l. live = Some l \<Longrightarrow> m_name l \<noteq> dest"
proof -
  define ms where "ms = (case live of Some l \<Rightarrow> [l] | None \<Rightarrow> []) @ plan"
  obtain a b where m: "min_by (\<lambda>a b. room_key a < room_key b) (room_pool s ms) = Some (dest, a, b)"
    and l: "\<And>l. live = Some l \<Longrightarrow> m_name l \<noteq> dest"
    using assms by (fastforce simp: room_choice_pool ms_def split: option.splits if_splits)
  obtain c where "c \<in> set ms" "room_entry c = Some (dest, a, b)"
    using room_pool_subset [OF min_by_least(1) [OF m]] by auto
  then show "\<exists>c\<in>set plan. m_name c = dest \<and> has_room (m_reading c)"
    using l by (auto simp: ms_def room_entry_Some has_room_def split: option.splits)
  show "\<And>l. live = Some l \<Longrightarrow> m_name l \<noteq> dest" by (rule l)
qed

lemma room_choice_None:
  assumes "room_choice s None plan = None" shows "\<forall>c\<in>set plan. \<not> has_room (m_reading c)"
  using assms by (auto simp: room_choice_pool room_pool_empty split: option.splits prod.splits)

end
