(* ===== verification/Login_Overflow_Facts.thy ===== *)
theory Login_Overflow_Facts
  imports Login_Facts
begin

text \<open>
  What the overflow policy promises: paid profiles only without room on any plan login, off them as soon as one has room, and
  no second swap on unchanged readings.
\<close>

section \<open>The ground of a verdict\<close>

lemma plain_verdict_sel [simp]:
  "v_decision (plain_verdict i d t x) = d" "v_next_plan_reset (plain_verdict i d t x) = x"
  "v_decision (no_move i d x) = d" "v_key_held (plain_verdict i d t x) = []"
  by (simp_all add: plain_verdict_def no_move_def Let_def)

lemma next_in_Some:
  assumes "next_in i b = Some dest"
  shows "dest \<in> set (tier_order i)" "Some dest \<noteq> oi_live_name i" "\<not> blocked i dest"
    "b \<Longrightarrow> Some dest \<noteq> platform_name i" "\<exists>c\<in>set (oi_candidates i). may_take i dest c"
proof -
  define ns where "ns = filter (\<lambda>n. Some n \<noteq> oi_live_name i \<and> \<not> blocked i n)
    (filter (\<lambda>n. \<not> (b \<and> Some n = platform_name i)) (tier_order i))"
  obtain c r where c: "List.map_filter (\<lambda>n. find (may_take i n) (oi_candidates i)) ns = c # r" "m_name c = dest"
    using assms by (auto simp: next_in_def ns_def split: list.splits)
  have "c \<in> set (List.map_filter (\<lambda>n. find (may_take i n) (oi_candidates i)) ns)" using c(1) by simp
  then obtain n where n: "n \<in> set ns" "find (may_take i n) (oi_candidates i) = Some c" by (auto simp: in_map_filter)
  have "may_take i n c" "c \<in> set (oi_candidates i)" using n(2) by (auto simp: find_Some_iff)
  then have "n = dest" "may_take i dest c" using c(2) by (auto simp: may_take_def)
  with n(1) \<open>c \<in> set (oi_candidates i)\<close>
  show "dest \<in> set (tier_order i)" "Some dest \<noteq> oi_live_name i" "\<not> blocked i dest"
    "b \<Longrightarrow> Some dest \<noteq> platform_name i" "\<exists>c\<in>set (oi_candidates i). may_take i dest c"
    by (auto simp: ns_def)
qed

lemma next_in_None:
  "next_in i b = None \<longleftrightarrow>
    (\<forall>n\<in>set (tier_order i). Some n \<noteq> oi_live_name i \<longrightarrow> \<not> blocked i n \<longrightarrow> \<not> (b \<and> Some n = platform_name i) \<longrightarrow>
      (\<forall>c\<in>set (oi_candidates i). \<not> may_take i n c))"
proof -
  define ns where "ns = filter (\<lambda>n. Some n \<noteq> oi_live_name i \<and> \<not> blocked i n)
    (filter (\<lambda>n. \<not> (b \<and> Some n = platform_name i)) (tier_order i))"
  have "next_in i b = None \<longleftrightarrow> List.map_filter (\<lambda>n. find (may_take i n) (oi_candidates i)) ns = []"
    by (simp add: next_in_def ns_def split: list.splits)
  then show ?thesis by (auto simp: map_filter_empty find_None_iff ns_def)
qed

lemma decide_threshold:
  assumes "decide s live cs t now \<in> {D_alert, D_swap dest Threshold}" shows "needs_swap s live"
  using assms decide_alert(1) [of s live cs t now] decide_swap [of s live cs t now dest Threshold] by (auto split: if_splits)

text \<open>The plan branch in the order of its tests.\<close>

definition no_capacity_move :: "overflow_input \<Rightarrow> bool" where
  "no_capacity_move i =
    (case decide (oi_settings i) (p_reading (oi_live i)) (plan_logins i) (oi_swapped_at i) (oi_now i) of
       D_alert \<Rightarrow> True
     | D_swap dest Threshold \<Rightarrow> (\<forall>c\<in>set (plan_logins i). m_name c = dest \<longrightarrow> \<not> plan_usable (oi_settings i) (m_reading c))
     | _ \<Rightarrow> False)"

lemma no_capacity_move_needs: "no_capacity_move i \<Longrightarrow> needs_swap (oi_settings i) (p_reading (oi_live i))"
  using decide_threshold [of "oi_settings i" "p_reading (oi_live i)" "plan_logins i" "oi_swapped_at i" "oi_now i"]
  by (auto simp: no_capacity_move_def split: decision.splits reason.splits)

definition room_move :: "overflow_input \<Rightarrow> rstring option" where
  "room_move i =
    room_choice (oi_settings i) (map_option (\<lambda>n. measured_new n (oi_live i)) (oi_live_name i)) (plan_logins i)"

definition plan_reset :: "overflow_input \<Rightarrow> int option" where
  "plan_reset i =
    earliest_plan_reset (oi_settings i) ((p_reading (oi_live i), p_windows (oi_live i)) # pool_of (plan_logins i))"

lemma on_plan_cases:
  obtains
    (stands) d where "decide_on_plan i = plain_verdict i d None None" "\<not> no_capacity_move i \<or> p_reading (oi_live i) = R_failed"
      "d = decide (oi_settings i) (p_reading (oi_live i)) (plan_logins i) (oi_swapped_at i) (oi_now i)"
  | (room) dest r where "decide_on_plan i = plain_verdict i (D_swap dest r) None None" "no_capacity_move i"
      "p_reading (oi_live i) \<noteq> R_failed" "room_move i = Some dest" "r \<in> {Threshold, Plan_room}"
  | (alert) "decide_on_plan i = plain_verdict i D_alert None None" "no_capacity_move i" "p_reading (oi_live i) \<noteq> R_failed"
      "room_move i = None"
  | (paid) dest where "decide_on_plan i = plain_verdict i (D_swap dest Overflow_in) (Some In) (plan_reset i)"
      "no_capacity_move i" "p_reading (oi_live i) \<noteq> R_failed" "room_move i = None" "\<not> has_room (p_reading (oi_live i))"
      "\<forall>c\<in>set (plan_logins i). \<not> has_room (m_reading c)" "\<forall>c\<in>set (plan_logins i). \<not> m_unknown c"
      "\<forall>n\<in>set (oi_refused i). is_over i n" "far (gate_of_settings (oi_settings i)) (plan_reset i) (oi_now i)"
      "next_paid i = Some dest"
  | (stuck) d where "v_decision (decide_on_plan i) = d" "no_capacity_move i" "p_reading (oi_live i) \<noteq> R_failed"
      "room_move i = None" "\<not> has_room (p_reading (oi_live i))" "\<forall>c\<in>set (plan_logins i). \<not> has_room (m_reading c)"
      "d = decide (oi_settings i) (p_reading (oi_live i)) (plan_logins i) (oi_swapped_at i) (oi_now i)"
      "(\<exists>c\<in>set (plan_logins i). m_unknown c) \<or> (\<exists>n\<in>set (oi_refused i). \<not> is_over i n)
        \<or> \<not> far (gate_of_settings (oi_settings i)) (plan_reset i) (oi_now i) \<or> next_paid i = None"
proof -
  define d where "d = decide (oi_settings i) (p_reading (oi_live i)) (plan_logins i) (oi_swapped_at i) (oi_now i)"
  have mv: "no_capacity_move i \<longleftrightarrow>
      (case d of D_alert \<Rightarrow> True
       | D_swap dest Threshold \<Rightarrow> \<not> list_ex (\<lambda>c. m_name c = dest \<and> plan_usable (oi_settings i) (m_reading c)) (plan_logins i)
       | _ \<Rightarrow> False)"
    by (auto simp: no_capacity_move_def d_def list_ex_iff split: decision.splits reason.splits)
  note eq = decide_on_plan_def [of i, unfolded Let_def, folded d_def room_move_def plan_reset_def, folded mv]
  show thesis
  proof (cases "\<not> no_capacity_move i \<or> p_reading (oi_live i) = R_failed")
    case True
    then show thesis using eq d_def by (intro stands) auto
  next
    case False
    then have n: "no_capacity_move i" "p_reading (oi_live i) \<noteq> R_failed" by auto
    show thesis
    proof (cases "room_move i")
      case (Some dest)
      have "\<exists>r\<in>{Threshold, Plan_room}. (if case d of D_swap t _ \<Rightarrow> t = dest | _ \<Rightarrow> False then d else D_swap dest Plan_room) = D_swap dest r"
        using n(1) mv by (auto split: decision.splits reason.splits)
      then show thesis using n Some eq by (auto intro: room)
    next
      case None
      show thesis
      proof (cases "list_ex has_room (p_reading (oi_live i) # map m_reading (plan_logins i))")
        case True
        then show thesis using n None eq by (intro alert) auto
      next
        case False
        then have nr: "\<not> has_room (p_reading (oi_live i))" "\<forall>c\<in>set (plan_logins i). \<not> has_room (m_reading c)"
          by (auto simp: list_ex_iff)
        show thesis
        proof (cases "\<not> (list_ex m_unknown (plan_logins i) \<or> list_ex (\<lambda>n. \<not> is_over i n) (oi_refused i))
            \<and> far (gate_of_settings (oi_settings i)) (plan_reset i) (oi_now i) \<and> next_paid i \<noteq> None")
          case True
          then obtain dest where "next_paid i = Some dest" by auto
          with True n None False nr eq show thesis by (intro paid) (auto simp: list_ex_iff)
        next
          case no: False
          then have "v_decision (decide_on_plan i) = d"
            using n None False eq by (auto split: option.splits)
          moreover have "(\<exists>c\<in>set (plan_logins i). m_unknown c) \<or> (\<exists>n\<in>set (oi_refused i). \<not> is_over i n)
              \<or> \<not> far (gate_of_settings (oi_settings i)) (plan_reset i) (oi_now i) \<or> next_paid i = None"
            using no by (auto simp: list_ex_iff)
          ultimately show thesis using n None nr d_def by (intro stuck) auto
        qed
      qed
    qed
  qed
qed

text \<open>The overflow branch: off to plan capacity, then to plan room, before anything else.\<close>

lemma plan_logins_in: "c \<in> set (plan_logins i) \<longleftrightarrow> c \<in> set (oi_candidates i) \<and> \<not> is_over i (m_name c)"
  by (simp add: plan_logins_def)

definition usable_logins :: "overflow_input \<Rightarrow> measured list" where
  "usable_logins i = filter (\<lambda>c. plan_usable (oi_settings i) (m_reading c)) (plan_logins i)"

definition paid_move :: "overflow_input \<Rightarrow> int option \<Rightarrow> rstring option" where
  "paid_move i earliest = (if far (gate_of_settings (oi_settings i)) earliest (oi_now i) then next_paid i else None)"

definition over_reset :: "overflow_input \<Rightarrow> int option" where
  "over_reset i = earliest_plan_reset (oi_settings i) (pool_of (plan_logins i))"

lemma on_over_cases:
  obtains
    (capacity) dest h where "v_decision (decide_on_over i) = D_swap dest Overflow_out" "best (usable_logins i) = Some (dest, h)"
  | (room) dest where "v_decision (decide_on_over i) = D_swap dest Overflow_out" "best (usable_logins i) = None"
      "room_choice (oi_settings i) None (plan_logins i) = Some dest"
  | (credit) dest where "v_decision (decide_on_over i) = D_swap dest Overflow_out"
      "room_choice (oi_settings i) None (plan_logins i) = None" "live_platform i" "next_in i True = Some dest"
  | (key_out) dest h where "v_decision (decide_on_over i) = D_swap dest Overflow_out"
      "room_choice (oi_settings i) None (plan_logins i) = None" "live_platform i" "next_in i True = None" "platform_blocked i"
      "best (plan_logins i) = Some (dest, h)"
  | (paid) dest where "v_decision (decide_on_over i) = D_swap dest Overflow_in"
      "room_choice (oi_settings i) None (plan_logins i) = None" "\<not> live_platform i" "\<exists>n. oi_live_name i = Some n \<and> blocked i n"
      "paid_move i (over_reset i) = Some dest"
  | (blocked_out) dest h where "v_decision (decide_on_over i) = D_swap dest Overflow_out"
      "room_choice (oi_settings i) None (plan_logins i) = None" "\<not> live_platform i" "\<exists>n. oi_live_name i = Some n \<and> blocked i n"
      "paid_move i (over_reset i) = None" "best (plan_logins i) = Some (dest, h)"
  | (failed) d where "v_decision (decide_on_over i) = d" "room_choice (oi_settings i) None (plan_logins i) = None"
      "p_reading (oi_live i) = R_failed" "\<And>dest. d \<noteq> D_swap dest Overflow_in"
      "\<And>dest r. d = D_swap dest r \<Longrightarrow>
        decide (oi_settings i) (p_reading (oi_live i)) (plan_logins i) (oi_swapped_at i) (oi_now i) = D_swap dest r"
  | (stays) "v_decision (decide_on_over i) \<in> {D_stay, D_alert}" "room_choice (oi_settings i) None (plan_logins i) = None"
proof (cases "best (usable_logins i)")
  case (Some e)
  then show thesis
    by (cases e) (auto simp: decide_on_over_def Let_def usable_logins_def intro: capacity)
next
  case none: None
  note eq = decide_on_over_def [of i, unfolded Let_def, folded usable_logins_def paid_move_def over_reset_def, folded paid_move_def,
    unfolded none option.case]
  show thesis
  proof (cases "room_choice (oi_settings i) None (plan_logins i)")
    case (Some dest)
    then show thesis using none eq by (auto intro: room)
  next
    case None
    note eq = eq [unfolded None option.case]
    consider "live_platform i" | "\<not> live_platform i" "\<exists>n. oi_live_name i = Some n \<and> blocked i n"
      | "\<not> live_platform i" "\<not> (\<exists>n. oi_live_name i = Some n \<and> blocked i n)" by blast
    then show thesis
    proof cases
      case 1
      then show thesis using eq None
        by (cases "next_in i True"; cases "platform_blocked i"; cases "best (plan_logins i)")
          (auto intro: credit key_out stays)
    next
      case 2
      then show thesis using eq None
        by (cases "paid_move i (over_reset i)"; cases "best (plan_logins i)") (auto intro: paid blocked_out stays)
    next
      case 3
      then have "\<not> (case oi_live_name i of Some n \<Rightarrow> blocked i n | None \<Rightarrow> False)" by (auto split: option.splits)
      with 3 eq have e: "decide_on_over i =
          (if p_reading (oi_live i) = R_failed
           then (case decide (oi_settings i) (p_reading (oi_live i)) (plan_logins i) (oi_swapped_at i) (oi_now i) of
               D_swap dest r \<Rightarrow> plain_verdict i (D_swap dest r) (Some Out) None
             | _ \<Rightarrow> plain_verdict i D_stay (Some On) (over_reset i))
           else plain_verdict i D_stay (Some On) (over_reset i))" by (simp only: if_False simp_thms)
      have no_in: "decide s l cs t n \<noteq> D_swap dest Overflow_in" for s l cs t n dest
        using decide_swap [of s l cs t n dest Overflow_in] by (auto split: if_splits)
      show thesis
      proof (cases "p_reading (oi_live i) = R_failed")
        case True
        then have "v_decision (decide_on_over i) \<noteq> D_swap dest Overflow_in" for dest
          using e no_in by (auto split: decision.splits)
        moreover have "decide (oi_settings i) (p_reading (oi_live i)) (plan_logins i) (oi_swapped_at i) (oi_now i) = D_swap dest r"
          if "v_decision (decide_on_over i) = D_swap dest r" for dest r
          using that e True by (auto split: decision.splits)
        ultimately show thesis using True None by (intro failed [of "v_decision (decide_on_over i)"]) auto
      next
        case False
        then show thesis using e None by (intro stays) auto
      qed
    qed
  qed
qed

section \<open>Paid profiles\<close>

text \<open>The plan logins whose windows a paid move waits for: the live login is one of them when it is no overflow profile.\<close>

definition waited_for :: "overflow_input \<Rightarrow> (reading \<times> windows) list" where
  "waited_for i =
    (if live_over i then [] else [(p_reading (oi_live i), p_windows (oi_live i))])
    @ map (\<lambda>c. (m_reading c, m_windows c)) (filter (\<lambda>c. \<not> is_over i (m_name c)) (oi_candidates i))"

lemma far_wait:
  assumes "far (gate_of_settings s) (earliest_plan_reset s pool) now"
  shows "\<And>r w t. (r, w) \<in> set pool \<Longrightarrow> regains s r w = Some t \<Longrightarrow> now + int (s_overflow_wait s) < t"
    "(\<And>r w. (r, w) \<in> set pool \<Longrightarrow> regains s r w = None) \<Longrightarrow> s_overflow_unknown_reset s"
proof -
  define ts where "ts = List.map_filter (\<lambda>(r, w). regains s r w) pool"
  have e: "earliest_plan_reset s pool = min_by (\<lambda>a b. id a < (id b :: int)) ts" by (simp add: earliest_plan_reset_def ts_def)
  show "now + int (s_overflow_wait s) < t" if "(r, w) \<in> set pool" "regains s r w = Some t" for r w t
  proof -
    have t: "t \<in> set ts" using that by (force simp: ts_def in_map_filter)
    then obtain m where m: "min_by (\<lambda>a b. id a < id b) ts = Some m" by (cases ts) auto
    have "m \<le> t" using min_by_least(2) [OF m t] by simp
    moreover have "now + int (s_overflow_wait s) < m"
      using assms unfolding e m by (simp add: far_def gate_far_def gate_of_settings_def)
    ultimately show ?thesis by simp
  qed
  show "s_overflow_unknown_reset s" if n: "\<And>r w. (r, w) \<in> set pool \<Longrightarrow> regains s r w = None"
  proof -
    have "ts = []" using n by (auto simp: ts_def map_filter_empty)
    then show ?thesis using assms by (simp add: e far_def gate_far_def gate_of_settings_def)
  qed
qed

lemma paid_needs_no_room:
  assumes "v_decision (decide_overflow i) = D_swap dest Overflow_in"
  shows "dest \<in> set (tier_order i)" "\<not> blocked i dest" "Some dest \<noteq> oi_live_name i"
    "\<forall>c\<in>set (plan_logins i). \<not> has_room (m_reading c)"
    "far (gate_of_settings (oi_settings i)) (earliest_plan_reset (oi_settings i) (waited_for i)) (oi_now i)"
    "Some dest = platform_name i \<Longrightarrow> unknown_plan i = []"
    "\<not> live_over i \<Longrightarrow> needs_swap (oi_settings i) (p_reading (oi_live i)) \<and> \<not> has_room (p_reading (oi_live i))
      \<and> p_reading (oi_live i) \<noteq> R_failed \<and> (\<forall>c\<in>set (plan_logins i). \<not> m_unknown c)"
proof -
  let ?far = "far (gate_of_settings (oi_settings i)) (earliest_plan_reset (oi_settings i) (waited_for i)) (oi_now i)"
  have w: "earliest_plan_reset (oi_settings i) (waited_for i) = (if live_over i then over_reset i else plan_reset i)"
    by (simp add: waited_for_def over_reset_def plan_reset_def pool_of_def plan_logins_def)
  have "next_paid i = Some dest \<and> (\<forall>c\<in>set (plan_logins i). \<not> has_room (m_reading c))
      \<and> ?far
      \<and> (\<not> live_over i \<longrightarrow> needs_swap (oi_settings i) (p_reading (oi_live i)) \<and> \<not> has_room (p_reading (oi_live i))
        \<and> p_reading (oi_live i) \<noteq> R_failed \<and> (\<forall>c\<in>set (plan_logins i). \<not> m_unknown c))"
  proof (cases "live_over i")
    case True
    then have v: "v_decision (decide_on_over i) = D_swap dest Overflow_in" using assms by (simp add: decide_overflow_def)
    show ?thesis using v True unfolding w
      by (cases rule: on_over_cases [of i]) (auto simp: paid_move_def dest: room_choice_None split: if_splits)
  next
    case False
    then have v: "v_decision (decide_on_plan i) = D_swap dest Overflow_in" using assms by (simp add: decide_overflow_def)
    have no_in: "decide s l cs t n \<noteq> D_swap dest Overflow_in" for s l cs t n
      using decide_swap [of s l cs t n dest Overflow_in] by (auto split: if_splits)
    show ?thesis using v False no_in unfolding w
      by (cases rule: on_plan_cases [of i]) (auto dest: no_capacity_move_needs)
  qed
  moreover from this next_in_Some [of i "unknown_plan i \<noteq> []" dest]
  have "dest \<in> set (tier_order i)" "\<not> blocked i dest" "Some dest \<noteq> oi_live_name i"
    "Some dest = platform_name i \<Longrightarrow> unknown_plan i = []"
    by (cases "unknown_plan i = []"; auto simp: next_paid_def)+
  ultimately show "dest \<in> set (tier_order i)" "\<not> blocked i dest" "Some dest \<noteq> oi_live_name i"
    "\<forall>c\<in>set (plan_logins i). \<not> has_room (m_reading c)" ?far
    "Some dest = platform_name i \<Longrightarrow> unknown_plan i = []"
    "\<not> live_over i \<Longrightarrow> needs_swap (oi_settings i) (p_reading (oi_live i)) \<and> \<not> has_room (p_reading (oi_live i))
      \<and> p_reading (oi_live i) \<noteq> R_failed \<and> (\<forall>c\<in>set (plan_logins i). \<not> m_unknown c)" by blast+
qed

lemma room_ends_paid:
  assumes "live_over i" "c \<in> set (plan_logins i)" "has_room (m_reading c)"
    and "s_session_at (oi_settings i) \<le> 100" "s_week_at (oi_settings i) \<le> 100"
  shows "\<exists>dest. v_decision (decide_overflow i) = D_swap dest Overflow_out
    \<and> (\<exists>c\<in>set (plan_logins i). m_name c = dest \<and> has_room (m_reading c))"
proof -
  have r: "room_choice (oi_settings i) None (plan_logins i) \<noteq> None" using room_choice_None assms(2,3) by blast
  have v: "v_decision (decide_overflow i) = v_decision (decide_on_over i)" using assms(1) by (simp add: decide_overflow_def)
  show ?thesis
  proof (cases rule: on_over_cases [of i])
    case (capacity dest h)
    then obtain c' where "c' \<in> set (usable_logins i)" "m_name c' = dest" using best_Some(1) by blast
    then show ?thesis using capacity(1) v capacity_room [OF _ assms(4,5)] by (auto simp: usable_logins_def)
  next
    case (room dest)
    then show ?thesis using v room_choice_Some(1) by fastforce
  qed (use r in auto)
qed

section \<open>The target of a swap\<close>

lemma decide_target:
  assumes "decide s live cs t now = D_swap dest r" shows "\<exists>c\<in>set cs. m_name c = dest \<and> m_reading c \<noteq> R_failed"
  by (rule decide_swapE [OF assms]) (auto simp: headroom_def)

lemma best_target: "best cs = Some (dest, h) \<Longrightarrow> \<exists>c\<in>set cs. m_name c = dest \<and> m_reading c \<noteq> R_failed"
  using best_Some(1) [of cs dest h] by (force simp: headroom_def)

lemma room_target: "room_choice s live plan = Some dest \<Longrightarrow> \<exists>c\<in>set plan. m_name c = dest \<and> m_reading c \<noteq> R_failed"
  using room_choice_Some(1) [of s live plan dest] by (force simp: has_room_def)

lemma next_target: "next_in i b = Some dest \<Longrightarrow> \<exists>c\<in>set (oi_candidates i). m_name c = dest \<and> m_reading c \<noteq> R_failed"
  using next_in_Some(5) [of i b dest] by (auto simp: may_take_def)

text \<open>A swap goes to a candidate whose probe did not fail.\<close>

lemma verdict_target:
  assumes "v_decision (decide_overflow i) = D_swap dest r"
  shows "\<exists>c\<in>set (oi_candidates i). m_name c = dest \<and> m_reading c \<noteq> R_failed"
proof -
  have plan: "\<exists>c\<in>set (oi_candidates i). m_name c = dest \<and> m_reading c \<noteq> R_failed"
    if "\<exists>c\<in>set (plan_logins i). m_name c = dest \<and> m_reading c \<noteq> R_failed"
    using that by (auto simp: plan_logins_in)
  show ?thesis
  proof (cases "live_over i")
    case True
    then have v: "v_decision (decide_on_over i) = D_swap dest r" using assms by (simp add: decide_overflow_def)
    show ?thesis
    proof (cases rule: on_over_cases [of i])
      case (capacity d h)
      then have "best (usable_logins i) = Some (dest, h)" using v by simp
      from best_target [OF this] show ?thesis by (intro plan) (auto simp: usable_logins_def)
    next
      case (room d)
      then show ?thesis using v by (intro plan room_target [of "oi_settings i" None]) simp
    next
      case (credit d)
      then show ?thesis using v by (intro next_target [of i True]) simp
    next
      case (key_out d h)
      then show ?thesis using v by (intro plan best_target [of _ dest h]) simp
    next
      case (paid d)
      then show ?thesis using v by (intro next_target [of i "unknown_plan i \<noteq> []"]) (simp add: paid_move_def next_paid_def split: if_splits)
    next
      case (blocked_out d h)
      then show ?thesis using v by (intro plan best_target [of _ dest h]) simp
    next
      case (failed d)
      then have "d = D_swap dest r" using v by simp
      from decide_target [OF failed(5) [OF this]] show ?thesis by (rule plan)
    next
      case stays
      then show ?thesis using v by auto
    qed
  next
    case False
    then have v: "v_decision (decide_on_plan i) = D_swap dest r" using assms by (simp add: decide_overflow_def)
    show ?thesis
    proof (cases rule: on_plan_cases [of i])
      case (stands d)
      then have "decide (oi_settings i) (p_reading (oi_live i)) (plan_logins i) (oi_swapped_at i) (oi_now i) = D_swap dest r"
        using v by simp
      from decide_target [OF this] show ?thesis by (rule plan)
    next
      case (room d r')
      then show ?thesis using v by (intro plan room_target) (simp add: room_move_def)
    next
      case alert
      then show ?thesis using v by simp
    next
      case (paid d)
      then show ?thesis using v by (intro next_target [of i "unknown_plan i \<noteq> []"]) (simp add: next_paid_def)
    next
      case (stuck d)
      then have "decide (oi_settings i) (p_reading (oi_live i)) (plan_logins i) (oi_swapped_at i) (oi_now i) = D_swap dest r"
        using v by simp
      from decide_target [OF this] show ?thesis by (rule plan)
    qed
  qed
qed

end
