(* ===== verification/Login_Settles.thy ===== *)
theory Login_Settles
  imports Login_Overflow_Facts
begin

text \<open>
  The rotator settles: on unchanged readings a swap is not followed by another one, in every branch of the overflow policy, when
  the upgrade margin is larger than what a login at a threshold can have left.
\<close>

section \<open>The next cycle\<close>

definition wide_margins :: "settings \<Rightarrow> bool" where
  "wide_margins s =
    (0 < s_margin s \<and> s_session_at s \<le> 100 \<and> s_week_at s \<le> 100
     \<and> s_margin s + (100 - min (s_session_at s) (s_week_at s)) \<le> s_upgrade_margin s)"

text \<open>The tiers as \<open>tiers_of\<close> makes them: names of their own, the API key last.\<close>

definition tiers_ok :: "overflow_entry list \<Rightarrow> bool" where
  "tiers_ok es =
    (distinct (map oe_name es) \<and> list_all (\<lambda>e. oe_tier e \<le> platform_tier) es
     \<and> length (filter (\<lambda>e. oe_tier e = platform_tier) es) \<le> 1)"

text \<open>
  The input of the next cycle after the login \<open>l\<close> was exchanged for the candidate \<open>c\<close>: the same readings, with the two
  logins in each other's place.
\<close>

definition moved :: "overflow_input \<Rightarrow> rstring \<Rightarrow> measured \<Rightarrow> overflow_input \<Rightarrow> bool" where
  "moved i l c j =
    (oi_live_name i = Some l \<and> distinct (l # map m_name (oi_candidates i)) \<and> c \<in> set (oi_candidates i)
     \<and> oi_live_name j = Some (m_name c) \<and> measured_new (m_name c) (oi_live j) = c
     \<and> set (oi_candidates j) = insert (measured_new l (oi_live i)) (set (oi_candidates i) - {c})
     \<and> oi_settings j = oi_settings i \<and> oi_overflow j = oi_overflow i \<and> oi_blocks j = oi_blocks i
     \<and> oi_platform_block j = oi_platform_block i \<and> oi_unmeasured_plan j = oi_unmeasured_plan i
     \<and> oi_refused j = oi_refused i \<and> oi_now j = oi_now i)"

lemma moved_same:
  assumes "moved i l c j"
  shows "tier_order j = tier_order i" "is_over j = is_over i" "platform_name j = platform_name i"
    "platform_blocked j = platform_blocked i" "oi_settings j = oi_settings i" "oi_now j = oi_now i"
    "p_reading (oi_live j) = m_reading c" "p_windows (oi_live j) = m_windows c" "p_spend_limit (oi_live j) = m_spend_limit c"
    "oi_live_name j = Some (m_name c)" "oi_live_name i = Some l" "c \<in> set (oi_candidates i)" "l \<noteq> m_name c"
    "l \<notin> m_name ` set (oi_candidates i)"
proof -
  show s: "tier_order j = tier_order i" "platform_name j = platform_name i" "platform_blocked j = platform_blocked i"
    using assms by (simp_all add: moved_def tier_order_def platform_name_def platform_blocked_def split: option.split)
  show "is_over j = is_over i" by (intro ext) (simp add: is_over_def s)
  have "c = measured_new (m_name c) (oi_live j)" using assms by (simp add: moved_def)
  then have "m_reading c = p_reading (oi_live j)" "m_windows c = p_windows (oi_live j)" "m_spend_limit c = p_spend_limit (oi_live j)"
    by (metis measured_new_def measured.select_convs)+
  then show "p_reading (oi_live j) = m_reading c" "p_windows (oi_live j) = m_windows c"
    "p_spend_limit (oi_live j) = m_spend_limit c" by simp_all
qed (use assms in \<open>auto simp: moved_def\<close>)

abbreviation was_live :: "overflow_input \<Rightarrow> rstring \<Rightarrow> measured" where
  "was_live i l \<equiv> measured_new l (oi_live i)"

lemma was_live_sel [simp]:
  "m_name (measured_new l p) = l" "m_reading (measured_new l p) = p_reading p" "m_windows (measured_new l p) = p_windows p"
  "m_spend_limit (measured_new l p) = p_spend_limit p" "m_unknown (measured_new l p) = p_unknown p"
  by (simp_all add: measured_new_def)

lemma same_name:
  assumes "moved i l c j" "c' \<in> set (oi_candidates i)" "m_name c' = m_name c" shows "c' = c"
  using assms by (auto simp: moved_def distinct_map inj_on_def)

lemma moved_candidates:
  assumes "moved i l c j"
  shows "set (oi_candidates j) = insert (was_live i l) (set (oi_candidates i) - {c})" using assms by (simp add: moved_def)

lemma moved_plan:
  assumes "moved i l c j"
  shows "set (plan_logins j) = (if is_over i l then {} else {was_live i l}) \<union> (set (plan_logins i) - {c})"
  using moved_candidates [OF assms] moved_same(2) [OF assms] by (auto simp: plan_logins_def)

lemma blocked_taken:
  assumes m: "moved i l c j" and c: "may_take i (m_name c) c" "\<not> blocked i (m_name c)"
  shows "\<not> blocked j (m_name c)"
proof -
  have "\<not> block_active (oi_blocks j) (m_name c) (oi_now j)" using c(2) m by (auto simp: blocked_def moved_def)
  moreover have "m_name c \<notin> set (new_blocks j)"
    using moved_same [OF m] c(1) by (auto simp: new_blocks_def may_take_def)
  moreover have "\<not> (platform_blocked j \<and> Some (m_name c) = platform_name j)" using c(2) moved_same [OF m] by (auto simp: blocked_def)
  ultimately show ?thesis by (simp add: blocked_def)
qed

lemma blocked_other:
  assumes m: "moved i l c j" and n: "n \<noteq> l" "n \<noteq> m_name c" shows "blocked j n \<longleftrightarrow> blocked i n"
proof -
  have "(\<exists>c'\<in>set (oi_candidates j). m_name c' = n \<and> m_spend_limit c')
      \<longleftrightarrow> (\<exists>c'\<in>set (oi_candidates i). m_name c' = n \<and> m_spend_limit c')"
    using moved_candidates [OF m] n by auto
  then have "n \<in> set (new_blocks j) \<longleftrightarrow> n \<in> set (new_blocks i)"
    using moved_same [OF m] n m by (auto simp: new_blocks_def list_ex_iff moved_def)
  then show ?thesis using moved_same [OF m] m by (simp add: blocked_def moved_def)
qed

lemma blocked_left:
  assumes m: "moved i l c j" and b: "blocked i l" "is_over i l" shows "blocked j l"
proof -
  have "l \<in> set (new_blocks i) \<Longrightarrow> l \<in> set (new_blocks j) \<or> block_active (oi_blocks j) l (oi_now j)"
    using moved_same [OF m] moved_candidates [OF m] b(2) m
    by (auto simp: new_blocks_def list_ex_iff is_over_def moved_def split: if_splits)
  then show ?thesis using b(1) moved_same [OF m] m by (auto simp: blocked_def moved_def)
qed

lemma moved_next_in:
  assumes m: "moved i l c j" and n: "next_in i b = None" and l: "is_over i l \<Longrightarrow> blocked i l \<or> b \<and> Some l = platform_name i"
  shows "next_in j b = None"
  unfolding next_in_None
proof (intro ballI impI notI)
  fix n c' assume x: "n \<in> set (tier_order j)" "Some n \<noteq> oi_live_name j" "\<not> blocked j n" "\<not> (b \<and> Some n = platform_name j)"
    "c' \<in> set (oi_candidates j)" "may_take j n c'"
  note s = moved_same [OF m]
  show False
  proof (cases "c' = was_live i l")
    case True
    then have "n = l" using x(6) by (simp add: may_take_def)
    with x(1,3,4) l blocked_left [OF m] show False by (auto simp: s is_over_def)
  next
    case False
    then have c: "c' \<in> set (oi_candidates i)" "n = m_name c'" using x(5,6) moved_candidates [OF m] by (auto simp: may_take_def)
    then have "n \<noteq> l" "n \<noteq> m_name c" using s x(2) by auto
    then have "\<not> blocked i n" using blocked_other [OF m] x(3) by simp
    moreover have "may_take i n c'" using x(6) by (simp add: may_take_def)
    ultimately show False using n x c \<open>n \<noteq> l\<close> by (auto simp: s next_in_None)
  qed
qed

lemma moved_unknown:
  assumes "moved i l c j" "p_reading (oi_live i) \<noteq> R_failed" "m_reading c \<noteq> R_failed"
  shows "unknown_plan j = [] \<longleftrightarrow> unknown_plan i = []"
proof -
  have "(\<forall>x\<in>set (plan_logins j). m_reading x \<noteq> R_failed) \<longleftrightarrow> (\<forall>x\<in>set (plan_logins i). m_reading x \<noteq> R_failed)"
    using moved_plan [OF assms(1)] assms(2,3) by auto
  moreover have "oi_unmeasured_plan j = oi_unmeasured_plan i" "oi_refused j = oi_refused i" using assms(1) by (simp_all add: moved_def)
  ultimately show ?thesis using moved_same(2) [OF assms(1)] by (auto simp: unknown_plan_def filter_empty_conv)
qed

text \<open>The API key is tried only when no credit profile can be taken.\<close>

lemma sorted_first:
  assumes "List.map_filter f (filter P (map g xs)) = y # r"
  obtains pre x post where "xs = pre @ x # post" "P (g x)" "f (g x) = Some y" "\<And>z. z \<in> set pre \<Longrightarrow> P (g z) \<Longrightarrow> f (g z) = None"
proof -
  have "\<exists>pre x post. xs = pre @ x # post \<and> P (g x) \<and> f (g x) = Some y \<and> (\<forall>z\<in>set pre. P (g z) \<longrightarrow> f (g z) = None)"
    using assms
  proof (induction xs)
    case (Cons a xs)
    show ?case
    proof (cases "P (g a) \<and> f (g a) \<noteq> None")
      case True
      then have "a # xs = [] @ a # xs" "P (g a)" "f (g a) = Some y" using Cons.prems by (auto simp: List.map_filter_def)
      then show ?thesis by (intro exI [of _ "[]"]) auto
    next
      case False
      then have "List.map_filter f (filter P (map g xs)) = y # r" using Cons.prems
        by (auto simp: List.map_filter_def split: if_splits)
      from Cons.IH [OF this] obtain pre x post where
        "xs = pre @ x # post" "P (g x)" "f (g x) = Some y" "\<forall>z\<in>set pre. P (g z) \<longrightarrow> f (g z) = None" by blast
      with False show ?thesis by (intro exI [of _ "a # pre"] exI [of _ x] exI [of _ post]) auto
    qed
  qed (simp add: List.map_filter_def)
  then show thesis using that by blast
qed

lemma key_last:
  assumes t: "tiers_ok (oi_overflow i)" and n: "next_in i b = Some k" "platform_name i = Some k"
  shows "next_in i True = None"
  unfolding next_in_None
proof (intro ballI impI notI)
  fix n c assume x: "n \<in> set (tier_order i)" "Some n \<noteq> oi_live_name i" "\<not> blocked i n"
    "\<not> (True \<and> Some n = platform_name i)" "c \<in> set (oi_candidates i)" "may_take i n c"
  define es where "es = sort_key oe_tier (oi_overflow i)"
  define P where "P n \<longleftrightarrow> (Some n \<noteq> oi_live_name i \<and> \<not> blocked i n) \<and> \<not> (b \<and> Some n = platform_name i)" for n
  define f where "f n = find (may_take i n) (oi_candidates i)" for n
  have es: "distinct (map oe_name es)" "\<And>e. e \<in> set es \<Longrightarrow> oe_tier e \<le> platform_tier" "sorted (map oe_tier es)"
    "set es = set (oi_overflow i)"
    using t distinct_map by (auto simp: es_def tiers_ok_def list_all_iff distinct_map)
  have "filter P (map oe_name es) = filter (\<lambda>n. Some n \<noteq> oi_live_name i \<and> \<not> blocked i n)
      (filter (\<lambda>n. \<not> (b \<and> Some n = platform_name i)) (tier_order i))"
    by (auto simp: P_def es_def tier_order_def intro!: filter_cong)
  then obtain y r where "List.map_filter f (filter P (map oe_name es)) = y # r" "m_name y = k"
    using n(1) by (auto simp: next_in_def f_def [abs_def] split: list.splits)
  then obtain pre e post where e: "es = pre @ e # post" "f (oe_name e) = Some y" "m_name y = k"
    "\<And>z. z \<in> set pre \<Longrightarrow> P (oe_name z) \<Longrightarrow> f (oe_name z) = None" by (elim sorted_first) blast
  have ek: "oe_name e = k" using e(2,3) by (auto simp: f_def find_Some_iff may_take_def)
  obtain p where p: "find (\<lambda>e. oe_tier e = platform_tier) es = Some p" "oe_name p = k"
    using n(2) by (auto simp: platform_name_def es_def)
  then have "p \<in> set es" "oe_tier p = platform_tier" by (auto simp: find_Some_iff)
  moreover have "e \<in> set es" using e(1) by simp
  ultimately have et: "oe_tier e = platform_tier" using es(1) ek p(2) by (auto simp: distinct_map inj_on_def)
  obtain z where z: "z \<in> set es" "oe_name z = n" using x(1) by (auto simp: tier_order_def es_def)
  have "P n" using x by (auto simp: P_def)
  moreover have "f n \<noteq> None" using x(5,6) by (auto simp: f_def find_None_iff)
  ultimately have "z \<notin> set pre" using e(4) [of z] z(2) by auto
  moreover have "z \<noteq> e" using z(2) ek x(4) n(2) by auto
  ultimately have "z \<in> set post" using z(1) e(1) by auto
  then have "platform_tier \<le> oe_tier z" using es(3) e(1) et by (auto simp: sorted_append)
  then have zt: "oe_tier z = platform_tier" using es(2) z(1) by (auto intro: antisym)
  have "card (set (filter (\<lambda>e. oe_tier e = platform_tier) (oi_overflow i))) \<le> 1"
    using t card_length [of "filter (\<lambda>e. oe_tier e = platform_tier) (oi_overflow i)"] by (simp add: tiers_ok_def)
  moreover have "{z, e} \<subseteq> set (filter (\<lambda>e. oe_tier e = platform_tier) (oi_overflow i))"
    using zt et z(1) e(1) es(4) by auto
  ultimately have "card {z, e} \<le> 1" using card_mono [OF finite_set] by (meson le_trans)
  then show False using \<open>z \<noteq> e\<close> by simp
qed


section \<open>After a swap\<close>

definition is_swap :: "decision \<Rightarrow> bool" where
  "is_swap d = (case d of D_swap _ _ \<Rightarrow> True | _ \<Rightarrow> False)"

lemma is_swap_simps [simp]: "is_swap (D_swap d r)" "\<not> is_swap D_stay" "\<not> is_swap D_alert"
  by (simp_all add: is_swap_def)

text \<open>On a paid profile that may be used, with no room on the plan logins, nothing moves.\<close>

lemma on_paid_stays:
  assumes "live_over j" "\<forall>c\<in>set (plan_logins j). \<not> has_room (m_reading c)" "p_reading (oi_live j) \<noteq> R_failed"
    and "\<not> blocked j (the (oi_live_name j))" "oi_live_name j \<noteq> None" "live_platform j \<Longrightarrow> next_in j True = None"
    and s: "s_session_at (oi_settings j) \<le> 100" "s_week_at (oi_settings j) \<le> 100"
  shows "\<not> is_swap (v_decision (decide_overflow j))"
proof -
  have v: "decide_overflow j = decide_on_over j" using assms(1) by (simp add: decide_overflow_def)
  have u: "best (usable_logins j) = None"
    using assms(2) capacity_room [OF _ s] by (auto simp: usable_logins_def best_None)
  have p: "\<not> platform_blocked j" if "live_platform j"
    using that assms(4) by (auto simp: live_platform_def blocked_def)
  show ?thesis
  proof (cases rule: on_over_cases [of j])
    case (room dest)
    then show ?thesis using assms(2) room_choice_Some(1) by blast
  qed (use assms u v p in \<open>auto\<close>)
qed

lemma moved_live_over: "moved i l c j \<Longrightarrow> live_over j = is_over i (m_name c)"
  using moved_same [of i l c j] by (simp add: live_over_def)

lemma moved_live_over': "moved i l c j \<Longrightarrow> live_over i = is_over i l"
  using moved_same [of i l c j] by (simp add: live_over_def)

lemma paid_settles:
  assumes m: "moved i l c j" and w: "s_session_at (oi_settings i) \<le> 100" "s_week_at (oi_settings i) \<le> 100"
    and t: "tiers_ok (oi_overflow i)" and d: "next_in i b = Some (m_name c)"
    and r: "\<forall>c\<in>set (plan_logins i). \<not> has_room (m_reading c)" "\<not> is_over i l \<Longrightarrow> \<not> has_room (p_reading (oi_live i))"
    and l: "is_over i l \<Longrightarrow> blocked i l \<or> Some l = platform_name i"
  shows "\<not> is_swap (v_decision (decide_overflow j))"
proof -
  note s = moved_same [OF m]
  have n: "m_name c \<in> set (tier_order i)" "\<not> blocked i (m_name c)" using next_in_Some [OF d] by auto
  obtain c' where "c' \<in> set (oi_candidates i)" "may_take i (m_name c) c'" using next_in_Some(5) [OF d] by auto
  then have mt: "may_take i (m_name c) c" using same_name [OF m, of c'] by (auto simp: may_take_def)
  show ?thesis
  proof (rule on_paid_stays)
    show "live_over j" using moved_live_over [OF m] n by (simp add: is_over_def)
    show "\<forall>c\<in>set (plan_logins j). \<not> has_room (m_reading c)" using r moved_plan [OF m] by auto
    show "p_reading (oi_live j) \<noteq> R_failed" using mt by (simp add: s may_take_def)
    show "\<not> blocked j (the (oi_live_name j))" using blocked_taken [OF m mt n(2)] by (simp add: s)
    show "next_in j True = None" if "live_platform j"
      using that l by (intro moved_next_in [OF m] key_last [OF t d]) (auto simp: live_platform_def s)
  qed (use w in \<open>simp_all add: s\<close>)
qed

text \<open>On a plan login that has the most headroom of all.\<close>

lemma decide_top:
  assumes "\<And>x h. x \<in> set cs \<Longrightarrow> \<not> is_exhausted (m_reading x) \<Longrightarrow> headroom (m_reading x) = Some h \<Longrightarrow> h \<le> k"
    and "headroom live = Some k" "0 < s_margin s"
  shows "\<not> is_swap (decide s live cs t n)" "decide s live cs t n = D_alert \<or> \<not> needs_swap s live"
proof -
  have "decide s live cs t n \<noteq> D_swap dest r" for dest r
  proof
    assume "decide s live cs t n = D_swap dest r"
    from decide_swap [OF this] assms show False by (fastforce split: if_splits)
  qed
  then show *: "\<not> is_swap (decide s live cs t n)" by (auto simp: is_swap_def split: decision.splits)
  show "decide s live cs t n = D_alert \<or> \<not> needs_swap s live"
    using * by (auto simp: decide_def Let_def is_swap_def split: if_splits option.splits)
qed

lemma on_plan_top_stays:
  assumes "\<not> live_over j" "headroom (p_reading (oi_live j)) = Some k" "0 < s_margin (oi_settings j)"
    and top: "\<And>x h. x \<in> set (plan_logins j) \<Longrightarrow> \<not> is_exhausted (m_reading x) \<Longrightarrow> headroom (m_reading x) = Some h \<Longrightarrow> h \<le> k"
    and room: "needs_swap (oi_settings j) (p_reading (oi_live j)) \<Longrightarrow> room_move j = None"
    and paid: "needs_swap (oi_settings j) (p_reading (oi_live j)) \<Longrightarrow>
      far (gate_of_settings (oi_settings j)) (plan_reset j) (oi_now j) \<Longrightarrow> next_paid j = None"
  shows "\<not> is_swap (v_decision (decide_overflow j))"
proof -
  have v: "decide_overflow j = decide_on_plan j" using assms(1) by (simp add: decide_overflow_def)
  have d: "\<not> is_swap (decide (oi_settings j) (p_reading (oi_live j)) (plan_logins j) t n)" for t n
    using top by (rule decide_top(1)) (use assms in auto)
  show ?thesis
    by (cases rule: on_plan_cases [of j]) (use d v room paid no_capacity_move_needs [of j] in auto)
qed

section \<open>Readings that are numbers\<close>

definition numeric :: "reading \<Rightarrow> bool" where
  "numeric r = (case r of R_measured a b \<Rightarrow> \<not> is_nan a \<and> \<not> is_nan b | _ \<Rightarrow> True)"

lemma ample_usable:
  assumes "headroom r = Some h" "\<not> is_exhausted r" "numeric r" "wide_margins s" "s_upgrade_margin s \<le> h"
  shows "plan_usable s r"
proof -
  have "\<not> needs_swap s r" using assms(4,5) by (intro ample_capacity(1) [OF assms(1)]) (auto simp: wide_margins_def)
  then show ?thesis using assms(1-3) f_of_nat_parts(3)
    by (auto simp: needs_swap_def plan_usable_def plan_capacity_def gate_of_settings_def f_le_def f_lt_def numeric_def
      is_exhausted_def headroom_def split: reading.splits)
qed

lemma no_room_headroom:
  assumes "headroom r = Some h" "\<not> is_exhausted r" "numeric r" "\<not> has_room r" shows "h = 0"
proof (cases r)
  case (R_measured a b)
  then have "f_le (f_of_nat 100) a \<or> f_le (f_of_nat 100) b"
    using assms(3,4) f_of_nat_parts(3) [of 100] by (auto simp: has_room_def room_def numeric_def f_lt_def f_le_def)
  then show ?thesis using headroom_at [of a b h 100] assms(1) R_measured by simp
qed (use assms in \<open>auto simp: headroom_def is_exhausted_def\<close>)

lemma low_headroom:
  assumes "needs_swap s r" "r \<noteq> R_failed" "wide_margins s" "headroom r = Some h"
  shows "h + s_margin s \<le> s_upgrade_margin s"
  using needs_swap_headroom [OF assms(1,2) _ _ assms(4)] assms(3) by (auto simp: wide_margins_def)

text \<open>The login with the most room stays the first choice when it is live.\<close>

lemma room_choice_again:
  assumes c: "room_choice s live plan = Some (m_name c)" "c \<in> set plan"
    and e: "set (c # plan') = set ((case live of Some l \<Rightarrow> [l] | None \<Rightarrow> []) @ plan)"
    and n: "inj_on m_name (set ((case live of Some l \<Rightarrow> [l] | None \<Rightarrow> []) @ plan))"
  shows "room_choice s (Some c) plan' = None"
proof -
  define ms where "ms = (case live of Some l \<Rightarrow> [l] | None \<Rightarrow> []) @ plan"
  obtain a b where m: "min_by (\<lambda>a b. room_key a < room_key b) (room_pool s ms) = Some (m_name c, a, b)"
    using c(1) by (fastforce simp: room_choice_pool ms_def split: option.splits if_splits)
  have "inj_on room_key (set (room_pool s ms))"
  proof (rule inj_onI)
    fix x y assume x: "x \<in> set (room_pool s ms)" "y \<in> set (room_pool s ms)" "room_key x = room_key y"
    from x(3) have "fst x = fst y" by (simp add: room_key_def)
    obtain mx where mx: "mx \<in> set ms" "room_entry mx = Some x" using room_pool_subset [OF x(1)] by blast
    obtain my where my: "my \<in> set ms" "room_entry my = Some y" using room_pool_subset [OF x(2)] by blast
    have "m_name mx = fst x" "m_name my = fst y" using mx(2) my(2) by (cases x; cases y; simp add: room_entry_Some)+
    then have "mx = my" using \<open>fst x = fst y\<close> inj_onD [OF n [folded ms_def] _ mx(1) my(1)] by simp
    then show "x = y" using mx(2) my(2) by simp
  qed
  moreover have "set (room_pool s (c # plan')) = set (room_pool s ms)"
    using e by (intro room_pool_set) (simp add: ms_def)
  ultimately have "min_by (\<lambda>a b. room_key a < room_key b) (room_pool s (c # plan')) = Some (m_name c, a, b)"
    using m by (intro min_by_unique [OF m]) auto
  then show ?thesis by (simp add: room_choice_pool)
qed

text \<open>With capacity on some plan login, the login with the most room has capacity.\<close>

lemma room_choice_usable:
  assumes "room_choice s live plan = Some (m_name c)" "c \<in> set plan" "x \<in> set plan" "plan_usable s (m_reading x)"
    and w: "s_session_at s \<le> 100" "s_week_at s \<le> 100"
    and n: "inj_on m_name (set ((case live of Some l \<Rightarrow> [l] | None \<Rightarrow> []) @ plan))"
  shows "plan_usable s (m_reading c)"
proof -
  define ms where "ms = (case live of Some l \<Rightarrow> [l] | None \<Rightarrow> []) @ plan"
  obtain a b where m: "min_by (\<lambda>a b. room_key a < room_key b) (room_pool s ms) = Some (m_name c, a, b)"
    using assms(1) by (fastforce simp: room_choice_pool ms_def split: option.splits if_splits)
  obtain xa xb where x: "m_reading x = R_measured xa xb" "f_lt xa (f_of_nat (s_session_at s))" "f_lt xb (f_of_nat (s_week_at s))"
    using assms(4) by (auto simp: plan_usable_def plan_capacity_def gate_of_settings_def split: reading.splits)
  have "has_room (m_reading x)" using capacity_room [OF assms(4) w] .
  then have "room_entry x = Some (m_name x, xa, xb)" using x by (simp add: room_entry_Some has_room_def)
  then have xin: "(m_name x, xa, xb) \<in> set (List.map_filter room_entry ms)" using assms(3) by (auto simp: in_map_filter ms_def)
  have p: "room_pool s ms = filter (\<lambda>(_, session, _). f_lt session (f_of_nat (s_session_at s))) (List.map_filter room_entry ms)"
    using xin x(2) by (auto simp: room_pool_def Let_def filter_empty_conv)
  have a: "f_lt a (f_of_nat (s_session_at s))" using min_by_least(1) [OF m] p by auto
  have "room_key (m_name c, a, b) \<le> room_key (m_name x, xa, xb)" using min_by_least(2) [OF m] p xin x(2) by auto
  then have k: "total_key b \<le> total_key xb" by (auto simp: room_key_def less_eq_prod_def)
  obtain c' where c': "c' \<in> set ms" "room_entry c' = Some (m_name c, a, b)"
    using room_pool_subset [OF min_by_least(1) [OF m]] by auto
  then have "c' = c" using n [folded ms_def] assms(2) by (auto simp: room_entry_Some ms_def dest: inj_onD)
  then have r: "m_reading c = R_measured a b" "room a b" using c'(2) by (auto simp: room_entry_Some)
  then have "f_lt b (f_of_nat (s_week_at s))" using total_key_le_lt [OF k x(3)] by (auto simp: room_def f_lt_def)
  with a r show ?thesis by (simp add: plan_usable_def plan_capacity_def gate_of_settings_def)
qed


section \<open>Settling\<close>

definition readings_ok :: "overflow_input \<Rightarrow> bool" where
  "readings_ok i =
    (p_reading (oi_live i) \<noteq> R_failed \<and> numeric (p_reading (oi_live i)) \<and> list_all (\<lambda>c. numeric (m_reading c)) (oi_candidates i))"

lemma plan_inj:
  assumes "moved i l c j" shows "inj_on m_name (set (was_live i l # plan_logins i))"
  using assms by (auto simp: moved_def distinct_map plan_logins_def inj_on_def)

lemma plan_member:
  assumes m: "moved i l c j" and x: "x \<in> set (plan_logins i)" "m_name x = m_name c" shows "c \<in> set (plan_logins i)"
  using same_name [OF m, of x] x by (simp add: plan_logins_in)

lemma next_plan:
  assumes m: "moved i l c j" and c: "c \<in> set (plan_logins i)"
  shows "\<not> live_over j" "insert c (set (plan_logins j)) = (if is_over i l then {} else {was_live i l}) \<union> set (plan_logins i)"
  using moved_plan [OF m] moved_live_over [OF m] c by (auto simp: plan_logins_in)

lemma room_move_next:
  assumes m: "moved i l c j"
  shows "room_move j = room_choice (oi_settings i) (Some c) (plan_logins j)"
  using moved_same [OF m] m by (simp add: room_move_def moved_def)

text \<open>After a choice by room: the live login has the most room, so nothing moves but an upgrade, and there is none.\<close>

lemma room_settles:
  assumes m: "moved i l c j" and c: "c \<in> set (plan_logins i)"
    and ch: "room_choice (oi_settings i) (if is_over i l then None else Some (was_live i l)) (plan_logins i) = Some (m_name c)"
    and w: "wide_margins (oi_settings i)" and ok: "readings_ok i"
    and l: "\<not> is_over i l \<Longrightarrow> needs_swap (oi_settings i) (p_reading (oi_live i))"
    and up: "\<And>x h. x \<in> set (plan_logins i) \<Longrightarrow> \<not> is_exhausted (m_reading x) \<Longrightarrow> headroom (m_reading x) = Some h \<Longrightarrow>
      s_upgrade_margin (oi_settings i) \<le> h \<Longrightarrow> False"
  shows "\<not> is_swap (v_decision (decide_overflow j))"
proof -
  let ?s = "oi_settings i"
  note s = moved_same [OF m]
  have live: "p_reading (oi_live j) = m_reading c" by (rule s)
  have ws: "s_session_at ?s \<le> 100" "s_week_at ?s \<le> 100" using w by (simp_all add: wide_margins_def)
  have inj: "inj_on m_name (set ((case if is_over i l then None else Some (was_live i l) of Some x \<Rightarrow> [x] | None \<Rightarrow> []) @ plan_logins i))"
    using plan_inj [OF m] by (auto simp: inj_on_def)
  have again: "room_move j = None"
    unfolding room_move_next [OF m]
    by (rule room_choice_again [OF ch c _ inj]) (use next_plan(2) [OF m c] in auto)
  obtain c' where "c' \<in> set (plan_logins i)" "m_name c' = m_name c" "has_room (m_reading c')"
    using room_choice_Some(1) [OF ch] by auto
  then have room: "has_room (m_reading c)" using same_name [OF m, of c'] by (simp add: plan_logins_in)
  have nos: "\<not> is_swap (decide ?s (m_reading c) (plan_logins j) t n)" if "\<not> no_capacity_move j" "t = oi_swapped_at j" "n = oi_now j" for t n
  proof
    assume "is_swap (decide ?s (m_reading c) (plan_logins j) t n)"
    then obtain x r where d: "decide ?s (m_reading c) (plan_logins j) t n = D_swap x r"
      by (auto simp: is_swap_def split: decision.splits)
    obtain y h where y: "y \<in> set (plan_logins j)" "m_name y = x" "headroom (m_reading y) = Some h"
      "\<not> is_exhausted (m_reading y)"
      and r: "needs_swap ?s (m_reading c) \<Longrightarrow> r = Threshold"
        "\<not> needs_swap ?s (m_reading c) \<Longrightarrow> int (s_upgrade_margin ?s) \<le> gain (m_reading c) h"
      by (rule decide_swapE [OF d]) blast
    show False
    proof (cases "needs_swap ?s (m_reading c)")
      case True
      with r(1) that d obtain z where z: "z \<in> set (plan_logins j)" "plan_usable ?s (m_reading z)"
        by (auto simp: no_capacity_move_def s split: if_splits)
      have "z \<noteq> was_live i l" if "\<not> is_over i l" using l [OF that] z(2) capacity_below by auto
      then have "z \<in> set (plan_logins i)" using z(1) moved_plan [OF m] by (auto split: if_splits)
      then have "plan_usable ?s (m_reading c)" using room_choice_usable [OF ch c _ z(2) ws inj] by simp
      then show False using capacity_below True by blast
    next
      case False
      with r(2) have h: "s_upgrade_margin ?s \<le> h" by (auto simp: gain_def)
      have "y \<noteq> was_live i l" if "\<not> is_over i l"
        using low_headroom [OF l [OF that] _ w, of h] ok y(3) h w by (auto simp: readings_ok_def wide_margins_def)
      then have "y \<in> set (plan_logins i)" using y(1) moved_plan [OF m] by (auto split: if_splits)
      then show False using up y h by blast
    qed
  qed
  have v: "decide_overflow j = decide_on_plan j" using next_plan(1) [OF m c] by (simp add: decide_overflow_def)
  have nf: "m_reading c \<noteq> R_failed" using room by (auto simp: has_room_def)
  show ?thesis
  proof (cases rule: on_plan_cases [of j])
    case (stands d)
    then show ?thesis using v nos nf by (simp add: s)
  qed (use v again room in \<open>auto simp: s\<close>)
qed

lemma plan_settles:
  assumes m: "moved i l c j" and w: "wide_margins (oi_settings i)" and ok: "readings_ok i" and t: "tiers_ok (oi_overflow i)"
    and lo: "\<not> live_over i" and d: "v_decision (decide_overflow i) = D_swap (m_name c) r"
  shows "\<not> is_swap (v_decision (decide_overflow j))"
proof -
  let ?s = "oi_settings i"
  note s = moved_same [OF m]
  have ws: "s_session_at ?s \<le> 100" "s_week_at ?s \<le> 100" using w by (simp_all add: wide_margins_def)
  have lov: "\<not> is_over i l" using lo moved_live_over' [OF m] by simp
  have lnf: "p_reading (oi_live i) \<noteq> R_failed" using ok by (simp add: readings_ok_def)
  have v: "v_decision (decide_on_plan i) = D_swap (m_name c) r" using d lo by (simp add: decide_overflow_def)
  have num: "numeric (m_reading x)" if "x \<in> set (plan_logins i)" for x
    using that ok by (auto simp: readings_ok_def list_all_iff plan_logins_in)
  show ?thesis
  proof (cases rule: on_plan_cases [of i])
    case (stands dd)
    then have dd: "decide ?s (p_reading (oi_live i)) (plan_logins i) (oi_swapped_at i) (oi_now i) = D_swap (m_name c) r"
      and nm: "\<not> no_capacity_move i" using v lnf by auto
    obtain x h where x: "x \<in> set (plan_logins i)" "m_name x = m_name c" "headroom (m_reading x) = Some h"
      and top: "\<And>y k. y \<in> set (plan_logins i) \<Longrightarrow> \<not> is_exhausted (m_reading y) \<Longrightarrow> headroom (m_reading y) = Some k \<Longrightarrow> k \<le> h"
      and g: "needs_swap ?s (p_reading (oi_live i)) \<Longrightarrow> r = Threshold \<and> int (s_margin ?s) \<le> gain (p_reading (oi_live i)) h"
        "\<not> needs_swap ?s (p_reading (oi_live i)) \<Longrightarrow> 0 < gain (p_reading (oi_live i)) h
          \<and> int (s_upgrade_margin ?s) \<le> gain (p_reading (oi_live i)) h"
      by (rule decide_swapE [OF dd]) blast
    have gp: "0 < gain (p_reading (oi_live i)) h"
      using g w by (cases "needs_swap ?s (p_reading (oi_live i))") (auto simp: wide_margins_def)
    have c: "c \<in> set (plan_logins i)" "headroom (m_reading c) = Some h"
      using plan_member [OF m x(1,2)] same_name [OF m, of x] x by (auto simp: plan_logins_in)
    have nn: "\<not> needs_swap ?s (m_reading c)"
    proof (cases "needs_swap ?s (p_reading (oi_live i))")
      case True
      with g(1) nm dd obtain z where "z \<in> set (plan_logins i)" "m_name z = m_name c" "plan_usable ?s (m_reading z)"
        by (auto simp: no_capacity_move_def)
      then show ?thesis using same_name [OF m, of z] capacity_below by (auto simp: plan_logins_in)
    next
      case False
      with g(2) have "s_upgrade_margin ?s \<le> h" by (auto simp: gain_def)
      then show ?thesis using c(2) w by (intro ample_capacity(1) [OF c(2)]) (auto simp: wide_margins_def)
    qed
    show ?thesis
    proof (rule on_plan_top_stays)
      show "\<not> live_over j" using next_plan(1) [OF m c(1)] .
      show "headroom (p_reading (oi_live j)) = Some h" using c(2) by (simp add: s)
      show "0 < s_margin (oi_settings j)" using w by (simp add: s wide_margins_def)
      show "k \<le> h" if "y \<in> set (plan_logins j)" "\<not> is_exhausted (m_reading y)" "headroom (m_reading y) = Some k" for y k
      proof (cases "y = was_live i l")
        case True
        then show ?thesis using that(3) gp by (simp add: gain_def)
      next
        case False
        then show ?thesis using that moved_plan [OF m] top by (auto split: if_splits)
      qed
    qed (use nn in \<open>simp_all add: s\<close>)
  next
    case (room dest r')
    then have dest: "dest = m_name c" using v by auto
    have ch: "room_choice ?s (Some (was_live i l)) (plan_logins i) = Some (m_name c)"
      using room(4) by (simp add: room_move_def s dest)
    obtain x where x: "x \<in> set (plan_logins i)" "m_name x = m_name c" using room_choice_Some(1) [OF ch] by auto
    have ns: "needs_swap ?s (p_reading (oi_live i))" using no_capacity_move_needs room(2) by blast
    show ?thesis
    proof (rule room_settles [OF m plan_member [OF m x] _ w ok ns])
      show "room_choice ?s (if is_over i l then None else Some (was_live i l)) (plan_logins i) = Some (m_name c)"
        using ch lov by simp
      fix y h assume y: "y \<in> set (plan_logins i)" "\<not> is_exhausted (m_reading y)" "headroom (m_reading y) = Some h"
        "s_upgrade_margin ?s \<le> h"
      define dd where "dd = decide ?s (p_reading (oi_live i)) (plan_logins i) (oi_swapped_at i) (oi_now i)"
      have low: "int (s_margin ?s) \<le> int h - int (case headroom (p_reading (oi_live i)) of Some k \<Rightarrow> k | None \<Rightarrow> 0)"
        using low_headroom [OF ns lnf w] y(4) w by (auto simp: wide_margins_def split: option.splits)
      have "dd \<noteq> D_alert" using decide_alert(2) [OF _ y(1-3)] low by (force simp: dd_def)
      then obtain n where n: "dd = D_swap n Threshold"
        "\<forall>x\<in>set (plan_logins i). m_name x = n \<longrightarrow> \<not> plan_usable ?s (m_reading x)"
        using room(2) by (auto simp: no_capacity_move_def dd_def [symmetric] split: decision.splits reason.splits)
      obtain z k where z: "z \<in> set (plan_logins i)" "m_name z = n" "headroom (m_reading z) = Some k"
        "\<not> is_exhausted (m_reading z)" "h \<le> k"
        by (rule decide_swapE [OF n(1) [unfolded dd_def]]) (use y in blast)
      then show False using ample_usable [OF z(3,4) num [OF z(1)] w] y(4) n(2) by auto
    qed
  next
    case alert then show ?thesis using v by simp
  next
    case (paid dest)
    then have "next_in i (unknown_plan i \<noteq> []) = Some (m_name c)" using v by (simp add: next_paid_def)
    then show ?thesis using paid lov by (intro paid_settles [OF m ws t]) auto
  next
    case (stuck dd)
    then have dd: "decide ?s (p_reading (oi_live i)) (plan_logins i) (oi_swapped_at i) (oi_now i) = D_swap (m_name c) r"
      using v by simp
    obtain x h where x: "x \<in> set (plan_logins i)" "headroom (m_reading x) = Some h" "\<not> is_exhausted (m_reading x)"
      "int (s_margin ?s) \<le> gain (p_reading (oi_live i)) h"
      by (rule decide_swapE [OF dd]) (use no_capacity_move_needs [OF stuck(2)] in blast)
    have "h = 0" using no_room_headroom [OF x(2,3) num [OF x(1)]] stuck(6) x(1) by simp
    then show ?thesis using x(4) w by (auto simp: wide_margins_def gain_def)
  qed
qed


text \<open>Off a paid profile onto a plan login without room: the live login is the best of logins that all have nothing left.\<close>

lemma out_settles:
  assumes m: "moved i l c j" and c: "c \<in> set (plan_logins i)" and b: "best (plan_logins i) = Some (m_name c, h)"
    and w: "wide_margins (oi_settings i)" and ok: "readings_ok i" and l: "is_over i l" "blocked i l"
    and r: "\<forall>x\<in>set (plan_logins i). \<not> has_room (m_reading x)"
    and p: "far (gate_of_settings (oi_settings i)) (over_reset i) (oi_now i) \<Longrightarrow> next_paid i = None"
  shows "\<not> is_swap (v_decision (decide_overflow j))"
proof -
  note s = moved_same [OF m]
  have pj: "insert c (set (plan_logins j)) = set (plan_logins i)" using next_plan(2) [OF m c] l(1) by simp
  obtain x where x: "x \<in> set (plan_logins i)" "m_name x = m_name c" "headroom (m_reading x) = Some h"
    using best_Some(1) [OF b] by blast
  then have h: "headroom (m_reading c) = Some h" using same_name [OF m, of x] by (simp add: plan_logins_in)
  have nf: "m_reading c \<noteq> R_failed" using h by (auto simp: headroom_def)
  have reset: "plan_reset j = over_reset i"
  proof -
    have "set (pool_of (c # plan_logins j)) = set (pool_of (plan_logins i))" using pj by (auto simp: pool_of_def)
    then have e: "set (List.map_filter (\<lambda>(r, w). regains (oi_settings i) r w) (pool_of (c # plan_logins j)))
        = set (List.map_filter (\<lambda>(r, w). regains (oi_settings i) r w) (pool_of (plan_logins i)))"
      by (rule map_filter_set)
    have "earliest_plan_reset (oi_settings i) (pool_of (c # plan_logins j)) = earliest_plan_reset (oi_settings i) (pool_of (plan_logins i))"
    proof (cases "earliest_plan_reset (oi_settings i) (pool_of (plan_logins i))")
      case None
      then show ?thesis using e by (simp add: earliest_plan_reset_def)
    next
      case (Some t)
      then have "min_by (\<lambda>a b. id a < id b) (List.map_filter (\<lambda>(r, w). regains (oi_settings i) r w) (pool_of (plan_logins i))) = Some t"
        by (simp only: earliest_plan_reset_def id_apply)
      from min_by_unique [OF this e inj_on_id]
      have "earliest_plan_reset (oi_settings i) (pool_of (c # plan_logins j)) = Some t"
        by (simp only: earliest_plan_reset_def id_apply)
      then show ?thesis using Some by simp
    qed
    then show ?thesis by (simp add: plan_reset_def over_reset_def s pool_of_def)
  qed
  show ?thesis
  proof (rule on_plan_top_stays)
    show "\<not> live_over j" using next_plan(1) [OF m c] .
    show "headroom (p_reading (oi_live j)) = Some h" using h by (simp add: s)
    show "0 < s_margin (oi_settings j)" using w by (simp add: s wide_margins_def)
    show "k \<le> h" if "y \<in> set (plan_logins j)" "\<not> is_exhausted (m_reading y)" "headroom (m_reading y) = Some k" for y k
      using best_Some(2) [OF b _ that(2,3)] that(1) pj by auto
    show "room_move j = None"
    proof (rule ccontr)
      assume "room_move j \<noteq> None"
      then obtain n where "room_choice (oi_settings i) (Some c) (plan_logins j) = Some n" by (auto simp: room_move_next [OF m])
      from room_choice_Some(1) [OF this] show False using r pj by auto
    qed
    assume f: "far (gate_of_settings (oi_settings j)) (plan_reset j) (oi_now j)"
    then have "next_paid i = None" using p reset by (simp add: s)
    then have "next_in j (unknown_plan i \<noteq> []) = None"
      using l by (intro moved_next_in [OF m]) (auto simp: next_paid_def)
    then show "next_paid j = None" using moved_unknown [OF m _ nf] ok by (simp add: next_paid_def readings_ok_def)
  qed
qed

lemma over_settles:
  assumes m: "moved i l c j" and w: "wide_margins (oi_settings i)" and ok: "readings_ok i" and t: "tiers_ok (oi_overflow i)"
    and lo: "live_over i" and d: "v_decision (decide_overflow i) = D_swap (m_name c) r"
  shows "\<not> is_swap (v_decision (decide_overflow j))"
proof -
  let ?s = "oi_settings i"
  note s = moved_same [OF m]
  have ws: "s_session_at ?s \<le> 100" "s_week_at ?s \<le> 100" using w by (simp_all add: wide_margins_def)
  have lov: "is_over i l" using lo moved_live_over' [OF m] by simp
  have v: "v_decision (decide_on_over i) = D_swap (m_name c) r" using d lo by (simp add: decide_overflow_def)
  have num: "numeric (m_reading x)" if "x \<in> set (plan_logins i)" for x
    using that ok by (auto simp: readings_ok_def list_all_iff plan_logins_in)
  have usable: "x \<in> set (usable_logins i)" if "x \<in> set (plan_logins i)" "\<not> is_exhausted (m_reading x)"
    "headroom (m_reading x) = Some h" "s_upgrade_margin ?s \<le> h" for x h
    using ample_usable [OF that(3,2) num [OF that(1)] w that(4)] that(1) by (simp add: usable_logins_def)
  have no_room: "\<forall>x\<in>set (plan_logins i). \<not> has_room (m_reading x)" if "room_choice ?s None (plan_logins i) = None"
    by (rule room_choice_None [OF that])
  show ?thesis
  proof (cases rule: on_over_cases [of i])
    case (capacity dest h)
    then have b: "best (usable_logins i) = Some (m_name c, h)" using v by simp
    obtain x where x: "x \<in> set (usable_logins i)" "m_name x = m_name c" "headroom (m_reading x) = Some h"
      using best_Some(1) [OF b] by blast
    then have xi: "x \<in> set (plan_logins i)" by (simp add: usable_logins_def)
    have xc: "x = c" using same_name [OF m _ x(2)] xi by (simp add: plan_logins_in)
    note c = xi [unfolded xc]
    have cu: "\<not> needs_swap ?s (m_reading c)" using x(1) xc by (intro capacity_below) (simp add: usable_logins_def)
    have v': "decide_overflow j = decide_on_plan j" using next_plan(1) [OF m c] by (simp add: decide_overflow_def)
    have nos: "decide ?s (m_reading c) (plan_logins j) t n \<noteq> D_swap y q" for t n y q
    proof
      assume dd: "decide ?s (m_reading c) (plan_logins j) t n = D_swap y q"
      show False
      proof (rule decide_swapE [OF dd])
        fix z k assume z: "z \<in> set (plan_logins j)" "headroom (m_reading z) = Some k" "\<not> is_exhausted (m_reading z)"
          "\<not> needs_swap ?s (m_reading c) \<Longrightarrow> q = Upgrade \<and> \<not> held (s_hold ?s) t n \<and> 0 < gain (m_reading c) k
            \<and> int (s_upgrade_margin ?s) \<le> gain (m_reading c) k"
        then have g: "h < k" "s_upgrade_margin ?s \<le> k" using cu x(3) xc by (auto simp: gain_def)
        have "z \<in> set (plan_logins i)" using z(1) moved_plan [OF m] lov by auto
        then have "k \<le> h" using best_Some(2) [OF b usable [OF _ z(3,2) g(2)] z(3,2)] by simp
        then show False using g(1) by simp
      qed
    qed
    show ?thesis
    proof (cases rule: on_plan_cases [of j])
      case (stands dd)
      then show ?thesis using v' nos by (auto simp: s is_swap_def split: decision.splits)
    qed (use no_capacity_move_needs [of j] cu in \<open>auto simp: s\<close>)
  next
    case (room dest)
    then have ch: "room_choice ?s None (plan_logins i) = Some (m_name c)" using v by simp
    obtain x where x: "x \<in> set (plan_logins i)" "m_name x = m_name c" using room_choice_Some(1) [OF ch] by auto
    show ?thesis
    proof (rule room_settles [OF m plan_member [OF m x] _ w ok])
      show "room_choice ?s (if is_over i l then None else Some (was_live i l)) (plan_logins i) = Some (m_name c)"
        using ch lov by simp
      fix y h assume "y \<in> set (plan_logins i)" "\<not> is_exhausted (m_reading y)" "headroom (m_reading y) = Some h"
        "s_upgrade_margin ?s \<le> h"
      then show False using usable [of y h] room(2) by (auto simp: best_None)
    qed (use lov in simp)
  next
    case (credit dest)
    then show ?thesis using v no_room lov
      by (intro paid_settles [OF m ws t, of True]) (auto simp: live_platform_def s)
  next
    case (key_out dest h)
    then have b: "best (plan_logins i) = Some (m_name c, h)" using v by simp
    obtain x where x: "x \<in> set (plan_logins i)" "m_name x = m_name c" using best_Some(1) [OF b] by auto
    have lp: "Some l = platform_name i" using key_out(3) by (simp add: live_platform_def s)
    have "next_in i False = None" using key_out(4) lp by (auto simp: next_in_None s)
    then have "next_paid i = None" using key_out(4) by (cases "unknown_plan i = []") (simp_all add: next_paid_def)
    moreover have "blocked i l" using key_out(5) lp by (simp add: blocked_def)
    ultimately show ?thesis
      using no_room [OF key_out(2)] by (intro out_settles [OF m plan_member [OF m x] b w ok lov])
  next
    case (paid dest)
    then have "next_in i (unknown_plan i \<noteq> []) = Some (m_name c)" using v by (auto simp: paid_move_def next_paid_def split: if_splits)
    then show ?thesis using no_room [OF paid(2)] lov paid(4)
      by (intro paid_settles [OF m ws t]) (auto simp: s)
  next
    case (blocked_out dest h)
    then have b: "best (plan_logins i) = Some (m_name c, h)" using v by simp
    obtain x where x: "x \<in> set (plan_logins i)" "m_name x = m_name c" using best_Some(1) [OF b] by auto
    show ?thesis
      by (rule out_settles [OF m plan_member [OF m x] b w ok lov _ no_room [OF blocked_out(2)]])
        (use blocked_out(4,5) in \<open>auto simp: s paid_move_def\<close>)
  next
    case (failed dd)
    then show ?thesis using ok by (simp add: readings_ok_def)
  next
    case stays then show ?thesis using v by auto
  qed
qed

end
