(* ===== verification/Login_Cycle.thy ===== *)
theory Login_Cycle
  imports Login_Overflow
begin

text \<open>
  A rotate cycle's view and decision: which profiles may receive the login (\<open>rotate/candidates.rs\<close>), the snapshot and the
  measured decision (\<open>observe.rs\<close>), the freshness gate with its re-reads (\<open>fresh.rs\<close>), the damping of swaps back
  (\<open>swap_back.rs\<close>) and the capacity a cycle records (\<open>capacity.rs\<close>, \<open>alert.rs\<close>).  Clocks, re-reads and stop requests are
  arguments, one value for each pass of the loop.  Log lines are left out.
\<close>

section \<open>Candidates\<close>

datatype skip = Sk_live | Sk_refused | Sk_no_login | Sk_excluded | Sk_session_running | Sk_leased | Sk_hosting | Sk_parked
  | Sk_no_account | Sk_not_oauth

record candidate_input =
  ci_live :: "rstring option"
  ci_exclude :: "rstring list"

text \<open>What the store, the login files and the auto-switch ledger show of one profile.\<close>

record profile_facts =
  pf_dir_ok :: bool
  pf_movable_login :: bool
  pf_resolved :: resolved
  pf_session_running :: bool
  pf_leased :: bool
  pf_hosting :: bool
  pf_parked :: bool

definition login_skip :: "profile_facts \<Rightarrow> skip option" where
  "login_skip f =
    (if \<not> (pf_dir_ok f \<and> pf_movable_login f) then Some Sk_no_login
     else if \<not> may_be_live (pf_resolved f) then Some Sk_not_oauth else None)"

definition login_unusable :: "profile_facts \<Rightarrow> bool" where
  "login_unusable f = (pf_dir_ok f \<and> login_skip f \<noteq> None)"

definition skip_of :: "candidate_input \<Rightarrow> rstring \<Rightarrow> profile_facts \<Rightarrow> skip option" where
  "skip_of inp name f =
    (if ci_live inp = Some name then Some Sk_live
     else if \<not> pf_dir_ok f then Some (if name \<in> set (ci_exclude inp) then Sk_excluded else Sk_refused)
     else case login_skip f of
       Some s \<Rightarrow> Some s
     | None \<Rightarrow>
         if name \<in> set (ci_exclude inp) then Some Sk_excluded
         else if pf_session_running f then Some Sk_session_running
         else if pf_leased f then Some Sk_leased
         else if pf_hosting f then Some Sk_hosting
         else if pf_parked f then Some Sk_parked
         else None)"

definition candidates ::
  "('e, rstring list) result \<Rightarrow> (rstring \<Rightarrow> profile_facts) \<Rightarrow> candidate_input
    \<Rightarrow> ('e, rstring list \<times> (rstring \<times> skip) list) result" where
  "candidates listing facts inp =
    and_then listing (\<lambda>names.
      (let valid = filter valid_live_name names;
           skip = (\<lambda>n. skip_of inp n (facts n))
       in Inr (filter (\<lambda>n. skip n = None) valid,
           List.map_filter (\<lambda>n. map_option (\<lambda>s. (n, s)) (skip n)) valid)))"

definition refused_dirs :: "(rstring \<times> skip) list \<Rightarrow> rstring list" where
  "refused_dirs skips = map fst (filter (\<lambda>(_, s). s = Sk_refused) skips)"

section \<open>The snapshot\<close>

datatype live_id = Known rstring | Adopt | Ambiguous | Hand_changed rstring | Home_unreadable rstring | No_login

text \<open>The fields of the snapshot that the decision reads.\<close>

record snap =
  sn_live :: live_id
  sn_candidates :: "rstring list"
  sn_skips :: "(rstring \<times> skip) list"
  sn_overflow :: "overflow_entry list"
  sn_ignored :: "rstring list"
  sn_unmarked :: "rstring list"
  sn_home_no_oauth :: bool

definition snap_platform :: "snap \<Rightarrow> rstring option" where
  "snap_platform sn = map_option oe_name (find (\<lambda>e. oe_tier e = platform_tier) (sn_overflow sn))"

definition known_live :: "snap \<Rightarrow> rstring option" where
  "known_live sn = (case sn_live sn of Known n \<Rightarrow> Some n | _ \<Rightarrow> None)"

definition platform_live :: "snap \<Rightarrow> bool" where
  "platform_live sn = (sn_home_no_oauth sn \<and> known_live sn \<noteq> None)"

definition adopted_platform :: "snap \<Rightarrow> rstring option" where
  "adopted_platform sn =
    (case known_live sn of
       Some n \<Rightarrow> if platform_live sn \<and> snap_platform sn \<noteq> Some n then Some n else None
     | None \<Rightarrow> None)"

definition unmeasured_plan :: "snap \<Rightarrow> rstring list" where
  "unmeasured_plan sn =
    filter (\<lambda>n. \<not> list_ex (\<lambda>e. oe_name e = n) (sn_overflow sn) \<and> n \<notin> set (sn_unmarked sn) \<and> n \<notin> set (sn_ignored sn))
      (map fst (filter (\<lambda>(_, s). s \<in> {Sk_session_running, Sk_leased, Sk_hosting, Sk_parked, Sk_no_account}) (sn_skips sn)))"

definition refused_plan :: "snap \<Rightarrow> rstring list" where
  "refused_plan sn = filter (\<lambda>n. n \<notin> set (sn_unmarked sn) \<and> n \<notin> set (sn_ignored sn)) (refused_dirs (sn_skips sn))"

definition decision_overflow :: "snap \<Rightarrow> overflow_entry list" where
  "decision_overflow sn =
    (case adopted_platform sn of
       None \<Rightarrow> sn_overflow sn
     | Some n \<Rightarrow> filter (\<lambda>e. oe_tier e \<noteq> platform_tier) (sn_overflow sn) @ [\<lparr>oe_name = n, oe_tier = platform_tier\<rparr>])"

section \<open>The measured decision\<close>

type_synonym probes = "(rstring \<times> probed) list"

record measurement =
  me_live :: reading
  me_others :: "(rstring \<times> reading) list"
  me_decision :: decision
  me_note :: "rstring option"
  me_failed :: nat
  me_tag :: "tag option"
  me_new_blocks :: "rstring list"
  me_next_plan_reset :: "int option"
  me_unknown_plan :: "rstring list"
  me_key_held :: "rstring list"
  me_measured_at :: int
  me_probed :: "(probed \<times> probes) option"

text \<open>What the ledger holds of overflow and of swaps away; a missing ledger holds nothing.\<close>

record rotate_ledger =
  rl_swapped_at :: "int option"
  rl_platform_block :: "overflow_block option"
  rl_overflow_blocked :: blocks
  rl_swapped_away :: "rstring \<rightharpoonup> int"
  rl_alert :: "rstring option"
  rl_advisory_alert :: "rstring option"

definition empty_ledger :: rotate_ledger where
  "empty_ledger =
    \<lparr>rl_swapped_at = None, rl_platform_block = None, rl_overflow_blocked = Map.empty, rl_swapped_away = Map.empty,
     rl_alert = None, rl_advisory_alert = None\<rparr>"

text \<open>\<open>ledger\<close> is \<open>Inl\<close> for one that cannot be read; \<open>home_key\<close> is what \<open>key_check::reachable\<close> gives.\<close>

definition cycle_input :: "settings \<Rightarrow> snap \<Rightarrow> rotate_ledger \<Rightarrow> int \<Rightarrow> probed \<Rightarrow> probes \<Rightarrow> overflow_input" where
  "cycle_input s sn l t probe others =
    \<lparr>oi_settings = s, oi_live_name = known_live sn, oi_live = probe,
     oi_candidates = map (\<lambda>(n, p). measured_new n p) others, oi_unmeasured_plan = unmeasured_plan sn,
     oi_refused = refused_plan sn, oi_overflow = decision_overflow sn, oi_blocks = rl_overflow_blocked l,
     oi_platform_block = rl_platform_block l, oi_swapped_at = rl_swapped_at l, oi_now = t\<rparr>"

definition decide_measured ::
  "settings \<Rightarrow> snap \<Rightarrow> nat \<Rightarrow> ('e, rotate_ledger option) result \<Rightarrow> int \<Rightarrow> rstring option \<Rightarrow> probed \<Rightarrow> probes \<Rightarrow> int
    \<Rightarrow> ('e, measurement) result" where
  "decide_measured s sn failed_live ledger t home_key probe others measured_at =
    and_then ledger (\<lambda>lo.
      (let l = (case lo of Some l \<Rightarrow> l | None \<Rightarrow> empty_ledger);
           i = cycle_input s sn l t probe others;
           v = decide_overflow i;
           over = (case known_live sn of Some n \<Rightarrow> list_ex (\<lambda>e. oe_name e = n) (decision_overflow sn) | None \<Rightarrow> False);
           failed = (if over \<and> p_spend_limit probe then failed_live else next_failed failed_live (p_reading probe));
           (d, note) = damp (v_decision v) (p_reading probe) failed (rl_swapped_at l) t s;
           key = (if is_failed_probe_swap d \<and> \<not> platform_live sn then home_key else None);
           (d', note') = keep_for_home_key d note key;
           t' = (case (d', v_tag v) of (D_stay, Some Out) \<Rightarrow> Some On | _ \<Rightarrow> v_tag v)
       in Inr \<lparr>me_live = p_reading probe, me_others = map (\<lambda>(n, p). (n, p_reading p)) others, me_decision = d',
            me_note = note', me_failed = failed, me_tag = t', me_new_blocks = v_new_blocks v,
            me_next_plan_reset = v_next_plan_reset v, me_unknown_plan = v_unknown_plan v, me_key_held = v_key_held v,
            me_measured_at = measured_at, me_probed = Some (probe, others)\<rparr>))"

section \<open>The freshness gate\<close>

definition max_reading_age_secs :: int where "max_reading_age_secs = 300"
definition max_rereads_per_cycle :: nat where "max_rereads_per_cycle = 3"

datatype reread = Allowed | Never

definition read_at :: "probed \<Rightarrow> int \<Rightarrow> int option" where
  "read_at p measured_at =
    (if p_carried p \<or> p_still_running p \<or> p_unknown p \<or> p_reading p = R_failed then None
     else Some (case p_observed_at p of Some t \<Rightarrow> t | None \<Rightarrow> measured_at))"

definition stale :: "int option \<Rightarrow> int option \<Rightarrow> int option \<Rightarrow> int \<Rightarrow> bool" where
  "stale at_read live_read_at damped_at now =
    (case at_read of
       None \<Rightarrow> True
     | Some t \<Rightarrow>
         saturating_sub now t > max_reading_age_secs
         \<or> (case live_read_at of Some live \<Rightarrow> t < live | None \<Rightarrow> False)
         \<or> (case damped_at of Some d \<Rightarrow> t \<le> d | None \<Rightarrow> False))"

definition gated_target :: "decision \<Rightarrow> rstring option" where
  "gated_target d =
    (case d of
       D_swap dest r \<Rightarrow> (case r of Overflow_in \<Rightarrow> None | _ \<Rightarrow> Some dest)
     | _ \<Rightarrow> None)"

text \<open>What the loop meets in its pass \<open>k\<close>: its clock, a stop request, the time limit spent, the re-read of a login and the
  time it ended.\<close>

record gate_world =
  gw_hook :: bool
  gw_now :: "nat \<Rightarrow> int"
  gw_stopping :: "nat \<Rightarrow> bool"
  gw_spent :: "nat \<Rightarrow> bool"
  gw_reread :: "nat \<Rightarrow> rstring \<Rightarrow> probed"
  gw_read_end :: "nat \<Rightarrow> int"

definition fresh_probe :: "probed \<Rightarrow> int \<Rightarrow> probed" where
  "fresh_probe p ended =
    (if p_reading p = R_failed \<or> p_unknown p \<or> p_still_running p then probed_failed
     else p\<lparr>p_observed_at := Some ended, p_carried := False\<rparr>)"

datatype 'e gate_error = Gate_unsettled | Gate_ledger 'e

definition set_probe :: "rstring \<Rightarrow> probed \<Rightarrow> probes \<Rightarrow> probes" where
  "set_probe n p ps = AList.update n p ps"

text \<open>The target that is to be read again, if any, with its probe.\<close>

definition pending :: "(rstring \<Rightarrow> int option) \<Rightarrow> int option \<Rightarrow> probes \<Rightarrow> measurement \<Rightarrow> int \<Rightarrow> (rstring \<times> probed) option" where
  "pending damped live_at others m t =
    (case gated_target (me_decision m) of
       None \<Rightarrow> None
     | Some dest \<Rightarrow>
         (case map_of others dest of
            None \<Rightarrow> None
          | Some p \<Rightarrow> if \<not> stale (read_at p (me_measured_at m)) live_at (damped dest) t then None else Some (dest, p)))"

primrec settle_loop ::
  "gate_world \<Rightarrow> reread \<Rightarrow> (nat \<Rightarrow> probed \<Rightarrow> probes \<Rightarrow> int \<Rightarrow> ('e, measurement) result) \<Rightarrow> (rstring \<Rightarrow> int option) \<Rightarrow> probed
    \<Rightarrow> int option \<Rightarrow> nat \<Rightarrow> nat \<Rightarrow> nat \<Rightarrow> rstring list \<Rightarrow> probes \<Rightarrow> measurement \<Rightarrow> ('e gate_error, measurement) result" where
  "settle_loop w mode dec damped live live_at 0 k reads finished others m =
    (if pending damped live_at others m (gw_now w k) = None then Inr m else Inl Gate_unsettled)"
| "settle_loop w mode dec damped live live_at (Suc left) k reads finished others m =
    (case pending damped live_at others m (gw_now w k) of
       None \<Rightarrow> Inr m
     | Some (dest, _) \<Rightarrow>
         (let unread = (dest \<in> set finished \<or> mode = Never \<or> max_rereads_per_cycle \<le> reads \<or> \<not> gw_hook w)
          in if \<not> unread \<and> gw_stopping w k then Inr (m\<lparr>me_decision := D_stay\<rparr>)
             else
               (let reading = (\<not> unread \<and> \<not> gw_spent w k);
                    new = (if reading then fresh_probe (gw_reread w k dest) (gw_read_end w k) else probed_failed);
                    finished' = (if dest \<in> set finished then finished else finished @ [dest]);
                    others' = set_probe dest new others
                in case dec k live others' (me_measured_at m) of
                     Inl e \<Rightarrow> Inl (Gate_ledger e)
                   | Inr again \<Rightarrow>
                       settle_loop w mode dec damped live live_at left (k + 1) (if reading then reads + 1 else reads) finished'
                         others' again)))"

definition settle_gate ::
  "gate_world \<Rightarrow> reread \<Rightarrow> ('e, rotate_ledger option) result
    \<Rightarrow> (nat \<Rightarrow> probed \<Rightarrow> probes \<Rightarrow> int \<Rightarrow> ('e, measurement) result) \<Rightarrow> measurement \<Rightarrow> ('e gate_error, measurement) result" where
  "settle_gate w mode ledger dec m =
    (case gated_target (me_decision m) of
       None \<Rightarrow> Inr m
     | Some _ \<Rightarrow>
         (case me_probed m of
            None \<Rightarrow> Inr m
          | Some (live, others) \<Rightarrow>
              (case ledger of
                 Inl e \<Rightarrow> Inl (Gate_ledger e)
               | Inr lo \<Rightarrow>
                   settle_loop w mode dec (case lo of Some l \<Rightarrow> rl_swapped_away l | None \<Rightarrow> Map.empty) live
                     (read_at live (me_measured_at m)) (2 * length others) 0 0 [] others m)))"

text \<open>The gate of a cycle decides again with \<open>decide_measured\<close>; each decision reads the ledger, the clock and the key anew.\<close>

record decide_world =
  dw_ledger :: "nat \<Rightarrow> (rstring, rotate_ledger option) result"
  dw_now :: "nat \<Rightarrow> int"
  dw_home_key :: "nat \<Rightarrow> rstring option"

definition fresh_gate ::
  "settings \<Rightarrow> snap \<Rightarrow> nat \<Rightarrow> decide_world \<Rightarrow> gate_world \<Rightarrow> reread \<Rightarrow> (rstring, rotate_ledger option) result \<Rightarrow> measurement
    \<Rightarrow> (rstring gate_error, measurement) result" where
  "fresh_gate s sn failed_live dw w mode ledger m =
    settle_gate w mode ledger (\<lambda>k. decide_measured s sn failed_live (dw_ledger dw k) (dw_now dw k) (dw_home_key dw k)) m"

section \<open>Swaps back\<close>

definition max_entries :: nat where "max_entries = 16"
definition max_age_secs :: int where "max_age_secs = 7 * 86400"

definition full :: "reading \<Rightarrow> settings \<Rightarrow> bool" where
  "full r s =
    (case r of
       R_exhausted _ _ \<Rightarrow> True
     | R_measured session week \<Rightarrow> f_le (f_of_nat (s_session_at s)) session \<or> f_le (f_of_nat (s_week_at s)) week
     | R_failed \<Rightarrow> False)"

definition swap_back_room :: "reading \<Rightarrow> settings \<Rightarrow> bool" where
  "swap_back_room r s = ((case r of R_measured _ _ \<Rightarrow> True | _ \<Rightarrow> False) \<and> \<not> full r s)"

text \<open>The map of swaps away is a \<open>BTreeMap\<close>: its entries in name order.\<close>

definition cap :: "(rstring \<times> int) list \<Rightarrow> (rstring \<times> int) list" where
  "cap m =
    (let excess = length m - max_entries
     in if excess = 0 then m
        else (let old = take excess (sort (map (\<lambda>(n, at). (at, n)) m))
              in filter (\<lambda>(n, at). n \<notin> snd ` set old) m))"

definition valid_away :: "(rstring \<times> int) list \<Rightarrow> int \<Rightarrow> (rstring \<times> int) list" where
  "valid_away m now =
    cap (filter (\<lambda>(n, at). valid_live_name n \<and> 0 < at \<and> at \<le> saturating_add now max_reading_age_secs) m)"

definition prune_away :: "(rstring \<times> int) list \<Rightarrow> int \<Rightarrow> (rstring \<times> int) list" where
  "prune_away m now = cap (filter (\<lambda>(_, at). saturating_sub now at \<le> max_age_secs) m)"

definition lift_away :: "settings \<Rightarrow> int \<Rightarrow> (rstring \<times> int) list \<Rightarrow> rstring \<times> probed \<Rightarrow> (rstring \<times> int) list" where
  "lift_away s measured_at m np =
    (case map_of m (fst np) of
       None \<Rightarrow> m
     | Some at \<Rightarrow>
         if (case read_at (snd np) measured_at of Some r \<Rightarrow> at < r | None \<Rightarrow> False) \<and> swap_back_room (p_reading (snd np)) s
         then AList.delete (fst np) m else m)"

definition update_away ::
  "(rstring \<times> int) list \<Rightarrow> settings \<Rightarrow> rstring option \<Rightarrow> (probed \<times> probes) option \<Rightarrow> (rstring \<times> reading) option \<Rightarrow> int \<Rightarrow> int
    \<Rightarrow> (rstring \<times> int) list" where
  "update_away m s live probed left measured_at now =
    (let lifted = (case probed of
           None \<Rightarrow> m
         | Some (p, others) \<Rightarrow>
             foldl (lift_away s measured_at) m ((case live of Some n \<Rightarrow> [(n, p)] | None \<Rightarrow> []) @ others));
         recorded = (case left of
           Some (from, r) \<Rightarrow> if full r s then btree_insert from now lifted else lifted
         | None \<Rightarrow> lifted)
     in prune_away recorded now)"

section \<open>Capacity\<close>

datatype cycle_outcome = Swapped | Stayed | Stayed_unread | Alerted | Skipped | Held | Stopped

datatype room_seen = Fresh | Per_use | Unread

definition trusted :: "probed \<Rightarrow> bool" where
  "trusted p = (\<not> (p_carried p \<or> p_unknown p \<or> p_still_running p \<or> p_spend_limit p))"

definition probe_read :: "probed \<Rightarrow> bool" where
  "probe_read p = (trusted p \<and> p_reading p \<noteq> R_failed)"

definition below_100 :: "reading \<Rightarrow> bool" where
  "below_100 r =
    (case r of R_measured session week \<Rightarrow> f_lt session (f_of_nat 100) \<and> f_lt week (f_of_nat 100) | _ \<Rightarrow> False)"

definition room_of :: "probed option \<Rightarrow> reading \<Rightarrow> bool \<Rightarrow> room_seen" where
  "room_of probe r on_platform =
    (if on_platform then Per_use
     else if (case probe of None \<Rightarrow> True | Some p \<Rightarrow> trusted p \<and> below_100 (p_reading p)) \<and> below_100 r then Fresh
     else Unread)"

definition room_live :: "(probed \<times> probes) option \<Rightarrow> reading \<Rightarrow> bool \<Rightarrow> tag option \<Rightarrow> bool \<Rightarrow> room_seen" where
  "room_live probed r on_platform t spend_blocked =
    (if spend_blocked then Unread
     else
       (let probe = map_option fst probed
        in case room_of probe r on_platform of
             Unread \<Rightarrow>
               if t = Some On \<and> (case probe of Some p \<Rightarrow> probe_read p | None \<Rightarrow> False) then Per_use else Unread
           | x \<Rightarrow> x))"

definition no_capacity_kind :: rstring where "no_capacity_kind = lit ''no-capacity''"

definition alert_key :: "rstring \<Rightarrow> rstring option \<Rightarrow> rstring" where
  "alert_key kind live = kind @ lit '':'' @ (case live of Some n \<Rightarrow> n | None \<Rightarrow> lit ''-'')"

definition holds_alert :: "rotate_ledger \<Rightarrow> rstring \<Rightarrow> bool" where
  "holds_alert l key = (rl_alert l = Some key \<or> rl_advisory_alert l = Some key)"

definition should_alert :: "rotate_ledger \<Rightarrow> rstring \<Rightarrow> bool \<times> rotate_ledger" where
  "should_alert l key = (\<not> holds_alert l key, l\<lparr>rl_alert := Some key, rl_advisory_alert := None\<rparr>)"

definition should_alert_advisory :: "rotate_ledger \<Rightarrow> rstring \<Rightarrow> bool \<times> rotate_ledger" where
  "should_alert_advisory l key = (\<not> holds_alert l key, l\<lparr>rl_advisory_alert := Some key, rl_alert := None\<rparr>)"

definition clear_alert :: "rotate_ledger \<Rightarrow> rotate_ledger" where
  "clear_alert l = l\<lparr>rl_alert := None, rl_advisory_alert := None\<rparr>"

definition room_stay :: "room_seen \<Rightarrow> rotate_ledger \<Rightarrow> cycle_outcome \<times> rotate_ledger" where
  "room_stay x l = (if x \<in> {Fresh, Per_use} then (Stayed, clear_alert l) else (Stayed_unread, l))"

text \<open>The first component is whether the line is written to the log.\<close>

definition room_alert :: "room_seen \<Rightarrow> rotate_ledger \<Rightarrow> rstring \<Rightarrow> rstring \<Rightarrow> bool \<times> cycle_outcome \<times> rotate_ledger" where
  "room_alert x l kind key =
    (if x = Fresh \<and> kind = no_capacity_kind
     then (let (new, l') = should_alert_advisory l key in (new, Stayed, l'))
     else (let (new, l') = should_alert l key in (new, Alerted, l')))"

definition seen_at :: "(probed \<times> probes) option \<Rightarrow> int \<Rightarrow> int" where
  "seen_at probed measured_at =
    (case Option.bind probed (\<lambda>(p, _). read_at p measured_at) of Some t \<Rightarrow> min t measured_at | None \<Rightarrow> measured_at)"

definition spend_blocked :: "rotate_ledger \<Rightarrow> rstring option \<Rightarrow> rstring list \<Rightarrow> int \<Rightarrow> bool" where
  "spend_blocked l live new_bl now =
    (case live of
       Some n \<Rightarrow> n \<in> set new_bl \<or> (case rl_overflow_blocked l n of Some b \<Rightarrow> now < b_until b | None \<Rightarrow> False)
     | None \<Rightarrow> False)"

definition recorded_at :: "cycle_outcome \<Rightarrow> (probed \<times> probes) option \<Rightarrow> int \<Rightarrow> int" where
  "recorded_at o' probed measured_at = (if o' = Stayed then seen_at probed measured_at else measured_at)"

definition outcome_str :: "cycle_outcome \<Rightarrow> rstring" where
  "outcome_str o' =
    (case o' of Swapped \<Rightarrow> lit ''swapped'' | Stayed \<Rightarrow> lit ''stayed'' | Stayed_unread \<Rightarrow> lit ''stayed-unread''
     | Alerted \<Rightarrow> lit ''alerted'' | Skipped \<Rightarrow> lit ''skipped'' | Held \<Rightarrow> lit ''held'' | Stopped \<Rightarrow> lit ''stopped'')"

text \<open>
  The end of a cycle: the room of the live login, the outcome of the decision and what is saved of it.  Whether a swap went
  through and the kind and key of an alert come from outside.
\<close>

definition cycle_room :: "rotate_ledger \<Rightarrow> rstring option \<Rightarrow> bool \<Rightarrow> measurement \<Rightarrow> int \<Rightarrow> room_seen" where
  "cycle_room l live on_platform m t =
    room_live (me_probed m) (me_live m) on_platform (me_tag m) (spend_blocked l live (me_new_blocks m) t)"

definition cycle_end :: "bool \<Rightarrow> rstring \<Rightarrow> rstring \<Rightarrow> room_seen \<Rightarrow> rotate_ledger \<Rightarrow> decision \<Rightarrow> cycle_outcome" where
  "cycle_end went kind key x l d =
    (case d of
       D_swap _ _ \<Rightarrow> if went then Swapped else Alerted
     | D_stay \<Rightarrow> fst (room_stay x l)
     | D_alert \<Rightarrow> fst (snd (room_alert x l kind key)))"

definition cycle_saves ::
  "bool \<Rightarrow> rstring \<Rightarrow> rstring \<Rightarrow> rotate_ledger \<Rightarrow> rstring option \<Rightarrow> bool \<Rightarrow> measurement \<Rightarrow> int \<Rightarrow> rstring \<times> int" where
  "cycle_saves went kind key l live on_platform m t =
    (let o' = cycle_end went kind key (cycle_room l live on_platform m t) l (me_decision m)
     in (outcome_str o', recorded_at o' (me_probed m) (me_measured_at m)))"

end
