(* ===== verification/Login_Settings.thy ===== *)
theory Login_Settings
  imports Login_Cycle
begin

text \<open>
  The rotator's settings, from flags, variables and defaults, and their flags for the background process
  (\<open>rotate/settings.rs\<close>), the gate that auto-switch takes from a running rotator (\<open>gate_record.rs\<close>) and the record of the
  logins without room (\<open>no_room.rs\<close>).  An error is the name, the value and the range; its text is left out.
\<close>

section \<open>One setting\<close>

record spec =
  sp_flag :: rstring
  sp_var :: rstring
  sp_default :: nat
  sp_min :: nat
  sp_max :: "nat option"

definition session_at_spec :: spec where
  "session_at_spec = \<lparr>sp_flag = lit ''--session-at'', sp_var = lit ''AMPLIHACK_ROTATE_SESSION_AT'', sp_default = 85, sp_min = 1,
    sp_max = Some 100\<rparr>"
definition week_at_spec :: spec where
  "week_at_spec = \<lparr>sp_flag = lit ''--week-at'', sp_var = lit ''AMPLIHACK_ROTATE_WEEK_AT'', sp_default = 90, sp_min = 1,
    sp_max = Some 100\<rparr>"
definition margin_spec :: spec where
  "margin_spec = \<lparr>sp_flag = lit ''--margin'', sp_var = lit ''AMPLIHACK_ROTATE_MARGIN'', sp_default = 5, sp_min = 0,
    sp_max = Some 100\<rparr>"
definition upgrade_margin_spec :: spec where
  "upgrade_margin_spec = \<lparr>sp_flag = lit ''--upgrade-margin'', sp_var = lit ''AMPLIHACK_ROTATE_UPGRADE_MARGIN'', sp_default = 30,
    sp_min = 0, sp_max = Some 100\<rparr>"
definition hold_spec :: spec where
  "hold_spec = \<lparr>sp_flag = lit ''--hold'', sp_var = lit ''AMPLIHACK_ROTATE_HOLD'', sp_default = 3600, sp_min = 0, sp_max = None\<rparr>"
definition overflow_wait_spec :: spec where
  "overflow_wait_spec = \<lparr>sp_flag = lit ''--overflow-wait'', sp_var = lit ''AMPLIHACK_ROTATE_OVERFLOW_WAIT'', sp_default = 1800,
    sp_min = 0, sp_max = Some 604800\<rparr>"
definition overflow_unknown_reset_spec :: spec where
  "overflow_unknown_reset_spec = \<lparr>sp_flag = lit ''--overflow-unknown-reset'',
    sp_var = lit ''AMPLIHACK_ROTATE_OVERFLOW_UNKNOWN_RESET'', sp_default = 0, sp_min = 0, sp_max = Some 1\<rparr>"
definition interval_spec :: spec where
  "interval_spec = \<lparr>sp_flag = lit ''--interval'', sp_var = lit ''AMPLIHACK_ROTATE_INTERVAL'', sp_default = 600, sp_min = 1,
    sp_max = Some 86400\<rparr>"

datatype rotate_config_error = Rotate_config rstring rstring spec

definition in_spec :: "spec \<Rightarrow> nat \<Rightarrow> bool" where
  "in_spec sp v = (sp_min sp \<le> v \<and> (case sp_max sp of Some m \<Rightarrow> v \<le> m | None \<Rightarrow> True))"

definition spec_parse :: "spec \<Rightarrow> rstring \<Rightarrow> rstring \<Rightarrow> (rotate_config_error, nat) result" where
  "spec_parse sp name raw =
    (let fail = Inl (Rotate_config name (take 32 raw) sp)
     in if raw = [] \<or> \<not> list_all is_ascii_digit raw then fail
        else (case parse_digits 64 raw of None \<Rightarrow> fail | Some v \<Rightarrow> if in_spec sp v then Inr v else fail))"

type_synonym env_vars = "rstring \<Rightarrow> rstring option"

definition spec_resolve :: "spec \<Rightarrow> rstring option \<Rightarrow> env_vars \<Rightarrow> (rotate_config_error, nat) result" where
  "spec_resolve sp flag vars =
    (case flag of
       Some raw \<Rightarrow> spec_parse sp (sp_flag sp) raw
     | None \<Rightarrow>
         (case option_filter (\<lambda>v. v \<noteq> []) (vars (sp_var sp)) of
            Some v \<Rightarrow> spec_parse sp (sp_var sp) v
          | None \<Rightarrow> Inr (sp_default sp)))"

section \<open>All of them\<close>

record tune_flags =
  tf_session_at :: "rstring option"
  tf_week_at :: "rstring option"
  tf_margin :: "rstring option"
  tf_upgrade_margin :: "rstring option"
  tf_hold :: "rstring option"
  tf_overflow_wait :: "rstring option"
  tf_overflow_unknown_reset :: "rstring option"

definition resolve_settings :: "tune_flags \<Rightarrow> rstring option \<Rightarrow> env_vars \<Rightarrow> (rotate_config_error, settings) result" where
  "resolve_settings tune interval vars =
    and_then (spec_resolve session_at_spec (tf_session_at tune) vars) (\<lambda>session_at.
    and_then (spec_resolve week_at_spec (tf_week_at tune) vars) (\<lambda>week_at.
    and_then (spec_resolve margin_spec (tf_margin tune) vars) (\<lambda>margin.
    and_then (spec_resolve upgrade_margin_spec (tf_upgrade_margin tune) vars) (\<lambda>upgrade_margin.
    and_then (spec_resolve hold_spec (tf_hold tune) vars) (\<lambda>hold.
    and_then (spec_resolve interval_spec interval vars) (\<lambda>interval.
    and_then (spec_resolve overflow_wait_spec (tf_overflow_wait tune) vars) (\<lambda>wait.
    and_then (spec_resolve overflow_unknown_reset_spec (tf_overflow_unknown_reset tune) vars) (\<lambda>unknown.
      Inr \<lparr>s_session_at = session_at mod 256, s_week_at = week_at mod 256, s_margin = margin mod 256,
        s_upgrade_margin = upgrade_margin mod 256, s_hold = hold, s_interval = interval, s_overflow_wait = wait,
        s_overflow_unknown_reset = (unknown = 1)\<rparr>))))))))"

definition gate_from_env :: "env_vars \<Rightarrow> (rotate_config_error, overflow_gate) result" where
  "gate_from_env vars =
    and_then (spec_resolve overflow_wait_spec None vars) (\<lambda>wait.
    and_then (spec_resolve overflow_unknown_reset_spec None vars) (\<lambda>unknown.
    and_then (spec_resolve session_at_spec None vars) (\<lambda>session_at.
    and_then (spec_resolve week_at_spec None vars) (\<lambda>week_at.
      Inr \<lparr>g_wait = wait, g_unknown_reset = (unknown = 1), g_session_at = session_at mod 256, g_week_at = week_at mod 256\<rparr>))))"

definition gate_in_range :: "overflow_gate \<Rightarrow> bool" where
  "gate_in_range g =
    (in_spec session_at_spec (g_session_at g) \<and> in_spec week_at_spec (g_week_at g)
     \<and> (case sp_max overflow_wait_spec of Some m \<Rightarrow> g_wait g \<le> m | None \<Rightarrow> True))"

definition to_args :: "settings \<Rightarrow> bool \<Rightarrow> rstring list" where
  "to_args s with_interval =
    concat (map (\<lambda>(flag, v). [flag, show_radix 10 v])
      [(sp_flag session_at_spec, s_session_at s), (sp_flag week_at_spec, s_week_at s), (sp_flag margin_spec, s_margin s),
       (sp_flag upgrade_margin_spec, s_upgrade_margin s), (sp_flag hold_spec, s_hold s),
       (sp_flag overflow_wait_spec, s_overflow_wait s),
       (sp_flag overflow_unknown_reset_spec, if s_overflow_unknown_reset s then 1 else 0)])
    @ (if with_interval then [sp_flag interval_spec, show_radix 10 (s_interval s)] else [])"

section \<open>The recorded gate\<close>

record gate_record =
  gr_version :: nat
  gr_pid :: nat
  gr_overflow_wait :: nat
  gr_overflow_unknown_reset :: bool
  gr_session_at :: nat
  gr_week_at :: nat

definition gate_version :: nat where "gate_version = 1"

definition gate_record_new :: "nat \<Rightarrow> settings \<Rightarrow> gate_record" where
  "gate_record_new pid s =
    (let g = gate_of_settings s
     in \<lparr>gr_version = gate_version, gr_pid = pid, gr_overflow_wait = g_wait g, gr_overflow_unknown_reset = g_unknown_reset g,
         gr_session_at = g_session_at g, gr_week_at = g_week_at g\<rparr>)"

definition gate_of_record :: "gate_record \<Rightarrow> overflow_gate" where
  "gate_of_record r =
    \<lparr>g_wait = gr_overflow_wait r, g_unknown_reset = gr_overflow_unknown_reset r, g_session_at = gr_session_at r,
     g_week_at = gr_week_at r\<rparr>"

datatype gate_load_error = Gate_not_private | Gate_bad_json | Gate_bad_version | Gate_out_of_range

text \<open>The file is the result of reading it and of parsing its JSON.\<close>

definition gate_load :: "(gate_load_error, gate_record option) result \<Rightarrow> (gate_load_error, gate_record option) result" where
  "gate_load file =
    and_then file (\<lambda>r. case r of
       None \<Rightarrow> Inr None
     | Some r \<Rightarrow>
         if gr_version r \<noteq> gate_version then Inl Gate_bad_version
         else if \<not> gate_in_range (gate_of_record r) then Inl Gate_out_of_range
         else Inr (Some r))"

datatype gate_source = From_rotator nat | From_environment | Gate_closed

definition effective_gate ::
  "(gate_load_error, gate_record option) result \<Rightarrow> daemon_state \<Rightarrow> env_vars \<Rightarrow> overflow_gate option \<times> gate_source" where
  "effective_gate file state vars =
    (case state of
       Running pid \<Rightarrow>
         (case gate_load file of
            Inr (Some r) \<Rightarrow> if gr_pid r = pid then (Some (gate_of_record r), From_rotator pid) else (None, Gate_closed)
          | _ \<Rightarrow> (None, Gate_closed))
     | Unverifiable \<Rightarrow> (None, Gate_closed)
     | _ \<Rightarrow> (case gate_from_env vars of Inr g \<Rightarrow> (Some g, From_environment) | Inl _ \<Rightarrow> (None, Gate_closed)))"

section \<open>The logins without room\<close>

definition max_no_room_secs :: int where "max_no_room_secs = 3600"
definition max_no_room_profiles :: nat where "max_no_room_profiles = 256"

record no_room =
  nr_at :: int
  nr_until :: int
  nr_profiles :: "rstring list"

definition no_room_of_cycle ::
  "rstring option \<Rightarrow> reading \<Rightarrow> (rstring \<times> reading) list \<Rightarrow> rstring option \<Rightarrow> int \<Rightarrow> int \<Rightarrow> nat \<Rightarrow> no_room" where
  "no_room_of_cycle live r others on_platform at written interval =
    (let named = (case live of Some n \<Rightarrow> [(n, r)] | None \<Rightarrow> []) @ others;
         without = filter (\<lambda>(n, x). Some n \<noteq> on_platform \<and> x \<noteq> R_failed \<and> \<not> has_room x) named;
         span = (let d = min (2 ^ 64 - 1) (2 * interval) in if int d \<le> i64_max then int d else max_no_room_secs);
         w = max written at
     in \<lparr>nr_at = at,
         nr_until = min (saturating_add (saturating_add w span) (w - at)) (saturating_add at max_no_room_secs),
         nr_profiles = remdups_adj (sort (map fst without))\<rparr>)"

definition room_back :: "reading \<Rightarrow> windows \<Rightarrow> int option" where
  "room_back r w =
    (let used = (case r of
           R_failed \<Rightarrow> None
         | R_measured session week \<Rightarrow> Some (Some session, Some week)
         | R_exhausted _ _ \<Rightarrow> Some (map_option w_used (ws_session w), map_option w_used (ws_week w)));
         is_full = (\<lambda>u. case u of Some x \<Rightarrow> \<not> room x (f_of_nat 0) | None \<Rightarrow> False);
         session_reset = Option.bind (ws_session w) w_resets_at;
         week_reset = Option.bind (ws_week w) w_resets_at
     in case used of
          None \<Rightarrow> None
        | Some (session, week) \<Rightarrow>
            if is_full session
            then (if is_full week
              then (case (session_reset, week_reset) of (Some a, Some b) \<Rightarrow> Some (max a b) | _ \<Rightarrow> None)
              else session_reset)
            else if is_full week then week_reset else None)"

definition until_reset :: "no_room \<Rightarrow> (rstring \<times> reading \<times> windows) list \<Rightarrow> no_room" where
  "until_reset r ps =
    (case min_by (<) (List.map_filter (\<lambda>(_, x, w). room_back x w) (filter (\<lambda>(n, _, _). n \<in> set (nr_profiles r)) ps)) of
       Some back \<Rightarrow> r\<lparr>nr_until := min (nr_until r) (max back (nr_at r))\<rparr>
     | None \<Rightarrow> r)"

definition no_room_record ::
  "settings \<Rightarrow> rstring option \<Rightarrow> rstring option \<Rightarrow> reading \<Rightarrow> (rstring \<times> reading) list \<Rightarrow> (probed \<times> probes) option \<Rightarrow> int \<Rightarrow> int
    \<Rightarrow> no_room" where
  "no_room_record s name on_platform live others probed at now =
    (let rec0 = no_room_of_cycle name live others on_platform at now (s_interval s);
         seen = (case probed of
           None \<Rightarrow> []
         | Some (probe, ps) \<Rightarrow>
             (case name of Some n \<Rightarrow> [(n, live, p_windows probe)] | None \<Rightarrow> [])
             @ map (\<lambda>(n, p). (n, (case map_of others n of Some r \<Rightarrow> r | None \<Rightarrow> p_reading p), p_windows p)) ps)
     in until_reset rec0 seen)"

definition no_room_valid :: "no_room option \<Rightarrow> bool" where
  "no_room_valid r =
    (case r of
       None \<Rightarrow> True
     | Some r \<Rightarrow>
         nr_at r \<le> nr_until r \<and> nr_until r - nr_at r \<le> max_no_room_secs \<and> length (nr_profiles r) \<le> max_no_room_profiles
         \<and> sorted_wrt (<) (nr_profiles r) \<and> list_all valid_live_name (nr_profiles r))"

definition no_room_holding :: "no_room option \<Rightarrow> int \<Rightarrow> rstring list" where
  "no_room_holding r now =
    (case r of Some x \<Rightarrow> if nr_at x \<le> now \<and> now \<le> nr_until x then nr_profiles x else [] | None \<Rightarrow> [])"

end
