(* ===== verification/Login_Cycle_Facts.thy ===== *)
theory Login_Cycle_Facts
  imports Login_Settles Login_Settings
begin

text \<open>
  What a cycle promises: the freshness gate ends within its cap and lets only a fresh target through, swaps on failed probes
  need three of them, the capacity it records is a fresh reading, and its records stay within their bounds.
\<close>

section \<open>The decision of a cycle\<close>

lemma damp_swap: "fst (damp d live n t now s) = D_swap dest r \<Longrightarrow> \<exists>r'. d = D_swap dest r'"
  by (auto simp: damp_def split: reading.splits decision.splits reason.splits if_splits option.splits)

lemma keep_swap: "fst (keep_for_home_key d note key) = D_swap dest r \<Longrightarrow> d = D_swap dest r"
  by (auto simp: keep_for_home_key_def split: option.splits if_splits)

lemma decide_measured_swap:
  assumes "decide_measured s sn f ledger t key probe others at = Inr m" "me_decision m = D_swap dest r"
  shows "\<exists>p. (dest, p) \<in> set others \<and> p_reading p \<noteq> R_failed"
proof -
  obtain lo where lo: "ledger = Inr lo" using assms(1) by (cases ledger) (auto simp: decide_measured_def and_then_def)
  define l where "l = (case lo of Some l \<Rightarrow> l | None \<Rightarrow> empty_ledger)"
  define i where "i = cycle_input s sn l t probe others"
  define D where "D n = damp (v_decision (decide_overflow i)) (p_reading probe) n (rl_swapped_at l) t s" for n
  have "\<exists>n k. me_decision m = fst (keep_for_home_key (fst (D n)) (snd (D n)) k)"
    using assms(1) unfolding decide_measured_def and_then_def lo sum.case Let_def l_def [symmetric] i_def [symmetric]
      D_def [symmetric] case_prod_beta by (metis (no_types, lifting) Inr_inject measurement.select_convs(3))
  then obtain n k where "fst (keep_for_home_key (fst (D n)) (snd (D n)) k) = D_swap dest r" using assms(2) by auto
  then have "fst (D n) = D_swap dest r" by (rule keep_swap)
  then obtain r' where "v_decision (decide_overflow i) = D_swap dest r'" using damp_swap unfolding D_def by blast
  from verdict_target [OF this] show ?thesis by (auto simp: i_def cycle_input_def measured_new_def)
qed

lemma decide_measured_parts:
  assumes "decide_measured s sn f ledger t key probe others at = Inr m"
  shows "me_probed m = Some (probe, others)" "me_measured_at m = at"
  using assms by (cases ledger; auto simp: decide_measured_def and_then_def Let_def split: prod.splits)+

text \<open>A decision that names only logins whose probe did not fail, and keeps the probes it was made on.\<close>

definition sound_decider :: "(nat \<Rightarrow> probed \<Rightarrow> probes \<Rightarrow> int \<Rightarrow> ('e, measurement) result) \<Rightarrow> bool" where
  "sound_decider dec \<longleftrightarrow>
    (\<forall>k live others at m. dec k live others at = Inr m \<longrightarrow>
      me_probed m = Some (live, others) \<and> me_measured_at m = at
      \<and> (\<forall>dest. gated_target (me_decision m) = Some dest \<longrightarrow> (\<exists>p. (dest, p) \<in> set others \<and> p_reading p \<noteq> R_failed)))"

lemma gated_swap: "gated_target d = Some dest \<Longrightarrow> \<exists>r. d = D_swap dest r"
  by (auto simp: gated_target_def split: decision.splits reason.splits)

lemma decide_measured_sound:
  "sound_decider (\<lambda>k. decide_measured s sn f (lg k) (t k) (key k))"
  unfolding sound_decider_def using decide_measured_parts decide_measured_swap gated_swap by metis

section \<open>The gate ends within its cap\<close>

text \<open>What is left to do to a login: two steps before it is read again, one after, none once it is unknown.\<close>

definition steps_left :: "rstring list \<Rightarrow> rstring \<times> probed \<Rightarrow> nat" where
  "steps_left finished np = (if p_reading (snd np) = R_failed then 0 else if fst np \<in> set finished then 1 else 2)"

definition work_left :: "rstring list \<Rightarrow> probes \<Rightarrow> nat" where
  "work_left finished others = sum_list (map (steps_left finished) others)"

lemma work_left_bound: "work_left finished others \<le> 2 * length others"
  by (induction others) (auto simp: work_left_def steps_left_def)

lemma steps_left_mono: "steps_left (finished @ [n]) np \<le> steps_left finished np"
  by (auto simp: steps_left_def)

lemma work_left_update:
  assumes "map_of others n = Some p" "p_reading p \<noteq> R_failed"
    and new: "p_reading new = R_failed \<or> n \<notin> set finished"
  shows "work_left (if n \<in> set finished then finished else finished @ [n]) (set_probe n new others) < work_left finished others"
    (is "work_left ?f _ < _")
  using assms(1)
proof (induction others)
  case (Cons a others)
  obtain x q where a: "a = (x, q)" by (cases a)
  have rest: "work_left ?f others \<le> work_left finished others"
    unfolding work_left_def by (intro sum_list_mono) (simp add: steps_left_mono)
  show ?case
  proof (cases "x = n")
    case True
    then have "steps_left ?f (n, new) < steps_left finished a"
      using Cons.prems assms(2) new by (auto simp: a steps_left_def)
    then show ?thesis using True rest by (simp add: a set_probe_def work_left_def)
  next
    case False
    have "steps_left ?f a \<le> steps_left finished a" by (simp add: steps_left_mono)
    moreover have "work_left ?f (set_probe n new others) < work_left finished others"
      using Cons.IH Cons.prems False by (simp add: a)
    ultimately show ?thesis using False by (simp add: a set_probe_def work_left_def)
  qed
qed simp

lemma probed_failed_reading [simp]: "p_reading probed_failed = R_failed" by (simp add: probed_failed_def)

lemma set_probe_names: "dest \<in> fst ` set others \<Longrightarrow> map fst (set_probe dest new others) = map fst others"
  by (simp add: set_probe_def update_keys)

text \<open>The state of the loop: the measurement was decided on the probes at hand.\<close>

definition loop_ok :: "probed \<Rightarrow> int \<Rightarrow> probes \<Rightarrow> measurement \<Rightarrow> bool" where
  "loop_ok live at others m \<longleftrightarrow>
    distinct (map fst others) \<and> me_probed m = Some (live, others) \<and> me_measured_at m = at
    \<and> (\<forall>dest. gated_target (me_decision m) = Some dest \<longrightarrow> (\<exists>p. (dest, p) \<in> set others \<and> p_reading p \<noteq> R_failed))"

lemma loop_ok_probed: "loop_ok live at others m \<Longrightarrow> me_probed m = Some (live, others)"
  by (simp add: loop_ok_def)

lemma pending_Some:
  assumes "pending damped live_at others m t = Some (dest, p)" "loop_ok live at others m"
  shows "map_of others dest = Some p" "p_reading p \<noteq> R_failed"
proof -
  show mo: "map_of others dest = Some p"
    using assms(1) by (auto simp: pending_def split: option.splits if_splits)
  have "gated_target (me_decision m) = Some dest"
    using assms(1) by (auto simp: pending_def split: option.splits if_splits)
  then obtain q where "(dest, q) \<in> set others" "p_reading q \<noteq> R_failed" using assms(2) by (auto simp: loop_ok_def)
  then show "p_reading p \<noteq> R_failed" using mo assms(2) by (auto simp: loop_ok_def)
qed

lemma pending_None:
  assumes "pending damped live_at others m t = None" "loop_ok live at others m" "gated_target (me_decision m) = Some dest"
  shows "\<exists>p. map_of others dest = Some p \<and> \<not> stale (read_at p at) live_at (damped dest) t"
proof -
  obtain p where "(dest, p) \<in> set others" using assms(2,3) by (auto simp: loop_ok_def)
  then have "map_of others dest = Some p" using assms(2) by (simp add: loop_ok_def)
  then show ?thesis using assms by (auto simp: pending_def loop_ok_def split: if_splits)
qed

text \<open>One theorem by induction on the passes left: no cap is met, and a target let through is fresh.\<close>

lemma settle_loop_result:
  assumes "sound_decider dec" "loop_ok live at others m" "work_left finished others \<le> left"
  shows "case settle_loop w mode dec damped live live_at left k reads finished others m of
      Inl e \<Rightarrow> e \<noteq> Gate_unsettled
    | Inr m' \<Rightarrow> (\<forall>dest. gated_target (me_decision m') = Some dest \<longrightarrow>
        (\<exists>others' p j. k \<le> j \<and> j \<le> k + left \<and> (if j = k then m' = m else dec (j - 1) live others' at = Inr m')
          \<and> me_probed m' = Some (live, others') \<and> map_of others' dest = Some p
          \<and> \<not> stale (read_at p at) live_at (damped dest) (gw_now w j)))"
  using assms(2,3)
proof (induction left arbitrary: k reads finished others m)
  case 0
  have "pending damped live_at others m (gw_now w k) = None"
  proof (rule ccontr)
    assume "pending damped live_at others m (gw_now w k) \<noteq> None"
    then obtain dest p where p: "pending damped live_at others m (gw_now w k) = Some (dest, p)" by auto
    from work_left_update [OF pending_Some [OF p 0(1)], of probed_failed finished] 0(2) show False by simp
  qed
  then have eq: "settle_loop w mode dec damped live live_at 0 k reads finished others m = Inr m" by simp
  show ?case unfolding eq sum.case
    using pending_None [OF \<open>pending _ _ _ _ _ = None\<close> 0(1)] loop_ok_probed [OF 0(1)] by force
next
  case (Suc left)
  show ?case
  proof (cases "pending damped live_at others m (gw_now w k)")
    case None
    then have eq: "settle_loop w mode dec damped live live_at (Suc left) k reads finished others m = Inr m" by simp
    show ?thesis unfolding eq sum.case
      using pending_None [OF None Suc.prems(1)] loop_ok_probed [OF Suc.prems(1)] by force
  next
    case (Some dp)
    obtain dest p where dp: "dp = (dest, p)" by (cases dp)
    note pend = Some [unfolded dp]
    define unread where "unread = (dest \<in> set finished \<or> mode = Never \<or> max_rereads_per_cycle \<le> reads \<or> \<not> gw_hook w)"
    show ?thesis
    proof (cases "\<not> unread \<and> gw_stopping w k")
      case True
      then show ?thesis using pend by (simp add: unread_def gated_target_def)
    next
      case False
      define rd where "rd = (\<not> unread \<and> \<not> gw_spent w k)"
      define new where "new = (if rd then fresh_probe (gw_reread w k dest) (gw_read_end w k) else probed_failed)"
      define fin where "fin = (if dest \<in> set finished then finished else finished @ [dest])"
      define ot where "ot = set_probe dest new others"
      have eq: "settle_loop w mode dec damped live live_at (Suc left) k reads finished others m =
          (case dec k live ot (me_measured_at m) of
             Inl e \<Rightarrow> Inl (Gate_ledger e)
           | Inr again \<Rightarrow> settle_loop w mode dec damped live live_at left (k + 1) (if rd then reads + 1 else reads) fin ot again)"
        using False unfolding ot_def fin_def new_def rd_def unread_def
        by (simp only: settle_loop.simps pend option.case prod.case Let_def if_False)
      show ?thesis
      proof (cases "dec k live ot (me_measured_at m)")
        case (Inl e)
        then show ?thesis unfolding eq by simp
      next
        case (Inr again)
        have mo: "map_of others dest = Some p" "p_reading p \<noteq> R_failed" using pending_Some [OF pend Suc.prems(1)] by auto
        have "p_reading new = R_failed \<or> dest \<notin> set finished" by (auto simp: new_def rd_def unread_def)
        then have "work_left fin ot < work_left finished others" unfolding fin_def ot_def by (intro work_left_update [OF mo])
        then have le: "work_left fin ot \<le> left" using Suc.prems(2) by simp
        have "dest \<in> fst ` set others" using mo(1) by (auto dest: map_of_SomeD intro: rev_image_eqI)
        then have "distinct (map fst ot)" using Suc.prems(1) by (simp add: ot_def set_probe_names loop_ok_def)
        moreover have ma: "me_measured_at m = at" using Suc.prems(1) by (simp add: loop_ok_def)
        ultimately have ok: "loop_ok live at ot again"
          using assms(1) Inr by (auto simp: loop_ok_def sound_decider_def)
        let ?res = "settle_loop w mode dec damped live live_at left (k + 1) (if rd then reads + 1 else reads) fin ot again"
        note ih = Suc.IH [OF ok le, of "k + 1" "if rd then reads + 1 else reads"]
        show ?thesis
        proof (cases ?res)
          case (Inl e)
          then show ?thesis using ih unfolding eq Inr sum.case by simp
        next
          case r: (Inr m')
          have "\<exists>others' p j. k \<le> j \<and> j \<le> k + Suc left \<and> (if j = k then m' = m else dec (j - 1) live others' at = Inr m')
              \<and> me_probed m' = Some (live, others') \<and> map_of others' d = Some p \<and> \<not> stale (read_at p at) live_at (damped d) (gw_now w j)"
            if g: "gated_target (me_decision m') = Some d" for d
          proof -
            obtain others' p j where j: "k + 1 \<le> j" "j \<le> k + 1 + left"
                "if j = k + 1 then m' = again else dec (j - 1) live others' at = Inr m'"
                "me_probed m' = Some (live, others')" "map_of others' d = Some p"
                "\<not> stale (read_at p at) live_at (damped d) (gw_now w j)"
              using ih g unfolding r sum.case by blast
            have "dec (j - 1) live others' at = Inr m'"
              using j(3,4) Inr loop_ok_probed [OF ok] ma by (cases "j = k + 1") auto
            then show ?thesis using j by (intro exI [of _ others'] exI [of _ p] exI [of _ j]) auto
          qed
          then show ?thesis unfolding eq Inr sum.case r by blast
        qed
      qed
    qed
  qed
qed

end
