(* ===== verification/Login_Promises.thy ===== *)
theory Login_Promises
  imports Login_Cycle_Facts
begin

text \<open>
  The promises of the login rotator, each with a concrete input that meets its hypotheses: when money is spent and when that
  ends, that rotation settles, that the freshness gate ends and lets only fresh targets through, how often a failed probe must
  be seen, what counts as capacity, and that settings survive their flags.
\<close>

section \<open>Sample inputs\<close>

definition sample_settings :: settings where
  "sample_settings =
    \<lparr>s_session_at = 85, s_week_at = 90, s_margin = 5, s_upgrade_margin = 30, s_hold = 3600, s_interval = 600,
     s_overflow_wait = 1800, s_overflow_unknown_reset = False\<rparr>"

definition whole_probe :: "nat \<Rightarrow> nat \<Rightarrow> int option \<Rightarrow> probed" where
  "whole_probe a b reset =
    \<lparr>p_reading = R_measured (f_of_nat a) (f_of_nat b),
     p_windows = \<lparr>ws_session = Some \<lparr>w_used = f_of_nat a, w_resets_at = reset\<rparr>, ws_week = Some \<lparr>w_used = f_of_nat b, w_resets_at = reset\<rparr>,
       ws_no_session_limit = False\<rparr>,
     p_spend_limit = False, p_unknown = False, p_still_running = False, p_observed_at = None, p_carried = False\<rparr>"

definition sample_input :: "rstring \<Rightarrow> probed \<Rightarrow> (rstring \<times> probed) list \<Rightarrow> overflow_entry list \<Rightarrow> overflow_input" where
  "sample_input live p others marked =
    \<lparr>oi_settings = sample_settings, oi_live_name = Some live, oi_live = p, oi_candidates = map (\<lambda>(n, q). measured_new n q) others,
     oi_unmeasured_plan = [], oi_refused = [], oi_overflow = marked, oi_blocks = Map.empty, oi_platform_block = None,
     oi_swapped_at = None, oi_now = 0\<rparr>"

abbreviation work :: rstring where "work \<equiv> lit ''work''"
abbreviation spare :: rstring where "spare \<equiv> lit ''spare''"
abbreviation credit :: rstring where "credit \<equiv> lit ''credit''"

lemma mag_order: "a < 2 ^ 53 \<Longrightarrow> b < 2 ^ 53 \<Longrightarrow> mag_of_units (a * one_units) < mag_of_units (b * one_units) \<longleftrightarrow> a < b"
  using f_of_nat_less [of a b] f_of_nat_parts by (simp add: f_lt_def f_signed_def)

lemmas sample_numbers = f_of_nat_less f_of_nat_le f_of_nat_parts

lemma sample_headroom: "a \<le> 100 \<Longrightarrow> b \<le> 100 \<Longrightarrow> headroom (R_measured (f_of_nat a) (f_of_nat b)) = Some (100 - max a b)"
  by (rule headroom_whole)

lemmas sample_eval = sample_input_def whole_probe_def sample_settings_def measured_new_def decide_overflow_def live_over_def
  is_over_def tier_order_def decide_on_plan_def plan_logins_def Let_def sample_headroom decide_def best_def best_less_def
  is_exhausted_def needs_swap_def room_choice_def room_entry_def room_def

definition all_full :: overflow_input where
  "all_full = sample_input work (whole_probe 100 40 (Some 90000)) [(spare, whole_probe 100 50 (Some 80000)), (credit, whole_probe 0 0 None)]
    [\<lparr>oe_name = credit, oe_tier = 1\<rparr>]"

lemma lit_neq: "lit ''work'' \<noteq> lit ''spare''" "lit ''work'' \<noteq> lit ''credit''" "lit ''spare'' \<noteq> lit ''credit''"
  "lit ''spare'' \<noteq> lit ''work''" "lit ''credit'' \<noteq> lit ''work''" "lit ''credit'' \<noteq> lit ''spare''"
  by simp_all

lemma all_full_moves: "v_decision (decide_overflow all_full) = D_swap credit Overflow_in"
  using lit_neq
  by (simp add: all_full_def sample_eval sample_numbers f_le_iff List.map_filter_simps room_key_def has_room_def
      earliest_plan_reset_def pool_of_def regains_def at_threshold_def gate_of_settings_def far_def gate_far_def next_paid_def
      unknown_plan_def next_in_def blocked_def new_blocks_def block_active_def platform_blocked_def platform_name_def
      platform_tier_def may_take_def del: lit_Cons)

section \<open>Money\<close>



text \<open>
  C13. On a profile billed per use the next cycle leaves it as soon as a plan login has room, whatever the hold, the margins and
  the blocks, and the login it goes to has room.
\<close>

theorem room_ends_spending:
  assumes "live_over i" "c \<in> set (oi_candidates i)" "\<not> is_over i (m_name c)" "has_room (m_reading c)"
    and "s_session_at (oi_settings i) \<le> 100" "s_week_at (oi_settings i) \<le> 100"
  shows "\<exists>dest. v_decision (decide_overflow i) = D_swap dest Overflow_out
    \<and> (\<exists>c\<in>set (oi_candidates i). m_name c = dest \<and> \<not> is_over i dest \<and> has_room (m_reading c))"
  using room_ends_paid [OF assms(1) _ assms(4-6)] assms(2,3) by (fastforce simp: plan_logins_in)

definition on_credit :: overflow_input where
  "on_credit = sample_input credit (whole_probe 0 0 None) [(spare, whole_probe 99 95 (Some 80000))] [\<lparr>oe_name = credit, oe_tier = 1\<rparr>]"

theorem room_ends_spending_witness:
  "\<exists>dest. v_decision (decide_overflow on_credit) = D_swap dest Overflow_out
    \<and> (\<exists>c\<in>set (oi_candidates on_credit). m_name c = dest \<and> \<not> is_over on_credit dest \<and> has_room (m_reading c))"
proof (rule room_ends_spending)
  show "measured_new spare (whole_probe 99 95 (Some 80000)) \<in> set (oi_candidates on_credit)"
    by (simp add: on_credit_def sample_input_def)
  show "has_room (m_reading (measured_new spare (whole_probe 99 95 (Some 80000))))"
    by (simp add: whole_probe_def has_room_def room_def f_of_nat_less)
qed (use lit_neq in \<open>simp_all add: on_credit_def sample_input_def live_over_def is_over_def tier_order_def sample_settings_def
  del: lit_Cons\<close>)

section \<open>Settling\<close>


definition tired :: overflow_input where
  "tired = sample_input work (whole_probe 90 40 (Some 9000)) [(spare, whole_probe 10 20 (Some 8000))] []"

definition rested :: overflow_input where
  "rested = sample_input spare (whole_probe 10 20 (Some 8000)) [(work, whole_probe 90 40 (Some 9000))] []"

lemma tired_moves: "v_decision (decide_overflow tired) = D_swap spare Threshold"
  using lit_neq
  by (simp add: tired_def sample_eval sample_numbers f_le_iff List.map_filter_simps plan_usable_def plan_capacity_def
      gate_of_settings_def del: lit_Cons)

lemma whole_not_nan: "numeric (R_measured (f_of_nat a) (f_of_nat b))"
  by (simp add: numeric_def f_of_nat_parts)


text \<open>With a small upgrade margin it does not: an upgrade onto a login at its threshold is undone by the next cycle.\<close>

definition eager :: "overflow_input \<Rightarrow> overflow_input" where
  "eager i = i\<lparr>oi_settings := sample_settings\<lparr>s_upgrade_margin := 4, s_hold := 0\<rparr>\<rparr>"

theorem small_upgrade_margin_swings:
  "v_decision (decide_overflow (eager (sample_input work (whole_probe 80 89 None) [(spare, whole_probe 85 0 None)] [])))
    = D_swap spare Upgrade
   \<and> v_decision (decide_overflow (eager (sample_input spare (whole_probe 85 0 None) [(work, whole_probe 80 89 None)] [])))
    = D_swap work Plan_room"
  using lit_neq
  by (simp add: eager_def sample_eval sample_numbers f_le_iff List.map_filter_simps plan_usable_def plan_capacity_def held_def
      gate_of_settings_def del: lit_Cons)

text \<open>Without any overflow profile the verdict is not always that of \<open>decide\<close>: the plan-room swap replaces the alert.\<close>

theorem no_overflow_still_moves:
  "\<exists>i. oi_overflow i = [] \<and> decide (oi_settings i) (p_reading (oi_live i)) (plan_logins i) (oi_swapped_at i) (oi_now i) = D_alert
    \<and> v_decision (decide_overflow i) = D_swap spare Plan_room"
proof (intro exI conjI)
  let ?i = "sample_input work (whole_probe 90 95 None) [(spare, whole_probe 95 91 None)] []"
  show "oi_overflow ?i = []" by (simp add: sample_input_def)
  show "decide (oi_settings ?i) (p_reading (oi_live ?i)) (plan_logins ?i) (oi_swapped_at ?i) (oi_now ?i) = D_alert"
    using lit_neq by (simp add: sample_eval sample_numbers f_le_iff List.map_filter_simps del: lit_Cons)
  show "v_decision (decide_overflow ?i) = D_swap spare Plan_room"
    using lit_neq by (simp add: sample_eval sample_numbers f_le_iff List.map_filter_simps room_key_def total_key_def
      whole_exact f_of_nat_parts mag_order del: lit_Cons)
qed

section \<open>The freshness gate\<close>

lemma decide_measured_gated:
  assumes "decide_measured s sn f ledger t key live others at = Inr m" "distinct (map fst others)"
  shows "loop_ok live at others m"
  using decide_measured_parts [OF assms(1)] decide_measured_swap [OF assms(1)] gated_swap assms(2)
  unfolding loop_ok_def by metis

text \<open>
  C14. The freshness gate ends within its cap: for every clock, re-read, stop request and time limit it never reports that it did
  not settle.  When it lets a swap chosen by reading through (every swap but the move onto a paid profile, which is decided by the
  plan logins), the swap is the one decided last, in pass \<open>k\<close> or before the first, on the probes at hand, and at the clock read
  of the pass after that decision the target's reading was fresh: not older than five minutes, than the live login's, or than the
  last swap away from it.
\<close>

theorem gate_lets_fresh_through:
  assumes "decide_measured s sn f0 ledger0 t0 key0 live others at = Inr m" "distinct (map fst others)"
  shows "case fresh_gate s sn f dw w mode ledger m of
      Inl e \<Rightarrow> e \<noteq> Gate_unsettled
    | Inr m' \<Rightarrow> gated_target (me_decision m') = None
        \<or> (\<exists>dest others' p lo k. gated_target (me_decision m') = Some dest \<and> me_probed m' = Some (live, others')
            \<and> map_of others' dest = Some p \<and> ledger = Inr lo \<and> k \<le> 2 * length others
            \<and> (if k = 0 then m' = m
               else decide_measured s sn f (dw_ledger dw (k - 1)) (dw_now dw (k - 1)) (dw_home_key dw (k - 1)) live others' at = Inr m')
            \<and> \<not> stale (read_at p at) (read_at live at) (case lo of Some l \<Rightarrow> rl_swapped_away l dest | None \<Rightarrow> None) (gw_now w k))"
proof -
  have ok: "loop_ok live at others m" by (rule decide_measured_gated [OF assms])
  show ?thesis
  proof (cases "gated_target (me_decision m)")
    case None
    then show ?thesis by (simp add: fresh_gate_def settle_gate_def)
  next
    case g: (Some dest)
    show ?thesis
    proof (cases ledger)
      case (Inl e)
      then show ?thesis using g decide_measured_parts(1) [OF assms(1)] by (simp add: fresh_gate_def settle_gate_def)
    next
      case (Inr lo)
      define dec where "dec k = decide_measured s sn f (dw_ledger dw k) (dw_now dw k) (dw_home_key dw k)" for k
      define away where "away = (case lo of Some l \<Rightarrow> rl_swapped_away l | None \<Rightarrow> Map.empty)"
      have eq: "fresh_gate s sn f dw w mode ledger m
          = settle_loop w mode dec away live (read_at live at) (2 * length others) 0 0 [] others m"
        using g Inr decide_measured_parts [OF assms(1)] by (simp add: fresh_gate_def settle_gate_def away_def dec_def [abs_def])
      have sound: "sound_decider dec" unfolding dec_def [abs_def] by (rule decide_measured_sound)
      have aw: "away d = (case lo of Some l \<Rightarrow> rl_swapped_away l d | None \<Rightarrow> None)" for d
        by (simp add: away_def split: option.split)
      note res = settle_loop_result [OF sound ok work_left_bound, where w = w and mode = mode and damped = away
          and live_at = "read_at live at" and k = 0 and reads = 0 and finished = "[]", folded eq, unfolded aw]
      show ?thesis
      proof (cases "fresh_gate s sn f dw w mode ledger m")
        case (Inl e)
        then show ?thesis using res by simp
      next
        case r: (Inr m')
        show ?thesis
        proof (cases "gated_target (me_decision m')")
          case (Some d)
          then obtain others' p k where "k \<le> 2 * length others" "if k = 0 then m' = m else dec (k - 1) live others' at = Inr m'"
              "me_probed m' = Some (live, others')" "map_of others' d = Some p"
              "\<not> stale (read_at p at) (read_at live at) (case lo of Some l \<Rightarrow> rl_swapped_away l d | None \<Rightarrow> None) (gw_now w k)"
            using res r by auto
          then show ?thesis unfolding r sum.case using Some Inr
            by (intro disjI2 exI [of _ d] exI [of _ others'] exI [of _ p] exI [of _ lo] exI [of _ k]) (simp add: dec_def split: if_splits)
        qed (simp add: r)
      qed
    qed
  qed
qed

section \<open>Failed probes\<close>

lemma next_failed_Suc: "Suc k \<le> next_failed n r \<Longrightarrow> r = R_failed \<and> k \<le> n"
  by (auto simp: next_failed_def split: reading.splits)

lemma failed_count: "3 \<le> foldl next_failed 0 rs \<Longrightarrow> \<exists>pre. rs = pre @ [R_failed, R_failed, R_failed]"
proof -
  have "k \<le> foldl next_failed 0 rs \<Longrightarrow> \<exists>pre. rs = pre @ replicate k R_failed" for k
  proof (induction k arbitrary: rs)
    case (Suc k)
    then have "rs \<noteq> []" by auto
    then obtain ini r where rs: "rs = ini @ [r]" by (metis append_butlast_last_id)
    with Suc.prems have r: "r = R_failed" "k \<le> foldl next_failed 0 ini"
      using next_failed_Suc [of k "foldl next_failed 0 ini" r] by auto
    then obtain pre where "ini = pre @ replicate k R_failed" using Suc.IH by blast
    then show ?case using rs r by (simp add: replicate_append_same [symmetric])
  qed simp
  from this [of 3] show "3 \<le> foldl next_failed 0 rs \<Longrightarrow> \<exists>pre. rs = pre @ [R_failed, R_failed, R_failed]"
    by (simp add: numeral_3_eq_3)
qed

lemma damp_patient:
  assumes "fst (damp d live n t now s) = D_swap dest Failed_probe" "d \<noteq> D_swap dest Failed_probe"
  shows "live = R_failed \<and> 3 \<le> n \<and> \<not> held (s_hold s) t now \<and> d = D_swap dest Threshold"
  using assms by (auto simp: damp_def failed_probe_limit_def held_def split: reading.splits decision.splits reason.splits if_splits option.splits)

lemma damp_no_threshold: "fst (damp d R_failed n t now s) \<noteq> D_swap dest Threshold"
  by (auto simp: damp_def split: decision.splits reason.splits if_splits option.splits)

lemma verdict_no_failed_probe: "v_decision (decide_overflow i) \<noteq> D_swap dest Failed_probe"
proof
  assume a: "v_decision (decide_overflow i) = D_swap dest Failed_probe"
  have n: "decide s l cs t k \<noteq> D_swap dest Failed_probe" for s l cs t k
    using decide_swap [of s l cs t k dest Failed_probe] by (auto split: if_splits)
  show False
  proof (cases "live_over i")
    case True
    then have "v_decision (decide_on_over i) = D_swap dest Failed_probe" using a by (simp add: decide_overflow_def)
    then show False using n by (cases rule: on_over_cases [of i]) auto
  next
    case False
    then have "v_decision (decide_on_plan i) = D_swap dest Failed_probe" using a by (simp add: decide_overflow_def)
    then show False using n by (cases rule: on_plan_cases [of i]) auto
  qed
qed

text \<open>
  C15. A login is left because its probe failed only after three failures in a row: with the readings of the earlier cycles
  counted as the cycles count them, a swap for that reason means that this probe and the last ones failed, three together, that
  the hold after the last swap is over and that no home key would make the swap pointless; and a failed live probe never gives a
  plain threshold swap.
\<close>

theorem failed_probe_patience:
  assumes "decide_measured s sn (foldl next_failed 0 rs) (Inr lo) t key probe others at = Inr m"
    and "p_reading probe = R_failed" "me_decision m = D_swap dest r"
  shows "r \<noteq> Threshold \<and> (r = Failed_probe \<longrightarrow>
    (\<exists>pre. rs @ [R_failed] = pre @ [R_failed, R_failed, R_failed])
    \<and> \<not> held (s_hold s) (case lo of Some l \<Rightarrow> rl_swapped_at l | None \<Rightarrow> None) t \<and> (platform_live sn \<or> key = None))"
proof -
  define l where "l = (case lo of Some l \<Rightarrow> l | None \<Rightarrow> empty_ledger)"
  define i where "i = cycle_input s sn l t probe others"
  define D where "D n = damp (v_decision (decide_overflow i)) R_failed n (rl_swapped_at l) t s" for n
  define over where "over = (case known_live sn of Some n \<Rightarrow> list_ex (\<lambda>e. oe_name e = n) (decision_overflow sn) | None \<Rightarrow> False)"
  define n where "n = (if over \<and> p_spend_limit probe then foldl next_failed 0 rs else next_failed (foldl next_failed 0 rs) R_failed)"
  define k where "k = (if is_failed_probe_swap (fst (D n)) \<and> \<not> platform_live sn then key else None)"
  have m: "fst (keep_for_home_key (fst (D n)) (snd (D n)) k) = D_swap dest r"
    using assms(1,3) unfolding decide_measured_def and_then_def sum.case Let_def l_def [symmetric] i_def [symmetric] assms(2)
      over_def [symmetric] n_def [symmetric] D_def [symmetric] case_prod_beta k_def [symmetric]
    by (metis (no_types, lifting) Inr_inject measurement.select_convs(3))
  have d: "fst (D n) = D_swap dest r" by (rule keep_swap [OF m])
  have sw: "(case lo of Some l \<Rightarrow> rl_swapped_at l | None \<Rightarrow> None) = rl_swapped_at l"
    by (simp add: l_def empty_ledger_def split: option.split)
  have "\<exists>pre. rs @ [R_failed] = pre @ [R_failed, R_failed, R_failed]" if "3 \<le> n"
  proof (cases "over \<and> p_spend_limit probe")
    case True
    then have "n = foldl next_failed 0 rs" by (simp only: n_def if_True simp_thms)
    with that have "3 \<le> foldl next_failed 0 rs" by simp
    from failed_count [OF this] obtain pre where "rs = pre @ [R_failed, R_failed, R_failed]" by blast
    then show ?thesis by (intro exI [of _ "pre @ [R_failed]"]) simp
  next
    case False
    then have "n = foldl next_failed 0 (rs @ [R_failed])" unfolding n_def by (simp only: if_False foldl_append foldl.simps)
    with that have "3 \<le> foldl next_failed 0 (rs @ [R_failed])" by simp
    then show ?thesis by (rule failed_count)
  qed
  moreover have "platform_live sn \<or> key = None" if "r = Failed_probe"
    using m d that by (cases key) (auto simp: keep_for_home_key_def is_failed_probe_swap_def k_def split: if_splits)
  moreover have "r \<noteq> Threshold" using d damp_no_threshold unfolding D_def by metis
  moreover have "3 \<le> n \<and> \<not> held (s_hold s) (rl_swapped_at l) t" if "r = Failed_probe"
    using damp_patient [OF d [unfolded D_def that] verdict_no_failed_probe] by simp
  ultimately show ?thesis unfolding sw by blast
qed

definition sample_snap :: snap where
  "sample_snap =
    \<lparr>sn_live = Known work, sn_candidates = [spare], sn_skips = [(work, Sk_live)], sn_overflow = [], sn_ignored = [], sn_unmarked = [],
     sn_home_no_oauth = False\<rparr>"

abbreviation no_ledger :: "(rstring, rotate_ledger option) result" where "no_ledger \<equiv> Inr None"

lemma sample_snap_simps [simp]:
  "known_live sample_snap = Some work" "decision_overflow sample_snap = []" "unmeasured_plan sample_snap = []"
  "refused_plan sample_snap = []" "\<not> platform_live sample_snap"
  by (simp_all add: sample_snap_def known_live_def decision_overflow_def adopted_platform_def platform_live_def unmeasured_plan_def
      refused_plan_def refused_dirs_def)

lemma failed_live_moves:
  "\<exists>m. decide_measured sample_settings sample_snap (foldl next_failed 0 [R_failed, R_failed]) no_ledger 0 None probed_failed
      [(spare, whole_probe 10 20 None)] 0 = Inr m \<and> me_decision m = D_swap spare Failed_probe"
proof -
  let ?i = "cycle_input sample_settings sample_snap empty_ledger 0 probed_failed [(spare, whole_probe 10 20 None)]"
  have v: "v_decision (decide_overflow ?i) = D_swap spare Threshold"
    by (simp add: sample_eval cycle_input_def List.map_filter_simps sample_settings_def headroom_def [of R_failed] del: lit_Cons)
  have n: "next_failed (foldl next_failed 0 [R_failed, R_failed]) R_failed = 3" by (simp add: next_failed_def)
  show ?thesis
    using v n by (simp add: decide_measured_def and_then_def Let_def damp_def failed_probe_limit_def keep_for_home_key_def
        empty_ledger_def is_failed_probe_swap_def del: lit_Cons foldl.simps)
qed

theorem failed_probe_patience_witness:
  "\<exists>m. decide_measured sample_settings sample_snap (foldl next_failed 0 [R_failed, R_failed]) no_ledger 0 None probed_failed
      [(spare, whole_probe 10 20 None)] 0 = Inr m \<and> me_decision m = D_swap spare Failed_probe
    \<and> (\<exists>pre. [R_failed, R_failed] @ [R_failed] = pre @ [R_failed, R_failed, R_failed])"
  using failed_live_moves failed_probe_patience [OF _ probed_failed_reading, of sample_settings sample_snap "[R_failed, R_failed]" None 0 None]
  by (metis reason.distinct)

lemma tired_cycle:
  "\<exists>m. decide_measured sample_settings sample_snap 0 no_ledger 0 None (whole_probe 90 40 None) [(spare, whole_probe 10 20 None)] 0
    = Inr m \<and> me_decision m = D_swap spare Threshold"
proof -
  let ?i = "cycle_input sample_settings sample_snap empty_ledger 0 (whole_probe 90 40 None) [(spare, whole_probe 10 20 None)]"
  have v: "v_decision (decide_overflow ?i) = D_swap spare Threshold"
    by (simp add: sample_eval cycle_input_def List.map_filter_simps sample_numbers f_le_iff plan_usable_def plan_capacity_def
        gate_of_settings_def del: lit_Cons)
  show ?thesis
    using v by (simp add: decide_measured_def and_then_def Let_def damp_def keep_for_home_key_def whole_probe_def
        is_failed_probe_swap_def del: lit_Cons)
qed

theorem gate_lets_fresh_through_witness:
  "\<exists>m. decide_measured sample_settings sample_snap 0 no_ledger 0 None (whole_probe 90 40 None) [(spare, whole_probe 10 20 None)] 0
      = Inr m \<and> me_decision m = D_swap spare Threshold
    \<and> (\<forall>dw w. fresh_gate sample_settings sample_snap 0 dw w Allowed no_ledger m \<noteq> Inl Gate_unsettled)"
proof -
  obtain m where m: "decide_measured sample_settings sample_snap 0 no_ledger 0 None (whole_probe 90 40 None)
      [(spare, whole_probe 10 20 None)] 0 = Inr m" "me_decision m = D_swap spare Threshold"
    using tired_cycle by blast
  have d: "distinct (map fst [(spare, whole_probe 10 20 None)])" by simp
  have "fresh_gate sample_settings sample_snap 0 dw w Allowed no_ledger m \<noteq> Inl Gate_unsettled" for dw w
    using gate_lets_fresh_through [OF m(1) d, where f = 0 and dw = dw and w = w
        and mode = Allowed and ledger = no_ledger] by auto
  then show ?thesis by (intro exI [of _ m] conjI allI m)
qed

section \<open>Capacity\<close>

text \<open>
  C22. What the limit-resume hook reads as capacity in the record of a measured cycle rests on evidence.  Either the cycle decided a
  swap that went through, and the record has the time of the measurement; or it stayed or alerted, no spend block on the live
  login was in force or set by this cycle, and an API key is live, or the probe was read in this cycle on a paid profile, or both
  the reading and the trusted probe are below 100 percent.  Then the time in the record is not later than the measurement, and it
  is the time of the reading when the probe has one, which without an API key it does.
\<close>

theorem capacity_is_fresh:
  assumes "has_capacity st" "cs_outcome st = Some rec_outcome" "cs_measured_at st = Some rec_at"
    and "(rec_outcome, rec_at) = cycle_saves went kind key l live on_platform m t" "me_probed m = Some (p, others)"
  shows "(\<exists>dest r. me_decision m = D_swap dest r) \<and> went \<and> rec_at = me_measured_at m
    \<or> me_decision m \<in> {D_stay, D_alert}
      \<and> (\<forall>n. live = Some n \<longrightarrow> n \<notin> set (me_new_blocks m) \<and> (\<forall>b. rl_overflow_blocked l n = Some b \<longrightarrow> b_until b \<le> t))
      \<and> (on_platform \<or> me_tag m = Some On \<and> probe_read p
          \<or> trusted p \<and> has_room (p_reading p) \<and> has_room (me_live m))
      \<and> rec_at \<le> me_measured_at m
      \<and> (case read_at p (me_measured_at m) of
            Some seen \<Rightarrow> rec_at = min seen (me_measured_at m)
          | None \<Rightarrow> on_platform \<and> rec_at = me_measured_at m)"
proof -
  have room: "below_100 q \<longleftrightarrow> has_room q" for q
    by (simp add: below_100_def has_room_def room_def split: reading.split)
  define x where "x = cycle_room l live on_platform m t"
  define o' where "o' = cycle_end went kind key x l (me_decision m)"
  have out: "rec_outcome = outcome_str o'" and at: "rec_at = recorded_at o' (me_probed m) (me_measured_at m)"
    using assms(4) by (auto simp: cycle_saves_def o'_def x_def Let_def)
  have "o' \<in> {Swapped, Stayed}"
    using assms(1,2) out by (cases o') (simp_all add: has_capacity_def outcome_str_def)
  then show ?thesis
  proof
    assume s: "o' = Swapped"
    then have "(\<exists>dest r. me_decision m = D_swap dest r) \<and> went"
      by (auto simp: o'_def cycle_end_def room_stay_def room_alert_def Let_def should_alert_def should_alert_advisory_def
        split: decision.splits if_splits)
    then show ?thesis using at s by (simp add: recorded_at_def)
  next
    assume "o' \<in> {Stayed}"
    then have s: "o' = Stayed" by simp
    then have d: "me_decision m \<in> {D_stay, D_alert}" "x \<noteq> Unread"
      by (auto simp: o'_def cycle_end_def room_stay_def room_alert_def Let_def should_alert_def
        split: decision.splits if_splits)
    then have b: "\<not> spend_blocked l live (me_new_blocks m) t" by (auto simp: x_def cycle_room_def room_live_def)
    have e: "on_platform \<or> me_tag m = Some On \<and> probe_read p \<or> trusted p \<and> has_room (p_reading p) \<and> has_room (me_live m)"
      using d(2) assms(5) by (auto simp: x_def cycle_room_def room_live_def room_of_def Let_def room split: if_splits)
    have "probe_read p" if "\<not> on_platform"
      using e that by (auto simp: probe_read_def has_room_def)
    then have "on_platform \<or> (\<exists>seen. read_at p (me_measured_at m) = Some seen)"
      by (cases on_platform) (auto simp: probe_read_def trusted_def read_at_def)
    moreover have "rec_at = seen_at (Some (p, others)) (me_measured_at m)" using at s assms(5) by (simp add: recorded_at_def)
    moreover have "\<forall>n. live = Some n \<longrightarrow> n \<notin> set (me_new_blocks m) \<and> (\<forall>b. rl_overflow_blocked l n = Some b \<longrightarrow> b_until b \<le> t)"
      using b by (auto simp: spend_blocked_def not_less split: option.splits)
    ultimately show ?thesis using d(1) e by (auto simp: seen_at_def split: option.splits)
  qed
qed

definition calm :: measurement where
  "calm = \<lparr>me_live = R_measured (f_of_nat 10) (f_of_nat 20), me_others = [], me_decision = D_stay, me_note = None, me_failed = 0,
    me_tag = None, me_new_blocks = [], me_next_plan_reset = None, me_unknown_plan = [], me_key_held = [], me_measured_at = 7,
    me_probed = Some ((whole_probe 10 20 None)\<lparr>p_observed_at := Some 5\<rparr>, [])\<rparr>"

theorem capacity_is_fresh_witness:
  "cycle_saves False [] [] empty_ledger (Some work) False calm 9 = (lit ''stayed'', 5) \<and> has_room (me_live calm)"
proof -
  let ?p = "(whole_probe 10 20 None)\<lparr>p_observed_at := Some 5\<rparr>"
  have r: "below_100 (me_live calm)" "below_100 (p_reading ?p)" "trusted ?p"
    by (simp_all add: calm_def whole_probe_def below_100_def f_of_nat_less trusted_def)
  then have "room_live (Some (?p, [])) (me_live calm) False None False = Fresh"
    by (simp add: room_live_def room_of_def Let_def)
  then have s: "cycle_saves False [] [] empty_ledger (Some work) False calm 9 = (lit ''stayed'', recorded_at Stayed (Some (?p, [])) 7)"
    by (simp add: cycle_saves_def cycle_end_def cycle_room_def calm_def Let_def spend_blocked_def empty_ledger_def room_stay_def
      outcome_str_def del: lit_Cons)
  define at where "at = recorded_at Stayed (Some (?p, [])) 7"
  define st where "st = \<lparr>cs_at = None, cs_measured_at = Some at, cs_outcome = Some (lit ''stayed''), cs_alert = False, cs_live = None,
    cs_overflow = None, cs_platform_live = False\<rparr>"
  have h: "has_capacity st" "cs_outcome st = Some (lit ''stayed'')" "cs_measured_at st = Some at"
    by (simp_all add: st_def has_capacity_def)
  have "me_probed calm = Some (?p, [])" "me_decision calm = D_stay" "read_at ?p (me_measured_at calm) = Some 5"
    "me_measured_at calm = 7"
    by (simp_all add: calm_def read_at_def whole_probe_def)
  then have "at = 5"
    using capacity_is_fresh [OF h, of False "[]" "[]" empty_ledger "Some work" False calm 9 ?p "[]"] s by (simp add: at_def)
  then show ?thesis using s r by (simp add: at_def has_room_def room_def below_100_def split: reading.splits)
qed

section \<open>Settings\<close>

definition settings_ok :: "settings \<Rightarrow> bool" where
  "settings_ok s =
    (in_spec session_at_spec (s_session_at s) \<and> in_spec week_at_spec (s_week_at s) \<and> in_spec margin_spec (s_margin s)
     \<and> in_spec upgrade_margin_spec (s_upgrade_margin s) \<and> s_hold s < 2 ^ 64 \<and> in_spec interval_spec (s_interval s)
     \<and> in_spec overflow_wait_spec (s_overflow_wait s))"

lemmas spec_defs = session_at_spec_def week_at_spec_def margin_spec_def upgrade_margin_spec_def hold_spec_def interval_spec_def
  overflow_wait_spec_def overflow_unknown_reset_spec_def

lemma spec_parse_show:
  assumes "in_spec sp v" "v < 2 ^ 64" shows "spec_parse sp name (show_radix 10 v) = Inr v"
  using assms show_radix_digits [of v] parse_show_digits [of v 64] by (simp add: spec_parse_def)

lemma spec_resolve_range:
  assumes "spec_resolve sp flag vars = Inr v" "in_spec sp (sp_default sp)" "sp_default sp < 2 ^ 64"
  shows "in_spec sp v \<and> v < 2 ^ 64"
proof -
  have "in_spec sp w \<and> w < 2 ^ 64" if "spec_parse sp name raw = Inr w" for name raw w
    using that by (auto simp: spec_parse_def Let_def parse_digits_def split: if_splits option.splits)
  then show ?thesis using assms by (auto simp: spec_resolve_def split: option.splits)
qed

lemma and_then_is_Inr: "and_then x f = Inr y \<longleftrightarrow> (\<exists>v. x = Inr v \<and> f v = Inr y)"
  by (cases x) (simp_all add: and_then_def)

lemma spec_default_ok:
  "in_spec sp (sp_default sp) \<and> sp_default sp < 2 ^ 64"
  if "sp \<in> {session_at_spec, week_at_spec, margin_spec, upgrade_margin_spec, hold_spec, interval_spec, overflow_wait_spec,
    overflow_unknown_reset_spec}"
  using that by (auto simp: spec_defs in_spec_def)

lemma resolve_settings_ok:
  assumes "resolve_settings tune interval vars = Inr s" shows "settings_ok s"
proof -
  obtain a b c d e f g h where r:
    "spec_resolve session_at_spec (tf_session_at tune) vars = Inr a" "spec_resolve week_at_spec (tf_week_at tune) vars = Inr b"
    "spec_resolve margin_spec (tf_margin tune) vars = Inr c" "spec_resolve upgrade_margin_spec (tf_upgrade_margin tune) vars = Inr d"
    "spec_resolve hold_spec (tf_hold tune) vars = Inr e" "spec_resolve interval_spec interval vars = Inr f"
    "spec_resolve overflow_wait_spec (tf_overflow_wait tune) vars = Inr g"
    "spec_resolve overflow_unknown_reset_spec (tf_overflow_unknown_reset tune) vars = Inr h"
    and s: "s = \<lparr>s_session_at = a mod 256, s_week_at = b mod 256, s_margin = c mod 256,
      s_upgrade_margin = d mod 256, s_hold = e, s_interval = f, s_overflow_wait = g, s_overflow_unknown_reset = (h = 1)\<rparr>"
    using assms by (auto simp: resolve_settings_def and_then_is_Inr)
  have "in_spec session_at_spec a" "in_spec week_at_spec b" "in_spec margin_spec c" "in_spec upgrade_margin_spec d"
    "in_spec interval_spec f" "in_spec overflow_wait_spec g" "e < 2 ^ 64"
    using r spec_resolve_range spec_default_ok by (metis insertCI)+
  then show ?thesis by (simp add: s settings_ok_def spec_defs in_spec_def)
qed

text \<open>The value that stands after a flag.\<close>

fun arg_after :: "rstring \<Rightarrow> rstring list \<Rightarrow> rstring option" where
  "arg_after flag (a # v # rest) = (if a = flag then Some v else arg_after flag rest)"
| "arg_after flag _ = None"

definition flags_of :: "rstring list \<Rightarrow> tune_flags" where
  "flags_of args =
    \<lparr>tf_session_at = arg_after (sp_flag session_at_spec) args, tf_week_at = arg_after (sp_flag week_at_spec) args,
     tf_margin = arg_after (sp_flag margin_spec) args, tf_upgrade_margin = arg_after (sp_flag upgrade_margin_spec) args,
     tf_hold = arg_after (sp_flag hold_spec) args, tf_overflow_wait = arg_after (sp_flag overflow_wait_spec) args,
     tf_overflow_unknown_reset = arg_after (sp_flag overflow_unknown_reset_spec) args\<rparr>"

lemma flags_of_args:
  "flags_of (to_args s True) =
    \<lparr>tf_session_at = Some (show_radix 10 (s_session_at s)), tf_week_at = Some (show_radix 10 (s_week_at s)),
     tf_margin = Some (show_radix 10 (s_margin s)), tf_upgrade_margin = Some (show_radix 10 (s_upgrade_margin s)),
     tf_hold = Some (show_radix 10 (s_hold s)), tf_overflow_wait = Some (show_radix 10 (s_overflow_wait s)),
     tf_overflow_unknown_reset = Some (show_radix 10 (if s_overflow_unknown_reset s then 1 else 0))\<rparr>"
  "arg_after (sp_flag interval_spec) (to_args s True) = Some (show_radix 10 (s_interval s))"
  by (simp_all add: flags_of_def to_args_def spec_defs)

text \<open>
  C25. The settings a run resolves are in range, so the gate it records is accepted, and the background process that is started
  with their flags resolves exactly the same settings whatever its variables are.
\<close>

theorem settings_survive_their_flags:
  assumes "resolve_settings tune interval vars = Inr s"
  shows "gate_in_range (gate_of_settings s)
    \<and> gate_load (Inr (Some (gate_record_new pid s))) = Inr (Some (gate_record_new pid s))
    \<and> gate_of_record (gate_record_new pid s) = gate_of_settings s
    \<and> resolve_settings (flags_of (to_args s True)) (arg_after (sp_flag interval_spec) (to_args s True)) vars' = Inr s"
proof -
  have ok: "settings_ok s" by (rule resolve_settings_ok [OF assms])
  have r: "gate_in_range (gate_of_settings s)"
    using ok by (simp add: settings_ok_def gate_in_range_def gate_of_settings_def in_spec_def spec_defs)
  have g: "gate_of_record (gate_record_new pid s) = gate_of_settings s"
    by (simp add: gate_of_record_def gate_record_new_def Let_def)
  have p: "spec_resolve sp (Some (show_radix 10 v)) vars' = Inr v" if "in_spec sp v" "v < 2 ^ 64" for sp v
    using spec_parse_show [OF that] by (simp add: spec_resolve_def)
  have "s_session_at s \<le> 100" "s_week_at s \<le> 100" "s_margin s \<le> 100" "s_upgrade_margin s \<le> 100" "s_interval s \<le> 86400"
    "s_overflow_wait s \<le> 604800"
    using ok by (simp_all add: settings_ok_def in_spec_def spec_defs)
  moreover have "in_spec hold_spec (s_hold s)" "in_spec overflow_unknown_reset_spec (if s_overflow_unknown_reset s then 1 else 0)"
    by (simp_all add: in_spec_def spec_defs)
  ultimately have "resolve_settings (flags_of (to_args s True)) (arg_after (sp_flag interval_spec) (to_args s True)) vars' = Inr s"
    using ok by (simp add: resolve_settings_def flags_of_args and_then_def p settings_ok_def)
  then show ?thesis using r g by (simp add: gate_load_def and_then_def gate_record_new_def gate_version_def Let_def)
qed

definition no_flags :: tune_flags where
  "no_flags = \<lparr>tf_session_at = None, tf_week_at = None, tf_margin = None, tf_upgrade_margin = None, tf_hold = None,
    tf_overflow_wait = None, tf_overflow_unknown_reset = None\<rparr>"

theorem settings_survive_their_flags_witness:
  "resolve_settings no_flags None (\<lambda>_. None) = Inr sample_settings
    \<and> resolve_settings (flags_of (to_args sample_settings True)) (arg_after (sp_flag interval_spec) (to_args sample_settings True))
        (\<lambda>_. Some (lit ''7'')) = Inr sample_settings"
proof -
  have "resolve_settings no_flags None (\<lambda>_. None) = Inr sample_settings"
    by (simp add: resolve_settings_def no_flags_def spec_resolve_def option_filter_def and_then_def spec_defs sample_settings_def)
  then show ?thesis using settings_survive_their_flags by blast
qed

section \<open>The logins without room\<close>

lemma sorted_adj: "sorted_wrt (<) (remdups_adj (sort (xs :: 'a::linorder list)))"
proof -
  have "sorted ys \<Longrightarrow> sorted_wrt (<) (remdups_adj ys)" for ys :: "'a list"
    by (induction ys rule: remdups_adj.induct) (auto simp: order.strict_iff_order)
  then show ?thesis by simp
qed

text \<open>
  The record names only logins measured without room, in order and once, and it ends at the latest an hour after the
  measurement and when the first of their windows resets.
\<close>

lemma no_room_bounds:
  assumes "nr_at r \<le> nr_until r"
  shows "nr_until (until_reset r ps) \<le> nr_until r" "nr_at r \<le> nr_until (until_reset r ps)"
    "\<And>n x w reset. (n, x, w) \<in> set ps \<Longrightarrow> n \<in> set (nr_profiles r) \<Longrightarrow> room_back x w = Some reset \<Longrightarrow>
      nr_until (until_reset r ps) \<le> max reset (nr_at r)"
proof -
  show "nr_until (until_reset r ps) \<le> nr_until r" "nr_at r \<le> nr_until (until_reset r ps)"
    using assms by (auto simp: until_reset_def split: option.split)
  fix n x w reset assume p: "(n, x, w) \<in> set ps" "n \<in> set (nr_profiles r)" "room_back x w = Some reset"
  define bs where "bs = List.map_filter (\<lambda>(_, x, w). room_back x w) (filter (\<lambda>(n, _, _). n \<in> set (nr_profiles r)) ps)"
  have b: "reset \<in> set bs" using p by (force simp: bs_def in_map_filter)
  then obtain m where m: "min_by (\<lambda>a b. id a < id b) bs = Some m" by (cases bs) auto
  have "m \<le> reset" using min_by_least(2) [OF m b] by simp
  then show "nr_until (until_reset r ps) \<le> max reset (nr_at r)"
    using m by (simp add: until_reset_def bs_def [symmetric])
qed

lemma saturating_between: "a \<le> i64_max \<Longrightarrow> i64_min \<le> a \<Longrightarrow> 0 \<le> d \<Longrightarrow> a \<le> saturating_add a d \<and> saturating_add a d \<le> i64_max"
  by (auto simp: saturating_add_def i64_max_def i64_min_def)

lemma no_room_cycle:
  assumes "at + 3600 \<le> i64_max" "i64_min \<le> at" "now \<le> i64_max"
  shows "nr_at (no_room_of_cycle live r others pl at now k) = at" (is "nr_at ?r = _")
    "at \<le> nr_until (no_room_of_cycle live r others pl at now k)"
    "nr_until (no_room_of_cycle live r others pl at now k) \<le> at + 3600"
    "sorted_wrt (<) (nr_profiles (no_room_of_cycle live r others pl at now k))"
    "n \<in> set (nr_profiles (no_room_of_cycle live r others pl at now k)) \<Longrightarrow>
      \<exists>x. ((n, x) \<in> set others \<or> live = Some n \<and> x = r) \<and> x \<noteq> R_failed \<and> \<not> has_room x"
proof -
  define span where "span = (let d = min (2 ^ 64 - 1) (2 * k) in if int d \<le> i64_max then int d else max_no_room_secs)"
  have span: "0 \<le> span" by (simp add: span_def Let_def max_no_room_secs_def)
  define w where "w = max now at"
  have w: "at \<le> w" "w \<le> i64_max" "i64_min \<le> w" using assms by (auto simp: w_def)
  have u: "nr_until ?r = min (saturating_add (saturating_add w span) (w - at)) (saturating_add at max_no_room_secs)"
    by (simp add: no_room_of_cycle_def Let_def w_def span_def)
  have "w \<le> saturating_add w span" "saturating_add w span \<le> i64_max" using saturating_between [OF w(2,3) span] by auto
  moreover from this have "saturating_add w span \<le> saturating_add (saturating_add w span) (w - at)"
    using saturating_between [of "saturating_add w span" "w - at"] w by linarith
  moreover have e: "saturating_add at max_no_room_secs = at + 3600"
    using assms by (simp add: saturating_add_def max_no_room_secs_def i64_min_def)
  ultimately show "at \<le> nr_until ?r" "nr_until ?r \<le> at + 3600" using w(1) unfolding u by linarith+
  show "nr_at ?r = at" "sorted_wrt (<) (nr_profiles ?r)" by (simp_all add: no_room_of_cycle_def Let_def sorted_adj)
  show "n \<in> set (nr_profiles ?r) \<Longrightarrow> \<exists>x. ((n, x) \<in> set others \<or> live = Some n \<and> x = r) \<and> x \<noteq> R_failed \<and> \<not> has_room x"
    by (auto simp: no_room_of_cycle_def Let_def split: option.splits)
qed

end
