(* ===== verification/Spec2Isabelle.thy ===== *)
theory Spec2Isabelle
  imports Tmux_Deny Tail_Facts Pr_Lease_Facts Remote_Pool Remote_Session Delegation Hive_Crdt Hive_Dht_Facts Hive_Bus
    Hive_Gossip Turn_Loop Hook_Protocol_Facts Remote_Repo Switch_Toggle_Facts Rotator_Ledger Resume_Runs Civil_Dates_Facts Login_Promises
begin

text \<open>
  A verification development for amplihack-rs, the Rust tools that drive coding agents.

  \<^bold>\<open>The program's parts and how they meet.\<close>  An agent's tool calls pass through the PreToolUse hook
  (\<open>crates/amplihack-hooks/src/pre_tool_use\<close>), which answers with a refusal or an empty object.  Its shell
  guards share one tokeniser; behind them come the XPIA defender (\<open>crates/amplihack-security\<close>), the skill
  redirect, the merge guard, the protection of the working directory and the git checks.  Sessions that
  work on the same pull request exclude each other through a lease store (\<open>crates/amplihack-orchestration/src/pr_lease\<close>).
  An operator drives a session from a Signal group (\<open>crates/amplihack-signal\<close>) through the turn loop
  (\<open>crates/amplihack-turn\<close>).  Agents share facts in a hive (\<open>crates/amplihack-hive\<close>) and run on
  pooled virtual machines (\<open>crates/amplihack-remote\<close>); subprocesses have a lifecycle
  (\<open>crates/amplihack-delegation\<close>).  A profile is one login of an agent; the login rotator
  (\<open>crates/amplihack-cli/src/commands/profile/rotate\<close>) measures the logins and exchanges the live one, and records its cycles
  in a ledger.  When a session stops at a usage limit, the limit-resume hook (\<open>crates/amplihack-hooks/src/limit_resume\<close>)
  waits for a cycle of that ledger that shows capacity and then wakes the session.  Every hook is run by the protocol
  of \<open>crates/amplihack-hooks/src/protocol.rs\<close>, which reads a payload and answers Claude or Codex.

  \<^bold>\<open>Conventions.\<close>  A \<open>String\<close> is the list of its Unicode scalar values (\<open>Rust_Text\<close>), with byte lengths and
  slices computed from the UTF-8 lengths (\<open>Rust_Num\<close>); paths are texts compared by components (\<open>Rust_Path\<close>).
  Structs are records, enums datatypes, errors and early returns values of \<open>option\<close> or sum types, panics
  \<open>None\<close> or an error value.  A loop over an index is a recursion over the rest of the list.  Fixed-width
  integers that wrap are words (hashes), those that saturate or are compared are bounded naturals.  Functions
  that the code calls but that are not in the repository are arguments: Unicode tables, the \<open>regex\<close>,
  \<open>shell_words\<close> and \<open>serde_json\<close> crates, the default hasher, random numbers, clocks, files, network answers.

  \<^bold>\<open>Theories and code.\<close>
  \<^item> \<open>Prelude\<close>, \<open>Rust_Text\<close>, \<open>Rust_Num\<close>, \<open>Rust_Path\<close>, \<open>Json_Value\<close>: the shared results, lists, strings, numbers,
    paths and JSON values, with their hint collections.
  \<^item> \<open>Shell_Words\<close>, \<open>Shell_Scan\<close>, \<open>Shell_Tokeniser\<close>: \<open>pre_tool_use/shell.rs\<close>, the program word, heredocs,
    substitutions and the token loop, one definition per arm.  \<open>Shell_Facts\<close>: the shape of what it returns,
    the matching parenthesis of a substitution, and the round trip of a quoted argument vector.
  \<^item> \<open>Tmux_Words\<close>, \<open>Tmux_Scope\<close>, \<open>Tmux_Guard\<close>: \<open>tmux_guard.rs\<close>, the readings of words, the scope of an
    invocation, and the three-layer scan that parses embedded scripts again.  \<open>Tmux_Facts\<close>: the linear kill test
    equals the quadratic reading.  \<open>Tmux_Deny\<close>: unscoped kills are denied, also in argument vectors; text that
    cannot be read is denied exactly when its letters spell a kill; clean lines pass.
  \<^item> \<open>Tail_Guard\<close>, \<open>Tail_Facts\<close>: \<open>tail_follow_guard.rs\<close> and what it denies, behind launch wrappers too
    and up to its length limit.
  \<^item> \<open>Guard_Merge\<close>: \<open>merge_guard.rs\<close>.  \<open>Guard_Cwd\<close>, \<open>Guard_Cwd_Facts\<close>: \<open>command.rs\<close> and \<open>cwd/mod.rs\<close>, with
    which deletions and renames are refused and what a \<open>cd\<close> hides.  \<open>Xpia\<close>, \<open>Xpia_Facts\<close>, \<open>Xpia_Health\<close>: \<open>amplihack-security\<close>, with when
    content and addresses are blocked.  \<open>Guard_Hook\<close>, \<open>Guard_Hook_Facts\<close>: \<open>pre_tool_use/mod.rs\<close>, \<open>git.rs\<close>,
    \<open>xpia.rs\<close> and \<open>known_agents.rs\<close>, the composition of all checks: merges in auto-drive runs, commits on main and
    deletions of the working directory are refused by the whole hook.
  \<^item> \<open>Pr_Lease\<close>: keys, records, expiry and both lease stores, whose contract is a locale; \<open>Pr_Lease_Race\<close>: the
    interleaved steps of two sessions as a transition relation, mutual exclusion by rule induction;
    \<open>Pr_Lease_Facts\<close>: what \<open>acquire\<close> does alone and against interference.
  \<^item> \<open>Signal_Text\<close>: chunks, slugs, control words, the arguments of a turn.  \<open>Signal_Channel\<close>: the gate, the
    membership check and the channel's actor, with its interleavings as a step relation.  \<open>Signal_Facts\<close>: nothing
    leaves without verified members, only the operator drives, a stop is final.  \<open>Turn_Loop\<close>: the loop of
    \<open>amplihack-turn\<close> with the driver, composed with the channel; it returns when the stream ends.
  \<^item> \<open>Hive_Crdt\<close>: \<open>crdt/\<close>, the convergence contract as a locale interpreted on every type; the observed-remove set refines the
    history of additions and removals its replica has seen.  \<open>Hive_Ring\<close>,
    \<open>Hive_Ring_Sample\<close>, \<open>Hive_Ring_Facts\<close>, \<open>Hive_Dht\<close>, \<open>Hive_Dht_Facts\<close>: \<open>dht/\<close>, the ring, the shards and the router
    over a placement locale.  \<open>Hive_Bus\<close>: \<open>event_bus.rs\<close>.  \<open>Hive_Graph\<close>, \<open>Hive_Graph_Facts\<close>: \<open>graph/\<close> and
    \<open>fact_lifecycle.rs\<close>.  \<open>Hive_Gossip\<close>: \<open>gossip.rs\<close> and \<open>bloom.rs\<close>, with bit arrays as a locale.
  \<^item> \<open>Remote_Pool\<close>, \<open>Remote_Session\<close>: \<open>vm_pool.rs\<close>, the orchestrator's reuse, \<open>session.rs\<close>; runs of the pool stay
    within the machines' capacity while the orchestrator offers no booked machine.  \<open>Delegation\<close>: \<open>state_machine.rs\<close>.
    \<open>Remote_Repo\<close>: the identity of a repository read from a remote URL, with a reading of URLs it is compared to.
  \<^item> \<open>Hook_Input\<close>, \<open>Hook_Protocol\<close>, \<open>Hook_Protocol_Facts\<close>: the payloads of the hooks, their events, the run of a hook with its
    failure policies and the mapping of Codex calls and answers.  Under Codex the tool guard fails closed, and a refusal of
    the PreToolUse hook is exactly a denial.
  \<^item> \<open>Private_Files\<close>: bounded reads and private writes over a file system in which any call may fail.  \<open>Switch_Toggle\<close>,
    \<open>Switch_Toggle_Facts\<close>: the settings file of auto-switch, its edits, and the tiers of the profiles billed per use.
    \<open>Rotator_Ledger\<close>: the ledger as the hooks read it, and whether the rotator runs.
  \<^item> \<open>Rust_Float\<close>: \<open>f64\<close> as its bits, with rounding, for the rotator's percentages.  \<open>Login_Decide\<close>, \<open>Login_Overflow\<close>: the
    decision, the damping of failed probes, the plan-room choice and the overflow policy.  \<open>Login_Cycle\<close>: candidates,
    the measured decision, the freshness gate, swaps back and what a cycle saves as its outcome, time and capacity.  \<open>Login_Settings\<close>: settings, the recorded
    gate and the record of full logins.  \<open>Login_Facts\<close>, \<open>Login_Overflow_Facts\<close>, \<open>Login_Settles\<close>, \<open>Login_Cycle_Facts\<close>: case
    rules of the policy, that a swap settles, that the gate ends.  \<open>Login_Promises\<close>: the properties with their inputs.
  \<^item> \<open>Resume_Guard\<close>, \<open>Resume_Guard_Facts\<close>: the caps and duplicate checks of automatic resumes, with markers
    kept for seven days.  \<open>Resume_Hook\<close>: the limit-resume
    hook over a record of system operations.  \<open>Resume_Wait\<close>: its promises over any world that keeps the laws of a locale.
    \<open>Resume_Log\<close>: its log.  \<open>Resume_World\<close>: the operations on a machine where other processes act in between, as the
    interpretation of that locale.  \<open>Resume_Runs\<close>: whole runs on that machine.
  \<^item> \<open>Civil_Dates\<close>, \<open>Civil_Dates_Facts\<close>: the five calendars of the repository agree.

  \<^bold>\<open>Bounds and fuel.\<close>  The tmux and tail scans recurse through embedded scripts to a depth of the code's
  \<open>MAX_DEPTH\<close>: the model has one function per level (\<open>scan_at n\<close>, \<open>tail_scan n\<close>), so no fuel is invented, and the
  budget of 256 further parses is threaded as in the code.  Launch wrappers are peeled at most eight times,
  \<open>acquire\<close> makes five attempts, the ring has 64 positions per agent, a mailbox holds a million events, a
  Signal message two thousand bytes, the skill scan reads ten thousand files.  The limit-resume wait is a
  \<open>partial_function\<close>, proved to end within 2245 polls; it resumes at most three times a day; the Codex payload is read up to four
  megabytes.  The freshness gate makes at most two passes for each probe, as in the code, and never meets that cap.  All other
  loops terminate by a measure; \<open>run_session_loop\<close> may not, and is a \<open>partial_function\<close> whose result \<open>None\<close> means it does not
  return.

  \<^bold>\<open>Not modelled.\<close>  Log lines and the texts only logged.  Regular expressions are matched by a parameter; the
  pattern texts are data.  Floating-point scores, search and ranking of the hive graph, and the wire protocol
  of Signal.  Of the rotator: probing a login, the identity of an account, the exchange of the login files with its
  journal, and the daemon, which are calls to the \<open>claude\<close> program, the network and the file system; what the decision needs of
  them is an argument.  The command line, the launcher, the memory backends, the agent core, code indexing and
  the supply-chain audit: files, processes, databases and language-model calls around third-party code.

  \<^bold>\<open>What is left.\<close>  Workflow classification, cascade and the fleet task queue; the hive controller; the state files
  and semaphores; the conflict detector and copy strategy of \<open>amplihack-safety\<close>; the recovery coordinator and
  the reflection state machine; power steering; slugs, backoff and launch targets of \<open>amplihack-utils\<close>.
\<close>

end
